(* ===== verification/Prelude.thy ===== *)
theory Prelude
  imports Complex_Main "HOL-Library.Word" "HOL-Library.Sublist"
begin

text \<open>
  Shared vocabulary of the development.

  A Rust \<^verbatim>\<open>str\<close> or byte slice is a \<^typ>\<open>string\<close>: the list of its UTF-8 bytes, one
  \<^typ>\<open>char\<close> per byte.  This theory holds the parts of the Rust standard library that the
  modelled code calls (\<^verbatim>\<open>split\<close>, \<^verbatim>\<open>trim\<close>, \<^verbatim>\<open>strip_prefix\<close>, \<^verbatim>\<open>parse::<u64>\<close>,
  \<^verbatim>\<open>to_string\<close>, UTF-8 validation, ...) and the lemmas about them that every component uses.
  \<^verbatim>\<open>trim\<close> is the ASCII restriction of Rust's: every modelled caller applies it to text that
  came out of \<^verbatim>\<open>HeaderValue::to_str\<close>, which is visible ASCII.
  \<^verbatim>\<open>usize\<close> is taken to be 64 bits wide.
\<close>

named_theorems std_simps \<open>equations of the modelled standard-library functions\<close>
named_theorems wf_intros \<open>an operation preserves the invariant of its component\<close>

unbundle bit_operations_syntax

subsection \<open>Types\<close>

type_synonym u8 = "8 word"
type_synonym u16 = "16 word"
type_synonym u64 = "64 word"

abbreviation u64_bound :: nat where
  "u64_bound \<equiv> 18446744073709551616"

abbreviation LF :: char where "LF \<equiv> CHR 0x0A"
abbreviation CR :: char where "CR \<equiv> CHR 0x0D"
abbreviation NUL :: char where "NUL \<equiv> CHR 0x00"
abbreviation BACKSLASH :: char where "BACKSLASH \<equiv> CHR 0x5C"
abbreviation DQUOTE :: char where "DQUOTE \<equiv> CHR 0x22"

subsection \<open>Splitting and joining\<close>

text \<open>\<^verbatim>\<open>str::split(c)\<close>: the pieces between occurrences of \<open>c\<close>; never the empty list.\<close>

fun split_on :: "char \<Rightarrow> string \<Rightarrow> string list" where
  "split_on c [] = [[]]"
| "split_on c (x # xs) =
     (if x = c then [] # split_on c xs
      else (case split_on c xs of [] \<Rightarrow> [[x]] | p # ps \<Rightarrow> (x # p) # ps))"

text \<open>\<^verbatim>\<open>[&str]::join(sep)\<close>.\<close>

fun join_with :: "string \<Rightarrow> string list \<Rightarrow> string" where
  "join_with sep [] = []"
| "join_with sep [p] = p"
| "join_with sep (p # q # ps) = p @ sep @ join_with sep (q # ps)"

text \<open>\<^verbatim>\<open>str::split_once(c)\<close>: split at the first occurrence.\<close>

fun split_once :: "char \<Rightarrow> string \<Rightarrow> (string \<times> string) option" where
  "split_once c [] = None"
| "split_once c (x # xs) =
     (if x = c then Some ([], xs)
      else map_option (\<lambda>(a, b). (x # a, b)) (split_once c xs))"

definition strip_prefix :: "string \<Rightarrow> string \<Rightarrow> string option" where
  "strip_prefix p s = (if prefix p s then Some (drop (length p) s) else None)"

abbreviation starts_with :: "string \<Rightarrow> string \<Rightarrow> bool" where
  "starts_with s p \<equiv> prefix p s"

abbreviation ends_with :: "string \<Rightarrow> string \<Rightarrow> bool" where
  "ends_with s p \<equiv> suffix p s"

text \<open>\<^verbatim>\<open>str::contains(pat)\<close> for a string pattern.\<close>

fun contains_str :: "string \<Rightarrow> string \<Rightarrow> bool" where
  "contains_str p [] = (p = [])"
| "contains_str p (x # xs) = (prefix p (x # xs) \<or> contains_str p xs)"

definition trim_start_matches :: "char \<Rightarrow> string \<Rightarrow> string" where
  "trim_start_matches c s = dropWhile (\<lambda>x. x = c) s"

definition trim_end_matches :: "char \<Rightarrow> string \<Rightarrow> string" where
  "trim_end_matches c s = rev (dropWhile (\<lambda>x. x = c) (rev s))"

definition is_ascii_ws :: "char \<Rightarrow> bool" where
  "is_ascii_ws c \<longleftrightarrow> c \<in> {CHR 0x20, CHR 0x09, CHR 0x0A, CHR 0x0B, CHR 0x0C, CHR 0x0D}"

definition trim :: "string \<Rightarrow> string" where
  "trim s = rev (dropWhile is_ascii_ws (rev (dropWhile is_ascii_ws s)))"

subsection \<open>ASCII case\<close>

definition ascii_lower :: "char \<Rightarrow> char" where
  "ascii_lower c = (let n = of_char c :: nat in if 65 \<le> n \<and> n \<le> 90 then char_of (n + 32) else c)"

definition to_ascii_lowercase :: "string \<Rightarrow> string" where
  "to_ascii_lowercase = map ascii_lower"

definition eq_ignore_ascii_case :: "string \<Rightarrow> string \<Rightarrow> bool" where
  "eq_ignore_ascii_case a b \<longleftrightarrow> to_ascii_lowercase a = to_ascii_lowercase b"

subsection \<open>Bytes\<close>

definition byte :: "char \<Rightarrow> u8" where
  "byte c = of_nat (of_char c)"

definition char_of_byte :: "u8 \<Rightarrow> char" where
  "char_of_byte b = char_of (unat b)"

definition is_ascii_digit :: "char \<Rightarrow> bool" where
  "is_ascii_digit c \<longleftrightarrow> 48 \<le> (of_char c :: nat) \<and> (of_char c :: nat) \<le> 57"

definition is_ascii_hexdigit :: "char \<Rightarrow> bool" where
  "is_ascii_hexdigit c \<longleftrightarrow>
     is_ascii_digit c
     \<or> (97 \<le> (of_char c :: nat) \<and> (of_char c :: nat) \<le> 102)
     \<or> (65 \<le> (of_char c :: nat) \<and> (of_char c :: nat) \<le> 70)"

subsection \<open>Decimal integers\<close>

definition digit_val :: "char \<Rightarrow> nat" where
  "digit_val c = of_char c - 48"

text \<open>Value of a digit string, most significant digit first.\<close>

definition digits_val :: "string \<Rightarrow> nat" where
  "digits_val s = foldl (\<lambda>n c. 10 * n + digit_val c) 0 s"

text \<open>
  \<^verbatim>\<open>str::parse::<u64>()\<close>: an optional \<open>+\<close>, then at least one digit and nothing else;
  a value that does not fit 64 bits is an error.
\<close>

definition parse_u64 :: "string \<Rightarrow> nat option" where
  "parse_u64 s =
     (let ds = (case s of c # cs \<Rightarrow> if c = CHR ''+'' then cs else s | [] \<Rightarrow> s)
      in if ds = [] \<or> \<not> list_all is_ascii_digit ds then None
         else if digits_val ds < u64_bound then Some (digits_val ds) else None)"

text \<open>\<^verbatim>\<open>to_string\<close> of an unsigned integer.\<close>

definition digit_char :: "nat \<Rightarrow> char" where
  "digit_char d = char_of (d + 48)"

fun nat_to_string :: "nat \<Rightarrow> string" where
  "nat_to_string n =
     (if n < 10 then [digit_char n] else nat_to_string (n div 10) @ [digit_char (n mod 10)])"

declare nat_to_string.simps [simp del]


subsection \<open>UTF-8\<close>

text \<open>\<^verbatim>\<open>String::from_utf8\<close> succeeds exactly on well-formed UTF-8 (Unicode, table 3-7).\<close>

definition byte_in :: "nat \<Rightarrow> nat \<Rightarrow> char \<Rightarrow> bool" where
  "byte_in lo hi c \<longleftrightarrow> lo \<le> (of_char c :: nat) \<and> (of_char c :: nat) \<le> hi"

fun utf8_valid :: "string \<Rightarrow> bool" where
  "utf8_valid [] = True"
| "utf8_valid (a # s) =
     (if byte_in 0x00 0x7F a then utf8_valid s
      else if byte_in 0xC2 0xDF a then
        (case s of b # s' \<Rightarrow> byte_in 0x80 0xBF b \<and> utf8_valid s' | _ \<Rightarrow> False)
      else if byte_in 0xE0 0xEF a then
        (case s of b # c # s' \<Rightarrow>
           byte_in (if byte_in 0xE0 0xE0 a then 0xA0 else 0x80)
             (if byte_in 0xED 0xED a then 0x9F else 0xBF) b
           \<and> byte_in 0x80 0xBF c \<and> utf8_valid s' | _ \<Rightarrow> False)
      else if byte_in 0xF0 0xF4 a then
        (case s of b # c # d # s' \<Rightarrow>
           byte_in (if byte_in 0xF0 0xF0 a then 0x90 else 0x80)
             (if byte_in 0xF4 0xF4 a then 0x8F else 0xBF) b
           \<and> byte_in 0x80 0xBF c \<and> byte_in 0x80 0xBF d \<and> utf8_valid s' | _ \<Rightarrow> False)
      else False)"

subsection \<open>Lemmas on splitting and joining\<close>

lemma split_on_not_Nil [simp]: "split_on c s \<noteq> []"
  by (induction s) (auto split: list.splits)

lemma join_split_on [simp]: "join_with [c] (split_on c s) = s"
proof (induction s)
  case (Cons x xs)
  obtain p ps where "split_on c xs = p # ps"
    by (cases "split_on c xs") auto
  with Cons show ?case by (cases ps) auto
qed simp

lemma split_on_no_sep: "p \<in> set (split_on c s) \<Longrightarrow> c \<notin> set p"
  by (induction s arbitrary: p) (fastforce split: if_splits list.splits)+

lemma split_on_subset: "p \<in> set (split_on c s) \<Longrightarrow> set p \<subseteq> set s"
proof (induction s arbitrary: p)
  case (Cons x xs)
  then show ?case by (fastforce split: if_splits list.splits)
qed simp

lemma split_on_fresh [simp]: "c \<notin> set s \<Longrightarrow> split_on c s = [s]"
  by (induction s) auto

lemma split_on_append_sep: "c \<notin> set p \<Longrightarrow> split_on c (p @ c # s) = p # split_on c s"
  by (induction p) auto

lemma split_on_join:
  "ps \<noteq> [] \<Longrightarrow> (\<And>p. p \<in> set ps \<Longrightarrow> c \<notin> set p) \<Longrightarrow> split_on c (join_with [c] ps) = ps"
  by (induction "[c]" ps rule: join_with.induct) (simp_all add: split_on_append_sep)

lemma join_with_Nil_iff: "[] \<notin> set ps \<Longrightarrow> join_with sep ps = [] \<longleftrightarrow> ps = []"
  by (induction sep ps rule: join_with.induct) auto

lemma join_with_append:
  "ps \<noteq> [] \<Longrightarrow> qs \<noteq> [] \<Longrightarrow> join_with sep (ps @ qs) = join_with sep ps @ sep @ join_with sep qs"
proof (induction sep ps rule: join_with.induct)
  case (2 sep p)
  then show ?case by (cases qs) simp_all
qed simp_all

lemma join_with_snoc: "ps \<noteq> [] \<Longrightarrow> join_with sep (ps @ [p]) = join_with sep ps @ sep @ p"
  by (simp add: join_with_append)

lemma set_join_with: "set (join_with sep ps) \<subseteq> set sep \<union> \<Union> (set ` set ps)"
  by (induction sep ps rule: join_with.induct) auto

lemma length_join_with:
  "ps \<noteq> [] \<Longrightarrow>
   length (join_with sep ps) = sum_list (map length ps) + (length ps - 1) * length sep"
  by (induction sep ps rule: join_with.induct) auto

lemma length_split_on: "length s = sum_list (map length (split_on c s)) + (length (split_on c s) - 1)"
  using length_join_with [of "split_on c s" "[c]"] by simp

lemma length_split_on_pos [simp]: "0 < length (split_on c s)"
  by (simp add: length_greater_0_conv)

lemma split_once_Some_iff:
  "split_once c s = Some (a, b) \<longleftrightarrow> s = a @ c # b \<and> c \<notin> set a"
proof (induction s arbitrary: a)
  case (Cons x xs)
  then show ?case by (cases a) auto
qed simp

lemma split_once_None_iff: "split_once c s = None \<longleftrightarrow> c \<notin> set s"
  by (induction s) auto

lemma strip_prefix_Some_iff: "strip_prefix p s = Some r \<longleftrightarrow> s = p @ r"
  by (auto simp: strip_prefix_def prefix_def)

lemma strip_prefix_None_iff: "strip_prefix p s = None \<longleftrightarrow> \<not> prefix p s"
  by (simp add: strip_prefix_def)

lemma strip_prefix_append [simp]: "strip_prefix p (p @ r) = Some r"
  by (simp add: strip_prefix_Some_iff)

lemma strip_prefix_self [simp]: "strip_prefix p p = Some []"
  by (simp add: strip_prefix_Some_iff)

lemma set_dropWhile_subset: "set (dropWhile P s) \<subseteq> set s"
  by (meson set_dropWhileD subsetI)

lemma set_trim: "set (trim s) \<subseteq> set s"
  using set_dropWhile_subset [of is_ascii_ws "rev (dropWhile is_ascii_ws s)"]
    set_dropWhile_subset [of is_ascii_ws s]
  by (auto simp: trim_def)

lemma trim_end_matches_no_suffix: "\<not> suffix [c] (trim_end_matches c s)"
proof
  assume "suffix [c] (trim_end_matches c s)"
  then obtain zs where "dropWhile (\<lambda>x. x = c) (rev s) = c # zs"
    unfolding trim_end_matches_def suffix_def by (metis append_Cons append_Nil rev_append rev_rev_ident rev_singleton_conv)
  then show False by (simp add: dropWhile_eq_Cons_conv)
qed

lemma trim_end_matches_decomp: "\<exists>k. s = trim_end_matches c s @ replicate k c"
proof -
  have "rev s = takeWhile (\<lambda>x. x = c) (rev s) @ dropWhile (\<lambda>x. x = c) (rev s)" by simp
  then have "s = trim_end_matches c s @ rev (takeWhile (\<lambda>x. x = c) (rev s))"
    unfolding trim_end_matches_def by (metis rev_append rev_rev_ident)
  moreover have "takeWhile (\<lambda>x. x = c) (rev s) = replicate (length (takeWhile (\<lambda>x. x = c) (rev s))) c"
    by (rule replicate_length_same [symmetric]) (auto dest: set_takeWhileD)
  ultimately show ?thesis by (metis rev_replicate)
qed

lemma trim_end_matches_id: "\<not> suffix [c] s \<Longrightarrow> trim_end_matches c s = s"
  unfolding trim_end_matches_def
  by (cases s rule: rev_cases) (auto simp: suffix_def)

lemma find_Some_split:
  "find P xs = Some x \<Longrightarrow> \<exists>pre post. xs = pre @ x # post \<and> P x \<and> list_all (\<lambda>y. \<not> P y) pre"
proof (induction xs)
  case (Cons y ys)
  show ?case
  proof (cases "P y")
    case True
    with Cons.prems show ?thesis by (intro exI [of _ "[]"] exI [of _ ys]) simp
  next
    case False
    with Cons obtain pre post where "ys = pre @ x # post" "P x" "list_all (\<lambda>y. \<not> P y) pre" by auto
    with False show ?thesis by (intro exI [of _ "y # pre"] exI [of _ post]) simp
  qed
qed simp

subsection \<open>Lemmas on bytes and integers\<close>

lemma of_char_less_256: "(of_char c :: nat) < 256"
  by simp

lemma unat_byte [simp]: "unat (byte c) = of_char c"
  by (simp add: byte_def unat_of_nat)

lemma char_of_byte_byte [simp]: "char_of_byte (byte c) = c"
  by (simp add: char_of_byte_def)

lemma byte_char_of_byte [simp]: "byte (char_of_byte b) = b"
proof -
  have "unat b < 2 ^ LENGTH(8)" by (rule unsigned_less)
  then show ?thesis by (simp add: byte_def char_of_byte_def of_char_of)
qed

lemma byte_inject [simp]: "byte a = byte b \<longleftrightarrow> a = b"
  by (metis char_of_byte_byte)

lemma digit_char_props:
  assumes "d < 10"
  shows "is_ascii_digit (digit_char d)" and "digit_val (digit_char d) = d"
  using assms by (simp_all add: digit_char_def is_ascii_digit_def digit_val_def of_char_of)

lemma nat_to_string_not_Nil [simp]: "nat_to_string n \<noteq> []"
  by (subst nat_to_string.simps) simp

lemma nat_to_string_digits: "list_all is_ascii_digit (nat_to_string n)"
proof (induction n rule: nat_to_string.induct)
  case (1 n)
  then show ?case
    by (subst nat_to_string.simps) (simp add: digit_char_props)
qed

lemma digits_val_snoc: "digits_val (s @ [c]) = 10 * digits_val s + digit_val c"
  by (simp add: digits_val_def)

lemma digits_val_to_string [simp]: "digits_val (nat_to_string n) = n"
proof (induction n rule: nat_to_string.induct)
  case (1 n)
  show ?case
  proof (cases "n < 10")
    case True
    then show ?thesis by (simp add: nat_to_string.simps [of n] digits_val_def digit_char_props)
  next
    case False
    with 1 show ?thesis
      by (simp add: nat_to_string.simps [of n] digits_val_snoc digit_char_props)
  qed
qed

lemma digit_not_plus: "is_ascii_digit c \<Longrightarrow> c \<noteq> CHR ''+''"
  by (auto simp: is_ascii_digit_def)

lemma parse_u64_digits:
  assumes "ds \<noteq> []" and "list_all is_ascii_digit ds"
  shows "parse_u64 ds = (if digits_val ds < u64_bound then Some (digits_val ds) else None)"
proof -
  obtain c cs where ds: "ds = c # cs" using assms(1) by (cases ds) auto
  with assms(2) have "c \<noteq> CHR ''+''" by (auto dest: digit_not_plus)
  with ds have "(case ds of c # cs \<Rightarrow> if c = CHR ''+'' then cs else ds | [] \<Rightarrow> ds) = ds" by simp
  with assms show ?thesis by (simp add: parse_u64_def Let_def)
qed

lemma parse_u64_to_string: "n < u64_bound \<Longrightarrow> parse_u64 (nat_to_string n) = Some n"
  by (simp add: parse_u64_digits nat_to_string_digits)

lemma parse_u64_bound: "parse_u64 s = Some n \<Longrightarrow> n < u64_bound"
  by (auto simp: parse_u64_def Let_def split: if_splits)

lemma length_nat_to_string_le: "n < 10 ^ k \<Longrightarrow> 0 < k \<Longrightarrow> length (nat_to_string n) \<le> k"
proof (induction n arbitrary: k rule: nat_to_string.induct)
  case (1 n)
  show ?case
  proof (cases "n < 10")
    case True
    with 1 show ?thesis by (subst nat_to_string.simps) simp
  next
    case False
    have "k \<noteq> 1" using 1(2) False by auto
    with 1(3) obtain j where k: "k = Suc j" "0 < j"
      by (cases k) auto
    with 1(2) have "n div 10 < 10 ^ j" by (simp add: less_mult_imp_div_less mult.commute)
    with 1(1) False k show ?thesis
      by (subst nat_to_string.simps) simp
  qed
qed

end
