(* ===== verification/Http.thy ===== *)
theory Http
  imports Prelude
begin

text \<open>
  The HTTP vocabulary every component shares: methods, URIs, requests, responses, bodies,
  services, and the framework's own \<^verbatim>\<open>ResponseBuilder\<close> (arvik-core/src/response.rs).

  Header maps and header values belong to the \<^verbatim>\<open>http\<close> crate, which is not part of this
  repository.  They are a parameter \<open>H\<close> of every definition that touches them: a record of
  the operations the code calls, on an abstract type of header maps.  The locale
  \<open>header_map\<close> states the documented behaviour of those operations; its lemmas are proved
  from these laws alone.  \<open>alist_lib\<close> is an instance (headers as an association list in
  order of arrival) on which the laws hold and on which everything evaluates.

  Handlers, tower services and application code are functions of type \<open>service\<close>: they
  take a request and the state of the outside world and return an outcome (a response, or
  the panic that unwound the call) and the new world.  A theorem that a layer returns the world unchanged says that the inner service
  was not called.
\<close>

subsection \<open>Methods, URIs and requests\<close>

datatype http_method =
    Get | Post | Put | Delete | Patch | Head | Options | Trace | Connect | ExtMethod string

fun method_as_str :: "http_method \<Rightarrow> string" where
  "method_as_str Get = ''GET''"
| "method_as_str Post = ''POST''"
| "method_as_str Put = ''PUT''"
| "method_as_str Delete = ''DELETE''"
| "method_as_str Patch = ''PATCH''"
| "method_as_str Head = ''HEAD''"
| "method_as_str Options = ''OPTIONS''"
| "method_as_str Trace = ''TRACE''"
| "method_as_str Connect = ''CONNECT''"
| "method_as_str (ExtMethod s) = s"

record uri =
  uri_origin :: string \<comment> \<open>scheme and authority, never inspected\<close>
  uri_path :: string
  uri_query :: "string option"

datatype body_error = BodyTooLarge | OtherError string

datatype frame = Data string | Trailers | FrameErr body_error

text \<open>
  The variants of \<^verbatim>\<open>BodyKind\<close> (arvik-core/src/body.rs).  A boxed body is the sequence of
  frames it will yield, with the upper bound its \<^verbatim>\<open>size_hint\<close> reports.
\<close>

datatype body =
    BEmpty
  | BFull string
  | BChunks (chunk_list: "string list") (chunk_remaining: nat)
  | BBoxed "frame list" "nat option"

text \<open>Request and response extensions: at most one value per type, as in the http crate.\<close>

record extensions =
  ext_path_params :: "(string \<times> string) list option"
  ext_matched_path :: "string option"
  ext_original_uri :: "uri option"
  ext_body_limit :: "nat option"
  ext_csrf :: "string option"
  ext_peer_ip :: "string option"
  ext_request_id :: "string option"
  ext_sensitive :: "string list option"
  ext_string :: "string option"

definition no_extensions :: extensions where
  "no_extensions = \<lparr>ext_path_params = None, ext_matched_path = None, ext_original_uri = None,
     ext_body_limit = None, ext_csrf = None, ext_peer_ip = None,
     ext_request_id = None, ext_sensitive = None, ext_string = None\<rparr>"

record 'h request =
  req_method :: http_method
  req_uri :: uri
  req_headers :: 'h
  req_ext :: extensions
  req_body :: body

record 'h response =
  res_status :: nat
  res_headers :: 'h
  res_ext :: extensions
  res_body :: body

text \<open>A service call ends with a response or unwinds with a panic.\<close>

datatype 'h outcome = Done "'h response" | Panicked string

type_synonym ('h, 'w) service = "'h request \<Rightarrow> 'w \<Rightarrow> 'h outcome \<times> 'w"
type_synonym ('h, 'w) layer = "('h, 'w) service \<Rightarrow> ('h, 'w) service"

text \<open>Continue with the response of a call that did not panic.\<close>

definition then_response :: "('h response \<Rightarrow> 'h response) \<Rightarrow> 'h outcome \<times> 'w \<Rightarrow> 'h outcome \<times> 'w" where
  "then_response f r = (case fst r of Done resp \<Rightarrow> (Done (f resp), snd r) | Panicked m \<Rightarrow> r)"

lemma then_response_simps [simp]:
  "then_response f (Done resp, w) = (Done (f resp), w)"
  "then_response f (Panicked m, w) = (Panicked m, w)"
  by (simp_all add: then_response_def)

subsection \<open>The header library\<close>

record 'h http_lib =
  hm_new :: 'h
  hm_get_all :: "'h \<Rightarrow> string \<Rightarrow> string list"
  hm_get :: "'h \<Rightarrow> string \<Rightarrow> string option"
  hm_contains_key :: "'h \<Rightarrow> string \<Rightarrow> bool"
  hm_insert :: "'h \<Rightarrow> string \<Rightarrow> string \<Rightarrow> 'h"
  hm_append :: "'h \<Rightarrow> string \<Rightarrow> string \<Rightarrow> 'h"
  hm_remove :: "'h \<Rightarrow> string \<Rightarrow> 'h"
  hm_into_iter :: "'h \<Rightarrow> (string option \<times> string) list"
  hv_to_str :: "string \<Rightarrow> string option"
  hv_from_str :: "string \<Rightarrow> string option"

text \<open>The characters \<^verbatim>\<open>HeaderValue::from_str\<close> and \<^verbatim>\<open>to_str\<close> accept.\<close>

definition header_visible :: "char \<Rightarrow> bool" where
  "header_visible c \<longleftrightarrow> (32 \<le> (of_char c :: nat) \<and> (of_char c :: nat) < 127) \<or> c = CHR 0x09"

lemma nat_to_string_visible: "list_all header_visible (nat_to_string n)"
proof (induction n rule: nat_to_string.induct)
  case (1 n)
  have "header_visible (digit_char d)" if "d < 10" for d
  proof -
    have "d \<in> {0, 1, 2, 3, 4, 5, 6, 7, 8, 9}" using that by auto
    then show ?thesis by (auto simp: digit_char_def header_visible_def)
  qed
  with 1 show ?case by (simp add: nat_to_string.simps [of n])
qed

text \<open>
  \<^verbatim>\<open>HeaderMap::into_iter\<close> yields the name with the first value of each header and
  \<^verbatim>\<open>None\<close> with every further value of the same header.
\<close>

fun iter_group :: "string \<Rightarrow> string list \<Rightarrow> (string option \<times> string) list" where
  "iter_group n [] = []"
| "iter_group n (v # vs) = (Some n, v) # map (Pair None) vs"

locale header_map =
  fixes H :: "'h http_lib"
  assumes get_all_new: "hm_get_all H (hm_new H) n = []"
    and get_all_insert: "hm_get_all H (hm_insert H h n v) m = (if m = n then [v] else hm_get_all H h m)"
    and get_all_append:
      "hm_get_all H (hm_append H h n v) m =
         (if m = n then hm_get_all H h m @ [v] else hm_get_all H h m)"
    and get_all_remove: "hm_get_all H (hm_remove H h n) m = (if m = n then [] else hm_get_all H h m)"
    and get_first: "hm_get H h n = (case hm_get_all H h n of [] \<Rightarrow> None | v # _ \<Rightarrow> Some v)"
    and contains_key: "hm_contains_key H h n \<longleftrightarrow> hm_get_all H h n \<noteq> []"
    and into_iter:
      "\<exists>ns. distinct ns \<and> set ns = {n. hm_get_all H h n \<noteq> []}
         \<and> hm_into_iter H h = concat (map (\<lambda>n. iter_group n (hm_get_all H h n)) ns)"
    and to_str: "hv_to_str H v = (if list_all header_visible v then Some v else None)"
    and from_str: "list_all header_visible s \<Longrightarrow> hv_from_str H s = Some s"
    and from_str_id: "hv_from_str H s = Some v \<Longrightarrow> v = s"
begin

lemmas get_all_simps = get_all_new get_all_insert get_all_append get_all_remove

lemma get_insert: "hm_get H (hm_insert H h n v) m = (if m = n then Some v else hm_get H h m)"
  by (simp add: get_first get_all_insert)

lemma get_append:
  "hm_get H (hm_append H h n v) m =
     (if m = n \<and> \<not> hm_contains_key H h n then Some v else hm_get H h m)"
  by (auto simp: get_first get_all_append contains_key split: list.splits)

lemma get_None_iff: "hm_get H h n = None \<longleftrightarrow> hm_get_all H h n = []"
  by (simp add: get_first split: list.splits)

lemma to_str_id: "hv_to_str H v = Some s \<Longrightarrow> s = v"
  by (simp add: to_str split: if_splits)

end

subsection \<open>An instance: headers as an association list\<close>

type_synonym alist_headers = "(string \<times> string) list"

definition alist_get_all :: "alist_headers \<Rightarrow> string \<Rightarrow> string list" where
  "alist_get_all h n = map snd (filter (\<lambda>p. fst p = n) h)"

definition alist_lib :: "alist_headers http_lib" where
  "alist_lib = \<lparr>
     hm_new = [],
     hm_get_all = alist_get_all,
     hm_get = map_of,
     hm_contains_key = (\<lambda>h n. n \<in> set (map fst h)),
     hm_insert = (\<lambda>h n v. filter (\<lambda>p. fst p \<noteq> n) h @ [(n, v)]),
     hm_append = (\<lambda>h n v. h @ [(n, v)]),
     hm_remove = (\<lambda>h n. filter (\<lambda>p. fst p \<noteq> n) h),
     hm_into_iter = (\<lambda>h. concat (map (\<lambda>n. iter_group n (alist_get_all h n)) (remdups (map fst h)))),
     hv_to_str = (\<lambda>v. if list_all header_visible v then Some v else None),
     hv_from_str = (\<lambda>s. if list_all header_visible s then Some s else None)\<rparr>"

lemma alist_sel:
  "hm_new alist_lib = []" "hm_get_all alist_lib = alist_get_all" "hm_get alist_lib = map_of"
  "hm_contains_key alist_lib = (\<lambda>h n. n \<in> set (map fst h))"
  "hv_to_str alist_lib = (\<lambda>v. if list_all header_visible v then Some v else None)"
  "hv_from_str alist_lib = (\<lambda>s. if list_all header_visible s then Some s else None)"
  by (simp_all add: alist_lib_def)

lemma alist_get_all_Nil_iff: "alist_get_all h n = [] \<longleftrightarrow> n \<notin> set (map fst h)"
  by (auto simp: alist_get_all_def filter_empty_conv)

lemma alist_get_first: "map_of h n = (case alist_get_all h n of [] \<Rightarrow> None | v # _ \<Rightarrow> Some v)"
  by (induction h) (auto simp: alist_get_all_def)

lemma alist_get_all_simps:
  "alist_get_all [] n = []"
  "alist_get_all (h @ [(n, v)]) m = (if m = n then alist_get_all h m @ [v] else alist_get_all h m)"
  "alist_get_all (filter (\<lambda>p. fst p \<noteq> n) h) m = (if m = n then [] else alist_get_all h m)"
  by (auto simp: alist_get_all_def filter_empty_conv conj_commute
      intro!: arg_cong [where f = "map snd"] filter_cong)

lemma alist_into_iter:
  "distinct (remdups (map fst h)) \<and> set (remdups (map fst h)) = {n. alist_get_all h n \<noteq> []}"
  by (auto simp: alist_get_all_Nil_iff)

interpretation alist: header_map alist_lib
proof unfold_locales
  fix h :: alist_headers
  show "\<exists>ns. distinct ns \<and> set ns = {n. hm_get_all alist_lib h n \<noteq> []}
      \<and> hm_into_iter alist_lib h = concat (map (\<lambda>n. iter_group n (hm_get_all alist_lib h n)) ns)"
    using alist_into_iter [of h]
    by (intro exI [of _ "remdups (map fst h)"]) (simp add: alist_lib_def)
qed (auto simp: alist_lib_def alist_get_first alist_get_all_Nil_iff alist_get_all_simps
      split: if_splits)

lemmas alist_header_map = alist.header_map_axioms

subsection \<open>Building responses\<close>

text \<open>
  \<^verbatim>\<open>ResponseBuilder\<close>: the status and the header map under construction.  The map is
  \<open>None\<close> after a name or value that does not convert, which the inner builder remembers
  until \<^verbatim>\<open>body\<close> reports it.  \<^verbatim>\<open>header\<close> appends, as \<^verbatim>\<open>http::response::Builder::header\<close>
  documents.  \<open>rb_header\<close> is the call with a \<^verbatim>\<open>HeaderValue\<close>, \<open>rb_header_str\<close> the one with
  a string that is converted first.
\<close>

record 'h response_builder =
  rb_status :: nat
  rb_headers :: "'h option"

definition rb_new :: "'h http_lib \<Rightarrow> 'h response_builder" where
  "rb_new H = \<lparr>rb_status = 200, rb_headers = Some (hm_new H)\<rparr>"

definition rb_with_status :: "nat \<Rightarrow> 'h response_builder \<Rightarrow> 'h response_builder" where
  "rb_with_status s b = b\<lparr>rb_status := s\<rparr>"

definition rb_header :: "'h http_lib \<Rightarrow> string \<Rightarrow> string \<Rightarrow> 'h response_builder \<Rightarrow> 'h response_builder" where
  "rb_header H n v b = b\<lparr>rb_headers := map_option (\<lambda>h. hm_append H h n v) (rb_headers b)\<rparr>"

definition rb_header_str :: "'h http_lib \<Rightarrow> string \<Rightarrow> string \<Rightarrow> 'h response_builder \<Rightarrow> 'h response_builder" where
  "rb_header_str H n s b =
     (case hv_from_str H s of
        Some v \<Rightarrow> rb_header H n v b
      | None \<Rightarrow> b\<lparr>rb_headers := None\<rparr>)"

definition internal_error_response :: "'h http_lib \<Rightarrow> 'h response" where
  "internal_error_response H =
     \<lparr>res_status = 500,
      res_headers = hm_append H (hm_new H) ''content-type'' ''text/plain; charset=utf-8'',
      res_ext = no_extensions, res_body = BFull ''Internal Server Error''\<rparr>"

definition rb_body :: "'h http_lib \<Rightarrow> body \<Rightarrow> 'h response_builder \<Rightarrow> 'h response" where
  "rb_body H bd b =
     (case rb_headers b of
        Some h \<Rightarrow> \<lparr>res_status = rb_status b, res_headers = h, res_ext = no_extensions, res_body = bd\<rparr>
      | None \<Rightarrow> internal_error_response H)"

text \<open>\<^verbatim>\<open>http::Response::builder()...body(b).unwrap()\<close>: the middleware use the bare builder and panic
  where the framework's own builder answers 500.\<close>

definition builder_unwrap :: "body \<Rightarrow> 'h response_builder \<Rightarrow> 'h outcome" where
  "builder_unwrap bd b =
     (case rb_headers b of
        Some h \<Rightarrow> Done \<lparr>res_status = rb_status b, res_headers = h, res_ext = no_extensions, res_body = bd\<rparr>
      | None \<Rightarrow> Panicked ''called `Result::unwrap()` on an `Err` value'')"

definition rb_empty :: "'h http_lib \<Rightarrow> 'h response_builder \<Rightarrow> 'h response" where
  "rb_empty H b = rb_body H BEmpty b"

text \<open>\<^verbatim>\<open>text\<close> and \<^verbatim>\<open>text_static\<close> build the same response from an owned or a static string.\<close>

definition rb_text :: "'h http_lib \<Rightarrow> string \<Rightarrow> 'h response_builder \<Rightarrow> 'h response" where
  "rb_text H t b = rb_body H (BFull t) (rb_header H ''content-type'' ''text/plain; charset=utf-8'' b)"

definition rb_html :: "'h http_lib \<Rightarrow> string \<Rightarrow> 'h response_builder \<Rightarrow> 'h response" where
  "rb_html H t b = rb_body H (BFull t) (rb_header H ''content-type'' ''text/html; charset=utf-8'' b)"

text \<open>\<^verbatim>\<open>json\<close>: \<open>ser\<close> is \<^verbatim>\<open>serde_json::to_writer\<close> on the value, \<open>None\<close> when it fails.\<close>

definition rb_json :: "'h http_lib \<Rightarrow> ('a \<Rightarrow> string option) \<Rightarrow> 'a \<Rightarrow> 'h response_builder \<Rightarrow> 'h response" where
  "rb_json H ser d b =
     (case ser d of
        None \<Rightarrow>
          rb_body H (BFull ''{\"error\":\"Internal Server Error\",\"code\":500}'')
            (rb_header_str H ''content-type'' ''application/json'' (rb_with_status 500 (rb_new H)))
      | Some j \<Rightarrow> rb_body H (BFull j) (rb_header_str H ''content-type'' ''application/json'' b))"

text \<open>\<^verbatim>\<open>Redirect::to\<close>, \<^verbatim>\<open>permanent\<close> and \<^verbatim>\<open>temporary\<close>.\<close>

definition redirect_with :: "'h http_lib \<Rightarrow> nat \<Rightarrow> string \<Rightarrow> 'h response" where
  "redirect_with H s u = rb_empty H (rb_header_str H ''location'' u (rb_with_status s (rb_new H)))"

definition redirect_to :: "'h http_lib \<Rightarrow> string \<Rightarrow> 'h response" where
  "redirect_to H u = redirect_with H 303 u"

definition redirect_permanent :: "'h http_lib \<Rightarrow> string \<Rightarrow> 'h response" where
  "redirect_permanent H u = redirect_with H 301 u"

definition redirect_temporary :: "'h http_lib \<Rightarrow> string \<Rightarrow> 'h response" where
  "redirect_temporary H u = redirect_with H 307 u"

lemmas rb_defs = rb_new_def rb_with_status_def rb_header_def rb_header_str_def rb_body_def
  rb_empty_def rb_text_def rb_html_def builder_unwrap_def


subsection \<open>Sample values\<close>

text \<open>Concrete requests, responses and services on which the theorems are instantiated.\<close>

definition sample_uri :: "string \<Rightarrow> uri" where
  "sample_uri p = \<lparr>uri_origin = [], uri_path = p, uri_query = None\<rparr>"

definition sample_request :: "http_method \<Rightarrow> string \<Rightarrow> alist_headers \<Rightarrow> alist_headers request" where
  "sample_request m p h = \<lparr>req_method = m, req_uri = sample_uri p, req_headers = h,
     req_ext = no_extensions, req_body = BEmpty\<rparr>"

definition sample_response :: "nat \<Rightarrow> alist_headers \<Rightarrow> string \<Rightarrow> alist_headers response" where
  "sample_response st h b = \<lparr>res_status = st, res_headers = h, res_ext = no_extensions,
     res_body = BFull b\<rparr>"

text \<open>A service that counts its calls in the world.\<close>

definition counting_service :: "(alist_headers, nat) service" where
  "counting_service req w = (Done (sample_response 200 [] (uri_path (req_uri req))), Suc w)"

lemmas sample_defs = sample_uri_def sample_request_def sample_response_def counting_service_def

end
