(* ===== verification/Paths.thy ===== *)
theory Paths
  imports Http
begin

text \<open>
  Path handling of the router: percent-decoding of captured parameters and prefix
  normalisation (arvik-router/src/router.rs), captured parameters (params.rs) and prefix
  stripping for mounted services (service.rs).

  \<^verbatim>\<open>http::Uri\<close> belongs to the http crate; rebuilding a URI with a new path and query is the
  parameter \<open>with_pq\<close>, whose documented behaviour is the locale \<open>uri_lib\<close>.
\<close>

subsection \<open>Percent-decoding\<close>

definition hex_nibble :: "u8 \<Rightarrow> u8 option" where
  "hex_nibble b =
     (if 0x30 \<le> b \<and> b \<le> 0x39 then Some (b - 0x30)
      else if 0x61 \<le> b \<and> b \<le> 0x66 then Some (b - 0x61 + 10)
      else if 0x41 \<le> b \<and> b \<le> 0x46 then Some (b - 0x41 + 10)
      else None)"

text \<open>The bytes whose escapes are kept: \<open>/\<close>, \<open>\\<close>, NUL, LF and CR.\<close>

definition kept_escaped :: "char \<Rightarrow> bool" where
  "kept_escaped c \<longleftrightarrow> c \<in> {CHR ''/'', BACKSLASH, NUL, LF, CR}"

text \<open>The byte two hex digits stand for, \<^verbatim>\<open>hi << 4 | lo\<close>.\<close>

definition hex_pair :: "char \<Rightarrow> char \<Rightarrow> char option" where
  "hex_pair h l =
     (case (hex_nibble (byte h), hex_nibble (byte l)) of
        (Some hi, Some lo) \<Rightarrow> Some (char_of_byte (push_bit 4 hi OR lo))
      | _ \<Rightarrow> None)"

text \<open>The \<open>while\<close> loop; an escape needs two more bytes (\<^verbatim>\<open>i + 2 < bytes.len()\<close>).\<close>

fun percent_decode_loop :: "string \<Rightarrow> string" where
  "percent_decode_loop (c # h # l # rest) =
     (if c = CHR ''%''
      then (case hex_pair h l of
              Some d \<Rightarrow> (if kept_escaped d then [c, h, l] @ percent_decode_loop rest
                         else d # percent_decode_loop rest)
            | None \<Rightarrow> c # percent_decode_loop (h # l # rest))
      else c # percent_decode_loop (h # l # rest))"
| "percent_decode_loop (c # cs) = c # percent_decode_loop cs"
| "percent_decode_loop [] = []"

definition percent_decode :: "string \<Rightarrow> string" where
  "percent_decode input =
     (if CHR ''%'' \<notin> set input then input
      else (let out = percent_decode_loop input in if utf8_valid out then out else input))"

subsection \<open>Captured parameters\<close>

type_synonym path_params = "(string \<times> string) list"

definition pp_new :: path_params where "pp_new = []"

definition pp_push :: "path_params \<Rightarrow> string \<Rightarrow> string \<Rightarrow> path_params" where
  "pp_push pp k v = pp @ [(k, v)]"

definition pp_get :: "path_params \<Rightarrow> string \<Rightarrow> string option" where
  "pp_get pp key = map_option snd (find (\<lambda>(k, _). k = key) pp)"

definition pp_len :: "path_params \<Rightarrow> nat" where
  "pp_len pp = length pp"

subsection \<open>Mount prefixes\<close>

definition normalize_service_prefix :: "string \<Rightarrow> string" where
  "normalize_service_prefix pre =
     (let trimmed = trim_end_matches (CHR ''/'') pre
      in if trimmed = [] then ''/''
         else if starts_with trimmed ''/'' then trimmed
         else ''/'' @ trimmed)"

definition stripped_path :: "string \<Rightarrow> string \<Rightarrow> string option" where
  "stripped_path pre path =
     (if pre = ''/'' \<or> \<not> starts_with path pre then None
      else if path = pre \<or> (length path = length pre + 1 \<and> starts_with path pre \<and> ends_with path ''/'')
      then Some ''/''
      else (case strip_prefix pre path of
              Some rest \<Rightarrow> if starts_with rest ''/'' then Some rest else None
            | None \<Rightarrow> None))"

definition strip_uri_prefix :: "(uri \<Rightarrow> string \<Rightarrow> uri option) \<Rightarrow> uri \<Rightarrow> string \<Rightarrow> uri option" where
  "strip_uri_prefix with_pq u pre =
     (case stripped_path pre (uri_path u) of
        None \<Rightarrow> None
      | Some sp \<Rightarrow>
          with_pq u (sp @ (case uri_query u of Some q \<Rightarrow> ''?'' @ q | None \<Rightarrow> [])))"

text \<open>\<^verbatim>\<open>StripPrefixService::call\<close>.\<close>

definition strip_prefix_call :: "(uri \<Rightarrow> string \<Rightarrow> uri option) \<Rightarrow> string \<Rightarrow> ('h, 'w) service
    \<Rightarrow> ('h, 'w) service" where
  "strip_prefix_call with_pq pre inner req w =
     (let original_uri = req_uri req;
          req1 = (case ext_original_uri (req_ext req) of
                    None \<Rightarrow> req\<lparr>req_ext := (req_ext req)\<lparr>ext_original_uri := Some original_uri\<rparr>\<rparr>
                  | Some _ \<Rightarrow> req);
          req2 = (case strip_uri_prefix with_pq original_uri pre of
                    Some u \<Rightarrow> req1\<lparr>req_uri := u\<rparr>
                  | None \<Rightarrow> req1)
      in inner req2 w)"

subsection \<open>Lemmas: decoding\<close>

lemma hex_nibble_digit: "hex_nibble (byte c) \<noteq> None \<Longrightarrow> is_ascii_hexdigit c"
  by (auto simp: hex_nibble_def is_ascii_hexdigit_def is_ascii_digit_def word_le_nat_alt
      split: if_splits)

lemma hexdigit_not_kept: "is_ascii_hexdigit c \<Longrightarrow> \<not> kept_escaped c \<and> c \<noteq> CHR ''%''"
  by (auto simp: is_ascii_hexdigit_def is_ascii_digit_def kept_escaped_def)

lemma hex_pair_not_kept: "hex_pair h l = Some d \<Longrightarrow> \<not> kept_escaped h \<and> \<not> kept_escaped l"
  using hex_nibble_digit [of h] hex_nibble_digit [of l] hexdigit_not_kept
  by (auto simp: hex_pair_def split: option.splits)

lemma filter_kept_decode_loop:
  "filter kept_escaped (percent_decode_loop s) = filter kept_escaped s"
proof (induction s rule: percent_decode_loop.induct)
  case (1 c h l rest)
  have "\<not> kept_escaped (CHR ''%'')" by (simp add: kept_escaped_def)
  with 1 show ?case
    using hex_pair_not_kept [of h l] by (cases "hex_pair h l") auto
qed simp_all

text \<open>The escaped form of a byte string: every byte as \<open>%XX\<close>.\<close>

definition hex_digit :: "u8 \<Rightarrow> char" where
  "hex_digit n = char_of_byte (if n < 10 then n + 0x30 else n - 10 + 0x41)"

definition percent_encode :: "string \<Rightarrow> string" where
  "percent_encode s =
     concat (map (\<lambda>c. [CHR ''%'', hex_digit (drop_bit 4 (byte c)), hex_digit (byte c AND 15)]) s)"

lemma hex_nibble_hex_digit:
  assumes "n < 16"
  shows "hex_nibble (byte (hex_digit n)) = Some n"
proof -
  have "unat n < 16" using assms by (simp add: word_less_nat_alt)
  then show ?thesis
    using assms
    by (auto simp: hex_nibble_def hex_digit_def word_le_nat_alt word_less_nat_alt
        unat_word_ariths unat_sub_if' word_unat_eq_iff)
qed

lemma nibbles_less: "drop_bit 4 (b :: u8) < 16" "b AND (15 :: u8) < 16"
proof -
  have "unat (drop_bit 4 b) = unat b div 16" by (simp add: drop_bit_eq_div unat_div)
  moreover have "unat b < 2 ^ LENGTH(8)" by (rule unsigned_less)
  ultimately have "unat (drop_bit 4 b) < 16" by simp
  then show "drop_bit 4 b < 16" by (simp add: word_less_nat_alt)
  have "unat (b AND 15) = unat b mod 16"
    using take_bit_eq_mask [of 4 "unat b"] by (simp add: unsigned_and_eq mask_eq_exp_minus_1 take_bit_eq_mod)
  then show "b AND 15 < 16" by (simp add: word_less_nat_alt)
qed

lemma nibbles_join: "push_bit 4 (drop_bit 4 b) OR (b AND 15) = (b :: u8)"
proof (rule bit_eqI)
  fix n assume "possible_bit TYPE(u8) n"
  have "bit (15 :: u8) n \<longleftrightarrow> n < 4"
    using bit_mask_iff [of 4 n, where 'a = u8] \<open>possible_bit TYPE(u8) n\<close>
    by (simp add: mask_eq_exp_minus_1)
  then show "bit (push_bit 4 (drop_bit 4 b) OR (b AND 15)) n \<longleftrightarrow> bit b n"
    using \<open>possible_bit TYPE(u8) n\<close>
    by (auto simp: bit_or_iff bit_and_iff bit_push_bit_iff bit_drop_bit_eq possible_bit_def)
qed

lemma decode_loop_encode:
  assumes "list_all (\<lambda>c. \<not> kept_escaped c) s"
  shows "percent_decode_loop (percent_encode s) = s"
  using assms
proof (induction s)
  case (Cons c cs)
  then show ?case
    by (simp add: percent_encode_def hex_pair_def hex_nibble_hex_digit nibbles_less nibbles_join)
qed (simp add: percent_encode_def)


subsection \<open>Lemmas: prefixes\<close>

text \<open>What stripping a mount prefix means: a match ends at a segment boundary.\<close>

definition mount_rest :: "string \<Rightarrow> string \<Rightarrow> string option" where
  "mount_rest pre path =
     (case strip_prefix pre path of
        None \<Rightarrow> None
      | Some [] \<Rightarrow> Some ''/''
      | Some (c # cs) \<Rightarrow> if c = CHR ''/'' then Some (c # cs) else None)"

lemma stripped_path_mount_rest: "pre \<noteq> ''/'' \<Longrightarrow> stripped_path pre path = mount_rest pre path"
proof (cases "strip_prefix pre path")
  case None
  then show ?thesis
    by (auto simp: stripped_path_def mount_rest_def strip_prefix_def split: if_splits)
next
  case (Some rest)
  assume "pre \<noteq> ''/''"
  with Some show ?thesis
    by (cases rest)
      (auto simp: stripped_path_def mount_rest_def strip_prefix_Some_iff suffix_def append_eq_Cons_conv
        append_eq_append_conv2)
qed

lemma mount_rest_Some:
  "mount_rest pre path = Some r \<Longrightarrow> starts_with r ''/'' \<and> (path = pre @ r \<or> (path = pre \<and> r = ''/''))"
  by (auto simp: mount_rest_def strip_prefix_Some_iff split: option.splits list.splits if_splits)

lemma normalize_service_prefix_form:
  "starts_with (normalize_service_prefix p) ''/''
   \<and> (normalize_service_prefix p = ''/'' \<or> \<not> ends_with (normalize_service_prefix p) ''/'')"
  using trim_end_matches_no_suffix [of "CHR ''/''" p]
  by (auto simp: normalize_service_prefix_def Let_def suffix_Cons)

lemma normalize_service_prefix_id:
  assumes "starts_with p ''/''" and "p = ''/'' \<or> \<not> ends_with p ''/''"
  shows "normalize_service_prefix p = p"
proof (cases "p = ''/''")
  case True
  then show ?thesis by (simp add: normalize_service_prefix_def trim_end_matches_def)
next
  case False
  with assms have "trim_end_matches (CHR ''/'') p = p" by (simp add: trim_end_matches_id)
  with assms show ?thesis by (auto simp: normalize_service_prefix_def prefix_def)
qed

text \<open>A URI never holds \<open>?\<close> or \<open>#\<close> in its path, nor \<open>#\<close> in its query.\<close>

definition uri_wf :: "uri \<Rightarrow> bool" where
  "uri_wf u \<longleftrightarrow> CHR ''?'' \<notin> set (uri_path u) \<and> CHR ''#'' \<notin> set (uri_path u)
     \<and> (case uri_query u of None \<Rightarrow> True | Some q \<Rightarrow> CHR ''#'' \<notin> set q)"

definition pq_string :: "string \<Rightarrow> string option \<Rightarrow> string" where
  "pq_string p q = p @ (case q of Some q \<Rightarrow> ''?'' @ q | None \<Rightarrow> [])"

text \<open>
  Parsing \<open>path?query\<close> splits at the first \<open>?\<close>; which bytes a path may hold does not depend
  on their position, so a path assembled from bytes of a valid one and slashes is accepted.
\<close>

locale uri_lib =
  fixes with_pq :: "uri \<Rightarrow> string \<Rightarrow> uri option"
  assumes with_pq_parts:
    "with_pq u (pq_string p q) = Some u' \<Longrightarrow> uri_wf (u\<lparr>uri_path := p, uri_query := q\<rparr>) \<Longrightarrow>
     u' = u\<lparr>uri_path := p, uri_query := q\<rparr>"
    and with_pq_accepts:
    "uri_wf u \<Longrightarrow> starts_with p ''/'' \<Longrightarrow> set p \<subseteq> set (uri_path u) \<union> {CHR ''/''} \<Longrightarrow>
     with_pq u (pq_string p (uri_query u)) \<noteq> None"
begin

lemma strip_uri_prefix_mount:
  assumes "uri_wf u" and "pre \<noteq> ''/''"
  shows "strip_uri_prefix with_pq u pre =
     map_option (\<lambda>r. u\<lparr>uri_path := r\<rparr>) (mount_rest pre (uri_path u))"
proof (cases "mount_rest pre (uri_path u)")
  case None
  then show ?thesis
    by (simp add: strip_uri_prefix_def stripped_path_mount_rest [OF assms(2)])
next
  case (Some r)
  then have r: "starts_with r ''/''" "set r \<subseteq> set (uri_path u) \<union> {CHR ''/''}"
    using mount_rest_Some by fastforce+
  then obtain u' where u': "with_pq u (pq_string r (uri_query u)) = Some u'"
    using with_pq_accepts [OF assms(1)] by blast
  have "uri_wf (u\<lparr>uri_path := r, uri_query := uri_query u\<rparr>)"
    using assms(1) r(2) by (auto simp: uri_wf_def split: option.splits)
  with u' have "u' = u\<lparr>uri_path := r\<rparr>" using with_pq_parts by fastforce
  with Some u' show ?thesis
    by (simp add: strip_uri_prefix_def stripped_path_mount_rest [OF assms(2)] pq_string_def)
qed

end

text \<open>An instance: the path ends at the first \<open>?\<close>.\<close>

definition simple_with_pq :: "uri \<Rightarrow> string \<Rightarrow> uri option" where
  "simple_with_pq u pq =
     (case split_once (CHR ''?'') pq of
        None \<Rightarrow> Some (u\<lparr>uri_path := pq, uri_query := None\<rparr>)
      | Some (p, q) \<Rightarrow> Some (u\<lparr>uri_path := p, uri_query := Some q\<rparr>))"

lemma split_once_fresh: "c \<notin> set s \<Longrightarrow> split_once c s = None"
  by (simp add: split_once_None_iff)

lemma split_once_append: "c \<notin> set p \<Longrightarrow> split_once c (p @ c # q) = Some (p, q)"
  by (simp add: split_once_Some_iff)

interpretation simple_uri: uri_lib simple_with_pq
  by unfold_locales
    (auto simp: simple_with_pq_def pq_string_def uri_wf_def split_once_fresh split_once_append
      split: option.splits)

subsection \<open>Properties\<close>

text \<open>Decoding a captured path parameter neither adds nor removes a separator or control
  byte: the subsequence of slashes, backslashes, NULs, LFs and CRs of the result is that of
  the raw text.  An escaped one stays escaped.\<close>

theorem percent_decode_structure:
  "filter kept_escaped (percent_decode input) = filter kept_escaped input"
  by (simp add: percent_decode_def Let_def filter_kept_decode_loop)

text \<open>Decoding inverts full percent-encoding on every well-formed UTF-8 text that has no
  separator and no NUL, CR or LF.\<close>

theorem percent_decode_roundtrip:
  assumes "utf8_valid s" and "list_all (\<lambda>c. \<not> kept_escaped c) s"
  shows "percent_decode (percent_encode s) = s"
proof (cases s)
  case Nil
  then show ?thesis by (simp add: percent_encode_def percent_decode_def)
next
  case (Cons c cs)
  then have "CHR ''%'' \<in> set (percent_encode s)" by (simp add: percent_encode_def)
  then show ?thesis
    using assms by (simp add: percent_decode_def decode_loop_encode)
qed

theorem percent_decode_roundtrip_witness:
  "percent_encode [CHR ''e'', CHR 0xC3, CHR 0xA9] = ''%65%C3%A9''
   \<and> percent_decode ''%65%C3%A9'' = [CHR ''e'', CHR 0xC3, CHR 0xA9]"
proof -
  have enc: "percent_encode [CHR ''e'', CHR 0xC3, CHR 0xA9] = ''%65%C3%A9''" by code_simp
  have "utf8_valid [CHR ''e'', CHR 0xC3, CHR 0xA9]" by (simp add: byte_in_def)
  moreover have "list_all (\<lambda>c. \<not> kept_escaped c) [CHR ''e'', CHR 0xC3, CHR 0xA9]"
    by (simp add: kept_escaped_def)
  ultimately have "percent_decode (percent_encode [CHR ''e'', CHR 0xC3, CHR 0xA9])
      = [CHR ''e'', CHR 0xC3, CHR 0xA9]"
    by (rule percent_decode_roundtrip)
  with enc show ?thesis by simp
qed

text \<open>A normalised mount prefix starts with a slash, does not end with one unless it is the
  root, and normalising it again changes nothing.\<close>

theorem normalize_service_prefix_canonical:
  "starts_with (normalize_service_prefix p) ''/''
   \<and> (normalize_service_prefix p = ''/'' \<or> \<not> ends_with (normalize_service_prefix p) ''/'')
   \<and> normalize_service_prefix (normalize_service_prefix p) = normalize_service_prefix p"
  using normalize_service_prefix_form [of p] normalize_service_prefix_id by blast

text \<open>A mounted service is called with the request it was sent except for the URI and the
  recorded original URI.  The path is replaced only when the mount prefix matches up to a
  segment boundary, and then by the rest of the path (a slash when nothing is left); the
  query is kept; the original URI is the one the outermost mount saw.  A root mount strips
  nothing.\<close>

theorem strip_prefix_call_request:
  assumes "uri_lib with_pq" and "uri_wf (req_uri req)"
  shows "\<exists>req'. strip_prefix_call with_pq pre inner req w = inner req' w
     \<and> req_method req' = req_method req \<and> req_headers req' = req_headers req
     \<and> req_body req' = req_body req
     \<and> ext_original_uri (req_ext req') =
         Some (case ext_original_uri (req_ext req) of Some u \<Rightarrow> u | None \<Rightarrow> req_uri req)
     \<and> req_uri req' =
         (case mount_rest pre (uri_path (req_uri req)) of
            Some r \<Rightarrow> if pre = ''/'' then req_uri req else (req_uri req)\<lparr>uri_path := r\<rparr>
          | None \<Rightarrow> req_uri req)"
proof (cases "pre = ''/''")
  case True
  then show ?thesis
    by (auto simp: strip_prefix_call_def strip_uri_prefix_def stripped_path_def Let_def
        split: option.splits)
next
  case False
  then show ?thesis
    by (auto simp: strip_prefix_call_def Let_def
        uri_lib.strip_uri_prefix_mount [OF assms False] split: option.splits)
qed

theorem strip_prefix_call_request_witness:
  "\<exists>req'. strip_prefix_call simple_with_pq ''/api'' counting_service
        (sample_request Get ''/api/users'' []) 0 = counting_service req' 0
     \<and> req_uri req' = sample_uri ''/users''"
proof -
  have "uri_wf (req_uri (sample_request Get ''/api/users'' []))"
    by (simp add: uri_wf_def sample_defs)
  from strip_prefix_call_request [OF simple_uri.uri_lib_axioms this, of "''/api''" counting_service 0]
  show ?thesis by (auto simp: sample_request_def sample_uri_def mount_rest_def strip_prefix_def)
qed

end
