(* ===== verification/Method_Filter.thy ===== *)
theory Method_Filter
  imports Http
begin

text \<open>
  Method filters, arvik-core/src/method_filter.rs: a 16-bit mask with one bit per standard
  method and one for every other method.  The lemmas reduce \<open>mf_contains\<close> on the mask of a
  method to a test of that method's bit, which is what dispatch needs.
\<close>

type_synonym method_filter = u16

definition MF_GET :: method_filter where "MF_GET = push_bit 0 1"
definition MF_POST :: method_filter where "MF_POST = push_bit 1 1"
definition MF_PUT :: method_filter where "MF_PUT = push_bit 2 1"
definition MF_DELETE :: method_filter where "MF_DELETE = push_bit 3 1"
definition MF_PATCH :: method_filter where "MF_PATCH = push_bit 4 1"
definition MF_HEAD :: method_filter where "MF_HEAD = push_bit 5 1"
definition MF_OPTIONS :: method_filter where "MF_OPTIONS = push_bit 6 1"
definition MF_TRACE :: method_filter where "MF_TRACE = push_bit 7 1"
definition MF_EXTENSION :: method_filter where "MF_EXTENSION = push_bit 8 1"
definition MF_ANY :: method_filter where "MF_ANY = 0xFF OR push_bit 8 1"
definition MF_NONE :: method_filter where "MF_NONE = 0"

lemmas MF_defs = MF_GET_def MF_POST_def MF_PUT_def MF_DELETE_def MF_PATCH_def MF_HEAD_def
  MF_OPTIONS_def MF_TRACE_def MF_EXTENSION_def

definition mf_contains :: "method_filter \<Rightarrow> method_filter \<Rightarrow> bool" where
  "mf_contains self other \<longleftrightarrow> self AND other = other"

definition mf_bitor :: "method_filter \<Rightarrow> method_filter \<Rightarrow> method_filter" where
  "mf_bitor self rhs = self OR rhs"

fun mf_from_method :: "http_method \<Rightarrow> method_filter" where
  "mf_from_method Get = MF_GET"
| "mf_from_method Post = MF_POST"
| "mf_from_method Put = MF_PUT"
| "mf_from_method Delete = MF_DELETE"
| "mf_from_method Patch = MF_PATCH"
| "mf_from_method Head = MF_HEAD"
| "mf_from_method Options = MF_OPTIONS"
| "mf_from_method Trace = MF_TRACE"
| "mf_from_method _ = MF_EXTENSION"

definition mf_matches :: "method_filter \<Rightarrow> http_method \<Rightarrow> bool" where
  "mf_matches self m = mf_contains self (mf_from_method m)"

subsection \<open>Filters as sets of bits\<close>

text \<open>The bit a method occupies; every non-standard method shares bit 8.\<close>

fun method_bit :: "http_method \<Rightarrow> nat" where
  "method_bit Get = 0"
| "method_bit Post = 1"
| "method_bit Put = 2"
| "method_bit Delete = 3"
| "method_bit Patch = 4"
| "method_bit Head = 5"
| "method_bit Options = 6"
| "method_bit Trace = 7"
| "method_bit _ = 8"

definition is_extension :: "http_method \<Rightarrow> bool" where
  "is_extension m \<longleftrightarrow> method_bit m = 8"

lemma mf_from_method_bit: "mf_from_method m = push_bit (method_bit m) 1"
  by (cases m) (simp_all add: MF_defs)

lemma method_bit_le: "method_bit m \<le> 8"
  by (cases m) simp_all

lemma mf_contains_single:
  assumes "k < 16"
  shows "mf_contains f (2 ^ k) \<longleftrightarrow> bit f k"
proof
  assume "mf_contains f (2 ^ k)"
  then have "f AND 2 ^ k = 2 ^ k" by (simp add: mf_contains_def)
  moreover have "bit (2 ^ k :: u16) k" using assms by (simp add: bit_exp_iff possible_bit_def)
  ultimately show "bit f k" by (metis bit_and_iff)
next
  assume "bit f k"
  then show "mf_contains f (2 ^ k)"
    unfolding mf_contains_def
    by (intro bit_eqI) (auto simp: bit_and_iff bit_exp_iff)
qed

lemma mf_matches_bit: "mf_matches f m \<longleftrightarrow> bit f (method_bit m)"
  using method_bit_le [of m] by (simp add: mf_matches_def mf_from_method_bit mf_contains_single)

lemma mf_contains_from_method: "mf_contains f (mf_from_method m) \<longleftrightarrow> bit f (method_bit m)"
  using mf_matches_bit [of f m] by (simp add: mf_matches_def)

lemma mf_contains_const:
  "mf_contains f MF_GET \<longleftrightarrow> bit f 0" "mf_contains f MF_HEAD \<longleftrightarrow> bit f 5"
  using mf_contains_from_method [of f Get] mf_contains_from_method [of f Head] by simp_all

lemma bit_mf_bitor: "bit (mf_bitor a b) k \<longleftrightarrow> bit a k \<or> bit b k"
  by (simp add: mf_bitor_def bit_or_iff)

lemma bit_mf_none [simp]: "\<not> bit MF_NONE k"
  by (simp add: MF_NONE_def)

lemma mf_matches_bitor: "mf_matches (mf_bitor a b) m \<longleftrightarrow> mf_matches a m \<or> mf_matches b m"
  by (simp add: mf_matches_bit bit_mf_bitor)

lemma mf_matches_any: "mf_matches MF_ANY m"
  by (cases m) (simp_all add: mf_matches_def mf_contains_def MF_ANY_def MF_defs)

lemma mf_matches_method:
  "mf_matches (mf_from_method m') m \<longleftrightarrow> m = m' \<or> is_extension m \<and> is_extension m'"
  by (cases m; cases m')
    (simp_all add: mf_matches_bit mf_from_method_bit bit_exp_iff is_extension_def)

text \<open>A filter assembled from a list of methods, as \<^verbatim>\<open>GET | HEAD | ...\<close> does.\<close>

definition mf_of_methods :: "http_method list \<Rightarrow> method_filter" where
  "mf_of_methods ms = foldr (\<lambda>m f. mf_bitor (mf_from_method m) f) ms MF_NONE"

lemma mf_matches_of_methods:
  "mf_matches (mf_of_methods ms) m \<longleftrightarrow> m \<in> set ms \<or> is_extension m \<and> \<not> list_all (\<lambda>x. \<not> is_extension x) ms"
proof (induction ms)
  case Nil
  show ?case by (simp add: mf_of_methods_def mf_matches_bit)
next
  case (Cons x xs)
  then show ?case
    by (auto simp: mf_of_methods_def mf_matches_bitor mf_matches_method)
qed

end
