(* ===== verification/Method_Router.thy ===== *)
theory Method_Router
  imports Method_Filter
begin

text \<open>
  Layer composition (arvik-router/src/layer.rs) and dispatch on the request method
  (arvik-router/src/method_router.rs).

  A \<open>method_router\<close> keeps the handlers in registration order, the union of their filters
  (\<^verbatim>\<open>allow_methods\<close>), the layers, and the lazily built cache of layered handlers
  (\<^verbatim>\<open>baked\<close>).  \<open>mr_call\<close> returns the outcome and the router with the cache it may have
  filled.  The invariant \<open>mr_wf\<close> ties \<^verbatim>\<open>allow_methods\<close> to the handlers; \<open>baked_ok\<close> says
  that a filled cache is what the uncached path would build.
\<close>

subsection \<open>Layers\<close>

definition apply_layers :: "('h, 'w) service \<Rightarrow> ('h, 'w) layer list \<Rightarrow> ('h, 'w) service" where
  "apply_layers base layers = fold (\<lambda>f svc. f svc) layers base"

text \<open>
  \<^verbatim>\<open>oneshot\<close> waits for readiness and calls; every service of the framework is ready at once
  or forwards to the inner one, so the call is what remains.
\<close>

definition oneshot :: "('h, 'w) service \<Rightarrow> 'h request \<Rightarrow> 'w \<Rightarrow> 'h outcome \<times> 'w" where
  "oneshot svc req w = svc req w"

lemma apply_layers_Nil [simp]: "apply_layers base [] = base"
  by (simp add: apply_layers_def)

lemma apply_layers_append: "apply_layers base (ls @ ms) = apply_layers (apply_layers base ls) ms"
  by (simp add: apply_layers_def)

subsection \<open>The router of one path\<close>

type_synonym ('h, 'w, 's) handler = "'h request \<Rightarrow> 's \<Rightarrow> 'w \<Rightarrow> 'h outcome \<times> 'w"

record ('h, 'w, 's) method_router =
  mr_handlers :: "(method_filter \<times> ('h, 'w, 's) handler) list"
  mr_allow :: method_filter
  mr_layers :: "('h, 'w) layer list"
  mr_baked :: "('h, 'w) service option list option"
  mr_bakeable :: bool

definition mr_new :: "('h, 'w, 's) method_router" where
  "mr_new = \<lparr>mr_handlers = [], mr_allow = MF_NONE, mr_layers = [], mr_baked = None,
     mr_bakeable = False\<rparr>"

definition mr_on :: "('h, 'w, 's) method_router \<Rightarrow> method_filter \<Rightarrow> ('h, 'w, 's) handler
    \<Rightarrow> ('h, 'w, 's) method_router" where
  "mr_on self flt handler = self\<lparr>
     mr_allow := mf_bitor (mr_allow self) flt,
     mr_handlers := mr_handlers self @ [(flt, handler)],
     mr_baked := None\<rparr>"

text \<open>\<^verbatim>\<open>merge\<close> panics when the two routers share a method.\<close>

definition mr_merge :: "('h, 'w, 's) method_router \<Rightarrow> ('h, 'w, 's) method_router
    \<Rightarrow> ('h, 'w, 's) method_router option" where
  "mr_merge self other =
     (if mr_allow self AND mr_allow other \<noteq> 0 then None
      else Some (self\<lparr>
        mr_allow := mf_bitor (mr_allow self) (mr_allow other),
        mr_handlers := mr_handlers self @ mr_handlers other,
        mr_layers := mr_layers self @ mr_layers other,
        mr_baked := None,
        mr_bakeable := False\<rparr>))"

definition mr_get :: "('h, 'w, 's) method_router \<Rightarrow> ('h, 'w, 's) handler \<Rightarrow> ('h, 'w, 's) method_router" where
  "mr_get self h = mr_on self MF_GET h"
definition mr_post :: "('h, 'w, 's) method_router \<Rightarrow> ('h, 'w, 's) handler \<Rightarrow> ('h, 'w, 's) method_router" where
  "mr_post self h = mr_on self MF_POST h"
definition mr_put :: "('h, 'w, 's) method_router \<Rightarrow> ('h, 'w, 's) handler \<Rightarrow> ('h, 'w, 's) method_router" where
  "mr_put self h = mr_on self MF_PUT h"
definition mr_delete :: "('h, 'w, 's) method_router \<Rightarrow> ('h, 'w, 's) handler \<Rightarrow> ('h, 'w, 's) method_router" where
  "mr_delete self h = mr_on self MF_DELETE h"
definition mr_patch :: "('h, 'w, 's) method_router \<Rightarrow> ('h, 'w, 's) handler \<Rightarrow> ('h, 'w, 's) method_router" where
  "mr_patch self h = mr_on self MF_PATCH h"
definition mr_head :: "('h, 'w, 's) method_router \<Rightarrow> ('h, 'w, 's) handler \<Rightarrow> ('h, 'w, 's) method_router" where
  "mr_head self h = mr_on self MF_HEAD h"
definition mr_options :: "('h, 'w, 's) method_router \<Rightarrow> ('h, 'w, 's) handler \<Rightarrow> ('h, 'w, 's) method_router" where
  "mr_options self h = mr_on self MF_OPTIONS h"

text \<open>The free constructor functions \<^verbatim>\<open>any\<close>, \<^verbatim>\<open>on\<close> and \<^verbatim>\<open>trace_method\<close>.\<close>

definition mr_any :: "('h, 'w, 's) handler \<Rightarrow> ('h, 'w, 's) method_router" where
  "mr_any h = mr_on mr_new MF_ANY h"
definition mr_trace_method :: "('h, 'w, 's) handler \<Rightarrow> ('h, 'w, 's) method_router" where
  "mr_trace_method h = mr_on mr_new MF_TRACE h"

text \<open>The free function \<^verbatim>\<open>on\<close>.\<close>

definition mr_on_new :: "method_filter \<Rightarrow> ('h, 'w, 's) handler \<Rightarrow> ('h, 'w, 's) method_router" where
  "mr_on_new flt handler = mr_on mr_new flt handler"

definition mr_layer :: "('h, 'w, 's) method_router \<Rightarrow> ('h, 'w) layer \<Rightarrow> ('h, 'w, 's) method_router" where
  "mr_layer self l = self\<lparr>mr_layers := mr_layers self @ [l], mr_baked := None\<rparr>"

definition mr_extend_layers :: "('h, 'w, 's) method_router \<Rightarrow> ('h, 'w) layer list \<Rightarrow> ('h, 'w, 's) method_router" where
  "mr_extend_layers self extra =
     (if extra = [] then self
      else self\<lparr>mr_layers := mr_layers self @ extra, mr_baked := None\<rparr>)"

definition mr_clone :: "('h, 'w, 's) method_router \<Rightarrow> ('h, 'w, 's) method_router" where
  "mr_clone self = self\<lparr>mr_baked := None, mr_bakeable := False\<rparr>"

text \<open>\<^verbatim>\<open>StateBound\<close>: a handler that carries its state and ignores the unit state it is given.\<close>

definition state_bound :: "('h, 'w, 's) handler \<Rightarrow> 's \<Rightarrow> ('h, 'w, unit) handler" where
  "state_bound inner state = (\<lambda>req _ w. inner req state w)"

definition mr_with_state :: "('h, 'w, 's) method_router \<Rightarrow> 's \<Rightarrow> ('h, 'w, unit) method_router" where
  "mr_with_state self state = \<lparr>
     mr_handlers = map (\<lambda>(f, h). (f, state_bound h state)) (mr_handlers self),
     mr_allow = mr_allow self,
     mr_layers = mr_layers self,
     mr_baked = None,
     mr_bakeable = True\<rparr>"

definition handler_service :: "('h, 'w, 's) handler \<Rightarrow> 's \<Rightarrow> ('h, 'w) service" where
  "handler_service h state = (\<lambda>req w. h req state w)"

definition allow_pairs :: "(method_filter \<times> string) list" where
  "allow_pairs = [(MF_GET, ''GET''), (MF_POST, ''POST''), (MF_PUT, ''PUT''), (MF_DELETE, ''DELETE''),
     (MF_PATCH, ''PATCH''), (MF_HEAD, ''HEAD''), (MF_OPTIONS, ''OPTIONS''), (MF_TRACE, ''TRACE'')]"

definition build_allow_header :: "method_filter \<Rightarrow> string" where
  "build_allow_header flt =
     join_with '', '' (map snd (filter (\<lambda>(f, _). mf_contains flt f) allow_pairs))"

definition method_not_allowed_response :: "'h http_lib \<Rightarrow> method_filter \<Rightarrow> 'h response" where
  "method_not_allowed_response H allow =
     rb_text H ''Method Not Allowed''
       (rb_header_str H ''allow'' (build_allow_header allow) (rb_with_status 405 (rb_new H)))"

text \<open>\<open>baked.get_or_init(...)\<close>: the cache after the first call, if this router may have one.\<close>

definition baked_stacks :: "('h, 'w, 's) method_router \<Rightarrow> 's \<Rightarrow> ('h, 'w) service option list" where
  "baked_stacks self state =
     map (\<lambda>(_, h). Some (apply_layers (handler_service h state) (mr_layers self))) (mr_handlers self)"

definition mr_bake :: "('h, 'w, 's) method_router \<Rightarrow> 's \<Rightarrow> ('h, 'w, 's) method_router" where
  "mr_bake self state =
     (if mr_bakeable self \<and> mr_layers self \<noteq> []
      then (case mr_baked self of
              Some _ \<Rightarrow> self
            | None \<Rightarrow> self\<lparr>mr_baked := Some (baked_stacks self state)\<rparr>)
      else self)"

text \<open>The \<open>for\<close> loop over the handlers; \<open>i\<close> is \<open>idx\<close>, an index past the cache panics.\<close>

fun mr_loop :: "('h, 'w) service option list option \<Rightarrow> ('h, 'w) layer list \<Rightarrow> 's \<Rightarrow> method_filter \<Rightarrow> bool
    \<Rightarrow> nat \<Rightarrow> (method_filter \<times> ('h, 'w, 's) handler) list \<Rightarrow> 'h request \<Rightarrow> 'w
    \<Rightarrow> ('h outcome \<times> 'w) option" where
  "mr_loop baked layers state mf hfb i [] req w = None"
| "mr_loop baked layers state mf hfb i ((flt, h) # rest) req w =
     (if mf_contains flt mf \<or> (hfb \<and> mf_contains flt MF_GET)
      then Some
        (let plain = (if layers = [] then h req state w
                      else oneshot (apply_layers (handler_service h state) layers) req w)
         in case baked of
              None \<Rightarrow> plain
            | Some stack \<Rightarrow>
                if i < length stack
                then (case stack ! i of Some svc \<Rightarrow> oneshot svc req w | None \<Rightarrow> plain)
                else (Panicked ''index out of bounds'', w))
      else mr_loop baked layers state mf hfb (Suc i) rest req w)"

definition mr_call :: "'h http_lib \<Rightarrow> ('h, 'w, 's) method_router \<Rightarrow> 'h request \<Rightarrow> 's \<Rightarrow> 'w
    \<Rightarrow> ('h outcome \<times> 'w) \<times> ('h, 'w, 's) method_router" where
  "mr_call H self req state w =
     (let mf = mf_from_method (req_method req);
          hfb = (req_method req = Head \<and> \<not> mf_contains (mr_allow self) MF_HEAD);
          self' = mr_bake self state;
          baked = (if mr_bakeable self \<and> mr_layers self \<noteq> [] then mr_baked self' else None)
      in (case mr_loop baked (mr_layers self) state mf hfb 0 (mr_handlers self) req w of
            Some r \<Rightarrow> r
          | None \<Rightarrow> (Done (method_not_allowed_response H (mr_allow self)), w), self'))"


subsection \<open>Invariants\<close>

definition mr_wf :: "('h, 'w, 's) method_router \<Rightarrow> bool" where
  "mr_wf mr \<longleftrightarrow> mr_allow mr = foldl mf_bitor MF_NONE (map fst (mr_handlers mr))"

definition baked_ok :: "'s \<Rightarrow> ('h, 'w, 's) method_router \<Rightarrow> bool" where
  "baked_ok state mr \<longleftrightarrow>
     (case mr_baked mr of None \<Rightarrow> True | Some stack \<Rightarrow> stack = baked_stacks mr state)"

lemma foldl_mf_bitor: "foldl mf_bitor a fs = mf_bitor a (foldl mf_bitor MF_NONE fs)"
proof (induction fs arbitrary: a)
  case (Cons f fs)
  show ?case
    using Cons [of "mf_bitor a f"] Cons [of "mf_bitor MF_NONE f"]
    by (simp add: mf_bitor_def MF_NONE_def or.assoc)
qed (simp add: mf_bitor_def MF_NONE_def)

lemma mr_wf_new [wf_intros]: "mr_wf mr_new"
  by (simp add: mr_wf_def mr_new_def)

lemma mr_wf_on [wf_intros]: "mr_wf mr \<Longrightarrow> mr_wf (mr_on mr f h)"
  by (simp add: mr_wf_def mr_on_def)

lemma mr_wf_merge [wf_intros]: "mr_wf a \<Longrightarrow> mr_wf b \<Longrightarrow> mr_merge a b = Some c \<Longrightarrow> mr_wf c"
  using foldl_mf_bitor [of "mr_allow a" "map fst (mr_handlers b)"]
  by (auto simp: mr_wf_def mr_merge_def split: if_splits)

lemma mr_wf_layer [wf_intros]: "mr_wf mr \<Longrightarrow> mr_wf (mr_layer mr l)"
  and mr_wf_extend [wf_intros]: "mr_wf mr \<Longrightarrow> mr_wf (mr_extend_layers mr ls)"
  and mr_wf_clone [wf_intros]: "mr_wf mr \<Longrightarrow> mr_wf (mr_clone mr)"
  by (simp_all add: mr_wf_def mr_layer_def mr_extend_layers_def mr_clone_def)

lemma mr_wf_with_state [wf_intros]: "mr_wf mr \<Longrightarrow> mr_wf (mr_with_state mr st)"
  by (simp add: mr_wf_def mr_with_state_def comp_def case_prod_beta')

lemma baked_ok_no_cache [wf_intros]:
  "baked_ok st mr_new" "baked_ok st (mr_on mr f h)" "baked_ok st (mr_layer mr l)"
  "baked_ok st (mr_clone mr)" "baked_ok () (mr_with_state mr' st')"
  "mr_merge a b = Some c \<Longrightarrow> baked_ok st c"
  by (auto simp: baked_ok_def mr_new_def mr_on_def mr_layer_def mr_clone_def mr_with_state_def
      mr_merge_def split: if_splits)

lemma baked_ok_extend [wf_intros]: "baked_ok st mr \<Longrightarrow> baked_ok st (mr_extend_layers mr ls)"
  by (simp add: baked_ok_def mr_extend_layers_def)

lemma mr_bake_fields [simp]:
  "mr_handlers (mr_bake mr st) = mr_handlers mr" "mr_layers (mr_bake mr st) = mr_layers mr"
  "mr_allow (mr_bake mr st) = mr_allow mr" "mr_bakeable (mr_bake mr st) = mr_bakeable mr"
  by (simp_all add: mr_bake_def split: option.splits)

lemma baked_ok_bake: "baked_ok st mr \<Longrightarrow> baked_ok st (mr_bake mr st)"
  by (auto simp: baked_ok_def mr_bake_def baked_stacks_def split: option.splits)

subsection \<open>The dispatch it implements\<close>

definition mr_matched :: "method_filter \<Rightarrow> http_method \<Rightarrow> method_filter \<Rightarrow> bool" where
  "mr_matched allow m f \<longleftrightarrow>
     mf_matches f m \<or> (m = Head \<and> \<not> mf_matches allow Head \<and> mf_matches f Get)"

definition mr_select :: "('h, 'w, 's) method_router \<Rightarrow> http_method
    \<Rightarrow> (method_filter \<times> ('h, 'w, 's) handler) option" where
  "mr_select mr m = find (\<lambda>(f, _). mr_matched (mr_allow mr) m f) (mr_handlers mr)"

definition mr_dispatch :: "'h http_lib \<Rightarrow> ('h, 'w, 's) method_router \<Rightarrow> 'h request \<Rightarrow> 's \<Rightarrow> 'w
    \<Rightarrow> 'h outcome \<times> 'w" where
  "mr_dispatch H mr req state w =
     (case mr_select mr (req_method req) of
        Some (_, h) \<Rightarrow> apply_layers (handler_service h state) (mr_layers mr) req w
      | None \<Rightarrow> (Done (method_not_allowed_response H (mr_allow mr)), w))"

lemma drop_eq_ConsD: "drop i xs = y # ys \<Longrightarrow> i < length xs \<and> xs ! i = y \<and> drop (Suc i) xs = ys"
  by (metis Cons_nth_drop_Suc drop_all list.distinct(1) list.inject not_le)

lemma mr_loop_find:
  assumes "\<And>stack. baked = Some stack \<Longrightarrow>
      drop i stack = map (\<lambda>(_, h). Some (apply_layers (handler_service h st) ls)) hs"
  shows "mr_loop baked ls st mf hfb i hs req w =
     map_option (\<lambda>(_, h). apply_layers (handler_service h st) ls req w)
       (find (\<lambda>(f, _). mf_contains f mf \<or> hfb \<and> mf_contains f MF_GET) hs)"
  using assms
proof (induction hs arbitrary: i)
  case (Cons x hs)
  obtain f h where x: "x = (f, h)" by (cases x)
  have plain: "(if ls = [] then h req st w else oneshot (apply_layers (handler_service h st) ls) req w)
      = apply_layers (handler_service h st) ls req w"
    by (simp add: oneshot_def handler_service_def)
  have here: "i < length stack \<and> stack ! i = Some (apply_layers (handler_service h st) ls) \<and>
      drop (Suc i) stack = map (\<lambda>(_, h). Some (apply_layers (handler_service h st) ls)) hs"
    if "baked = Some stack" for stack
    using Cons.prems [OF that] by (intro drop_eq_ConsD) (simp add: x)
  show ?case
    using Cons.IH [of "Suc i"] here
    by (cases baked) (simp_all add: x plain oneshot_def Let_def)
qed simp

text \<open>The cache is invisible: a call answers as the plain dispatch and leaves a sound cache.\<close>

lemma mr_call_dispatch:
  assumes "baked_ok st mr"
  shows "fst (mr_call H mr req st w) = mr_dispatch H mr req st w"
proof -
  let ?baked = "if mr_bakeable mr \<and> mr_layers mr \<noteq> [] then mr_baked (mr_bake mr st) else None"
  let ?hfb = "req_method req = Head \<and> \<not> mf_contains (mr_allow mr) MF_HEAD"
  let ?mf = "mf_from_method (req_method req)"
  have loop: "mr_loop ?baked (mr_layers mr) st ?mf ?hfb 0 (mr_handlers mr) req w =
     map_option (\<lambda>(_, h). apply_layers (handler_service h st) (mr_layers mr) req w)
       (find (\<lambda>(f, _). mf_contains f ?mf \<or> ?hfb \<and> mf_contains f MF_GET) (mr_handlers mr))"
    using assms
    by (intro mr_loop_find)
      (auto simp: mr_bake_def baked_ok_def baked_stacks_def split: option.splits if_splits)
  have sel: "find (\<lambda>(f, _). mf_contains f ?mf \<or> ?hfb \<and> mf_contains f MF_GET) (mr_handlers mr)
      = mr_select mr (req_method req)"
    by (simp add: mr_select_def mr_matched_def mf_matches_def conj_assoc)
  have "fst (mr_call H mr req st w) =
      (case mr_loop ?baked (mr_layers mr) st ?mf ?hfb 0 (mr_handlers mr) req w of
         Some r \<Rightarrow> r | None \<Rightarrow> (Done (method_not_allowed_response H (mr_allow mr)), w))"
    by (simp only: mr_call_def Let_def fst_conv)
  then show ?thesis
    unfolding loop sel mr_dispatch_def by (simp split: option.splits)
qed

lemma mr_call_router: "snd (mr_call H mr req st w) = mr_bake mr st"
  by (simp add: mr_call_def Let_def)

lemma mr_dispatch_bake [simp]: "mr_dispatch H (mr_bake mr st) = mr_dispatch H mr"
  by (intro ext) (simp add: mr_dispatch_def mr_select_def split: option.split)

lemma mr_dispatch_clone [simp]: "mr_dispatch H (mr_clone mr) = mr_dispatch H mr"
  by (intro ext) (simp add: mr_dispatch_def mr_select_def mr_clone_def split: option.split)

lemma mr_wf_bit:
  assumes "mr_wf mr"
  shows "bit (mr_allow mr) k \<longleftrightarrow> (\<exists>f h. (f, h) \<in> set (mr_handlers mr) \<and> bit f k)"
proof -
  have "bit (foldl mf_bitor MF_NONE fs) k \<longleftrightarrow> (\<exists>f \<in> set fs. bit f k)" for fs
  proof (induction fs)
    case (Cons f fs)
    have "foldl mf_bitor (mf_bitor MF_NONE f) fs = mf_bitor f (foldl mf_bitor MF_NONE fs)"
      using foldl_mf_bitor [of "mf_bitor MF_NONE f" fs] by (simp add: mf_bitor_def MF_NONE_def)
    with Cons show ?case by (simp add: bit_mf_bitor)
  qed simp
  with assms show ?thesis by (force simp: mr_wf_def)
qed

lemma mr_select_None_iff:
  assumes "mr_wf mr"
  shows "mr_select mr m = None \<longleftrightarrow>
     \<not> mf_matches (mr_allow mr) m \<and> \<not> (m = Head \<and> mf_matches (mr_allow mr) Get)"
proof -
  have "mr_select mr m = None \<longleftrightarrow> (\<forall>f h. (f, h) \<in> set (mr_handlers mr) \<longrightarrow> \<not> mr_matched (mr_allow mr) m f)"
    by (auto simp: mr_select_def find_None_iff)
  then show ?thesis
    using mr_wf_bit [OF assms, of "method_bit m"] mr_wf_bit [OF assms, of 0]
    by (cases "m = Head") (auto simp: mr_matched_def mf_matches_bit)
qed

lemma build_allow_header_methods:
  "build_allow_header f =
     join_with '', '' (map method_as_str
       (filter (mf_matches f) [Get, Post, Put, Delete, Patch, Head, Options, Trace]))"
  by (simp add: build_allow_header_def allow_pairs_def mf_matches_def)

lemma build_allow_header_visible: "list_all header_visible (build_allow_header f)"
proof -
  have "set (build_allow_header f) \<subseteq> set ('', '' @ concat (map snd allow_pairs))"
    using set_join_with [of "'', ''" "map snd (filter (\<lambda>(g, _). mf_contains f g) allow_pairs)"]
    by (force simp: build_allow_header_def)
  moreover have "list_all header_visible ('', '' @ concat (map snd allow_pairs))"
    by (simp add: allow_pairs_def header_visible_def)
  ultimately show ?thesis by (auto simp: list_all_iff)
qed

context header_map
begin

lemma method_not_allowed_status: "res_status (method_not_allowed_response H f) = 405"
  by (simp add: method_not_allowed_response_def rb_defs from_str [OF build_allow_header_visible])

lemma method_not_allowed_allow:
  "hm_get_all H (res_headers (method_not_allowed_response H f)) ''allow'' = [build_allow_header f]"
  by (simp add: method_not_allowed_response_def rb_defs from_str [OF build_allow_header_visible]
      get_all_simps)

end


subsection \<open>Properties\<close>

text \<open>A sequence of requests served by one router, with and without its cache.\<close>

fun mr_run :: "'h http_lib \<Rightarrow> ('h, 'w, 's) method_router \<Rightarrow> 's \<Rightarrow> 'h request list \<Rightarrow> 'w
    \<Rightarrow> 'h outcome list \<times> 'w" where
  "mr_run H mr st [] w = ([], w)"
| "mr_run H mr st (r # rs) w =
     (let ((o1, w1), mr1) = mr_call H mr r st w; (os, w2) = mr_run H mr1 st rs w1 in (o1 # os, w2))"

fun mr_run_plain :: "'h http_lib \<Rightarrow> ('h, 'w, 's) method_router \<Rightarrow> 's \<Rightarrow> 'h request list \<Rightarrow> 'w
    \<Rightarrow> 'h outcome list \<times> 'w" where
  "mr_run_plain H mr st [] w = ([], w)"
| "mr_run_plain H mr st (r # rs) w =
     (let (o1, w1) = mr_dispatch H mr r st w; (os, w2) = mr_run_plain H mr st rs w1 in (o1 # os, w2))"

lemma mr_run_plain_cong: "mr_dispatch H mr = mr_dispatch H mr' \<Longrightarrow> mr_run_plain H mr = mr_run_plain H mr'"
proof (intro ext)
  fix st rs w
  assume "mr_dispatch H mr = mr_dispatch H mr'"
  then show "mr_run_plain H mr st rs w = mr_run_plain H mr' st rs w"
    by (induction rs arbitrary: w) simp_all
qed

definition demo_router :: "(alist_headers, nat, unit) method_router" where
  "demo_router = mr_with_state
     (mr_layer (mr_on mr_new MF_GET (\<lambda>req st w. counting_service req w)) (\<lambda>svc. svc)) ()"

lemma demo_router_ok: "mr_wf demo_router" "baked_ok () demo_router"
  by (simp_all add: demo_router_def wf_intros)

lemma demo_router_allow: "mr_allow demo_router = MF_GET"
  by (simp add: demo_router_def mr_with_state_def mr_layer_def mr_on_def mr_new_def mf_bitor_def
      MF_NONE_def)

text \<open>C18: Baking layer stacks is invisible.  Any sequence of requests served by a router whose
  cache is sound gets the outcomes, and leaves the world, that rebuilding the layer stack on
  every request would give; no request ever indexes past the cache.\<close>

theorem mr_cache_transparent:
  assumes "baked_ok st mr"
  shows "mr_run H mr st rs w = mr_run_plain H mr st rs w"
  using assms
proof (induction rs arbitrary: mr w)
  case (Cons r rs)
  have "mr_run_plain H (mr_bake mr st) = mr_run_plain H mr"
    by (rule mr_run_plain_cong) simp
  then have "mr_run H (mr_bake mr st) st rs w' = mr_run_plain H mr st rs w'" for w'
    using Cons.IH [OF baked_ok_bake [OF Cons.prems]] by simp
  then show ?case
    using mr_call_dispatch [OF Cons.prems, of H r w] mr_call_router [of H mr r st w]
    by (cases "mr_call H mr r st w") (auto split: prod.splits)
qed simp

theorem mr_cache_transparent_witness:
  "baked_ok () demo_router \<and>
   mr_run alist_lib demo_router () [sample_request Get ''/'' [], sample_request Get ''/a'' []] 0
     = mr_run_plain alist_lib demo_router () [sample_request Get ''/'' [], sample_request Get ''/a'' []] 0"
  by (intro conjI mr_cache_transparent demo_router_ok)

text \<open>A request whose method is not registered (nor a HEAD request on a path that has GET)
  gets 405 without any handler running, and the Allow header lists exactly the registered
  standard methods.\<close>

theorem mr_call_method_not_allowed:
  assumes "header_map H" and "mr_wf mr" and "baked_ok st mr"
    and "\<not> mf_matches (mr_allow mr) (req_method req)"
    and "\<not> (req_method req = Head \<and> mf_matches (mr_allow mr) Get)"
  shows "\<exists>resp. fst (mr_call H mr req st w) = (Done resp, w) \<and> res_status resp = 405 \<and>
     hm_get_all H (res_headers resp) ''allow'' =
       [join_with '', '' (map method_as_str
          (filter (mf_matches (mr_allow mr)) [Get, Post, Put, Delete, Patch, Head, Options, Trace]))]"
proof -
  have "mr_select mr (req_method req) = None"
    using assms(4,5) by (simp add: mr_select_None_iff [OF assms(2)])
  then have "fst (mr_call H mr req st w) = (Done (method_not_allowed_response H (mr_allow mr)), w)"
    by (simp add: mr_call_dispatch [OF assms(3)] mr_dispatch_def)
  then show ?thesis
    using header_map.method_not_allowed_status [OF assms(1)]
      header_map.method_not_allowed_allow [OF assms(1)]
    by (simp add: build_allow_header_methods)
qed

theorem mr_call_method_not_allowed_witness:
  "\<exists>resp. fst (mr_call alist_lib demo_router (sample_request Post ''/'' []) () 0) = (Done resp, 0) \<and>
     res_status resp = 405 \<and>
     hm_get_all alist_lib (res_headers resp) ''allow'' = [''GET'']"
  using mr_call_method_not_allowed [OF alist_header_map demo_router_ok(1,2),
      of "sample_request Post ''/'' []" 0]
  by (simp add: demo_router_allow sample_request_def mf_matches_bit MF_GET_def bit_1_iff)

text \<open>A request whose method is registered, or a HEAD request on a path that has GET and no
  HEAD handler, runs exactly one handler under all layers of the path: the first one
  registered for the method (for GET, when HEAD falls back to it).\<close>

theorem mr_call_handled:
  assumes "mr_wf mr" and "baked_ok st mr"
    and "mf_matches (mr_allow mr) (req_method req) \<or>
         req_method req = Head \<and> mf_matches (mr_allow mr) Get"
  shows "\<exists>pre f h post. mr_handlers mr = pre @ (f, h) # post
     \<and> mr_matched (mr_allow mr) (req_method req) f
     \<and> list_all (\<lambda>(g, _). \<not> mr_matched (mr_allow mr) (req_method req) g) pre
     \<and> fst (mr_call H mr req st w) = apply_layers (handler_service h st) (mr_layers mr) req w"
proof -
  obtain f h where sel: "mr_select mr (req_method req) = Some (f, h)"
    using assms(3) mr_select_None_iff [OF assms(1), of "req_method req"]
    by (cases "mr_select mr (req_method req)") auto
  then obtain pre post where split: "mr_handlers mr = pre @ (f, h) # post"
    and m: "mr_matched (mr_allow mr) (req_method req) f"
    and first: "list_all (\<lambda>(g, _). \<not> mr_matched (mr_allow mr) (req_method req) g) pre"
    using find_Some_split [of _ "mr_handlers mr" "(f, h)"]
    by (fastforce simp: mr_select_def list_all_iff)
  show ?thesis
    using split m first
    by (auto simp: mr_call_dispatch [OF assms(2)] mr_dispatch_def sel)
qed

theorem mr_call_handled_witness:
  "\<exists>pre f h post. mr_handlers demo_router = pre @ (f, h) # post
     \<and> fst (mr_call alist_lib demo_router (sample_request Head ''/'' []) () 0)
         = apply_layers (handler_service h ()) (mr_layers demo_router) (sample_request Head ''/'' []) 0"
  using mr_call_handled [OF demo_router_ok(1,2), of "sample_request Head ''/'' []" alist_lib 0]
  by (simp add: demo_router_allow sample_request_def mf_matches_bit MF_GET_def) blast

end
