(* ===== verification/Router.thy ===== *)
theory Router
  imports Paths Method_Router
begin

text \<open>
  The path router, arvik-router/src/router.rs.

  The radix trie is the \<^verbatim>\<open>matchit\<close> crate: a parameter \<open>T\<close> with the three operations the
  router calls.  The locale \<open>path_trie\<close> states its documented behaviour over a ghost map
  \<open>routes\<close> from registered patterns to values.  The router's own invariant \<open>router_wf\<close> says
  that this map sends every pattern to the index of its entry, so that \<^verbatim>\<open>self.routes[idx]\<close>
  is always in range; every builder operation keeps it.

  A builder operation that panics (a conflicting route) returns \<open>None\<close>.  \<open>router_call\<close> and
  \<open>ri_dispatch\<close> return the outcome and the router with the caches they filled.
\<close>

subsection \<open>Macro route sets\<close>

record route_meta =
  rm_path :: string
  rm_method_mask :: u16

fun str_eq_loop :: "string \<Rightarrow> string \<Rightarrow> bool" where
  "str_eq_loop (a # as) (b # bs) = (if a \<noteq> b then False else str_eq_loop as bs)"
| "str_eq_loop _ _ = True"

definition str_eq :: "string \<Rightarrow> string \<Rightarrow> bool" where
  "str_eq left right = (if length left \<noteq> length right then False else str_eq_loop left right)"

text \<open>The inner and the outer \<open>while\<close> loop.\<close>

fun conflict_with :: "route_meta \<Rightarrow> route_meta list \<Rightarrow> bool" where
  "conflict_with r [] = False"
| "conflict_with r (q # qs) =
     (if str_eq (rm_path r) (rm_path q) \<and> rm_method_mask r AND rm_method_mask q \<noteq> 0 then True
      else conflict_with r qs)"

fun route_conflict_count :: "route_meta list \<Rightarrow> nat" where
  "route_conflict_count [] = 0"
| "route_conflict_count (r # rs) = (if conflict_with r rs then 1 else route_conflict_count rs)"

text \<open>\<open>None\<close> is the panic.\<close>

definition assert_no_route_conflicts :: "route_meta list \<Rightarrow> unit option" where
  "assert_no_route_conflicts rs = (if route_conflict_count rs \<noteq> 0 then None else Some ())"

subsection \<open>The trie\<close>

record 't trie_lib =
  trie_new :: 't
  trie_insert :: "'t \<Rightarrow> string \<Rightarrow> nat \<Rightarrow> 't option"
  trie_at :: "'t \<Rightarrow> string \<Rightarrow> (nat \<times> (string \<times> string) list) option"

subsection \<open>The router\<close>

record ('h, 'w, 's) route_entry =
  re_pattern :: string
  re_router :: "('h, 'w, 's) method_router"
  re_param_keys :: "string list option"

record ('t, 'h, 'w, 's) router =
  r_trie :: 't
  r_routes :: "('h, 'w, 's) route_entry list"
  r_fallback :: "('h, 'w, 's) handler option"
  r_layers :: "('h, 'w) layer list"
  r_route_layers :: "('h, 'w) layer list"

definition route_entry_new :: "string \<Rightarrow> ('h, 'w, 's) method_router \<Rightarrow> ('h, 'w, 's) route_entry" where
  "route_entry_new path mr = \<lparr>re_pattern = path, re_router = mr, re_param_keys = None\<rparr>"

definition router_new :: "'t trie_lib \<Rightarrow> ('t, 'h, 'w, 's) router" where
  "router_new T = \<lparr>r_trie = trie_new T, r_routes = [], r_fallback = None, r_layers = [],
     r_route_layers = []\<rparr>"

definition router_route :: "'t trie_lib \<Rightarrow> ('t, 'h, 'w, 's) router \<Rightarrow> string \<Rightarrow> ('h, 'w, 's) method_router
    \<Rightarrow> ('t, 'h, 'w, 's) router option" where
  "router_route T self path mr =
     (case trie_insert T (r_trie self) path (length (r_routes self)) of
        None \<Rightarrow> None
      | Some t \<Rightarrow> Some (self\<lparr>r_trie := t, r_routes := r_routes self @ [route_entry_new path mr]\<rparr>))"

text \<open>The first entry with this pattern has its method router merged with \<open>mr\<close>.\<close>

fun merge_into_entry :: "string \<Rightarrow> ('h, 'w, 's) method_router \<Rightarrow> ('h, 'w, 's) route_entry list
    \<Rightarrow> ('h, 'w, 's) route_entry list option option" where
  "merge_into_entry path mr [] = None"
| "merge_into_entry path mr (e # es) =
     (if re_pattern e = path
      then Some (map_option (\<lambda>m. e\<lparr>re_router := m\<rparr> # es) (mr_merge (re_router e) mr))
      else map_option (map_option (\<lambda>es'. e # es')) (merge_into_entry path mr es))"

definition router_route_collected :: "'t trie_lib \<Rightarrow> ('t, 'h, 'w, 's) router \<Rightarrow> string
    \<Rightarrow> ('h, 'w, 's) method_router \<Rightarrow> ('t, 'h, 'w, 's) router option" where
  "router_route_collected T self path mr =
     (case merge_into_entry path mr (r_routes self) of
        Some merged \<Rightarrow> map_option (\<lambda>es. self\<lparr>r_routes := es\<rparr>) merged
      | None \<Rightarrow> router_route T self path mr)"

definition nested_path :: "string \<Rightarrow> string \<Rightarrow> string" where
  "nested_path pre path = (if path = ''/'' then pre @ ''/'' else pre @ path)"

text \<open>The loop of \<^verbatim>\<open>nest\<close> over the entries of the sub-router.\<close>

fun nest_entries :: "'t trie_lib \<Rightarrow> string \<Rightarrow> ('h, 'w) layer list \<Rightarrow> ('h, 'w, 's) route_entry list
    \<Rightarrow> ('t, 'h, 'w, 's) router \<Rightarrow> ('t, 'h, 'w, 's) router option" where
  "nest_entries T pre sub_layers [] self = Some self"
| "nest_entries T pre sub_layers (e # es) self =
     (let full = nested_path pre (re_pattern e); idx = length (r_routes self)
      in case trie_insert T (r_trie self) full idx of
           None \<Rightarrow> None
         | Some t \<Rightarrow>
             nest_entries T pre sub_layers es (self\<lparr>r_trie := t,
               r_routes := r_routes self @
                 [route_entry_new full (mr_extend_layers (re_router e) sub_layers)]\<rparr>))"

definition router_nest :: "'t trie_lib \<Rightarrow> ('t, 'h, 'w, 's) router \<Rightarrow> string
    \<Rightarrow> ('t, 'h, 'w, 's) router \<Rightarrow> ('t, 'h, 'w, 's) router option" where
  "router_nest T self pre0 other =
     (let pre = trim_end_matches (CHR ''/'') pre0
      in if r_fallback other \<noteq> None then None
         else nest_entries T pre (r_route_layers other @ r_layers other) (r_routes other) self)"

fun merge_entries :: "'t trie_lib \<Rightarrow> ('h, 'w) layer list \<Rightarrow> ('h, 'w, 's) route_entry list
    \<Rightarrow> ('t, 'h, 'w, 's) router \<Rightarrow> ('t, 'h, 'w, 's) router option" where
  "merge_entries T sub_layers [] self = Some self"
| "merge_entries T sub_layers (e # es) self =
     (case trie_insert T (r_trie self) (re_pattern e) (length (r_routes self)) of
        None \<Rightarrow> None
      | Some t \<Rightarrow>
          merge_entries T sub_layers es (self\<lparr>r_trie := t,
            r_routes := r_routes self @ [e\<lparr>re_router := mr_extend_layers (re_router e) sub_layers\<rparr>]\<rparr>))"

definition router_merge :: "'t trie_lib \<Rightarrow> ('t, 'h, 'w, 's) router \<Rightarrow> ('t, 'h, 'w, 's) router
    \<Rightarrow> ('t, 'h, 'w, 's) router option" where
  "router_merge T self other =
     map_option (\<lambda>r. if r_fallback r = None then r\<lparr>r_fallback := r_fallback other\<rparr> else r)
       (merge_entries T (r_route_layers other @ r_layers other) (r_routes other) self)"

definition router_fallback :: "('t, 'h, 'w, 's) router \<Rightarrow> ('h, 'w, 's) handler \<Rightarrow> ('t, 'h, 'w, 's) router" where
  "router_fallback self h = self\<lparr>r_fallback := Some h\<rparr>"

text \<open>\<^verbatim>\<open>ServiceHandler\<close>: a service mounted as a handler.\<close>

definition service_handler :: "('h, 'w) service \<Rightarrow> ('h, 'w, 's) handler" where
  "service_handler svc = (\<lambda>req _ w. svc req w)"

definition router_route_service :: "'t trie_lib \<Rightarrow> ('t, 'h, 'w, 's) router \<Rightarrow> string \<Rightarrow> ('h, 'w) service
    \<Rightarrow> ('t, 'h, 'w, 's) router option" where
  "router_route_service T self path svc = router_route T self path (mr_any (service_handler svc))"

definition router_nest_service :: "'t trie_lib \<Rightarrow> (uri \<Rightarrow> string \<Rightarrow> uri option) \<Rightarrow> ('t, 'h, 'w, 's) router
    \<Rightarrow> string \<Rightarrow> ('h, 'w) service \<Rightarrow> ('t, 'h, 'w, 's) router option" where
  "router_nest_service T with_pq self pre0 svc =
     (let pre = normalize_service_prefix pre0;
          service = strip_prefix_call with_pq pre svc;
          path = (if pre = ''/'' then ''/{*__rest}'' else pre @ ''/{*__rest}'')
      in case router_route_service T self pre service of
           None \<Rightarrow> None
         | Some r1 \<Rightarrow>
             (case (if pre \<noteq> ''/'' then router_route_service T r1 (pre @ ''/'') service else Some r1) of
                None \<Rightarrow> None
              | Some r2 \<Rightarrow> router_route T r2 path (mr_any (service_handler service))))"

definition router_layer :: "('t, 'h, 'w, 's) router \<Rightarrow> ('h, 'w) layer \<Rightarrow> ('t, 'h, 'w, 's) router" where
  "router_layer self l = self\<lparr>r_layers := r_layers self @ [l]\<rparr>"

definition router_route_layer :: "('t, 'h, 'w, 's) router \<Rightarrow> ('h, 'w) layer \<Rightarrow> ('t, 'h, 'w, 's) router" where
  "router_route_layer self l = self\<lparr>r_route_layers := r_route_layers self @ [l]\<rparr>"

definition router_with_state :: "('t, 'h, 'w, 's) router \<Rightarrow> 's \<Rightarrow> ('t, 'h, 'w, unit) router" where
  "router_with_state self state = \<lparr>
     r_trie = r_trie self,
     r_routes = map (\<lambda>e. \<lparr>re_pattern = re_pattern e, re_router = mr_with_state (re_router e) state,
       re_param_keys = re_param_keys e\<rparr>) (r_routes self),
     r_fallback = map_option (\<lambda>f. state_bound f state) (r_fallback self),
     r_layers = r_layers self,
     r_route_layers = r_route_layers self\<rparr>"

subsection \<open>Dispatch\<close>

definition router_not_found :: "'h http_lib \<Rightarrow> 'h response" where
  "router_not_found H =
     rb_text H ''Not Found''
       (rb_header_str H ''content-type'' ''text/plain; charset=utf-8'' (rb_with_status 404 (rb_new H)))"

definition with_matched_path :: "string \<Rightarrow> 'h response \<Rightarrow> 'h response" where
  "with_matched_path p r = r\<lparr>res_ext := (res_ext r)\<lparr>ext_matched_path := Some p\<rparr>\<rparr>"

text \<open>\<open>param_keys.get_or_init\<close>, and the loop that pushes the decoded values; indexing past
  the interned keys panics (\<open>None\<close>).\<close>

definition intern_keys :: "('h, 'w, 's) route_entry \<Rightarrow> (string \<times> string) list \<Rightarrow> string list" where
  "intern_keys e ps = (case re_param_keys e of Some ks \<Rightarrow> ks | None \<Rightarrow> map fst ps)"

fun push_params :: "string list \<Rightarrow> nat \<Rightarrow> (string \<times> string) list \<Rightarrow> path_params \<Rightarrow> path_params option" where
  "push_params keys i [] pp = Some pp"
| "push_params keys i ((_, v) # ps) pp =
     (if i < length keys then push_params keys (Suc i) ps (pp_push pp (keys ! i) (percent_decode v))
      else None)"

text \<open>The request with its captured parameters and the matched pattern recorded, and the entry
  with its keys interned.\<close>

definition annotate_request :: "('h, 'w, 's) route_entry \<Rightarrow> (string \<times> string) list \<Rightarrow> 'h request
    \<Rightarrow> 'h request option \<times> ('h, 'w, 's) route_entry" where
  "annotate_request e ps req =
     (let matched = (\<lambda>r. r\<lparr>req_ext := (req_ext r)\<lparr>ext_matched_path := Some (re_pattern e)\<rparr>\<rparr>)
      in if ps = [] then (Some (matched req), e)
         else (let keys = intern_keys e ps
               in (map_option (\<lambda>pp. matched (req\<lparr>req_ext := (req_ext req)\<lparr>ext_path_params := Some pp\<rparr>\<rparr>))
                     (push_params keys 0 ps pp_new),
                   e\<lparr>re_param_keys := Some keys\<rparr>)))"

text \<open>\<^verbatim>\<open>Router::call\<close>.\<close>

definition router_call :: "'h http_lib \<Rightarrow> 't trie_lib \<Rightarrow> ('t, 'h, 'w, 's) router \<Rightarrow> 'h request \<Rightarrow> 's \<Rightarrow> 'w
    \<Rightarrow> ('h outcome \<times> 'w) \<times> ('t, 'h, 'w, 's) router" where
  "router_call H T self req state w =
     (case trie_at T (r_trie self) (uri_path (req_uri req)) of
        Some (idx, ps) \<Rightarrow>
          (if idx < length (r_routes self)
           then (case annotate_request (r_routes self ! idx) ps req of
                   (None, e) \<Rightarrow>
                     ((Panicked ''index out of bounds'', w), self\<lparr>r_routes := (r_routes self)[idx := e]\<rparr>)
                 | (Some req', e) \<Rightarrow>
                     (let (r, mr) = mr_call H (re_router e) req' state w
                      in (then_response (with_matched_path (re_pattern e)) r,
                          self\<lparr>r_routes := (r_routes self)[idx := e\<lparr>re_router := mr\<rparr>]\<rparr>)))
           else ((Panicked ''index out of bounds'', w), self))
      | None \<Rightarrow>
          (case r_fallback self of
             Some fb \<Rightarrow> (then_response (with_matched_path ''__fallback'') (fb req state w), self)
           | None \<Rightarrow> ((Done (with_matched_path ''__unmatched'' (router_not_found H)), w), self)))"

text \<open>\<^verbatim>\<open>RouterInner\<close>, \<^verbatim>\<open>MethodRouterService\<close> and \<^verbatim>\<open>into_service\<close>.\<close>

record ('t, 'h, 'w) router_inner =
  ri_trie :: 't
  ri_routes :: "('h, 'w, unit) route_entry list"
  ri_fallback :: "('h, 'w, unit) handler option"
  ri_layered :: "('h, 'w) service option list"

definition method_router_service :: "'h http_lib \<Rightarrow> ('h, 'w, unit) method_router \<Rightarrow> ('h, 'w) service" where
  "method_router_service H mr = (\<lambda>req w. fst (mr_call H (mr_clone mr) req () w))"

definition router_inner :: "'h http_lib \<Rightarrow> ('t, 'h, 'w, unit) router \<Rightarrow> ('t, 'h, 'w) router_inner" where
  "router_inner H self = \<lparr>
     ri_trie = r_trie self,
     ri_routes = r_routes self,
     ri_fallback = r_fallback self,
     ri_layered = map (\<lambda>e. if r_route_layers self = [] then None
         else Some (apply_layers (method_router_service H (mr_clone (re_router e))) (r_route_layers self)))
       (r_routes self)\<rparr>"

definition ri_dispatch :: "'h http_lib \<Rightarrow> 't trie_lib \<Rightarrow> ('t, 'h, 'w) router_inner \<Rightarrow> 'h request \<Rightarrow> 'w
    \<Rightarrow> ('h outcome \<times> 'w) \<times> ('t, 'h, 'w) router_inner" where
  "ri_dispatch H T self req w =
     (case trie_at T (ri_trie self) (uri_path (req_uri req)) of
        Some (idx, ps) \<Rightarrow>
          (if idx < length (ri_routes self) \<and> idx < length (ri_layered self)
           then (case annotate_request (ri_routes self ! idx) ps req of
                   (None, e) \<Rightarrow>
                     ((Panicked ''index out of bounds'', w), self\<lparr>ri_routes := (ri_routes self)[idx := e]\<rparr>)
                 | (Some req', e) \<Rightarrow>
                     (let r = (case ri_layered self ! idx of
                                 Some svc \<Rightarrow> oneshot svc req' w
                               | None \<Rightarrow> fst (mr_call H (mr_clone (re_router e)) req' () w))
                      in (then_response (with_matched_path (re_pattern e)) r,
                          self\<lparr>ri_routes := (ri_routes self)[idx := e]\<rparr>)))
           else ((Panicked ''index out of bounds'', w), self))
      | None \<Rightarrow>
          (case ri_fallback self of
             Some fb \<Rightarrow> (then_response (with_matched_path ''__fallback'') (fb req () w), self)
           | None \<Rightarrow> ((Done (with_matched_path ''__unmatched'' (router_not_found H)), w), self)))"

text \<open>The parameter-key cache of the shared \<^verbatim>\<open>RouterInner\<close> is left as built; that it never
  changes an answer is a theorem below.\<close>

definition router_into_service :: "'h http_lib \<Rightarrow> 't trie_lib \<Rightarrow> ('t, 'h, 'w, unit) router \<Rightarrow> ('h, 'w) service" where
  "router_into_service H T self =
     apply_layers (\<lambda>req w. fst (ri_dispatch H T (router_inner H self) req w)) (r_layers self)"


subsection \<open>Invariants\<close>

text \<open>\<open>routes t\<close> is the ghost map of the patterns in the trie \<open>t\<close> and \<open>names p\<close> the parameter
  names of pattern \<open>p\<close> in order.\<close>

definition entry_ok :: "(string \<Rightarrow> string list) \<Rightarrow> 's \<Rightarrow> ('h, 'w, 's) route_entry \<Rightarrow> bool" where
  "entry_ok names st e \<longleftrightarrow> mr_wf (re_router e) \<and> baked_ok st (re_router e) \<and>
     (re_param_keys e = None \<or> re_param_keys e = Some (names (re_pattern e)))"

definition index_ok :: "(string \<rightharpoonup> nat) \<Rightarrow> ('h, 'w, 's) route_entry list \<Rightarrow> bool" where
  "index_ok m es \<longleftrightarrow> (\<forall>p i. m p = Some i \<longleftrightarrow> i < length es \<and> re_pattern (es ! i) = p)"

definition router_wf :: "('t \<Rightarrow> string \<rightharpoonup> nat) \<Rightarrow> (string \<Rightarrow> string list) \<Rightarrow> 's
    \<Rightarrow> ('t, 'h, 'w, 's) router \<Rightarrow> bool" where
  "router_wf routes names st r \<longleftrightarrow>
     index_ok (routes (r_trie r)) (r_routes r) \<and> list_all (entry_ok names st) (r_routes r)"

lemma index_ok_Nil: "index_ok Map.empty []"
  by (simp add: index_ok_def)

lemma index_ok_snoc:
  assumes "index_ok m es" and "m p = None" and "re_pattern e = p"
  shows "index_ok (m(p \<mapsto> length es)) (es @ [e])"
proof -
  have none: "re_pattern (es ! i) \<noteq> p" if "i < length es" for i
    using assms(1,2) that unfolding index_ok_def by (metis option.distinct(1))
  show ?thesis
    unfolding index_ok_def
  proof (intro allI)
    fix q i
    show "(m(p \<mapsto> length es)) q = Some i \<longleftrightarrow>
        i < length (es @ [e]) \<and> re_pattern ((es @ [e]) ! i) = q"
      using assms none [of i] unfolding index_ok_def
      by (cases "q = p"; cases "i < length es"; cases "i = length es")
        (auto simp: nth_append)
  qed
qed

lemma index_ok_patterns:
  "index_ok m es \<Longrightarrow> map re_pattern fs = map re_pattern es \<Longrightarrow> index_ok m fs"
  unfolding index_ok_def by (metis length_map nth_map)

lemma index_ok_distinct: "index_ok m es \<Longrightarrow> distinct (map re_pattern es)"
  unfolding index_ok_def distinct_conv_nth by (metis length_map nth_map option.inject)

lemma entry_ok_new [wf_intros]:
  "mr_wf mr \<Longrightarrow> baked_ok st mr \<Longrightarrow> entry_ok names st (route_entry_new p mr)"
  by (simp add: entry_ok_def route_entry_new_def)

lemma entry_ok_extend [wf_intros]:
  "entry_ok names st e \<Longrightarrow>
     entry_ok names st (e\<lparr>re_router := mr_extend_layers (re_router e) ls\<rparr>)"
  by (simp add: entry_ok_def wf_intros)

lemma route_entry_new_sel [simp]:
  "re_pattern (route_entry_new p mr) = p" "re_router (route_entry_new p mr) = mr"
  "re_param_keys (route_entry_new p mr) = None"
  by (simp_all add: route_entry_new_def)

lemma merge_into_entry_ok:
  assumes "merge_into_entry p mr es = Some (Some fs)" and "mr_wf mr"
    and "list_all (entry_ok names st) es"
  shows "map re_pattern fs = map re_pattern es \<and> list_all (entry_ok names st) fs"
  using assms
proof (induction es arbitrary: fs)
  case (Cons e es)
  show ?case
  proof (cases "re_pattern e = p")
    case True
    then obtain m where "mr_merge (re_router e) mr = Some m" "fs = e\<lparr>re_router := m\<rparr> # es"
      using Cons.prems by auto
    then show ?thesis
      using Cons.prems mr_wf_merge [of "re_router e" mr m] baked_ok_no_cache(6) [of "re_router e" mr m]
      by (simp add: entry_ok_def)
  qed (use Cons in auto)
qed simp

lemma mr_any_ok: "mr_wf (mr_any h)" "baked_ok st (mr_any h)"
  by (simp_all add: mr_any_def mr_wf_on mr_wf_new baked_ok_no_cache)

subsection \<open>Laws of the trie\<close>

definition is_static :: "string \<Rightarrow> bool" where
  "is_static p \<longleftrightarrow> list_all (\<lambda>c. c \<notin> {CHR ''{'', CHR ''}''}) p"

locale path_trie =
  fixes T :: "'t trie_lib"
    and routes :: "'t \<Rightarrow> string \<rightharpoonup> nat"
    and names :: "string \<Rightarrow> string list"
  assumes routes_new: "routes (trie_new T) = Map.empty"
    and routes_insert: "trie_insert T t p v = Some t' \<Longrightarrow> routes t p = None \<and> routes t' = (routes t)(p \<mapsto> v)"
    and at_registered: "trie_at T t path = Some (v, ps) \<Longrightarrow> \<exists>p. routes t p = Some v \<and> map fst ps = names p"
    and at_static: "is_static p \<Longrightarrow> routes t p = Some v \<Longrightarrow> trie_at T t p = Some (v, [])"
begin

lemma wf_new: "router_wf routes names st (router_new T)"
  by (simp add: router_wf_def router_new_def routes_new index_ok_Nil)

lemma wf_push:
  assumes "router_wf routes names st r" and "entry_ok names st e"
    and "trie_insert T (r_trie r) (re_pattern e) (length (r_routes r)) = Some t"
  shows "router_wf routes names st (r\<lparr>r_trie := t, r_routes := r_routes r @ [e]\<rparr>)"
  using assms routes_insert [OF assms(3)]
  by (simp add: router_wf_def index_ok_snoc)

lemma wf_route:
  assumes "router_wf routes names st r" and "mr_wf mr" and "baked_ok st mr"
    and "router_route T r p mr = Some r'"
  shows "router_wf routes names st r'"
  using assms wf_push [OF assms(1) entry_ok_new [OF assms(2,3), of names p]]
  by (auto simp: router_route_def split: option.splits)

lemma wf_route_collected:
  assumes "router_wf routes names st r" and "mr_wf mr" and "baked_ok st mr"
    and "router_route_collected T r p mr = Some r'"
  shows "router_wf routes names st r'"
proof (cases "merge_into_entry p mr (r_routes r)")
  case None
  with assms show ?thesis by (auto simp: router_route_collected_def intro: wf_route)
next
  case (Some merged)
  then obtain es where "merge_into_entry p mr (r_routes r) = Some (Some es)"
    and r': "r' = r\<lparr>r_routes := es\<rparr>"
    using assms(4) by (auto simp: router_route_collected_def)
  with merge_into_entry_ok [OF this(1) assms(2)] assms(1) show ?thesis
    by (auto simp: router_wf_def r' intro: index_ok_patterns)
qed

lemma wf_nest_entries:
  assumes "router_wf routes names st r" and "list_all (entry_ok names st) es"
    and "nest_entries T pre ls es r = Some r'"
  shows "router_wf routes names st r'"
  using assms
proof (induction es arbitrary: r)
  case (Cons e es)
  let ?full = "nested_path pre (re_pattern e)"
  let ?e = "route_entry_new ?full (mr_extend_layers (re_router e) ls)"
  obtain t where t: "trie_insert T (r_trie r) ?full (length (r_routes r)) = Some t"
    and rest: "nest_entries T pre ls es (r\<lparr>r_trie := t, r_routes := r_routes r @ [?e]\<rparr>) = Some r'"
    using Cons.prems(3) by (auto simp: Let_def split: option.splits)
  have "entry_ok names st ?e"
    using Cons.prems(2) by (simp add: entry_ok_def wf_intros)
  with t have "router_wf routes names st (r\<lparr>r_trie := t, r_routes := r_routes r @ [?e]\<rparr>)"
    by (intro wf_push Cons.prems(1)) simp_all
  with Cons.IH rest Cons.prems(2) show ?case by simp
qed simp

lemma wf_nest:
  assumes "router_wf routes names st r" and "router_wf routes names st sub"
    and "router_nest T r pre sub = Some r'"
  shows "router_wf routes names st r'"
  using assms wf_nest_entries [OF assms(1)]
  by (auto simp: router_nest_def router_wf_def Let_def split: if_splits)

lemma wf_merge_entries:
  assumes "router_wf routes names st r" and "list_all (entry_ok names st) es"
    and "merge_entries T ls es r = Some r'"
  shows "router_wf routes names st r'"
  using assms
proof (induction es arbitrary: r)
  case (Cons e es)
  let ?e = "e\<lparr>re_router := mr_extend_layers (re_router e) ls\<rparr>"
  obtain t where t: "trie_insert T (r_trie r) (re_pattern e) (length (r_routes r)) = Some t"
    and rest: "merge_entries T ls es (r\<lparr>r_trie := t, r_routes := r_routes r @ [?e]\<rparr>) = Some r'"
    using Cons.prems(3) by (auto split: option.splits)
  have "router_wf routes names st (r\<lparr>r_trie := t, r_routes := r_routes r @ [?e]\<rparr>)"
    using Cons.prems t by (intro wf_push entry_ok_extend) simp_all
  with Cons.IH rest Cons.prems(2) show ?case by simp
qed simp

lemma wf_merge:
  assumes "router_wf routes names st r" and "router_wf routes names st sub"
    and "router_merge T r sub = Some r'"
  shows "router_wf routes names st r'"
proof -
  obtain r1 where "merge_entries T (r_route_layers sub @ r_layers sub) (r_routes sub) r = Some r1"
    and "r' = (if r_fallback r1 = None then r1\<lparr>r_fallback := r_fallback sub\<rparr> else r1)"
    using assms(3) by (auto simp: router_merge_def)
  with wf_merge_entries [OF assms(1)] assms(2) show ?thesis
    by (auto simp: router_wf_def)
qed

lemma wf_route_service:
  assumes "router_wf routes names st r" and "router_route_service T r p svc = Some r'"
  shows "router_wf routes names st r'"
  using assms wf_route [OF assms(1) mr_any_ok(1) mr_any_ok(2)]
  by (simp add: router_route_service_def)

lemma wf_nest_service:
  assumes "router_wf routes names st r" and "router_nest_service T with_pq r p svc = Some r'"
  shows "router_wf routes names st r'"
proof -
  let ?pre = "normalize_service_prefix p"
  let ?svc = "strip_prefix_call with_pq ?pre svc"
  obtain r1 where r1: "router_route_service T r ?pre ?svc = Some r1"
    using assms(2) by (auto simp: router_nest_service_def Let_def split: option.splits)
  obtain r2 where r2: "(if ?pre \<noteq> ''/'' then router_route_service T r1 (?pre @ ''/'') ?svc else Some r1)
      = Some r2"
    using assms(2) r1 by (auto simp: router_nest_service_def Let_def split: option.splits)
  have "router_wf routes names st r2"
    using r2 wf_route_service [OF wf_route_service [OF assms(1) r1]] wf_route_service [OF assms(1) r1]
    by (simp split: if_splits)
  with wf_route [OF _ mr_any_ok(1) mr_any_ok(2)] assms(2) r1 r2 show ?thesis
    by (simp add: router_nest_service_def Let_def)
qed


end

subsection \<open>The dispatch it implements\<close>

text \<open>Routers reachable through the builder API, from method routers that are well formed.\<close>

inductive router_built :: "'t trie_lib \<Rightarrow> (uri \<Rightarrow> string \<Rightarrow> uri option) \<Rightarrow> ('t, 'h, 'w, 's) router \<Rightarrow> bool"
  for T with_pq where
  new: "router_built T with_pq (router_new T)"
| route: "router_built T with_pq r \<Longrightarrow> mr_wf mr \<Longrightarrow> mr_baked mr = None \<Longrightarrow>
    router_route T r p mr = Some r' \<Longrightarrow> router_built T with_pq r'"
| route_collected: "router_built T with_pq r \<Longrightarrow> mr_wf mr \<Longrightarrow> mr_baked mr = None \<Longrightarrow>
    router_route_collected T r p mr = Some r' \<Longrightarrow> router_built T with_pq r'"
| nest: "router_built T with_pq r \<Longrightarrow> router_built T with_pq sub \<Longrightarrow>
    router_nest T r p sub = Some r' \<Longrightarrow> router_built T with_pq r'"
| merge: "router_built T with_pq r \<Longrightarrow> router_built T with_pq sub \<Longrightarrow>
    router_merge T r sub = Some r' \<Longrightarrow> router_built T with_pq r'"
| route_service: "router_built T with_pq r \<Longrightarrow> router_route_service T r p svc = Some r' \<Longrightarrow>
    router_built T with_pq r'"
| nest_service: "router_built T with_pq r \<Longrightarrow> router_nest_service T with_pq r p svc = Some r' \<Longrightarrow>
    router_built T with_pq r'"
| fallback: "router_built T with_pq r \<Longrightarrow> router_built T with_pq (router_fallback r h)"
| layer: "router_built T with_pq r \<Longrightarrow> router_built T with_pq (router_layer r l)"
| route_layer: "router_built T with_pq r \<Longrightarrow> router_built T with_pq (router_route_layer r l)"

definition annotated :: "string \<Rightarrow> (string \<times> string) list \<Rightarrow> 'h request \<Rightarrow> 'h request" where
  "annotated pattern ps req = req\<lparr>req_ext := (req_ext req)\<lparr>
     ext_path_params := (if ps = [] then ext_path_params (req_ext req)
       else Some (map (\<lambda>(k, v). (k, percent_decode v)) ps)),
     ext_matched_path := Some pattern\<rparr>\<rparr>"

definition router_dispatch :: "'h http_lib \<Rightarrow> 't trie_lib \<Rightarrow> ('t, 'h, 'w, 's) router \<Rightarrow> 'h request \<Rightarrow> 's \<Rightarrow> 'w
    \<Rightarrow> 'h outcome \<times> 'w" where
  "router_dispatch H T r req st w =
     (case trie_at T (r_trie r) (uri_path (req_uri req)) of
        Some (i, ps) \<Rightarrow>
          (let e = r_routes r ! i
           in then_response (with_matched_path (re_pattern e))
                (mr_dispatch H (re_router e) (annotated (re_pattern e) ps req) st w))
      | None \<Rightarrow>
          (case r_fallback r of
             Some fb \<Rightarrow> then_response (with_matched_path ''__fallback'') (fb req st w)
           | None \<Rightarrow> (Done (with_matched_path ''__unmatched'' (router_not_found H)), w)))"

lemma push_params_zip:
  "i + length ps \<le> length keys \<Longrightarrow>
   push_params keys i ps pp =
     Some (pp @ zip (take (length ps) (drop i keys)) (map (percent_decode \<circ> snd) ps))"
proof (induction keys i ps pp rule: push_params.induct)
  case (2 keys i k v ps pp)
  then have "drop i keys = keys ! i # drop (Suc i) keys"
    by (simp add: Cons_nth_drop_Suc)
  with 2 show ?case by (simp add: pp_push_def)
qed simp

lemma annotate_request_ok:
  assumes "entry_ok names st e" and "map fst ps = names (re_pattern e)"
  shows "fst (annotate_request e ps req) = Some (annotated (re_pattern e) ps req)"
    and "entry_ok names st (snd (annotate_request e ps req))"
    and "re_pattern (snd (annotate_request e ps req)) = re_pattern e"
    and "re_router (snd (annotate_request e ps req)) = re_router e"
proof -
  have keys: "intern_keys e ps = map fst ps"
    using assms by (auto simp: intern_keys_def entry_ok_def)
  have "zip (map fst ps) (map (percent_decode \<circ> snd) ps) = map (\<lambda>(k, v). (k, percent_decode v)) ps"
    by (induction ps) auto
  then have "push_params (map fst ps) 0 ps pp_new = Some (map (\<lambda>(k, v). (k, percent_decode v)) ps)"
    by (simp add: push_params_zip pp_new_def)
  then show "fst (annotate_request e ps req) = Some (annotated (re_pattern e) ps req)"
    by (simp add: annotate_request_def annotated_def keys Let_def)
  show "entry_ok names st (snd (annotate_request e ps req))"
    "re_pattern (snd (annotate_request e ps req)) = re_pattern e"
    "re_router (snd (annotate_request e ps req)) = re_router e"
    using assms by (auto simp: annotate_request_def entry_ok_def keys Let_def)
qed

lemma mr_call_keeps:
  assumes "mr_wf mr" and "baked_ok st mr"
  shows "mr_wf (snd (mr_call H mr req st w))" and "baked_ok st (snd (mr_call H mr req st w))"
  using assms by (simp_all add: mr_call_router baked_ok_bake) (simp add: mr_wf_def)

lemma index_ok_update:
  "index_ok m es \<Longrightarrow> re_pattern e = re_pattern (es ! i) \<Longrightarrow> index_ok m (es[i := e])"
  using map_update [of re_pattern es i e] list_update_id [of "map re_pattern es" i]
  by (cases "i < length es") (auto simp: list_update_beyond elim!: index_ok_patterns)

context path_trie
begin

lemma built_wf:
  assumes "router_built T with_pq r"
  shows "router_wf routes names st r"
  using assms
proof (induction rule: router_built.induct)
  case new
  show ?case by (rule wf_new)
next
  case (route r mr p r')
  then show ?case using wf_route [of st r mr p r'] by (simp add: baked_ok_def)
next
  case (route_collected r mr p r')
  then show ?case using wf_route_collected [of st r mr p r'] by (simp add: baked_ok_def)
next
  case (nest r sub p r')
  then show ?case using wf_nest [of st r sub p r'] by simp
next
  case (merge r sub r')
  then show ?case using wf_merge [of st r sub r'] by simp
next
  case (route_service r p svc r')
  then show ?case using wf_route_service [of st r p svc r'] by simp
next
  case (nest_service r p svc r')
  then show ?case using wf_nest_service [of st r with_pq p svc r'] by simp
qed (simp_all add: router_wf_def router_fallback_def router_layer_def router_route_layer_def)

text \<open>What a trie hit means for a well-formed router.\<close>

lemma at_entry:
  assumes "router_wf routes names st r" and "trie_at T (r_trie r) path = Some (i, ps)"
  shows "i < length (r_routes r)" and "map fst ps = names (re_pattern (r_routes r ! i))"
    and "entry_ok names st (r_routes r ! i)"
proof -
  obtain p where "routes (r_trie r) p = Some i" and ps: "map fst ps = names p"
    using at_registered [OF assms(2)] by blast
  with assms(1) have "i < length (r_routes r) \<and> re_pattern (r_routes r ! i) = p"
    by (simp add: router_wf_def index_ok_def)
  with assms(1) ps show "i < length (r_routes r)" "map fst ps = names (re_pattern (r_routes r ! i))"
    "entry_ok names st (r_routes r ! i)"
    by (auto simp: router_wf_def list_all_length)
qed

lemma call_hit:
  assumes "router_wf routes names st r"
    and "trie_at T (r_trie r) (uri_path (req_uri req)) = Some (i, ps)"
  shows "router_call H T r req st w =
    (let e = r_routes r ! i;
         c = mr_call H (re_router e) (annotated (re_pattern e) ps req) st w
     in (then_response (with_matched_path (re_pattern e)) (fst c),
         r\<lparr>r_routes := (r_routes r)[i := (snd (annotate_request e ps req))\<lparr>re_router := snd c\<rparr>]\<rparr>))"
  using at_entry [OF assms(1,2)] annotate_request_ok [of names st "r_routes r ! i" ps req]
  by (cases "annotate_request (r_routes r ! i) ps req")
    (simp add: router_call_def assms(2) Let_def case_prod_beta)

lemma call_dispatch:
  assumes "router_wf routes names st r"
  shows "fst (router_call H T r req st w) = router_dispatch H T r req st w"
proof (cases "trie_at T (r_trie r) (uri_path (req_uri req))")
  case (Some hit)
  obtain i ps where hit: "hit = (i, ps)" by (cases hit)
  have "baked_ok st (re_router (r_routes r ! i))"
    using at_entry(3) [OF assms] Some hit by (simp add: entry_ok_def)
  with Some hit show ?thesis
    by (simp add: call_hit [OF assms] router_dispatch_def mr_call_dispatch Let_def)
qed (simp add: router_call_def router_dispatch_def split: option.split)

text \<open>A call only fills caches: the router stays well formed and dispatches as before.\<close>

lemma call_keeps:
  assumes "router_wf routes names st r"
  shows "router_wf routes names st (snd (router_call H T r req st w))"
    and "router_dispatch H T (snd (router_call H T r req st w)) = router_dispatch H T r"
proof -
  let ?r = "snd (router_call H T r req st w)"
  have "router_wf routes names st ?r \<and> router_dispatch H T ?r = router_dispatch H T r"
  proof (cases "trie_at T (r_trie r) (uri_path (req_uri req))")
    case None
    with assms show ?thesis by (simp add: router_call_def split: option.split)
  next
    case (Some hit)
    obtain i ps where hit: "hit = (i, ps)" by (cases hit)
    let ?e = "r_routes r ! i"
    define c where "c = mr_call H (re_router ?e) (annotated (re_pattern ?e) ps req) st w"
    define e' where "e' = (snd (annotate_request ?e ps req))\<lparr>re_router := snd c\<rparr>"
    have r: "?r = r\<lparr>r_routes := (r_routes r)[i := e']\<rparr>"
      using Some hit by (simp add: call_hit [OF assms] c_def e'_def Let_def)
    note hit' = at_entry [OF assms Some [unfolded hit]]
    note ann = annotate_request_ok [OF hit'(3,2), of req]
    have ok: "entry_ok names st e'" and pat: "re_pattern e' = re_pattern ?e"
      using ann hit'(3) by (simp_all add: entry_ok_def e'_def c_def mr_call_keeps)
    have router: "mr_dispatch H (re_router e') = mr_dispatch H (re_router ?e)"
      by (simp add: e'_def c_def mr_call_router)
    have "router_wf routes names st ?r"
      using assms ok index_ok_update [OF _ pat]
      by (auto simp: router_wf_def r list_all_iff dest: set_update_subset_insert [THEN subsetD])
    moreover have "router_dispatch H T ?r = router_dispatch H T r"
      using router pat
      by (intro ext) (auto simp: router_dispatch_def r Let_def nth_list_update hit'(1)
          split: option.split)
    ultimately show ?thesis ..
  qed
  then show "router_wf routes names st ?r" "router_dispatch H T ?r = router_dispatch H T r"
    by auto
qed

lemma static_entry:
  assumes "router_wf routes names st r" and "e \<in> set (r_routes r)" and "is_static (re_pattern e)"
  shows "\<exists>i < length (r_routes r). r_routes r ! i = e \<and>
     trie_at T (r_trie r) (re_pattern e) = Some (i, [])"
proof -
  obtain i where i: "i < length (r_routes r)" "r_routes r ! i = e"
    using assms(2) by (meson in_set_conv_nth)
  with assms(1) have "routes (r_trie r) (re_pattern e) = Some i"
    by (simp add: router_wf_def index_ok_def)
  with at_static [OF assms(3)] i show ?thesis by blast
qed

lemma dispatch_static:
  assumes "router_wf routes names st r" and "e \<in> set (r_routes r)" and "is_static (re_pattern e)"
    and "uri_path (req_uri req) = re_pattern e"
  shows "router_dispatch H T r req st w =
    then_response (with_matched_path (re_pattern e))
      (mr_dispatch H (re_router e) (annotated (re_pattern e) [] req) st w)"
  using static_entry [OF assms(1-3)] assms(4) by (auto simp: router_dispatch_def Let_def)

end

subsection \<open>The served application\<close>

lemma find_map_snd: "find (\<lambda>(f, _). P f) (map (\<lambda>(f, h). (f, g h)) hs) =
    map_option (\<lambda>(f, h). (f, g h)) (find (\<lambda>(f, _). P f) hs)"
  by (induction hs) auto

lemma mr_dispatch_with_state [simp]:
  "mr_dispatch H (mr_with_state mr st) req () w = mr_dispatch H mr req st w"
proof -
  have "handler_service (state_bound h st) () = handler_service h st" for h :: "('a, 'b, 'c) handler"
    by (simp add: handler_service_def state_bound_def)
  then show ?thesis
    by (simp add: mr_dispatch_def mr_select_def mr_with_state_def find_map_snd split: option.split)
qed

lemma mr_with_state_ok: "baked_ok () (mr_with_state mr st)"
  by (rule baked_ok_no_cache)

text \<open>The reference for \<^verbatim>\<open>with_state\<close> followed by \<^verbatim>\<open>into_service\<close>: route layers wrap the
  matched path's method dispatch, router layers wrap everything.\<close>

definition app_dispatch :: "'h http_lib \<Rightarrow> 't trie_lib \<Rightarrow> ('t, 'h, 'w, 's) router \<Rightarrow> 's
    \<Rightarrow> ('h, 'w) service" where
  "app_dispatch H T r st = (\<lambda>req w.
     (case trie_at T (r_trie r) (uri_path (req_uri req)) of
        Some (i, ps) \<Rightarrow>
          (let e = r_routes r ! i
           in then_response (with_matched_path (re_pattern e))
                (apply_layers (\<lambda>rq v. mr_dispatch H (re_router e) rq st v) (r_route_layers r)
                   (annotated (re_pattern e) ps req) w))
      | None \<Rightarrow>
          (case r_fallback r of
             Some fb \<Rightarrow> then_response (with_matched_path ''__fallback'') (fb req st w)
           | None \<Rightarrow> (Done (with_matched_path ''__unmatched'' (router_not_found H)), w))))"

lemma app_dispatch_no_route_layers:
  "r_route_layers r = [] \<Longrightarrow> app_dispatch H T r st req w = router_dispatch H T r req st w"
  by (simp add: app_dispatch_def router_dispatch_def split: option.split)

lemma method_router_service_dispatch:
  "method_router_service H mr = (\<lambda>rq v. mr_dispatch H mr rq () v)"
  by (intro ext) (simp add: method_router_service_def mr_call_dispatch baked_ok_no_cache)

context path_trie
begin

lemma wf_with_state:
  assumes "router_wf routes names st r"
  shows "router_wf routes names () (router_with_state r st)"
proof -
  have "map re_pattern (r_routes (router_with_state r st)) = map re_pattern (r_routes r)"
    by (simp add: router_with_state_def comp_def)
  moreover have "list_all (entry_ok names ()) (r_routes (router_with_state r st))"
    using assms
    by (auto simp: router_wf_def router_with_state_def list_all_iff entry_ok_def
        mr_wf_with_state mr_with_state_ok)
  ultimately show ?thesis
    using assms by (auto simp: router_wf_def router_with_state_def index_ok_def)
qed

lemma ri_dispatch_app:
  assumes "router_wf routes names st r"
  shows "fst (ri_dispatch H T (router_inner H (router_with_state r st)) req w) = app_dispatch H T r st req w"
proof (cases "trie_at T (r_trie r) (uri_path (req_uri req))")
  case None
  then show ?thesis
    by (simp add: ri_dispatch_def router_inner_def router_with_state_def app_dispatch_def
        state_bound_def split: option.split)
next
  case (Some hit)
  obtain i ps where hit: "hit = (i, ps)" by (cases hit)
  let ?r = "router_with_state r st"
  let ?e = "r_routes ?r ! i"
  have at: "trie_at T (r_trie ?r) (uri_path (req_uri req)) = Some (i, ps)"
    using Some hit by (simp add: router_with_state_def)
  note entry = at_entry [OF wf_with_state [OF assms] at]
  note ann = annotate_request_ok [OF entry(3,2), of req]
  have len: "i < length (r_routes r)"
    using entry(1) by (simp add: router_with_state_def)
  have e: "re_pattern ?e = re_pattern (r_routes r ! i)"
    "re_router ?e = mr_with_state (re_router (r_routes r ! i)) st"
    using len by (simp_all add: router_with_state_def)
  have layers: "r_route_layers ?r = r_route_layers r" "length (r_routes ?r) = length (r_routes r)"
    by (simp_all add: router_with_state_def)
  have stack: "ri_layered (router_inner H ?r) ! i = (if r_route_layers r = [] then None
      else Some (apply_layers (\<lambda>rq v. mr_dispatch H (re_router (r_routes r ! i)) rq st v) (r_route_layers r)))"
    using len by (simp add: router_inner_def layers e method_router_service_dispatch)
  have inner: "ri_routes (router_inner H ?r) = r_routes ?r" "ri_trie (router_inner H ?r) = r_trie ?r"
    "length (ri_layered (router_inner H ?r)) = length (r_routes r)"
    by (simp_all add: router_inner_def layers)
  obtain e' where a: "annotate_request ?e ps req = (Some (annotated (re_pattern ?e) ps req), e')"
    using ann(1) by (cases "annotate_request ?e ps req") auto
  show ?thesis
    using ann(3,4) len
    by (simp add: ri_dispatch_def inner at layers a e stack app_dispatch_def Some hit oneshot_def
        mr_call_dispatch baked_ok_no_cache Let_def)
qed

lemma into_service_app:
  assumes "router_wf routes names st r"
  shows "router_into_service H T (router_with_state r st) =
    apply_layers (app_dispatch H T r st) (r_layers r)"
  using ri_dispatch_app [OF assms, of H]
  by (simp add: router_into_service_def) (simp add: router_with_state_def)

lemma nest_entries_sets:
  assumes "nest_entries T pre ls es r = Some r'"
  shows "set (r_routes r') = set (r_routes r) \<union>
    (\<lambda>e. route_entry_new (nested_path pre (re_pattern e)) (mr_extend_layers (re_router e) ls)) ` set es"
  using assms
  by (induction es arbitrary: r) (auto simp: Let_def split: option.splits)

end

subsection \<open>A trie that satisfies the laws\<close>

text \<open>Segment-wise matching over the list of registered patterns; an exact static match wins.\<close>

datatype seg = Lit string | Param string | CatchAll string

definition parse_seg :: "string \<Rightarrow> seg" where
  "parse_seg s =
     (case s of
        c # d # n \<Rightarrow> if c = CHR ''{'' \<and> d = CHR ''*'' then CatchAll (butlast n)
          else if c = CHR ''{'' then Param (butlast (d # n)) else Lit s
      | _ \<Rightarrow> Lit s)"

fun seg_names :: "seg list \<Rightarrow> string list" where
  "seg_names [] = []"
| "seg_names (Lit _ # ps) = seg_names ps"
| "seg_names (Param n # ps) = n # seg_names ps"
| "seg_names (CatchAll n # ps) = n # seg_names ps"

fun match_segs :: "seg list \<Rightarrow> string list \<Rightarrow> (string \<times> string) list option" where
  "match_segs [] [] = Some []"
| "match_segs (Lit l # ps) (s # ss) = (if l = s then match_segs ps ss else None)"
| "match_segs (Param n # ps) (s # ss) =
     (if s = [] then None else map_option (\<lambda>r. (n, s) # r) (match_segs ps ss))"
| "match_segs [CatchAll n] (s # ss) =
     (if s = [] \<and> ss = [] then None else Some [(n, join_with ''/'' (s # ss))])"
| "match_segs _ _ = None"

definition segs_of :: "string \<Rightarrow> seg list" where
  "segs_of p = map parse_seg (split_on (CHR ''/'') p)"

definition seg_trie_at :: "(string \<times> nat) list \<Rightarrow> string \<Rightarrow> (nat \<times> (string \<times> string) list) option" where
  "seg_trie_at t path =
     (if is_static path \<and> map_of t path \<noteq> None then Some (the (map_of t path), [])
      else (case find (\<lambda>p. match_segs (segs_of p) (split_on (CHR ''/'') path) \<noteq> None) (map fst t) of
              None \<Rightarrow> None
            | Some p \<Rightarrow> Some (the (map_of t p), the (match_segs (segs_of p) (split_on (CHR ''/'') path)))))"

definition seg_trie :: "(string \<times> nat) list trie_lib" where
  "seg_trie = \<lparr>trie_new = [],
     trie_insert = (\<lambda>t p v. if map_of t p = None then Some ((p, v) # t) else None),
     trie_at = seg_trie_at\<rparr>"

lemma match_segs_names: "match_segs ps ss = Some r \<Longrightarrow> map fst r = seg_names ps"
  by (induction ps ss arbitrary: r rule: match_segs.induct) (auto split: if_splits)

lemma seg_names_static:
  assumes "is_static p"
  shows "seg_names (segs_of p) = []"
proof -
  have "parse_seg s = Lit s" if "CHR ''{'' \<notin> set s" for s
    using that by (auto simp: parse_seg_def split: list.split)
  moreover have "CHR ''{'' \<notin> set s" if "s \<in> set (split_on (CHR ''/'') p)" for s
    using assms split_on_subset that by (fastforce simp: is_static_def list_all_iff)
  moreover have "(\<And>s. s \<in> set ss \<Longrightarrow> parse_seg s = Lit s) \<Longrightarrow> seg_names (map parse_seg ss) = []" for ss
    by (induction ss) auto
  ultimately show ?thesis
    by (simp add: segs_of_def)
qed

interpretation segs: path_trie seg_trie map_of "\<lambda>p. seg_names (segs_of p)"
proof unfold_locales
  show "map_of (trie_new seg_trie) = Map.empty"
    by (simp add: seg_trie_def)
next
  fix t p v t'
  assume "trie_insert seg_trie t p v = Some t'"
  then show "map_of t p = None \<and> map_of t' = (map_of t)(p \<mapsto> v)"
    by (auto simp: seg_trie_def split: if_splits)
next
  fix t path v ps
  assume "trie_at seg_trie t path = Some (v, ps)"
  then consider "is_static path" "map_of t path = Some v" "ps = []"
    | p where "find (\<lambda>p. match_segs (segs_of p) (split_on (CHR ''/'') path) \<noteq> None) (map fst t) = Some p"
      "v = the (map_of t p)" "ps = the (match_segs (segs_of p) (split_on (CHR ''/'') path))"
    by (auto simp: seg_trie_def seg_trie_at_def split: if_splits option.splits)
  then show "\<exists>p. map_of t p = Some v \<and> map fst ps = seg_names (segs_of p)"
  proof cases
    case 1
    then show ?thesis by (auto simp: seg_names_static)
  next
    case (2 p)
    then have "p \<in> fst ` set t" and "match_segs (segs_of p) (split_on (CHR ''/'') path) = Some ps"
      by (auto simp: find_Some_iff)
    with 2(2) show ?thesis
      by (metis map_of_eq_None_iff match_segs_names option.collapse)
  qed
next
  fix p :: string and t :: "(string \<times> nat) list" and v
  assume "is_static p" "map_of t p = Some v"
  then show "trie_at seg_trie t p = Some (v, [])"
    by (simp add: seg_trie_def seg_trie_at_def)
qed

lemma seg_path_trie: "path_trie seg_trie map_of (\<lambda>p. seg_names (segs_of p))"
  by (rule segs.path_trie_axioms)

subsection \<open>Properties\<close>

fun router_run :: "'h http_lib \<Rightarrow> 't trie_lib \<Rightarrow> ('t, 'h, 'w, 's) router \<Rightarrow> 's \<Rightarrow> 'h request list \<Rightarrow> 'w
    \<Rightarrow> 'h outcome list \<times> 'w" where
  "router_run H T r st [] w = ([], w)"
| "router_run H T r st (q # qs) w =
     (let ((o1, w1), r1) = router_call H T r q st w; (os, w2) = router_run H T r1 st qs w1
      in (o1 # os, w2))"

fun router_run_plain :: "'h http_lib \<Rightarrow> 't trie_lib \<Rightarrow> ('t, 'h, 'w, 's) router \<Rightarrow> 's \<Rightarrow> 'h request list \<Rightarrow> 'w
    \<Rightarrow> 'h outcome list \<times> 'w" where
  "router_run_plain H T r st [] w = ([], w)"
| "router_run_plain H T r st (q # qs) w =
     (let (o1, w1) = router_dispatch H T r q st w; (os, w2) = router_run_plain H T r st qs w1
      in (o1 # os, w2))"

lemma router_run_plain_cong:
  "router_dispatch H T r = router_dispatch H T r' \<Longrightarrow>
   router_run_plain H T r st qs w = router_run_plain H T r' st qs w"
  by (induction qs arbitrary: w) simp_all

lemma router_run_wf:
  assumes "path_trie T routes names" and "router_wf routes names st r"
  shows "router_run H T r st qs w = router_run_plain H T r st qs w"
  using assms(2)
proof (induction qs arbitrary: r w)
  case (Cons q qs)
  note keeps = path_trie.call_keeps [OF assms(1) Cons.prems, of H q w]
  show ?case
    using Cons.IH [OF keeps(1)] router_run_plain_cong [OF keeps(2)]
      path_trie.call_dispatch [OF assms(1) Cons.prems, of H q w]
    by (cases "router_call H T r q st w") (auto simp: Let_def case_prod_beta)
qed simp

definition demo_app :: "((string \<times> nat) list, alist_headers, nat, unit) router" where
  "demo_app = the (router_route seg_trie (router_new seg_trie) ''/users/{id}''
     (mr_get mr_new (\<lambda>req st w. counting_service req w)))"

definition demo_nested :: "((string \<times> nat) list, alist_headers, nat, unit) router" where
  "demo_nested = the (router_route seg_trie (router_new seg_trie) ''/ping''
     (mr_get mr_new (\<lambda>req st w. counting_service req w)))"

lemma demo_get_ok:
  "mr_wf (mr_get mr_new h)" "mr_baked (mr_get mr_new h) = None"
  by (simp_all add: mr_get_def mr_wf_on mr_wf_new) (simp add: mr_on_def)

lemma demo_route:
  "router_route seg_trie (router_new seg_trie) p mr =
     Some (the (router_route seg_trie (router_new seg_trie) p mr))"
  by (simp add: router_route_def router_new_def seg_trie_def)

lemma demo_app_built: "router_built seg_trie with_pq demo_app"
  unfolding demo_app_def by (rule router_built.route [OF router_built.new demo_get_ok demo_route])

lemma demo_nested_built: "router_built seg_trie with_pq demo_nested"
  unfolding demo_nested_def by (rule router_built.route [OF router_built.new demo_get_ok demo_route])

text \<open>C1: Any sequence of requests to a router built through its API behaves as the plain
  dispatch: the pattern the trie reports is looked up at a valid index, its parameters are the
  percent-decoded captures under their names, the matched pattern is recorded on request and
  response, and neither the cached parameter names nor the cached layer stacks ever show.\<close>

theorem router_run_refines:
  assumes "path_trie T routes names" and "router_built T with_pq r"
  shows "router_run H T r st qs w = router_run_plain H T r st qs w"
  by (rule router_run_wf [OF assms(1) path_trie.built_wf [OF assms]])

theorem router_run_refines_witness:
  "router_run alist_lib seg_trie demo_app () [sample_request Get ''/users/7'' [], sample_request Get ''/x'' []] 0
   = router_run_plain alist_lib seg_trie demo_app () [sample_request Get ''/users/7'' [], sample_request Get ''/x'' []] 0"
  by (rule router_run_refines [OF seg_path_trie demo_app_built [of simple_with_pq]])

text \<open>C2: The served application, \<^verbatim>\<open>with_state\<close> followed by \<^verbatim>\<open>into_service\<close>, is the plain
  dispatch of the router it was built from: route layers around the method dispatch of a
  matched path and only there, router layers around everything.\<close>

theorem router_into_service_refines:
  assumes "path_trie T routes names" and "router_built T with_pq r"
  shows "router_into_service H T (router_with_state r st) = apply_layers (app_dispatch H T r st) (r_layers r)"
  by (rule path_trie.into_service_app [OF assms(1) path_trie.built_wf [OF assms]])

theorem router_into_service_refines_witness:
  "router_into_service alist_lib seg_trie (router_with_state demo_app ())
   = apply_layers (app_dispatch alist_lib seg_trie demo_app ()) (r_layers demo_app)"
  by (rule router_into_service_refines [OF seg_path_trie demo_app_built [of simple_with_pq]])

text \<open>Nesting keeps every route reachable.  A static route of the sub-router answers at its
  prefixed path as its method router with the sub-router's route layers and layers folded on
  top, and every static route of the outer router answers as before.\<close>

theorem router_nest_static:
  assumes "path_trie T routes names" and "router_built T with_pq r" and "router_built T with_pq sub"
    and "router_nest T r pre sub = Some r'"
    and "e \<in> set (r_routes sub)" and "full = nested_path (trim_end_matches (CHR ''/'') pre) (re_pattern e)"
    and "is_static full"
    and "f \<in> set (r_routes r)" and "is_static (re_pattern f)"
    and "uri_path (req_uri req) = full" and "uri_path (req_uri req') = re_pattern f"
  shows "router_dispatch H T r' req st w = then_response (with_matched_path full)
       (mr_dispatch H (mr_extend_layers (re_router e) (r_route_layers sub @ r_layers sub))
         (annotated full [] req) st w)
    \<and> router_dispatch H T r' req' st w = router_dispatch H T r req' st w"
proof -
  note wf = path_trie.built_wf [OF assms(1,2), of st]
    and wf' = path_trie.built_wf [OF assms(1) router_built.nest [OF assms(2-4)], of st]
  note static = path_trie.dispatch_static [OF assms(1)]
  have "nest_entries T (trim_end_matches (CHR ''/'') pre) (r_route_layers sub @ r_layers sub)
      (r_routes sub) r = Some r'"
    using assms(4) by (auto simp: router_nest_def Let_def split: if_splits)
  note sets = path_trie.nest_entries_sets [OF assms(1) this]
  let ?e = "route_entry_new full (mr_extend_layers (re_router e) (r_route_layers sub @ r_layers sub))"
  have e: "?e \<in> set (r_routes r')" and f: "f \<in> set (r_routes r')"
    using sets assms(5,6,8) by auto
  show ?thesis
    using static [OF wf' e] static [OF wf' f assms(9,11)] static [OF wf assms(8,9,11)] assms(7,10)
    by simp
qed

lemma demo_nested_routes:
  "r_routes demo_nested = [route_entry_new ''/ping'' (mr_get mr_new (\<lambda>req st w. counting_service req w))]"
  "r_fallback demo_nested = None" "r_layers demo_nested = []" "r_route_layers demo_nested = []"
  "r_trie demo_nested = [(''/ping'', 0)]"
  by (simp_all add: demo_nested_def router_route_def router_new_def seg_trie_def)

lemma demo_nest:
  "router_nest seg_trie demo_nested ''/api/'' demo_nested =
     Some (the (router_nest seg_trie demo_nested ''/api/'' demo_nested))"
  by (simp add: router_nest_def demo_nested_routes nested_path_def Let_def seg_trie_def
      trim_end_matches_def)

theorem router_nest_static_witness:
  "let r = the (router_nest seg_trie demo_nested ''/api/'' demo_nested);
       get = mr_get mr_new (\<lambda>req st w. counting_service req w);
       req = sample_request Get ''/api/ping'' []; req' = sample_request Get ''/ping'' []
   in router_dispatch alist_lib seg_trie r req () 0 =
        then_response (with_matched_path ''/api/ping'')
          (mr_dispatch alist_lib get (annotated ''/api/ping'' [] req) () 0)
    \<and> router_dispatch alist_lib seg_trie r req' () 0 = router_dispatch alist_lib seg_trie demo_nested req' () 0"
  using router_nest_static [OF seg_path_trie demo_nested_built [of simple_with_pq] demo_nested_built
      demo_nest, of "hd (r_routes demo_nested)" "''/api/ping''" "hd (r_routes demo_nested)"
      "sample_request Get ''/api/ping'' []" "sample_request Get ''/ping'' []" alist_lib "()" 0]
  by (simp add: demo_nested_routes nested_path_def trim_end_matches_def is_static_def
      sample_defs mr_extend_layers_def Let_def)

text \<open>A request whose path matches no route of a router without fallback gets 404 with the
  matched path \<^verbatim>\<open>__unmatched\<close>; no handler and no route layer runs.\<close>

theorem app_dispatch_not_found:
  assumes "header_map H" and "trie_at T (r_trie r) (uri_path (req_uri req)) = None"
    and "r_fallback r = None"
  shows "\<exists>resp. app_dispatch H T r st req w = (Done resp, w) \<and> res_status resp = 404
    \<and> ext_matched_path (res_ext resp) = Some ''__unmatched'' \<and> res_body resp = BFull ''Not Found''"
proof -
  have "list_all header_visible ''text/plain; charset=utf-8''"
    by (simp add: header_visible_def)
  note v = header_map.from_str [OF assms(1) this]
  show ?thesis
    using assms(2,3)
    by (simp add: app_dispatch_def with_matched_path_def router_not_found_def rb_defs v)
qed

theorem app_dispatch_not_found_witness:
  "\<exists>resp. app_dispatch alist_lib seg_trie demo_nested () (sample_request Get ''/nope'' []) 0 = (Done resp, 0)
    \<and> res_status resp = 404 \<and> ext_matched_path (res_ext resp) = Some ''__unmatched''
    \<and> res_body resp = BFull ''Not Found''"
  by (rule app_dispatch_not_found [OF alist_header_map])
    (simp_all add: demo_nested_routes sample_defs seg_trie_def seg_trie_at_def segs_of_def
      parse_seg_def)

text \<open>A route layer of the served application does run when a path matches and its method
  does not: a layer that answers by itself hides the 405 of the path.\<close>

theorem route_layer_sees_method_not_allowed:
  assumes "trie_at T (r_trie r) (uri_path (req_uri req)) = Some (i, ps)"
    and "mr_select (re_router (r_routes r ! i)) (req_method req) = None"
  shows "app_dispatch H T (router_route_layer r (\<lambda>_ _ w. (Done resp, w))) st req w =
      (Done (with_matched_path (re_pattern (r_routes r ! i)) resp), w)
    \<and> router_dispatch H T r req st w =
      (Done (with_matched_path (re_pattern (r_routes r ! i))
         (method_not_allowed_response H (mr_allow (re_router (r_routes r ! i))))), w)"
  using assms
  by (simp add: app_dispatch_def router_dispatch_def router_route_layer_def apply_layers_append
      apply_layers_def mr_dispatch_def annotated_def Let_def)

theorem route_layer_sees_method_not_allowed_witness:
  "app_dispatch alist_lib seg_trie
     (router_route_layer demo_nested (\<lambda>_ _ w. (Done (sample_response 401 [] ''no''), w))) ()
     (sample_request Post ''/ping'' []) (0::nat)
   = (Done (with_matched_path ''/ping'' (sample_response 401 [] ''no'')), 0)"
  using route_layer_sees_method_not_allowed [of seg_trie demo_nested "sample_request Post ''/ping'' []"
      0 "[]" alist_lib "sample_response 401 [] ''no''" "()" 0]
  by (simp add: demo_nested_routes sample_defs seg_trie_def seg_trie_at_def is_static_def mr_select_def
      mr_matched_def mr_get_def mr_on_def mr_new_def mf_matches_bit MF_GET_def bit_1_iff)

lemma str_eq_loop_eq: "length a = length b \<Longrightarrow> str_eq_loop a b \<longleftrightarrow> a = b"
  by (induction a b rule: str_eq_loop.induct) auto

lemma str_eq_iff [simp]: "str_eq a b \<longleftrightarrow> a = b"
  by (auto simp: str_eq_def str_eq_loop_eq)

lemma ordered_pair_Cons:
  "(\<exists>i j. i < j \<and> j < length (x # xs) \<and> P ((x # xs) ! i) ((x # xs) ! j)) \<longleftrightarrow>
     (\<exists>y \<in> set xs. P x y) \<or> (\<exists>i j. i < j \<and> j < length xs \<and> P (xs ! i) (xs ! j))" (is "?L \<longleftrightarrow> ?R")
proof
  assume ?L
  then obtain i j where "i < Suc j" "j < length xs" "P ((x # xs) ! i) (xs ! j)"
    by (metis (no_types, lifting) Suc_less_eq length_Cons less_imp_Suc_add nth_Cons_Suc)
  then show ?R by (cases i) auto
next
  assume ?R
  then show ?L
  proof
    assume "\<exists>y \<in> set xs. P x y"
    then obtain j where "j < length xs" "P x (xs ! j)" by (metis in_set_conv_nth)
    then show ?L by (intro exI [of _ 0] exI [of _ "Suc j"]) simp
  next
    assume "\<exists>i j. i < j \<and> j < length xs \<and> P (xs ! i) (xs ! j)"
    then obtain i j where "i < j" "j < length xs" "P (xs ! i) (xs ! j)" by blast
    then show ?L by (intro exI [of _ "Suc i"] exI [of _ "Suc j"]) simp
  qed
qed

lemma conflict_with_iff:
  "conflict_with r qs \<longleftrightarrow> (\<exists>q \<in> set qs. rm_path r = rm_path q \<and> rm_method_mask r AND rm_method_mask q \<noteq> 0)"
  by (induction qs) auto

text \<open>The compile-time check of a route set fails exactly when two of its routes have the
  same path and share a method.\<close>

theorem assert_no_route_conflicts_iff:
  "assert_no_route_conflicts rs = None \<longleftrightarrow>
     (\<exists>i j. i < j \<and> j < length rs \<and> rm_path (rs ! i) = rm_path (rs ! j)
        \<and> rm_method_mask (rs ! i) AND rm_method_mask (rs ! j) \<noteq> 0)"
proof -
  let ?P = "\<lambda>a b. rm_path a = rm_path b \<and> rm_method_mask a AND rm_method_mask b \<noteq> 0"
  have "route_conflict_count rs \<noteq> 0 \<longleftrightarrow> (\<exists>i j. i < j \<and> j < length rs \<and> ?P (rs ! i) (rs ! j))"
  proof (induction rs)
    case (Cons r rs)
    show ?case
      unfolding ordered_pair_Cons [of r rs ?P] using Cons.IH conflict_with_iff [of r rs]
      by (cases "conflict_with r rs") (simp, fastforce)+
  qed simp
  then show ?thesis by (simp add: assert_no_route_conflicts_def)
qed

end
