(* ===== verification/Rate_Limit.thy ===== *)
theory Rate_Limit
  imports Http
begin

text \<open>
  Token-bucket rate limiting, arvik-middleware/src/rate_limit.rs.

  A \<open>bucket\<close> and the sharded \<open>bucket_store\<close> are records as in the code; the hash function of
  the store is a parameter.  \<^verbatim>\<open>f64\<close> arithmetic is modelled on exact reals, with the infinity a
  division by zero yields as a value of its own, and time is the reading of the monotonic clock
  in seconds, read once per call.

  \<open>level\<close> is the abstract view of a store: the tokens each key has at a point in time.  It hides
  shards, lazily created buckets and the sweep of idle buckets.
\<close>

subsection \<open>Buckets\<close>

datatype f64 = Fin real | PosInf

definition f64_div :: "real \<Rightarrow> real \<Rightarrow> f64" where
  "f64_div a b = (if b = 0 then PosInf else Fin (a / b))"

definition U64_MAX :: nat where "U64_MAX = 2 ^ 64 - 1"

text \<open>\<^verbatim>\<open>x.ceil() as u64\<close> saturates.\<close>

fun ceil_as_u64 :: "f64 \<Rightarrow> nat" where
  "ceil_as_u64 (Fin r) = min U64_MAX (nat \<lceil>r\<rceil>)"
| "ceil_as_u64 PosInf = U64_MAX"

definition F64_MIN_POSITIVE :: real where "F64_MIN_POSITIVE = (1 / 2) ^ 1022"

definition SHARDS :: nat where "SHARDS = 32"
definition SWEEP_EVERY :: u64 where "SWEEP_EVERY = 4096"
definition IDLE_TTL :: real where "IDLE_TTL = 300"
definition MAX_HEADER_KEY_LEN :: nat where "MAX_HEADER_KEY_LEN = 128"

text \<open>A \<^verbatim>\<open>Duration\<close> is a number of nanoseconds.\<close>

type_synonym duration = nat

definition as_secs_f64 :: "duration \<Rightarrow> real" where
  "as_secs_f64 d = real d / 10 ^ 9"

record bucket =
  b_tokens :: real
  b_capacity :: real
  b_refill_rate :: real
  b_last_refill :: real
  b_last_seen :: real

definition bucket_new :: "nat \<Rightarrow> duration \<Rightarrow> real \<Rightarrow> bucket" where
  "bucket_new capacity window now = \<lparr>
     b_tokens = real capacity,
     b_capacity = real capacity,
     b_refill_rate = real capacity / max (as_secs_f64 window) F64_MIN_POSITIVE,
     b_last_refill = now,
     b_last_seen = now\<rparr>"

text \<open>\<^verbatim>\<open>duration_since\<close> saturates at zero.\<close>

definition refilled :: "bucket \<Rightarrow> real \<Rightarrow> real" where
  "refilled b now =
     min (b_tokens b + max 0 (now - b_last_refill b) * b_refill_rate b) (b_capacity b)"

definition bucket_try_consume :: "bucket \<Rightarrow> real \<Rightarrow> f64 option \<times> bucket" where
  "bucket_try_consume self now =
     (let tokens = refilled self now;
          self' = self\<lparr>b_tokens := tokens, b_last_refill := now, b_last_seen := now\<rparr>
      in if tokens \<ge> 1 then (None, self'\<lparr>b_tokens := tokens - 1\<rparr>)
         else (Some (f64_div (1 - tokens) (b_refill_rate self)), self'))"

subsection \<open>The sharded store\<close>

record shard =
  sh_buckets :: "string \<rightharpoonup> bucket"
  sh_calls :: u64

record bucket_store =
  bs_shards :: "shard list"
  bs_hasher :: "string \<Rightarrow> u64"

definition bucket_store_new :: "(string \<Rightarrow> u64) \<Rightarrow> bucket_store" where
  "bucket_store_new hasher =
     \<lparr>bs_shards = replicate SHARDS \<lparr>sh_buckets = Map.empty, sh_calls = 0\<rparr>, bs_hasher = hasher\<rparr>"

definition shard_index :: "bucket_store \<Rightarrow> string \<Rightarrow> nat" where
  "shard_index self key = unat (bs_hasher self key mod of_nat (length (bs_shards self)))"

definition sweep :: "real \<Rightarrow> (string \<rightharpoonup> bucket) \<Rightarrow> string \<rightharpoonup> bucket" where
  "sweep now m = (\<lambda>k. case m k of
     Some b \<Rightarrow> if max 0 (now - b_last_seen b) < IDLE_TTL then Some b else None | None \<Rightarrow> None)"

text \<open>One step here.  The source takes the lock of the shard once for the sweep and once more for the bucket; a
  request of the shard that comes between sees the store as if it had done the sweep itself.\<close>

definition store_try_consume :: "bucket_store \<Rightarrow> string \<Rightarrow> nat \<Rightarrow> duration \<Rightarrow> real
    \<Rightarrow> f64 option \<times> bucket_store" where
  "store_try_consume self key capacity window now =
     (let idx = shard_index self key;
          shard = bs_shards self ! idx;
          buckets = (if sh_calls shard mod SWEEP_EVERY = 0 then sweep now (sh_buckets shard)
                     else sh_buckets shard);
          (outcome, bucket) =
            (case buckets key of
               Some b \<Rightarrow> bucket_try_consume b now
             | None \<Rightarrow> bucket_try_consume (bucket_new capacity window now) now)
      in (outcome, self\<lparr>bs_shards := (bs_shards self)[idx :=
            \<lparr>sh_buckets = buckets(key \<mapsto> bucket), sh_calls = sh_calls shard + 1\<rparr>]\<rparr>))"

subsection \<open>Keys\<close>

text \<open>IP addresses are kept in their canonical text form; \<open>parse_ip\<close> is \<^verbatim>\<open>str::parse::<IpAddr>\<close>
  followed by \<^verbatim>\<open>to_string\<close>.\<close>

datatype proxy_trust = Never | Trusted "string list"

datatype key_extractor = IpAddress | KeyHeader string | Global

fun xff_walk :: "(string \<Rightarrow> string option) \<Rightarrow> string list \<Rightarrow> string list \<Rightarrow> string option" where
  "xff_walk parse_ip proxies [] = None"
| "xff_walk parse_ip proxies (c # cs) =
     (let candidate = trim c
      in if candidate = [] then xff_walk parse_ip proxies cs
         else case parse_ip candidate of
                Some ip \<Rightarrow> if ip \<notin> set proxies then Some ip else xff_walk parse_ip proxies cs
              | None \<Rightarrow> None)"

definition extract_ip :: "'h http_lib \<Rightarrow> (string \<Rightarrow> string option) \<Rightarrow> 'h request \<Rightarrow> proxy_trust \<Rightarrow> string" where
  "extract_ip H parse_ip req trust =
     (case ext_peer_ip (req_ext req) of
        None \<Rightarrow> ''unknown''
      | Some peer \<Rightarrow>
          (case trust of
             Never \<Rightarrow> peer
           | Trusted proxies \<Rightarrow>
               if peer \<notin> set proxies then peer
               else (case Option.bind (hm_get H (req_headers req) ''x-forwarded-for'') (hv_to_str H) of
                       None \<Rightarrow> peer
                     | Some forwarded \<Rightarrow>
                         (case xff_walk parse_ip proxies (rev (split_on (CHR '','') forwarded)) of
                            Some ip \<Rightarrow> ip
                          | None \<Rightarrow> peer))))"

text \<open>\<^verbatim>\<open>HeaderMap::get\<close> of a text looks its lower-case form up.\<close>

definition extract_key :: "'h http_lib \<Rightarrow> (string \<Rightarrow> string option) \<Rightarrow> key_extractor \<Rightarrow> 'h request
    \<Rightarrow> proxy_trust \<Rightarrow> string" where
  "extract_key H parse_ip self req trust =
     (case self of
        IpAddress \<Rightarrow> extract_ip H parse_ip req trust
      | KeyHeader name \<Rightarrow>
          take MAX_HEADER_KEY_LEN (trim
            (case Option.bind (hm_get H (req_headers req) (to_ascii_lowercase name)) (hv_to_str H) of
               Some raw \<Rightarrow> raw | None \<Rightarrow> ''unknown''))
      | Global \<Rightarrow> ''__global__'')"

subsection \<open>The layer\<close>

record rate_limit_layer =
  rl_capacity :: nat
  rl_window :: duration
  rl_extractor :: key_extractor
  rl_proxy_trust :: proxy_trust

text \<open>\<^verbatim>\<open>new\<close> panics on an empty window.\<close>

definition rate_limit_new :: "nat \<Rightarrow> duration \<Rightarrow> rate_limit_layer option" where
  "rate_limit_new capacity window =
     (if window = 0 then None
      else Some \<lparr>rl_capacity = capacity, rl_window = window, rl_extractor = IpAddress,
                 rl_proxy_trust = Never\<rparr>)"

definition trust_proxies :: "rate_limit_layer \<Rightarrow> string list \<Rightarrow> rate_limit_layer" where
  "trust_proxies self proxies = self\<lparr>rl_proxy_trust := Trusted proxies\<rparr>"
definition by_header :: "rate_limit_layer \<Rightarrow> string \<Rightarrow> rate_limit_layer" where
  "by_header self name = self\<lparr>rl_extractor := KeyHeader name\<rparr>"
definition global :: "rate_limit_layer \<Rightarrow> rate_limit_layer" where
  "global self = self\<lparr>rl_extractor := Global\<rparr>"
definition with_extractor :: "rate_limit_layer \<Rightarrow> key_extractor \<Rightarrow> rate_limit_layer" where
  "with_extractor self extractor = self\<lparr>rl_extractor := extractor\<rparr>"

definition too_many_requests :: "'h http_lib \<Rightarrow> nat \<Rightarrow> nat \<Rightarrow> 'h outcome" where
  "too_many_requests H capacity retry =
     builder_unwrap
       (BFull (''{\"error\":\"Too Many Requests\",\"code\":429,\"retry_after\":'' @ nat_to_string retry @ ''}''))
       (rb_header_str H ''x-ratelimit-remaining'' ''0''
         (rb_header_str H ''x-ratelimit-limit'' (nat_to_string capacity)
           (rb_header_str H ''retry-after'' (nat_to_string retry)
             (rb_header_str H ''content-type'' ''application/json'' (rb_with_status 429 (rb_new H))))))"

definition rate_limit_call :: "'h http_lib \<Rightarrow> (string \<Rightarrow> string option) \<Rightarrow> rate_limit_layer
    \<Rightarrow> ('h, 'w) service \<Rightarrow> real \<Rightarrow> 'h request \<Rightarrow> bucket_store \<Rightarrow> 'w \<Rightarrow> ('h outcome \<times> 'w) \<times> bucket_store" where
  "rate_limit_call H parse_ip self inner now req store w =
     (let key = extract_key H parse_ip (rl_extractor self) req (rl_proxy_trust self);
          (retry_after, store') = store_try_consume store key (rl_capacity self) (rl_window self) now
      in (case retry_after of
            Some retry \<Rightarrow> (too_many_requests H (rl_capacity self) (ceil_as_u64 retry), w)
          | None \<Rightarrow> inner req w,
          store'))"

subsection \<open>Invariant and abstract view\<close>

definition refill_rate :: "nat \<Rightarrow> duration \<Rightarrow> real" where
  "refill_rate c w = real c / max (as_secs_f64 w) F64_MIN_POSITIVE"

definition bucket_ok :: "nat \<Rightarrow> duration \<Rightarrow> real \<Rightarrow> bucket \<Rightarrow> bool" where
  "bucket_ok c w now b \<longleftrightarrow> b_capacity b = real c \<and> b_refill_rate b = refill_rate c w \<and>
     0 \<le> b_tokens b \<and> b_tokens b \<le> real c \<and> b_last_refill b = b_last_seen b \<and> b_last_seen b \<le> now"

definition store_ok :: "nat \<Rightarrow> duration \<Rightarrow> real \<Rightarrow> bucket_store \<Rightarrow> bool" where
  "store_ok c w now st \<longleftrightarrow> length (bs_shards st) = SHARDS \<and>
     (\<forall>i < SHARDS. \<forall>k b. sh_buckets (bs_shards st ! i) k = Some b \<longrightarrow> bucket_ok c w now b)"

definition level :: "nat \<Rightarrow> bucket_store \<Rightarrow> string \<Rightarrow> real \<Rightarrow> real" where
  "level c st k t =
     (case sh_buckets (bs_shards st ! shard_index st k) k of None \<Rightarrow> real c | Some b \<Rightarrow> refilled b t)"

lemma secs_max:
  assumes "0 < w"
  shows "max (as_secs_f64 w) F64_MIN_POSITIVE = as_secs_f64 w" and "0 < as_secs_f64 w"
proof -
  have "F64_MIN_POSITIVE \<le> 1 / 10 ^ 9"
    by (simp add: F64_MIN_POSITIVE_def power_one_over)
  also have "1 / 10 ^ 9 \<le> as_secs_f64 w"
    using assms by (simp add: as_secs_f64_def)
  finally show "max (as_secs_f64 w) F64_MIN_POSITIVE = as_secs_f64 w" by simp
  show "0 < as_secs_f64 w" using assms by (simp add: as_secs_f64_def)
qed

lemma refill_rate_window: "0 < w \<Longrightarrow> refill_rate c w * as_secs_f64 w = real c"
  using secs_max [of w] by (simp add: refill_rate_def)

lemma refill_rate_nonneg: "0 \<le> refill_rate c w"
  by (simp add: refill_rate_def F64_MIN_POSITIVE_def divide_nonneg_pos less_max_iff_disj)

lemma refill_rate_pos: "0 < c \<Longrightarrow> 0 < refill_rate c w"
  by (simp add: refill_rate_def F64_MIN_POSITIVE_def divide_pos_pos less_max_iff_disj)

lemma bucket_new_ok: "bucket_ok c w now (bucket_new c w now)"
  by (simp add: bucket_ok_def bucket_new_def refill_rate_def)

lemma bucket_ok_mono: "bucket_ok c w t b \<Longrightarrow> t \<le> t' \<Longrightarrow> bucket_ok c w t' b"
  by (simp add: bucket_ok_def)

lemma refilled_new: "now \<le> t \<Longrightarrow> refilled (bucket_new c w now) t = real c"
  using mult_nonneg_nonneg [OF _ refill_rate_nonneg, of "t - now" c w]
  by (simp add: refilled_def bucket_new_def flip: refill_rate_def)

lemma refilled_range:
  assumes "bucket_ok c w t b"
  shows "0 \<le> refilled b t'" and "refilled b t' \<le> real c"
  using assms refill_rate_nonneg [of c w] by (simp_all add: refilled_def bucket_ok_def)

lemma bucket_try_ok:
  assumes "bucket_ok c w now b"
  shows "bucket_ok c w now (snd (bucket_try_consume b now))"
  using assms refilled_range [OF assms, of now]
  by (simp add: bucket_try_consume_def bucket_ok_def Let_def)

lemma bucket_try_outcome:
  "fst (bucket_try_consume b now) =
     (if refilled b now \<ge> 1 then None else Some (f64_div (1 - refilled b now) (b_refill_rate b)))"
  by (simp add: bucket_try_consume_def Let_def)

lemma bucket_try_level:
  assumes "bucket_ok c w now b" and "now \<le> t"
  shows "refilled (snd (bucket_try_consume b now)) t =
     min (refilled b now - (if refilled b now \<ge> 1 then 1 else 0) + (t - now) * refill_rate c w) (real c)"
  using assms by (simp add: bucket_try_consume_def refilled_def bucket_ok_def Let_def)

text \<open>Refilling is additive: the level at \<open>t\<close> from the level at \<open>now\<close>.\<close>

lemma refilled_later:
  assumes "bucket_ok c w now b" and "now \<le> t"
  shows "refilled b t = min (refilled b now + (t - now) * refill_rate c w) (real c)"
proof -
  have "0 \<le> (t - now) * refill_rate c w"
    using assms(2) refill_rate_nonneg by simp
  moreover have "max 0 (t - b_last_refill b) * refill_rate c w =
      max 0 (now - b_last_refill b) * refill_rate c w + (t - now) * refill_rate c w"
    using assms by (simp add: bucket_ok_def algebra_simps)
  ultimately show ?thesis
    using assms by (simp add: refilled_def bucket_ok_def min_def)
qed

text \<open>A bucket the sweep removes is a full one, as long as the window is at most \<open>IDLE_TTL\<close>.\<close>

lemma swept_is_full:
  assumes "bucket_ok c w now b" and "0 < w" and "as_secs_f64 w \<le> IDLE_TTL"
    and "\<not> max 0 (now - b_last_seen b) < IDLE_TTL" and "now \<le> t"
  shows "refilled b t = real c"
proof -
  have "as_secs_f64 w \<le> t - b_last_refill b"
    using assms by (simp add: bucket_ok_def IDLE_TTL_def)
  then have "real c \<le> (t - b_last_refill b) * refill_rate c w"
    using mult_right_mono [OF _ refill_rate_nonneg, of "as_secs_f64 w" "t - b_last_refill b" c w]
      refill_rate_window [OF assms(2), of c] by (simp add: mult.commute)
  moreover have "b_last_refill b \<le> t" using assms(1,5) by (simp add: bucket_ok_def)
  ultimately show ?thesis
    using assms(1) by (simp add: refilled_def bucket_ok_def)
qed

lemma shard_index_less: "length (bs_shards st) = SHARDS \<Longrightarrow> shard_index st k < SHARDS"
proof -
  assume len: "length (bs_shards st) = SHARDS"
  have "unat (bs_hasher st k mod 32) = unat (bs_hasher st k) mod 32"
    by (simp add: unat_mod)
  with len show ?thesis by (simp add: shard_index_def SHARDS_def)
qed

lemma store_new_ok: "store_ok c w now (bucket_store_new h)"
  by (simp add: store_ok_def bucket_store_new_def)

lemma level_new: "level c (bucket_store_new h) k t = real c"
proof -
  have "shard_index (bucket_store_new h) k < SHARDS"
    by (rule shard_index_less) (simp add: bucket_store_new_def)
  then show ?thesis by (simp add: level_def bucket_store_new_def)
qed

lemma store_ok_mono: "store_ok c w t st \<Longrightarrow> t \<le> t' \<Longrightarrow> store_ok c w t' st"
  unfolding store_ok_def using bucket_ok_mono by meson

lemma level_range:
  assumes "store_ok c w now st"
  shows "0 \<le> level c st k t" and "level c st k t \<le> real c"
proof -
  have "shard_index st k < SHARDS"
    using assms by (intro shard_index_less) (simp add: store_ok_def)
  then have "bucket_ok c w now b" if "sh_buckets (bs_shards st ! shard_index st k) k = Some b" for b
    using assms that by (simp add: store_ok_def)
  then show "0 \<le> level c st k t" "level c st k t \<le> real c"
    using refilled_range by (auto simp: level_def split: option.split)
qed

text \<open>What the shard holds for a key once it may have been swept.\<close>

definition bucket_at :: "nat \<Rightarrow> duration \<Rightarrow> real \<Rightarrow> (string \<rightharpoonup> bucket) \<Rightarrow> string \<Rightarrow> bucket" where
  "bucket_at c w now m k = (case m k of Some b \<Rightarrow> b | None \<Rightarrow> bucket_new c w now)"

definition swept :: "real \<Rightarrow> shard \<Rightarrow> string \<rightharpoonup> bucket" where
  "swept now sh = (if sh_calls sh mod SWEEP_EVERY = 0 then sweep now (sh_buckets sh) else sh_buckets sh)"

lemma swept_cases:
  "swept now sh k = sh_buckets sh k \<or>
   swept now sh k = None \<and> (\<exists>b. sh_buckets sh k = Some b \<and> \<not> max 0 (now - b_last_seen b) < IDLE_TTL)"
  by (auto simp: swept_def sweep_def split: option.split)

lemma swept_subset: "swept now sh k = Some b \<Longrightarrow> sh_buckets sh k = Some b"
  by (auto simp: swept_def sweep_def split: option.splits if_splits)

lemma store_try_consume_eq:
  "store_try_consume st k c w now =
     (let sh = bs_shards st ! shard_index st k; r = bucket_try_consume (bucket_at c w now (swept now sh) k) now
      in (fst r, st\<lparr>bs_shards := (bs_shards st)[shard_index st k :=
            \<lparr>sh_buckets = (swept now sh)(k \<mapsto> snd r), sh_calls = sh_calls sh + 1\<rparr>]\<rparr>))"
  by (simp add: store_try_consume_def bucket_at_def swept_def Let_def case_prod_beta split: option.split)

lemma store_try_consume_ok:
  assumes "store_ok c w now st"
  shows "store_ok c w now (snd (store_try_consume st k c w now))"
proof -
  let ?i = "shard_index st k"
  let ?m = "swept now (bs_shards st ! ?i)"
  have i: "?i < SHARDS" using assms by (intro shard_index_less) (simp add: store_ok_def)
  have m: "bucket_ok c w now b" if "?m k' = Some b" for k' b
    using swept_subset [OF that] assms i by (auto simp: store_ok_def)
  then have "bucket_ok c w now (bucket_at c w now ?m k)"
    by (auto simp: bucket_at_def bucket_new_ok split: option.split)
  then have "bucket_ok c w now b"
    if "(?m(k \<mapsto> snd (bucket_try_consume (bucket_at c w now ?m k) now))) k' = Some b" for k' b
    using that m bucket_try_ok by (auto split: if_splits)
  with assms i show ?thesis
    by (auto simp: store_ok_def store_try_consume_eq Let_def nth_list_update)
qed

lemma shard_index_try [simp]:
  "shard_index (snd (store_try_consume st k c w now)) k' = shard_index st k'"
  by (simp add: store_try_consume_eq Let_def shard_index_def)

text \<open>Sweeping does not change the level of any key.\<close>

lemma level_swept:
  assumes "store_ok c w now st" and "0 < w" and "as_secs_f64 w \<le> IDLE_TTL" and "now \<le> t"
  shows "refilled (bucket_at c w now (swept now (bs_shards st ! shard_index st k)) k') t =
    (case sh_buckets (bs_shards st ! shard_index st k) k' of None \<Rightarrow> real c | Some b \<Rightarrow> refilled b t)"
proof -
  have "shard_index st k < SHARDS" using assms(1) by (intro shard_index_less) (simp add: store_ok_def)
  then have "bucket_ok c w now b" if "sh_buckets (bs_shards st ! shard_index st k) k' = Some b" for b
    using assms(1) that by (auto simp: store_ok_def)
  then show ?thesis
    using swept_cases [of now "bs_shards st ! shard_index st k" k'] swept_is_full [OF _ assms(2,3) _ assms(4)]
    by (auto simp: bucket_at_def refilled_new [OF assms(4)] split: option.split)
qed

text \<open>One request, seen through \<open>level\<close>: it is admitted exactly when its key has a token, takes
  that token, and changes no other key.\<close>

lemma store_step:
  assumes "store_ok c w now st" and "0 < w" and "as_secs_f64 w \<le> IDLE_TTL"
  shows "fst (store_try_consume st k c w now) = (if level c st k now \<ge> 1 then None
      else Some (f64_div (1 - level c st k now) (refill_rate c w)))"
    and "now \<le> t \<Longrightarrow> level c (snd (store_try_consume st k c w now)) k' t =
      (if k' = k then min (level c st k now - (if level c st k now \<ge> 1 then 1 else 0)
                            + (t - now) * refill_rate c w) (real c)
       else level c st k' t)"
proof -
  let ?sh = "bs_shards st ! shard_index st k"
  let ?b = "bucket_at c w now (swept now ?sh) k"
  have i: "shard_index st k < SHARDS" using assms(1) by (intro shard_index_less) (simp add: store_ok_def)
  have lv: "refilled ?b now = level c st k now"
    using level_swept [OF assms order_refl, of k k] by (simp add: level_def)
  have ok: "bucket_ok c w now ?b"
    using assms(1) i swept_subset [of now ?sh k]
    by (auto simp: bucket_at_def bucket_new_ok store_ok_def split: option.split)
  then show "fst (store_try_consume st k c w now) = (if level c st k now \<ge> 1 then None
      else Some (f64_div (1 - level c st k now) (refill_rate c w)))"
    by (simp add: store_try_consume_eq Let_def bucket_try_outcome lv bucket_ok_def)
  assume t: "now \<le> t"
  have len: "length (bs_shards st) = SHARDS" using assms(1) by (simp add: store_ok_def)
  show "level c (snd (store_try_consume st k c w now)) k' t =
      (if k' = k then min (level c st k now - (if level c st k now \<ge> 1 then 1 else 0)
                            + (t - now) * refill_rate c w) (real c)
       else level c st k' t)"
  proof (cases "k' = k")
    case True
    have "level c (snd (store_try_consume st k c w now)) k t = refilled (snd (bucket_try_consume ?b now)) t"
      using i len by (simp only: level_def shard_index_try) (simp add: store_try_consume_eq Let_def)
    with True bucket_try_level [OF ok t] lv show ?thesis by simp
  next
    case False
    have "level c (snd (store_try_consume st k c w now)) k' t =
        (if shard_index st k' = shard_index st k
         then (case swept now ?sh k' of None \<Rightarrow> real c | Some b \<Rightarrow> refilled b t) else level c st k' t)"
      using i len False
      by (simp only: level_def shard_index_try) (simp add: store_try_consume_eq Let_def)
    moreover have "(case swept now ?sh k' of None \<Rightarrow> real c | Some b \<Rightarrow> refilled b t) =
        refilled (bucket_at c w now (swept now ?sh) k') t"
      by (simp add: bucket_at_def refilled_new [OF t] split: option.split)
    ultimately show ?thesis
      using False level_swept [OF assms t, of k k'] by (simp add: level_def)
  qed
qed

subsection \<open>Runs\<close>

text \<open>Requests \<open>(t, k)\<close>: key \<open>k\<close> at time \<open>t\<close>.  \<open>admitted\<close> counts those of one key that got through.\<close>

fun store_run :: "nat \<Rightarrow> duration \<Rightarrow> (real \<times> string) list \<Rightarrow> bucket_store \<Rightarrow> bucket_store" where
  "store_run c w [] st = st"
| "store_run c w ((t, k) # evs) st = store_run c w evs (snd (store_try_consume st k c w t))"

fun admitted :: "nat \<Rightarrow> duration \<Rightarrow> string \<Rightarrow> (real \<times> string) list \<Rightarrow> bucket_store \<Rightarrow> nat" where
  "admitted c w k [] st = 0"
| "admitted c w k ((t, k') # evs) st =
     (if k' = k \<and> fst (store_try_consume st k' c w t) = None then 1 else 0)
     + admitted c w k evs (snd (store_try_consume st k' c w t))"

fun in_order :: "real \<Rightarrow> (real \<times> string) list \<Rightarrow> real \<Rightarrow> bool" where
  "in_order t0 [] t1 \<longleftrightarrow> t0 \<le> t1"
| "in_order t0 ((t, _) # evs) t1 \<longleftrightarrow> t0 \<le> t \<and> in_order t evs t1"

lemma in_order_le: "in_order t0 evs t1 \<Longrightarrow> t0 \<le> t1"
  by (induction evs arbitrary: t0) fastforce+

lemma level_later:
  assumes "store_ok c w now st" and "now \<le> t"
  shows "level c st k t = min (level c st k now + (t - now) * refill_rate c w) (real c)"
proof -
  have "shard_index st k < SHARDS" using assms(1) by (intro shard_index_less) (simp add: store_ok_def)
  then have "bucket_ok c w now b" if "sh_buckets (bs_shards st ! shard_index st k) k = Some b" for b
    using assms(1) that by (simp add: store_ok_def)
  moreover have "0 \<le> (t - now) * refill_rate c w" using assms(2) refill_rate_nonneg by simp
  ultimately show ?thesis
    using refilled_later [OF _ assms(2)] by (auto simp: level_def split: option.split)
qed

lemma admitted_level:
  assumes "store_ok c w t0 st" and "0 < w" and "as_secs_f64 w \<le> IDLE_TTL" and "in_order t0 evs t1"
  shows "real (admitted c w k evs st) \<le> level c st k t0 + refill_rate c w * (t1 - t0)"
  using assms(1,4)
proof (induction evs arbitrary: t0 st)
  case Nil
  then show ?case
    using level_range(1) [OF Nil.prems(1), of k t0] refill_rate_nonneg [of c w] by simp
next
  case (Cons ev evs)
  obtain t k' where ev: "ev = (t, k')" by (cases ev)
  have t: "t0 \<le> t" and rest: "in_order t evs t1" using Cons.prems ev by auto
  note ok = store_ok_mono [OF Cons.prems(1) t]
  let ?st = "snd (store_try_consume st k' c w t)"
  let ?a = "if k' = k \<and> fst (store_try_consume st k' c w t) = None then 1 else 0 :: real"
  have "level c ?st k t = level c st k t - ?a"
    using level_range(2) [OF ok, of k t]
    by (cases "k' = k") (auto simp: store_step [OF ok assms(2,3)] min_def)
  moreover have "level c st k t \<le> level c st k t0 + (t - t0) * refill_rate c w"
    by (simp add: level_later [OF Cons.prems(1) t])
  moreover have "real (admitted c w k evs ?st) \<le> level c ?st k t + refill_rate c w * (t1 - t)"
    by (rule Cons.IH [OF store_try_consume_ok [OF ok] rest])
  moreover have "real (admitted c w k (ev # evs) st) = ?a + real (admitted c w k evs ?st)"
    by (auto simp: ev)
  ultimately show ?case by (simp add: algebra_simps)
qed

lemma run_other:
  assumes "store_ok c w t0 st" and "0 < w" and "as_secs_f64 w \<le> IDLE_TTL" and "in_order t0 evs t1"
    and "list_all (\<lambda>(_, k'). k' \<noteq> k) evs"
  shows "level c (store_run c w evs st) k t1 = level c st k t1 \<and> store_ok c w t1 (store_run c w evs st)"
  using assms(1,4,5)
proof (induction evs arbitrary: t0 st)
  case (Cons ev evs)
  obtain t k' where ev: "ev = (t, k')" by (cases ev)
  have t: "t0 \<le> t" and rest: "in_order t evs t1" using Cons.prems ev by auto
  have "t \<le> t1" by (rule in_order_le [OF rest])
  note ok = store_ok_mono [OF Cons.prems(1) t]
  have "level c (snd (store_try_consume st k' c w t)) k t1 = level c st k t1"
    using Cons.prems(3) ev by (auto simp: store_step(2) [OF ok assms(2,3) \<open>t \<le> t1\<close>])
  with Cons.IH [OF store_try_consume_ok [OF ok] rest] Cons.prems(3) ev show ?case by simp
qed (auto intro: store_ok_mono)

lemma xff_walk_Some:
  "xff_walk parse_ip proxies cs = Some ip \<Longrightarrow>
   \<exists>pre c post. cs = pre @ c # post \<and> parse_ip (trim c) = Some ip \<and> ip \<notin> set proxies \<and>
     (\<forall>d \<in> set pre. trim d = [] \<or> (\<exists>p \<in> set proxies. parse_ip (trim d) = Some p))"
proof (induction cs)
  case (Cons c cs)
  show ?case
  proof (cases "trim c = [] \<or> (\<exists>p \<in> set proxies. parse_ip (trim c) = Some p)")
    case True
    then have "xff_walk parse_ip proxies cs = Some ip" using Cons.prems by (auto simp: Let_def split: if_splits)
    from Cons.IH [OF this] True show ?thesis
      by (elim exE, intro exI [of _ "c # _"]) auto
  next
    case False
    then have "parse_ip (trim c) = Some ip \<and> ip \<notin> set proxies"
      using Cons.prems by (auto simp: Let_def split: option.splits if_splits)
    then show ?thesis by (intro exI [of _ "[]"] exI [of _ c] exI [of _ cs]) auto
  qed
qed simp

context header_map
begin

lemma too_many_requests_response:
  "\<exists>resp. too_many_requests H c n = Done resp \<and> res_status resp = 429 \<and>
     hm_get_all H (res_headers resp) ''retry-after'' = [nat_to_string n] \<and>
     hm_get_all H (res_headers resp) ''x-ratelimit-limit'' = [nat_to_string c]"
proof -
  have "list_all header_visible ''application/json''" "list_all header_visible ''0''"
    by (simp_all add: header_visible_def)
  then show ?thesis
    by (simp add: too_many_requests_def rb_defs from_str nat_to_string_visible get_all_simps)
qed

end

subsection \<open>Properties\<close>

text \<open>C3: The promise of the limiter.  In any stretch of time, however the requests of all
  clients interleave and from whatever state the store is in, one key gets at most
  \<open>capacity + rate * duration\<close> requests through, for windows up to the idle time after which
  buckets are dropped.\<close>

theorem rate_limit_bound:
  assumes "store_ok c w t0 st" and "0 < w" and "as_secs_f64 w \<le> IDLE_TTL" and "in_order t0 evs t1"
  shows "real (admitted c w k evs st) \<le> real c + refill_rate c w * (t1 - t0)"
  using admitted_level [OF assms, of k] level_range(2) [OF assms(1), of k t0] by linarith

theorem rate_limit_bound_witness:
  "real (admitted 2 (10 ^ 9) ''a'' [(0, ''a''), (0, ''a''), (0, ''b''), (1 / 2, ''a'')]
      (bucket_store_new (\<lambda>_. 0))) \<le> real 2 + refill_rate 2 (10 ^ 9) * (1 - 0)"
  by (rule rate_limit_bound [OF store_new_ok])
    (simp_all add: as_secs_f64_def IDLE_TTL_def)

text \<open>A refused request is told the truth.  The delay is exactly the time after which the
  next request of this key is admitted, whatever other keys do meanwhile.\<close>

theorem rate_limit_retry_exact:
  assumes "store_ok c w now st" and "0 < w" and "as_secs_f64 w \<le> IDLE_TTL" and "0 < c"
    and "fst (store_try_consume st k c w now) = Some r"
    and "in_order now evs t" and "list_all (\<lambda>(_, k'). k' \<noteq> k) evs"
  shows "\<exists>d. r = Fin d \<and> 0 < d \<and> d \<le> as_secs_f64 w \<and>
    (fst (store_try_consume (store_run c w evs (snd (store_try_consume st k c w now))) k c w t) = None
      \<longleftrightarrow> now + d \<le> t)"
proof -
  let ?l = "level c st k now" and ?rate = "refill_rate c w"
  let ?st = "snd (store_try_consume st k c w now)"
  have rate: "0 < ?rate" by (rule refill_rate_pos [OF assms(4)])
  have low: "?l < 1" and r: "r = Fin ((1 - ?l) / ?rate)"
    using assms(5) rate
    by (auto simp: store_step(1) [OF assms(1-3)] f64_div_def split: if_splits)
  note run = run_other [OF store_try_consume_ok [OF assms(1), of k] assms(2,3,6,7)]
  have lv: "level c ?st k t = min (?l + (t - now) * ?rate) (real c)"
    using low by (simp add: store_step(2) [OF assms(1-3) in_order_le [OF assms(6)]])
  have "fst (store_try_consume (store_run c w evs ?st) k c w t) = None \<longleftrightarrow> 1 \<le> level c ?st k t"
    using run by (simp add: store_step(1) [OF _ assms(2,3)])
  also have "\<dots> \<longleftrightarrow> now + (1 - ?l) / ?rate \<le> t"
    using rate assms(4) by (simp add: lv field_simps)
  finally have "fst (store_try_consume (store_run c w evs ?st) k c w t) = None \<longleftrightarrow>
      now + (1 - ?l) / ?rate \<le> t" .
  moreover have "(1 - ?l) / ?rate \<le> as_secs_f64 w"
    using rate refill_rate_window [OF assms(2), of c] level_range(1) [OF assms(1), of k now] assms(4)
    by (simp add: pos_divide_le_eq mult.commute)
  ultimately show ?thesis using r low rate by simp
qed

lemma rate_secs: "refill_rate 1 (10 ^ 9) = 1"
  using refill_rate_window [of "10 ^ 9" 1] by (simp add: as_secs_f64_def)

text \<open>The store after one request of \<^verbatim>\<open>a\<close> at time 0, capacity one per second.\<close>

definition drained :: bucket_store where
  "drained = snd (store_try_consume (bucket_store_new (\<lambda>_. 0)) ''a'' 1 (10 ^ 9) 0)"

lemma drained_ok: "store_ok 1 (10 ^ 9) 0 drained"
  unfolding drained_def by (rule store_try_consume_ok [OF store_new_ok])

lemma drained_level: "level 1 drained ''a'' 0 = 0"
  unfolding drained_def
  by (subst store_step(2) [OF store_new_ok]) (simp_all add: as_secs_f64_def IDLE_TTL_def level_new)

lemma drained_refuses: "fst (store_try_consume drained ''a'' 1 (10 ^ 9) 0) = Some (Fin 1)"
  by (subst store_step(1) [OF drained_ok])
    (simp_all add: as_secs_f64_def IDLE_TTL_def drained_level [simplified] f64_div_def
      rate_secs [simplified])

theorem rate_limit_retry_exact_witness:
  "\<exists>d. Fin 1 = Fin d \<and>
    (fst (store_try_consume (store_run 1 (10 ^ 9) [(1 / 2, ''b'')]
        (snd (store_try_consume drained ''a'' 1 (10 ^ 9) 0))) ''a'' 1 (10 ^ 9) 1) = None \<longleftrightarrow> 0 + d \<le> 1)"
  using rate_limit_retry_exact [OF drained_ok _ _ _ drained_refuses, of "[(1 / 2, ''b'')]" 1]
  by (simp add: as_secs_f64_def IDLE_TTL_def)

text \<open>A request is served by the inner service exactly when its key has a token left, and
  otherwise answered with 429 and the delay rounded up to seconds, without the inner service
  being called.\<close>

theorem rate_limit_call_outcome:
  assumes "header_map H" and "store_ok (rl_capacity rl) (rl_window rl) now st" and "0 < rl_window rl"
    and "as_secs_f64 (rl_window rl) \<le> IDLE_TTL"
    and l_def: "l = level (rl_capacity rl) st (extract_key H parse_ip (rl_extractor rl) req (rl_proxy_trust rl)) now"
  shows "if l \<ge> 1 then fst (rate_limit_call H parse_ip rl inner now req st w) = inner req w
    else \<exists>resp. fst (rate_limit_call H parse_ip rl inner now req st w) = (Done resp, w)
      \<and> res_status resp = 429
      \<and> hm_get_all H (res_headers resp) ''retry-after'' =
          [nat_to_string (ceil_as_u64 (f64_div (1 - l) (refill_rate (rl_capacity rl) (rl_window rl))))]"
proof -
  let ?k = "extract_key H parse_ip (rl_extractor rl) req (rl_proxy_trust rl)"
  obtain o1 st1 where c: "store_try_consume st ?k (rl_capacity rl) (rl_window rl) now = (o1, st1)"
    by (cases "store_try_consume st ?k (rl_capacity rl) (rl_window rl) now")
  then have "o1 = (if l \<ge> 1 then None else Some (f64_div (1 - l) (refill_rate (rl_capacity rl) (rl_window rl))))"
    using store_step(1) [OF assms(2-4), of ?k] by (simp add: l_def)
  with c show ?thesis
    using header_map.too_many_requests_response [OF assms(1)]
    by (auto simp: rate_limit_call_def)
qed

theorem rate_limit_call_outcome_witness:
  "\<exists>resp. fst (rate_limit_call alist_lib (\<lambda>_. None)
        \<lparr>rl_capacity = 1, rl_window = 10 ^ 9, rl_extractor = KeyHeader ''k'', rl_proxy_trust = Never\<rparr>
        counting_service 0 (sample_request Get ''/'' [(''k'', ''a'')]) drained 0) = (Done resp, 0)
     \<and> res_status resp = 429"
proof -
  let ?rl = "\<lparr>rl_capacity = 1, rl_window = 10 ^ 9, rl_extractor = KeyHeader ''k'', rl_proxy_trust = Never\<rparr>"
  let ?req = "sample_request Get ''/'' [(''k'', ''a'')]"
  have "to_ascii_lowercase ''k'' = ''k''" by code_simp
  then have key: "extract_key alist_lib (\<lambda>_. None) (KeyHeader ''k'') ?req Never = ''a''"
    by (simp add: extract_key_def sample_defs alist_lib_def alist_get_all_def trim_def is_ascii_ws_def
        MAX_HEADER_KEY_LEN_def header_visible_def)
  show ?thesis
    using rate_limit_call_outcome [OF alist_header_map, of ?rl 0 drained _ "\<lambda>_. None" ?req counting_service 0]
    by (simp del: One_nat_def add: drained_ok [simplified] drained_ok key drained_level as_secs_f64_def IDLE_TTL_def) blast
qed



text \<open>The sweep makes the bound fail for windows longer than \<open>IDLE_TTL\<close>: an idle bucket is
  forgotten and its key starts full, however few tokens it had.\<close>

lemma sweep_forgets:
  assumes "sh_buckets (bs_shards st ! shard_index st k) k = Some b"
    and "sh_calls (bs_shards st ! shard_index st k) mod SWEEP_EVERY = 0"
    and "IDLE_TTL \<le> now - b_last_seen b" and "0 < c"
  shows "fst (store_try_consume st k c w now) = None"
proof -
  have "swept now (bs_shards st ! shard_index st k) k = None"
    using assms(1-3) by (simp add: swept_def sweep_def)
  moreover have "refilled (bucket_new c w now) now = real c" by (rule refilled_new) simp
  ultimately show ?thesis
    using assms(4) by (simp add: store_try_consume_eq Let_def bucket_at_def bucket_try_outcome)
qed

text \<open>The limit does not hold for windows longer than the idle time: with one request per
  hour allowed, a key that was refused is admitted five minutes after its last request if the
  shard sweeps then.\<close>

theorem rate_limit_long_window_exceeded:
  "\<exists>st. store_ok 1 (3600 * 10 ^ 9) 0 st
    \<and> admitted 1 (3600 * 10 ^ 9) ''a'' [(0, ''a''), (300, ''a'')] st = 2
    \<and> real 1 + refill_rate 1 (3600 * 10 ^ 9) * (300 - 0) < 2"
proof -
  let ?st = "\<lparr>bs_shards = replicate 32 \<lparr>sh_buckets = Map.empty, sh_calls = 4095\<rparr>, bs_hasher = \<lambda>_. 0\<rparr>"
  let ?w = "3600 * 10 ^ 9 :: nat"
  let ?st1 = "snd (store_try_consume ?st ''a'' 1 ?w 0)"
  have ok: "store_ok 1 ?w 0 ?st" by (simp add: store_ok_def SHARDS_def)
  have i: "shard_index ?st ''a'' = 0" by (simp add: shard_index_def)
  have b: "bucket_at 1 ?w 0 (swept 0 (bs_shards ?st ! 0)) ''a'' = bucket_new 1 ?w 0"
    by (simp add: bucket_at_def swept_def sweep_def)
  have first: "fst (store_try_consume ?st ''a'' 1 ?w 0) = None"
    using refilled_new [of 0 0 1 ?w]
    by (simp only: store_try_consume_eq Let_def i b bucket_try_outcome) simp
  have sh: "bs_shards ?st1 ! 0 = \<lparr>sh_buckets = (swept 0 (bs_shards ?st ! 0))
      (''a'' \<mapsto> snd (bucket_try_consume (bucket_new 1 ?w 0) 0)), sh_calls = 4096\<rparr>"
    by (simp only: store_try_consume_eq Let_def i b) simp
  have seen: "b_last_seen (snd (bucket_try_consume (bucket_new 1 ?w 0) 0)) = 0"
    by (simp add: bucket_try_consume_def Let_def)
  have second: "fst (store_try_consume ?st1 ''a'' 1 ?w 300) = None"
    by (rule sweep_forgets [where b = "snd (bucket_try_consume (bucket_new 1 ?w 0) 0)"])
      (simp_all only: shard_index_try i sh, simp_all add: seen [simplified] SWEEP_EVERY_def IDLE_TTL_def)
  have "refill_rate 1 ?w * 3600 = 1"
    using refill_rate_window [of ?w 1] by (simp add: as_secs_f64_def)
  then have "real 1 + refill_rate 1 ?w * (300 - 0) < 2" by simp
  moreover have "admitted 1 ?w ''a'' [(0, ''a''), (300, ''a'')] ?st = 2"
    using first second by (simp only: admitted.simps) simp
  ultimately show ?thesis using ok by blast
qed

end
