(* ===== verification/Cors.thy ===== *)
theory Cors
  imports Http
begin

text \<open>
  Cross-origin resource sharing, arvik-middleware/src/cors.rs.

  \<open>cors_config\<close> is \<^verbatim>\<open>CorsConfig\<close> with its derived header values; the builder operations return
  \<open>None\<close> where \<^verbatim>\<open>assert_credentials_safe\<close> panics.  \<open>cors_built\<close> are the configurations the public
  API can produce, and \<open>cors_ok\<close> is their invariant: credentials only with an explicit list of
  origins, derived header values in step with the settings.
\<close>

subsection \<open>Configuration\<close>

datatype allow_origin = AnyOrigin | OriginList "string list" | MirrorOrigin
datatype allow_methods = AnyMethods | MethodList "http_method list"
datatype allow_headers = AnyHeaders | MirrorHeaders | HeaderList "string list"

record cors_config =
  cc_allow_origins :: allow_origin
  cc_allow_methods :: allow_methods
  cc_allow_headers :: allow_headers
  cc_expose_headers :: "string list"
  cc_allow_credentials :: bool
  cc_max_age_secs :: "nat option"
  cc_methods_hv :: string
  cc_allow_headers_list_hv :: "string option"
  cc_expose_hv :: "string option"
  cc_max_age_hv :: "string option"

definition derive_from :: "'h http_lib \<Rightarrow> allow_origin \<Rightarrow> allow_methods \<Rightarrow> allow_headers \<Rightarrow> string list
    \<Rightarrow> bool \<Rightarrow> nat option \<Rightarrow> cors_config" where
  "derive_from H origins methods headers expose credentials max_age = \<lparr>
     cc_allow_origins = origins,
     cc_allow_methods = methods,
     cc_allow_headers = headers,
     cc_expose_headers = expose,
     cc_allow_credentials = credentials,
     cc_max_age_secs = max_age,
     cc_methods_hv =
       (case methods of
          AnyMethods \<Rightarrow> ''GET, HEAD, POST, PUT, DELETE, PATCH, OPTIONS''
        | MethodList ms \<Rightarrow>
            (case hv_from_str H (join_with '', '' (map method_as_str ms)) of
               Some v \<Rightarrow> v | None \<Rightarrow> ''GET'')),
     cc_allow_headers_list_hv =
       (case headers of
          HeaderList hs \<Rightarrow> if hs \<noteq> [] then hv_from_str H (join_with '', '' hs) else None
        | _ \<Rightarrow> None),
     cc_expose_hv = (if expose = [] then None else hv_from_str H (join_with '', '' expose)),
     cc_max_age_hv = Option.bind max_age (\<lambda>age. hv_from_str H (nat_to_string age))\<rparr>"

definition cors_new :: "'h http_lib \<Rightarrow> cors_config" where
  "cors_new H = derive_from H (OriginList []) (MethodList [Get, Post, Put, Delete, Patch]) (HeaderList [])
     [] False (Some 3600)"

definition cors_permissive :: "'h http_lib \<Rightarrow> cors_config" where
  "cors_permissive H = derive_from H AnyOrigin AnyMethods AnyHeaders [] False (Some 86400)"

definition cors_very_permissive :: "'h http_lib \<Rightarrow> cors_config" where
  "cors_very_permissive H = derive_from H MirrorOrigin AnyMethods MirrorHeaders [] False (Some 86400)"

definition assert_credentials_safe :: "cors_config \<Rightarrow> cors_config option" where
  "assert_credentials_safe cfg =
     (if cc_allow_credentials cfg \<and> (cc_allow_origins cfg = MirrorOrigin \<or> cc_allow_origins cfg = AnyOrigin)
      then None else Some cfg)"

definition cors_mutate :: "'h http_lib \<Rightarrow> cors_config \<Rightarrow> (cors_config \<Rightarrow> cors_config) \<Rightarrow> cors_config option" where
  "cors_mutate H self f =
     (let cfg = f self
      in assert_credentials_safe (derive_from H (cc_allow_origins cfg) (cc_allow_methods cfg)
           (cc_allow_headers cfg) (cc_expose_headers cfg) (cc_allow_credentials cfg) (cc_max_age_secs cfg)))"

text \<open>\<^verbatim>\<open>IntoAllowOrigin\<close>: one value, an array or a vector all become a list.\<close>

definition cors_allow_origin :: "'h http_lib \<Rightarrow> cors_config \<Rightarrow> string list \<Rightarrow> cors_config option" where
  "cors_allow_origin H self origins = cors_mutate H self (\<lambda>c. c\<lparr>cc_allow_origins := OriginList origins\<rparr>)"
definition cors_allow_methods :: "'h http_lib \<Rightarrow> cors_config \<Rightarrow> http_method list \<Rightarrow> cors_config option" where
  "cors_allow_methods H self ms = cors_mutate H self (\<lambda>c. c\<lparr>cc_allow_methods := MethodList ms\<rparr>)"
definition cors_allow_headers :: "'h http_lib \<Rightarrow> cors_config \<Rightarrow> string list \<Rightarrow> cors_config option" where
  "cors_allow_headers H self hs = cors_mutate H self (\<lambda>c. c\<lparr>cc_allow_headers := HeaderList hs\<rparr>)"
definition cors_expose_headers :: "'h http_lib \<Rightarrow> cors_config \<Rightarrow> string list \<Rightarrow> cors_config option" where
  "cors_expose_headers H self hs = cors_mutate H self (\<lambda>c. c\<lparr>cc_expose_headers := hs\<rparr>)"
definition cors_allow_credentials :: "'h http_lib \<Rightarrow> cors_config \<Rightarrow> bool \<Rightarrow> cors_config option" where
  "cors_allow_credentials H self allow = cors_mutate H self (\<lambda>c. c\<lparr>cc_allow_credentials := allow\<rparr>)"
definition cors_max_age :: "'h http_lib \<Rightarrow> cors_config \<Rightarrow> nat \<Rightarrow> cors_config option" where
  "cors_max_age H self secs = cors_mutate H self (\<lambda>c. c\<lparr>cc_max_age_secs := Some secs\<rparr>)"

subsection \<open>Requests\<close>

definition resolved_origin :: "cors_config \<Rightarrow> string \<Rightarrow> string option" where
  "resolved_origin self origin =
     (case cc_allow_origins self of
        AnyOrigin \<Rightarrow> if \<not> cc_allow_credentials self then Some ''*'' else Some origin
      | MirrorOrigin \<Rightarrow> Some origin
      | OriginList l \<Rightarrow> if list_ex (\<lambda>o1. o1 = origin) l then Some origin else None)"

definition headers_header :: "'h http_lib \<Rightarrow> cors_config \<Rightarrow> 'h \<Rightarrow> string option" where
  "headers_header H self request_headers =
     (case cc_allow_headers self of
        AnyHeaders \<Rightarrow> Some ''*''
      | MirrorHeaders \<Rightarrow> hm_get H request_headers ''access-control-request-headers''
      | HeaderList _ \<Rightarrow> cc_allow_headers_list_hv self)"

definition rb_header_opt :: "'h http_lib \<Rightarrow> string \<Rightarrow> string option \<Rightarrow> 'h response_builder \<Rightarrow> 'h response_builder" where
  "rb_header_opt H n v b = (case v of Some x \<Rightarrow> rb_header H n x b | None \<Rightarrow> b)"

definition build_preflight :: "'h http_lib \<Rightarrow> cors_config \<Rightarrow> string \<Rightarrow> 'h request \<Rightarrow> 'h response" where
  "build_preflight H self origin req =
     (case resolved_origin self origin of
        None \<Rightarrow> rb_body H BEmpty (rb_with_status 204 (rb_new H))
      | Some allow_origin \<Rightarrow>
          (let b1 = rb_header H ''access-control-allow-methods'' (cc_methods_hv self)
                 (rb_header H ''access-control-allow-origin'' allow_origin (rb_with_status 204 (rb_new H)));
               b2 = rb_header_opt H ''access-control-allow-headers'' (headers_header H self (req_headers req)) b1;
               b3 = (if cc_allow_credentials self
                     then rb_header H ''access-control-allow-credentials'' ''true'' b2 else b2);
               b4 = rb_header_opt H ''access-control-max-age'' (cc_max_age_hv self) b3;
               b5 = rb_header H ''vary''
                 ''Origin, Access-Control-Request-Method, Access-Control-Request-Headers'' b4
           in rb_body H BEmpty b5))"

definition apply_response_headers :: "'h http_lib \<Rightarrow> cors_config \<Rightarrow> string \<Rightarrow> 'h response \<Rightarrow> 'h response" where
  "apply_response_headers H self origin response =
     (case resolved_origin self origin of
        None \<Rightarrow> response
      | Some allow_origin \<Rightarrow>
          (let h1 = hm_insert H (res_headers response) ''access-control-allow-origin'' allow_origin;
               h2 = (if cc_allow_credentials self
                     then hm_insert H h1 ''access-control-allow-credentials'' ''true'' else h1);
               h3 = (case cc_expose_hv self of
                       Some e \<Rightarrow> hm_insert H h2 ''access-control-expose-headers'' e | None \<Rightarrow> h2);
               h4 = (if cc_allow_origins self \<noteq> AnyOrigin \<or> cc_allow_credentials self
                     then hm_append H h3 ''vary'' ''origin'' else h3)
           in response\<lparr>res_headers := h4\<rparr>))"

definition cors_is_preflight :: "'h http_lib \<Rightarrow> 'h request \<Rightarrow> bool" where
  "cors_is_preflight H req \<longleftrightarrow>
     req_method req = Options \<and> hm_contains_key H (req_headers req) ''access-control-request-method''"

definition cors_call :: "'h http_lib \<Rightarrow> cors_config \<Rightarrow> ('h, 'w) layer" where
  "cors_call H config inner = (\<lambda>req w.
     (case hm_get H (req_headers req) ''origin'' of
        None \<Rightarrow> inner req w
      | Some origin \<Rightarrow>
          if cors_is_preflight H req then (Done (build_preflight H config origin req), w)
          else then_response (apply_response_headers H config origin) (inner req w)))"

subsection \<open>Invariant\<close>

inductive cors_built :: "'h http_lib \<Rightarrow> cors_config \<Rightarrow> bool" for H where
  new: "cors_built H (cors_new H)"
| permissive: "cors_built H (cors_permissive H)"
| very_permissive: "cors_built H (cors_very_permissive H)"
| allow_origin: "cors_built H c \<Longrightarrow> cors_allow_origin H c os = Some c' \<Longrightarrow> cors_built H c'"
| allow_methods: "cors_built H c \<Longrightarrow> cors_allow_methods H c ms = Some c' \<Longrightarrow> cors_built H c'"
| allow_headers: "cors_built H c \<Longrightarrow> cors_allow_headers H c hs = Some c' \<Longrightarrow> cors_built H c'"
| expose_headers: "cors_built H c \<Longrightarrow> cors_expose_headers H c hs = Some c' \<Longrightarrow> cors_built H c'"
| allow_credentials: "cors_built H c \<Longrightarrow> cors_allow_credentials H c b = Some c' \<Longrightarrow> cors_built H c'"
| max_age: "cors_built H c \<Longrightarrow> cors_max_age H c n = Some c' \<Longrightarrow> cors_built H c'"

definition cors_ok :: "'h http_lib \<Rightarrow> cors_config \<Rightarrow> bool" where
  "cors_ok H c \<longleftrightarrow> (cc_allow_credentials c \<longrightarrow> (\<exists>l. cc_allow_origins c = OriginList l)) \<and>
     c = derive_from H (cc_allow_origins c) (cc_allow_methods c) (cc_allow_headers c)
           (cc_expose_headers c) (cc_allow_credentials c) (cc_max_age_secs c)"

lemma derive_from_sel [simp]:
  "cc_allow_origins (derive_from H a b c d e f) = a" "cc_allow_methods (derive_from H a b c d e f) = b"
  "cc_allow_headers (derive_from H a b c d e f) = c" "cc_expose_headers (derive_from H a b c d e f) = d"
  "cc_allow_credentials (derive_from H a b c d e f) = e" "cc_max_age_secs (derive_from H a b c d e f) = f"
  by (simp_all add: derive_from_def)

lemma cors_mutate_ok: "cors_mutate H c f = Some c' \<Longrightarrow> cors_ok H c'"
  by (cases "cc_allow_origins (f c)")
    (auto simp: cors_mutate_def assert_credentials_safe_def cors_ok_def Let_def split: if_splits)

lemma cors_built_ok: "cors_built H c \<Longrightarrow> cors_ok H c"
  by (induction rule: cors_built.induct)
    (auto simp: cors_allow_origin_def cors_allow_methods_def cors_allow_headers_def
      cors_expose_headers_def cors_allow_credentials_def cors_max_age_def cors_new_def
      cors_permissive_def cors_very_permissive_def dest: cors_mutate_ok, auto simp: cors_ok_def)

lemma resolved_origin_list: "cc_allow_origins c = OriginList l \<Longrightarrow>
    resolved_origin c o1 = (if o1 \<in> set l then Some o1 else None)"
  by (simp add: resolved_origin_def list_ex_iff)

context header_map
begin

lemma preflight_status: "res_status (build_preflight H c o1 req) = 204"
  by (simp add: build_preflight_def rb_defs rb_header_opt_def Let_def split: option.split)

lemma preflight_headers:
  "hm_get_all H (res_headers (build_preflight H c o1 req)) ''access-control-allow-origin'' =
     (case resolved_origin c o1 of None \<Rightarrow> [] | Some a \<Rightarrow> [a])"
  "hm_get_all H (res_headers (build_preflight H c o1 req)) ''access-control-allow-credentials'' =
     (if cc_allow_credentials c \<and> resolved_origin c o1 \<noteq> None then [''true''] else [])"
  by (simp_all add: build_preflight_def rb_defs rb_header_opt_def Let_def get_all_simps split: option.split)

lemma apply_headers:
  "hm_get_all H (res_headers (apply_response_headers H c o1 resp)) ''access-control-allow-origin'' =
     (case resolved_origin c o1 of
        None \<Rightarrow> hm_get_all H (res_headers resp) ''access-control-allow-origin'' | Some a \<Rightarrow> [a])"
  "hm_get_all H (res_headers (apply_response_headers H c o1 resp)) ''access-control-allow-credentials'' =
     (if cc_allow_credentials c \<and> resolved_origin c o1 \<noteq> None then [''true'']
      else hm_get_all H (res_headers resp) ''access-control-allow-credentials'')"
  by (simp_all add: apply_response_headers_def Let_def get_all_simps split: option.split)

end

subsection \<open>Properties\<close>

definition demo_cors :: cors_config where
  "demo_cors = the (cors_allow_credentials alist_lib
     (the (cors_allow_origin alist_lib (cors_new alist_lib) [''https://a''])) True)"

lemma demo_cors_built: "cors_built alist_lib demo_cors"
proof -
  have "cors_allow_origin alist_lib (cors_new alist_lib) [''https://a''] =
      Some (the (cors_allow_origin alist_lib (cors_new alist_lib) [''https://a'']))"
    by (simp add: cors_allow_origin_def cors_mutate_def assert_credentials_safe_def cors_new_def Let_def)
  from cors_built.allow_origin [OF cors_built.new this]
  show ?thesis
    unfolding demo_cors_def
    by (rule cors_built.allow_credentials [where b = True])
      (simp add: cors_allow_credentials_def cors_allow_origin_def cors_mutate_def
        assert_credentials_safe_def cors_new_def Let_def)
qed

lemma demo_cors_sel: "cc_allow_origins demo_cors = OriginList [''https://a'']"
  "cc_allow_credentials demo_cors"
  by (simp_all add: demo_cors_def cors_allow_credentials_def cors_allow_origin_def cors_mutate_def
      assert_credentials_safe_def cors_new_def Let_def)

text \<open>C20: No configuration the builder API accepts trusts every site with credentials.  If an
  answer carries Access-Control-Allow-Credentials that the wrapped service did not set itself,
  the origin is on the explicit list and is the one the answer names, never a wildcard.\<close>

theorem cors_credentials_safe:
  assumes "header_map H" and "cors_built H c"
    and "hm_get H (req_headers req) ''origin'' = Some o1"
    and "\<And>resp. fst (inner req w) = Done resp \<Longrightarrow>
          hm_get_all H (res_headers resp) ''access-control-allow-credentials'' = []"
    and "fst (cors_call H c inner req w) = Done resp"
    and "hm_get_all H (res_headers resp) ''access-control-allow-credentials'' \<noteq> []"
  shows "\<exists>l. cc_allow_origins c = OriginList l \<and> o1 \<in> set l \<and>
    hm_get_all H (res_headers resp) ''access-control-allow-origin'' = [o1]"
proof -
  have "cc_allow_credentials c \<and> resolved_origin c o1 \<noteq> None \<and>
      (\<forall>a. resolved_origin c o1 = Some a \<longrightarrow>
        hm_get_all H (res_headers resp) ''access-control-allow-origin'' = [a])"
  proof (cases "cors_is_preflight H req")
    case True
    with assms(3,5,6) show ?thesis
      by (auto simp: cors_call_def header_map.preflight_headers [OF assms(1)] split: if_splits)
  next
    case False
    with assms(3,5) obtain r0 where "fst (inner req w) = Done r0" "resp = apply_response_headers H c o1 r0"
      by (auto simp: cors_call_def then_response_def split: outcome.splits)
    with assms(4,6) show ?thesis
      by (auto simp: header_map.apply_headers [OF assms(1)] split: if_splits)
  qed
  with cors_built_ok [OF assms(2)] show ?thesis
    by (auto simp: cors_ok_def resolved_origin_list split: if_splits)
qed

theorem cors_credentials_safe_witness:
  "\<exists>l. cc_allow_origins demo_cors = OriginList l \<and> ''https://a'' \<in> set l \<and>
    hm_get_all alist_lib (res_headers
      (apply_response_headers alist_lib demo_cors ''https://a'' (sample_response 200 [] ''/'')))
      ''access-control-allow-origin'' = [''https://a'']"
proof -
  let ?req = "sample_request Get ''/'' [(''origin'', ''https://a'')]"
  let ?resp = "apply_response_headers alist_lib demo_cors ''https://a'' (sample_response 200 [] ''/'')"
  have r: "fst (cors_call alist_lib demo_cors counting_service ?req 0) = Done ?resp"
    by (simp add: cors_call_def sample_defs cors_is_preflight_def alist_sel)
  have c: "hm_get_all alist_lib (res_headers ?resp) ''access-control-allow-credentials'' \<noteq> []"
    by (simp add: alist.apply_headers demo_cors_sel resolved_origin_list)
  show ?thesis
    using cors_credentials_safe [OF alist_header_map demo_cors_built _ _ r c]
    by (simp add: sample_defs alist_sel alist_get_all_def)
qed

text \<open>What the layer does to each kind of request.  Without Origin the wrapped service answers
  alone.  A preflight is answered with 204 by the layer itself, naming the resolved origin when
  there is one and no origin otherwise.  Any other request runs the wrapped service once, and
  the answer names the resolved origin; for an origin that is not allowed it is returned as it
  is.\<close>

theorem cors_call_cases:
  assumes "header_map H"
  shows "case hm_get H (req_headers req) ''origin'' of
      None \<Rightarrow> cors_call H c inner req w = inner req w
    | Some o1 \<Rightarrow>
        if cors_is_preflight H req
        then \<exists>resp. cors_call H c inner req w = (Done resp, w) \<and> res_status resp = 204
          \<and> hm_get_all H (res_headers resp) ''access-control-allow-origin'' =
              (case resolved_origin c o1 of None \<Rightarrow> [] | Some a \<Rightarrow> [a])
        else (case inner req w of
            (Panicked m, w') \<Rightarrow> cors_call H c inner req w = (Panicked m, w')
          | (Done r0, w') \<Rightarrow> \<exists>resp. cors_call H c inner req w = (Done resp, w')
              \<and> res_status resp = res_status r0 \<and> res_body resp = res_body r0
              \<and> (case resolved_origin c o1 of None \<Rightarrow> resp = r0
                 | Some a \<Rightarrow> hm_get_all H (res_headers resp) ''access-control-allow-origin'' = [a]))"
proof (cases "hm_get H (req_headers req) ''origin''")
  case (Some o1)
  obtain out w' where i: "inner req w = (out, w')" by (cases "inner req w")
  show ?thesis
  proof (cases "cors_is_preflight H req")
    case True
    then show ?thesis
      by (simp add: Some cors_call_def header_map.preflight_headers [OF assms]
          header_map.preflight_status [OF assms])
  next
    case False
    have "res_status (apply_response_headers H c o1 r0) = res_status r0
        \<and> res_body (apply_response_headers H c o1 r0) = res_body r0" for r0
      by (simp add: apply_response_headers_def Let_def split: option.split)
    moreover have "resolved_origin c o1 = None \<Longrightarrow> apply_response_headers H c o1 r0 = r0" for r0
      by (simp add: apply_response_headers_def)
    ultimately show ?thesis
      using False
      by (cases out; cases "resolved_origin c o1")
        (simp_all add: Some cors_call_def i header_map.apply_headers [OF assms])
  qed
qed (simp add: cors_call_def)

theorem cors_call_cases_witness:
  "\<exists>resp. cors_call alist_lib demo_cors counting_service
      (sample_request Options ''/'' [(''origin'', ''https://evil''), (''access-control-request-method'', ''POST'')]) 7
      = (Done resp, 7) \<and> res_status resp = 204
      \<and> hm_get_all alist_lib (res_headers resp) ''access-control-allow-origin'' = []"
  using cors_call_cases [OF alist_header_map, where c = demo_cors and inner = counting_service and w = 7
      and req = "sample_request Options ''/''
      [(''origin'', ''https://evil''), (''access-control-request-method'', ''POST'')]"]
  by (simp add: alist_sel cors_is_preflight_def sample_request_def demo_cors_sel resolved_origin_list)

end
