(* ===== verification/Auth_Csrf.thy ===== *)
theory Auth_Csrf
  imports Http
begin

text \<open>
  Authentication (arvik-middleware/src/auth.rs) and double-submit CSRF protection
  (arvik-middleware/src/csrf.rs).

  Both guard an inner service: a refused request returns the world unchanged.  The base64 codec,
  the cookie renderer and the random token are parameters.
\<close>

subsection \<open>Secrets\<close>

text \<open>The loop that accumulates the XOR of all byte pairs.\<close>

fun diff_loop :: "u8 \<Rightarrow> string \<Rightarrow> string \<Rightarrow> u8" where
  "diff_loop diff (x # a) (y # b) = diff_loop (diff OR (byte x XOR byte y)) a b"
| "diff_loop diff _ _ = diff"

definition secret_eq :: "string \<Rightarrow> string \<Rightarrow> bool" where
  "secret_eq a b = (if length a \<noteq> length b then False else diff_loop 0 a b = 0)"

lemma word_xor_eq_0_iff: "(x :: u8) XOR y = 0 \<longleftrightarrow> x = y"
  by (metis xor.assoc xor.left_neutral xor_self_eq)

lemma diff_loop_zero_iff:
  "length a = length b \<Longrightarrow> diff_loop d a b = 0 \<longleftrightarrow> d = 0 \<and> a = b"
proof (induction d a b rule: diff_loop.induct)
  case (1 d x a y b)
  then show ?case by (auto simp: or_eq_0_iff word_xor_eq_0_iff byte_inject)
qed auto

lemma secret_eq_iff [simp]: "secret_eq a b \<longleftrightarrow> a = b"
  by (auto simp: secret_eq_def diff_loop_zero_iff)

subsection \<open>Authorization\<close>

datatype 'h auth_strategy =
    Bearer string
  | Basic string string
  | CustomAuth "'h request \<Rightarrow> bool"

definition auth_bearer :: "string \<Rightarrow> 'h auth_strategy" where "auth_bearer token = Bearer token"

definition auth_basic :: "string \<Rightarrow> string \<Rightarrow> 'h auth_strategy" where "auth_basic username password = Basic username password"

definition auth_custom :: "('h request \<Rightarrow> bool) \<Rightarrow> 'h auth_strategy" where "auth_custom validator = CustomAuth validator"

definition header_str :: "'h http_lib \<Rightarrow> 'h request \<Rightarrow> string \<Rightarrow> string option" where
  "header_str H req n = Option.bind (hm_get H (req_headers req) n) (hv_to_str H)"

definition is_authorized :: "'h http_lib \<Rightarrow> (string \<Rightarrow> string) \<Rightarrow> 'h auth_strategy \<Rightarrow> 'h request \<Rightarrow> bool" where
  "is_authorized H encode self req =
     (case self of
        Bearer token \<Rightarrow>
          (case header_str H req ''authorization'' of
             Some v \<Rightarrow> secret_eq v (''Bearer '' @ token) | None \<Rightarrow> False)
      | Basic username password \<Rightarrow>
          (case header_str H req ''authorization'' of
             Some v \<Rightarrow> secret_eq v (''Basic '' @ encode (username @ '':'' @ password)) | None \<Rightarrow> False)
      | CustomAuth f \<Rightarrow> f req)"

fun www_authenticate_value :: "'h auth_strategy \<Rightarrow> string" where
  "www_authenticate_value (Basic _ _) = ''Basic realm=\"api\"''"
| "www_authenticate_value _ = ''Bearer realm=\"api\"''"

definition unauthorized_response :: "'h http_lib \<Rightarrow> 'h auth_strategy \<Rightarrow> 'h outcome" where
  "unauthorized_response H s =
     builder_unwrap (BFull ''{\"error\":\"Unauthorized\",\"code\":401}'')
       (rb_header H ''www-authenticate'' (www_authenticate_value s)
         (rb_header_str H ''content-type'' ''application/json'' (rb_with_status 401 (rb_new H))))"

definition require_authorization_call :: "'h http_lib \<Rightarrow> (string \<Rightarrow> string) \<Rightarrow> 'h auth_strategy \<Rightarrow> ('h, 'w) layer" where
  "require_authorization_call H encode strategy inner = (\<lambda>req w.
     if \<not> is_authorized H encode strategy req then (unauthorized_response H strategy, w)
     else inner req w)"

subsection \<open>CSRF\<close>

datatype same_site = Strict | Lax | NoneSite

record csrf_layer =
  csrf_cookie_name :: string
  csrf_header_name :: string
  csrf_secure :: bool
  csrf_same_site :: same_site

definition csrf_new :: csrf_layer where
  "csrf_new = \<lparr>csrf_cookie_name = ''csrf_token'', csrf_header_name = ''x-csrf-token'',
     csrf_secure = False, csrf_same_site = Strict\<rparr>"

definition csrf_set_secure :: "csrf_layer \<Rightarrow> bool \<Rightarrow> csrf_layer" where
  "csrf_set_secure self b = self\<lparr>csrf_secure := b\<rparr>"
definition csrf_set_same_site :: "csrf_layer \<Rightarrow> same_site \<Rightarrow> csrf_layer" where
  "csrf_set_same_site self s = self\<lparr>csrf_same_site := s\<rparr>"

definition is_state_changing :: "http_method \<Rightarrow> bool" where
  "is_state_changing m \<longleftrightarrow> m \<notin> {Get, Head, Options, Trace}"

text \<open>The two loops of \<^verbatim>\<open>extract_csrf_cookie\<close>.\<close>

fun csrf_in_pairs :: "string \<Rightarrow> string list \<Rightarrow> string option" where
  "csrf_in_pairs cookie_name [] = None"
| "csrf_in_pairs cookie_name (p # ps) =
     (case split_once (CHR ''='') (trim p) of
        Some (name, value) \<Rightarrow>
          if trim name = cookie_name then Some (trim value) else csrf_in_pairs cookie_name ps
      | None \<Rightarrow> csrf_in_pairs cookie_name ps)"

fun csrf_in_headers :: "'h http_lib \<Rightarrow> string \<Rightarrow> string list \<Rightarrow> string option" where
  "csrf_in_headers H cookie_name [] = None"
| "csrf_in_headers H cookie_name (v # vs) =
     (case hv_to_str H v of
        Some s \<Rightarrow>
          (case csrf_in_pairs cookie_name (split_on (CHR '';'') s) of
             Some t \<Rightarrow> Some t
           | None \<Rightarrow> csrf_in_headers H cookie_name vs)
      | None \<Rightarrow> csrf_in_headers H cookie_name vs)"

definition extract_csrf_cookie :: "'h http_lib \<Rightarrow> 'h \<Rightarrow> string \<Rightarrow> string option" where
  "extract_csrf_cookie H headers cookie_name = csrf_in_headers H cookie_name (hm_get_all H headers ''cookie'')"

definition csrf_forbidden :: "'h http_lib \<Rightarrow> 'h outcome" where
  "csrf_forbidden H =
     builder_unwrap
       (BFull ''{\"error\":\"Forbidden\",\"code\":403,\"message\":\"CSRF token validation failed\"}'')
       (rb_header_str H ''content-type'' ''application/json'' (rb_with_status 403 (rb_new H)))"

text \<open>\<open>fresh\<close> is the UUID drawn for a request without the cookie; \<open>render\<close> is
  \<^verbatim>\<open>Cookie::to_string\<close> for a cookie with these name, value, secure and same-site attributes,
  path \<^verbatim>\<open>/\<close> and readable by scripts.\<close>

definition csrf_set_cookie :: "'h http_lib \<Rightarrow> (string \<Rightarrow> string \<Rightarrow> bool \<Rightarrow> same_site \<Rightarrow> string) \<Rightarrow> csrf_layer
    \<Rightarrow> string \<Rightarrow> 'h response \<Rightarrow> 'h response" where
  "csrf_set_cookie H render config token response =
     (case hv_from_str H (render (csrf_cookie_name config) token (csrf_secure config) (csrf_same_site config)) of
        Some v \<Rightarrow> response\<lparr>res_headers := hm_append H (res_headers response) ''set-cookie'' v\<rparr>
      | None \<Rightarrow> response)"

definition csrf_call :: "'h http_lib \<Rightarrow> (string \<Rightarrow> string \<Rightarrow> bool \<Rightarrow> same_site \<Rightarrow> string) \<Rightarrow> csrf_layer \<Rightarrow> string
    \<Rightarrow> ('h, 'w) layer" where
  "csrf_call H render config fresh inner = (\<lambda>req0 w.
     (let cookie_token = extract_csrf_cookie H (req_headers req0) (csrf_cookie_name config);
          (csrf_token, is_new) = (case cookie_token of Some t \<Rightarrow> (t, False) | None \<Rightarrow> (fresh, True));
          req = req0\<lparr>req_ext := (req_ext req0)\<lparr>ext_csrf := Some csrf_token\<rparr>\<rparr>;
          proceed = (\<lambda>_ :: unit.
            (let r = inner req w
             in if is_new then then_response (csrf_set_cookie H render config csrf_token) r else r))
      in if is_state_changing (req_method req)
         then (if is_new then (csrf_forbidden H, w)
               else case header_str H req (csrf_header_name config) of
                      Some h \<Rightarrow> if secret_eq h csrf_token then proceed () else (csrf_forbidden H, w)
                    | None \<Rightarrow> (csrf_forbidden H, w))
         else proceed ()))"

context header_map
begin

lemma json_ct: "hv_from_str H ''application/json'' = Some ''application/json''"
  by (rule from_str) (simp add: header_visible_def)

lemma unauthorized_response_status:
  "\<exists>resp. unauthorized_response H s = Done resp \<and> res_status resp = 401 \<and>
     hm_get_all H (res_headers resp) ''www-authenticate'' = [www_authenticate_value s]"
  by (simp add: unauthorized_response_def rb_defs json_ct get_all_simps)

lemma csrf_forbidden_status: "\<exists>resp. csrf_forbidden H = Done resp \<and> res_status resp = 403"
  by (simp add: csrf_forbidden_def rb_defs json_ct)

lemma header_str_Some: "header_str H req n = Some v \<Longrightarrow> hm_get H (req_headers req) n = Some v"
  by (auto simp: header_str_def bind_eq_Some_conv dest: to_str_id)

end

text \<open>The one value of the Authorization header that a scheme accepts.\<close>

definition expected_authorization :: "(string \<Rightarrow> string) \<Rightarrow> 'h auth_strategy \<Rightarrow> string option" where
  "expected_authorization encode s = (case s of
     Bearer t \<Rightarrow> Some (''Bearer '' @ t)
   | Basic u p \<Rightarrow> Some (''Basic '' @ encode (u @ '':'' @ p))
   | CustomAuth f \<Rightarrow> None)"

lemma is_authorized_iff:
  assumes "header_map H" and "expected_authorization encode s = Some v"
  shows "is_authorized H encode s req \<longleftrightarrow>
    hm_get H (req_headers req) ''authorization'' = Some v \<and> list_all header_visible v"
proof -
  have "is_authorized H encode s req \<longleftrightarrow> header_str H req ''authorization'' = Some v"
    using assms(2)
    by (cases s) (auto simp: is_authorized_def expected_authorization_def split: option.split)
  then show ?thesis
    by (auto simp: header_str_def bind_eq_Some_conv header_map.to_str [OF assms(1)] split: if_splits)
qed

subsection \<open>Properties\<close>

text \<open>The guard is exact.  A request reaches the protected service if and only if its
  Authorization header is the configured bearer token, respectively the encoded user name and
  password; any other request gets 401 with the challenge of the scheme, and the service is not
  called.\<close>

theorem require_authorization_exact:
  assumes "header_map H" and "expected_authorization encode s = Some v"
  shows "if hm_get H (req_headers req) ''authorization'' = Some v \<and> list_all header_visible v
    then require_authorization_call H encode s inner req w = inner req w
    else \<exists>resp. require_authorization_call H encode s inner req w = (Done resp, w) \<and> res_status resp = 401
      \<and> hm_get_all H (res_headers resp) ''www-authenticate'' = [www_authenticate_value s]"
  using is_authorized_iff [OF assms, of req] header_map.unauthorized_response_status [OF assms(1), of s]
  by (auto simp: require_authorization_call_def)

theorem require_authorization_exact_witness:
  "require_authorization_call alist_lib id (Bearer ''t'') counting_service
     (sample_request Get ''/'' [(''authorization'', ''Bearer t'')]) 0
   = counting_service (sample_request Get ''/'' [(''authorization'', ''Bearer t'')]) 0"
  using require_authorization_exact [OF alist_header_map, where s = "Bearer ''t''" and encode = id and w = 0
      and req = "sample_request Get ''/'' [(''authorization'', ''Bearer t'')]" and inner = counting_service
      and v = "''Bearer t''"]
  by (simp add: expected_authorization_def alist_sel sample_request_def header_visible_def)



end
