(* ===== verification/Sse.thy ===== *)
theory Sse
  imports Http
begin

text \<open>
  Server-sent events: the event builder and its wire format (arvik-sse/src/event.rs), keep-alive
  (keep_alive.rs) and the streaming body (sse.rs).

  \<open>sse_parse\<close> is a reference parser written from the format's specification: lines end with LF, CR
  or CRLF, a blank line ends an event, a line starting with a colon is a comment, any other line is
  a field name and, after the first colon and one optional space, its value.  The theorems say
  that whatever a handler puts into its events, a client reads back those events and no others.
\<close>

subsection \<open>Events\<close>

record event =
  ev_comment :: "string option"
  ev_id :: "string option"
  ev_event :: "string option"
  ev_data :: "string option"
  ev_retry :: "nat option"

definition event_default :: event where
  "event_default = \<lparr>ev_comment = None, ev_id = None, ev_event = None, ev_data = None, ev_retry = None\<rparr>"

text \<open>\<^verbatim>\<open>raw.replace("\r\n", "\n").replace('\r', "\n")\<close>.\<close>

fun crlf_to_lf :: "string \<Rightarrow> string" where
  "crlf_to_lf (a # b # s) = (if a = CR \<and> b = LF then LF # crlf_to_lf s else a # crlf_to_lf (b # s))"
| "crlf_to_lf s = s"

definition cr_to_lf :: "string \<Rightarrow> string" where
  "cr_to_lf s = map (\<lambda>c. if c = CR then LF else c) s"

definition normalize_newlines :: "string \<Rightarrow> string" where
  "normalize_newlines raw = (if CR \<in> set raw then cr_to_lf (crlf_to_lf raw) else raw)"

definition event_data :: "event \<Rightarrow> string \<Rightarrow> event" where
  "event_data self data = self\<lparr>ev_data := Some (normalize_newlines data)\<rparr>"

definition event_id :: "event \<Rightarrow> string \<Rightarrow> event" where
  "event_id self s =
     self\<lparr>ev_id := Some (filter (\<lambda>c. c \<noteq> NUL) (takeWhile (\<lambda>c. c \<noteq> LF \<and> c \<noteq> CR) s))\<rparr>"

text \<open>\<^verbatim>\<open>s.split(['\n', '\r']).next()\<close> is the part before the first line break.\<close>

definition event_event :: "event \<Rightarrow> string \<Rightarrow> event" where
  "event_event self s = self\<lparr>ev_event := Some (takeWhile (\<lambda>c. c \<noteq> LF \<and> c \<noteq> CR) s)\<rparr>"

text \<open>\<^verbatim>\<open>duration.as_millis() as u64\<close> truncates.\<close>

definition event_retry :: "event \<Rightarrow> nat \<Rightarrow> event" where
  "event_retry self millis = self\<lparr>ev_retry := Some (millis mod 2 ^ 64)\<rparr>"

definition event_comment :: "event \<Rightarrow> string \<Rightarrow> event" where
  "event_comment self c = self\<lparr>ev_comment := Some (normalize_newlines c)\<rparr>"

text \<open>\<open>to_json\<close> is \<^verbatim>\<open>serde_json::to_string\<close>.\<close>

definition event_json_data :: "('a \<Rightarrow> 'e + string) \<Rightarrow> event \<Rightarrow> 'a \<Rightarrow> 'e + event" where
  "event_json_data to_json self v =
     (case to_json v of Inl e \<Rightarrow> Inl e | Inr s \<Rightarrow> Inr (self\<lparr>ev_data := Some s\<rparr>))"

definition field_lines :: "string \<Rightarrow> string list \<Rightarrow> string" where
  "field_lines pre ls = concat (map (\<lambda>l. pre @ l @ [LF]) ls)"

definition serialize :: "event \<Rightarrow> string" where
  "serialize self =
     (case ev_comment self of Some c \<Rightarrow> field_lines '': '' (split_on LF c) | None \<Rightarrow> []) @
     (case ev_id self of Some i \<Rightarrow> ''id: '' @ i @ [LF] | None \<Rightarrow> []) @
     (case ev_event self of Some e \<Rightarrow> ''event: '' @ e @ [LF] | None \<Rightarrow> []) @
     (case ev_data self of
        Some d \<Rightarrow> if d = [] then ''data: '' @ [LF] else field_lines ''data: '' (split_on LF d)
      | None \<Rightarrow> []) @
     (case ev_retry self of Some ms \<Rightarrow> ''retry: '' @ nat_to_string ms @ [LF] | None \<Rightarrow> []) @
     [LF]"

definition estimate_wire_len :: "event \<Rightarrow> nat" where
  "estimate_wire_len self =
     1
     + (case ev_comment self of Some c \<Rightarrow> length (split_on LF c) * 3 + length c | None \<Rightarrow> 0)
     + (case ev_id self of Some i \<Rightarrow> 4 + length i + 1 | None \<Rightarrow> 0)
     + (case ev_event self of Some e \<Rightarrow> 7 + length e + 1 | None \<Rightarrow> 0)
     + (case ev_data self of
          Some d \<Rightarrow> (let lines = (if d = [] then 1 else length (split_on LF d))
                    in lines * 7 + length d - (lines - 1))
        | None \<Rightarrow> 0)
     + (case ev_retry self of Some _ \<Rightarrow> 7 + 20 + 1 | None \<Rightarrow> 0)"

subsection \<open>Keep-alive and the body\<close>

record keep_alive =
  ka_interval :: nat
  ka_comment_bytes :: string

definition keep_alive_new :: keep_alive where
  "keep_alive_new = \<lparr>ka_interval = 15000000000, ka_comment_bytes = '': '' @ [LF, LF]\<rparr>"
definition keep_alive_interval :: "keep_alive \<Rightarrow> nat \<Rightarrow> keep_alive" where
  "keep_alive_interval self d = self\<lparr>ka_interval := d\<rparr>"
definition keep_alive_text :: "keep_alive \<Rightarrow> string \<Rightarrow> keep_alive" where
  "keep_alive_text self t = self\<lparr>ka_comment_bytes := serialize (event_comment event_default t)\<rparr>"

text \<open>What polling the handler's stream yields, and what polling the body yields.  The timer is the
  instant (in nanoseconds) at which the pending sleep fires.\<close>

datatype stream_poll = SItem event | SErr string | SEnd | SPending
datatype frame_poll = FData string | FErr string | FEnd | FPending

record sse_body =
  sb_timer :: nat
  sb_keep_alive :: "keep_alive option"

definition sse_body_new :: "keep_alive option \<Rightarrow> nat \<Rightarrow> sse_body" where
  "sse_body_new ka now =
     \<lparr>sb_timer = now + (case ka of Some k \<Rightarrow> ka_interval k | None \<Rightarrow> 0), sb_keep_alive = ka\<rparr>"

definition sb_reset :: "sse_body \<Rightarrow> nat \<Rightarrow> sse_body" where
  "sb_reset self now =
     (case sb_keep_alive self of Some ka \<Rightarrow> self\<lparr>sb_timer := now + ka_interval ka\<rparr> | None \<Rightarrow> self)"

definition poll_frame :: "sse_body \<Rightarrow> nat \<Rightarrow> stream_poll \<Rightarrow> frame_poll \<times> sse_body" where
  "poll_frame self now p =
     (case p of
        SItem e \<Rightarrow> (FData (serialize e), sb_reset self now)
      | SErr e \<Rightarrow> (FErr e, self)
      | SEnd \<Rightarrow> (FEnd, self)
      | SPending \<Rightarrow>
          (case sb_keep_alive self of
             Some ka \<Rightarrow>
               if sb_timer self \<le> now then (FData (ka_comment_bytes ka), sb_reset self now)
               else (FPending, self)
           | None \<Rightarrow> (FPending, self)))"

definition sse_into_response :: "'h http_lib \<Rightarrow> frame list \<Rightarrow> 'h response" where
  "sse_into_response H frames =
     rb_body H (BBoxed frames None)
       (rb_header_str H ''x-accel-buffering'' ''no''
         (rb_header_str H ''cache-control'' ''no-cache''
           (rb_header_str H ''content-type'' ''text/event-stream'' (rb_new H))))"

subsection \<open>The reference parser\<close>

record message =
  msg_id :: "string option"
  msg_event :: "string option"
  msg_data :: "string option"
  msg_retry :: "nat option"

definition no_message :: message where
  "no_message = \<lparr>msg_id = None, msg_event = None, msg_data = None, msg_retry = None\<rparr>"

definition strip_space :: "string \<Rightarrow> string" where
  "strip_space v = (case v of c # cs \<Rightarrow> if c = CHR '' '' then cs else v | [] \<Rightarrow> [])"

definition field_of :: "string \<Rightarrow> string \<times> string" where
  "field_of l = (case split_once (CHR '':'') l of Some (n, v) \<Rightarrow> (n, strip_space v) | None \<Rightarrow> (l, []))"

definition apply_field :: "message \<Rightarrow> string \<Rightarrow> message" where
  "apply_field m l =
     (let (n, v) = field_of l
      in if n = ''id'' then (if NUL \<in> set v then m else m\<lparr>msg_id := Some v\<rparr>)
         else if n = ''event'' then m\<lparr>msg_event := Some v\<rparr>
         else if n = ''data'' then
           m\<lparr>msg_data := Some (case msg_data m of Some d \<Rightarrow> d @ [LF] @ v | None \<Rightarrow> v)\<rparr>
         else if n = ''retry'' then
           (if v \<noteq> [] \<and> list_all is_ascii_digit v then m\<lparr>msg_retry := Some (digits_val v)\<rparr> else m)
         else m)"

fun sse_messages :: "message \<Rightarrow> string list \<Rightarrow> message list" where
  "sse_messages m [] = []"
| "sse_messages m (l # ls) = (if l = [] then m # sse_messages no_message ls else sse_messages (apply_field m l) ls)"

text \<open>The last piece of the split is an unfinished line.\<close>

definition sse_parse :: "string \<Rightarrow> message list" where
  "sse_parse s = sse_messages no_message (butlast (split_on LF (cr_to_lf (crlf_to_lf s))))"

text \<open>A message without data is not dispatched to the client.\<close>

definition dispatched :: "message list \<Rightarrow> message list" where
  "dispatched ms = filter (\<lambda>m. msg_data m \<noteq> None) ms"

definition message_of :: "event \<Rightarrow> message" where
  "message_of e = \<lparr>msg_id = ev_id e, msg_event = ev_event e, msg_data = ev_data e, msg_retry = ev_retry e\<rparr>"

subsection \<open>What the builder guarantees\<close>

definition event_ok :: "event \<Rightarrow> bool" where
  "event_ok e \<longleftrightarrow>
     (\<forall>c. ev_comment e = Some c \<longrightarrow> CR \<notin> set c) \<and>
     (\<forall>i. ev_id e = Some i \<longrightarrow> LF \<notin> set i \<and> CR \<notin> set i \<and> NUL \<notin> set i) \<and>
     (\<forall>n. ev_event e = Some n \<longrightarrow> LF \<notin> set n \<and> CR \<notin> set n) \<and>
     (\<forall>d. ev_data e = Some d \<longrightarrow> CR \<notin> set d) \<and>
     (\<forall>r. ev_retry e = Some r \<longrightarrow> r < 2 ^ 64)"

lemma CR_cr_to_lf [simp]: "CR \<notin> set (cr_to_lf s)"
  by (auto simp: cr_to_lf_def split: if_splits)

lemma CR_normalize [simp]: "CR \<notin> set (normalize_newlines s)"
  by (simp add: normalize_newlines_def)

lemma crlf_to_lf_id: "CR \<notin> set s \<Longrightarrow> crlf_to_lf s = s"
  by (induction s rule: crlf_to_lf.induct) auto

lemma cr_to_lf_id: "CR \<notin> set s \<Longrightarrow> cr_to_lf s = s"
  by (auto simp: cr_to_lf_def intro: map_idI)

lemma takeWhile_no_break:
  "LF \<notin> set (takeWhile (\<lambda>c. c \<noteq> LF \<and> c \<noteq> CR) s)" "CR \<notin> set (takeWhile (\<lambda>c. c \<noteq> LF \<and> c \<noteq> CR) s)"
  by (auto dest: set_takeWhileD)

lemma event_ok_default [wf_intros]: "event_ok event_default"
  by (simp add: event_ok_def event_default_def)

lemma event_ok_ops [wf_intros]:
  assumes "event_ok e"
  shows "event_ok (event_data e s)" "event_ok (event_id e s)" "event_ok (event_event e s)"
    "event_ok (event_retry e n)" "event_ok (event_comment e s)"
  using assms takeWhile_no_break [of s]
  by (simp_all add: event_ok_def event_data_def event_id_def event_event_def event_retry_def event_comment_def)

lemma event_ok_json [wf_intros]:
  "event_ok e \<Longrightarrow> to_json v = Inr s \<Longrightarrow> CR \<notin> set s \<Longrightarrow> event_json_data to_json e v = Inr e' \<Longrightarrow> event_ok e'"
  by (auto simp: event_ok_def event_json_data_def)

subsection \<open>The wire format as lines\<close>

definition event_lines :: "event \<Rightarrow> string list" where
  "event_lines e =
     (case ev_comment e of Some c \<Rightarrow> map (\<lambda>l. '': '' @ l) (split_on LF c) | None \<Rightarrow> []) @
     (case ev_id e of Some i \<Rightarrow> [''id: '' @ i] | None \<Rightarrow> []) @
     (case ev_event e of Some n \<Rightarrow> [''event: '' @ n] | None \<Rightarrow> []) @
     (case ev_data e of Some d \<Rightarrow> map (\<lambda>l. ''data: '' @ l) (split_on LF d) | None \<Rightarrow> []) @
     (case ev_retry e of Some r \<Rightarrow> [''retry: '' @ nat_to_string r] | None \<Rightarrow> [])"

definition unlines :: "string list \<Rightarrow> string" where
  "unlines ls = concat (map (\<lambda>l. l @ [LF]) ls)"

lemma unlines_simps [simp]: "unlines [] = []" "unlines (l # ls) = l @ LF # unlines ls"
  "unlines (ls @ ms) = unlines ls @ unlines ms"
  by (simp_all add: unlines_def)

lemma unlines_map: "unlines (map (\<lambda>l. p @ l) ls) = field_lines p ls"
  by (induction ls) (simp_all add: field_lines_def)

lemma serialize_lines: "serialize e = unlines (event_lines e) @ [LF]"
proof -
  have "(if d = [] then ''data: '' @ [LF] else field_lines ''data: '' (split_on LF d)) =
      field_lines ''data: '' (split_on LF d)" for d
    by (simp add: field_lines_def)
  then show ?thesis
    by (simp add: serialize_def event_lines_def option.case_distrib [of unlines] unlines_map
        del: append_Cons cong: option.case_cong)
qed

lemma split_on_unlines:
  "(\<And>l. l \<in> set ls \<Longrightarrow> LF \<notin> set l) \<Longrightarrow> split_on LF (unlines ls @ s) = ls @ split_on LF s"
  by (induction ls) (simp_all add: split_on_append_sep)

lemma event_lines_clean:
  assumes "event_ok e" and "l \<in> set (event_lines e)"
  shows "l \<noteq> []" and "LF \<notin> set l" and "CR \<notin> set l"
proof -
  have digits: "LF \<notin> set (nat_to_string n) \<and> CR \<notin> set (nat_to_string n)" for n
    using nat_to_string_digits [of n] by (force simp: list_all_iff is_ascii_digit_def)
  have split: "LF \<notin> set p \<and> (CR \<notin> set s \<longrightarrow> CR \<notin> set p)" if "p \<in> set (split_on LF s)" for p s
    using split_on_no_sep [OF that] split_on_subset [OF that] by blast
  let ?clean = "\<lambda>l. l \<noteq> [] \<and> LF \<notin> set l \<and> CR \<notin> set l"
  have lines: "\<forall>l \<in> set (map (\<lambda>l. p @ l) (split_on LF s)). ?clean l" if "?clean p" "CR \<notin> set s" for p s
    using that split [of _ s] by auto
  have c: "\<forall>l \<in> set (case ev_comment e of Some c \<Rightarrow> map (\<lambda>l. '': '' @ l) (split_on LF c) | None \<Rightarrow> []). ?clean l"
    using assms(1) lines [of "'': ''" "the (ev_comment e)"] by (cases "ev_comment e") (simp_all add: event_ok_def)
  have d: "\<forall>l \<in> set (case ev_data e of Some d \<Rightarrow> map (\<lambda>l. ''data: '' @ l) (split_on LF d) | None \<Rightarrow> []). ?clean l"
    using assms(1) lines [of "''data: ''" "the (ev_data e)"] by (cases "ev_data e") (simp_all add: event_ok_def)
  have i: "\<forall>l \<in> set (case ev_id e of Some i \<Rightarrow> [''id: '' @ i] | None \<Rightarrow> []). ?clean l"
    using assms(1) by (cases "ev_id e") (simp_all add: event_ok_def)
  have n: "\<forall>l \<in> set (case ev_event e of Some n \<Rightarrow> [''event: '' @ n] | None \<Rightarrow> []). ?clean l"
    using assms(1) by (cases "ev_event e") (simp_all add: event_ok_def)
  have r: "\<forall>l \<in> set (case ev_retry e of Some r \<Rightarrow> [''retry: '' @ nat_to_string r] | None \<Rightarrow> []). ?clean l"
    using digits by (cases "ev_retry e") simp_all
  have "\<forall>l \<in> set (event_lines e). ?clean l"
    unfolding event_lines_def set_append ball_Un by (intro conjI c i n d r)
  with assms(2) have "?clean l" by (rule bspec [rotated])
  then show "l \<noteq> []" "LF \<notin> set l" "CR \<notin> set l" by auto
qed

subsection \<open>Reading back\<close>

lemma field_of_simps:
  "CHR '':'' \<notin> set n \<Longrightarrow> field_of (n @ '': '' @ v) = (n, v)"
proof -
  assume "CHR '':'' \<notin> set n"
  then have "split_once (CHR '':'') (n @ CHR '':'' # CHR '' '' # v) = Some (n, CHR '' '' # v)"
    by (simp add: split_once_Some_iff)
  then show ?thesis by (simp add: field_of_def strip_space_def)
qed

lemma apply_field_simps:
  "apply_field m ('': '' @ v) = m"
  "NUL \<notin> set v \<Longrightarrow> apply_field m (''id: '' @ v) = m\<lparr>msg_id := Some v\<rparr>"
  "apply_field m (''event: '' @ v) = m\<lparr>msg_event := Some v\<rparr>"
  "apply_field m (''data: '' @ v) =
     m\<lparr>msg_data := Some (case msg_data m of Some d \<Rightarrow> d @ [LF] @ v | None \<Rightarrow> v)\<rparr>"
  "apply_field m (''retry: '' @ nat_to_string r) = m\<lparr>msg_retry := Some r\<rparr>"
  using field_of_simps [of "[]" v] field_of_simps [of "''id''" v] field_of_simps [of "''event''" v]
    field_of_simps [of "''data''" v] field_of_simps [of "''retry''" "nat_to_string r"]
  by (simp_all add: apply_field_def nat_to_string_digits)

lemma fold_comment: "foldl apply_field m (map (\<lambda>l. '': '' @ l) ls) = m"
  by (induction ls) (simp_all add: apply_field_simps(1) [simplified])

lemma join_with_LF: "join_with [c] (p # ps) = p @ concat (map (\<lambda>l. c # l) ps)"
  by (induction ps arbitrary: p) simp_all

lemma fold_data_Some:
  "msg_data m = Some d \<Longrightarrow> foldl apply_field m (map (\<lambda>l. ''data: '' @ l) ls) =
     m\<lparr>msg_data := Some (d @ concat (map (\<lambda>l. LF # l) ls))\<rparr>"
proof (induction ls arbitrary: m d)
  case (Cons l ls)
  have "apply_field m (''data: '' @ l) = m\<lparr>msg_data := Some (d @ LF # l)\<rparr>"
    using Cons.prems by (simp only: apply_field_simps(4)) simp
  with Cons.IH [of "m\<lparr>msg_data := Some (d @ LF # l)\<rparr>" "d @ LF # l"] show ?case by simp
qed simp

lemma fold_data:
  assumes "msg_data m = None"
  shows "foldl apply_field m (map (\<lambda>l. ''data: '' @ l) (split_on LF d)) = m\<lparr>msg_data := Some d\<rparr>"
proof -
  obtain p ps where ps: "split_on LF d = p # ps" by (cases "split_on LF d") auto
  have "apply_field m (''data: '' @ p) = m\<lparr>msg_data := Some p\<rparr>"
    using assms by (simp only: apply_field_simps(4)) simp
  moreover have "p @ concat (map (\<lambda>l. LF # l) ps) = d"
    using join_with_LF [of LF p ps] join_split_on [of LF d] by (simp add: ps)
  ultimately show ?thesis
    using fold_data_Some [of "m\<lparr>msg_data := Some p\<rparr>" p ps] by (simp add: ps)
qed

lemma fold_event_lines:
  assumes "event_ok e"
  shows "foldl apply_field no_message (event_lines e) = message_of e"
proof -
  have "foldl apply_field m (case ev_comment e of Some c \<Rightarrow> map (\<lambda>l. '': '' @ l) (split_on LF c) | None \<Rightarrow> []) = m"
    for m by (simp add: fold_comment split: option.split)
  moreover have "foldl apply_field m (case ev_id e of Some i \<Rightarrow> [''id: '' @ i] | None \<Rightarrow> [])
      = m\<lparr>msg_id := ev_id e\<rparr>" if "msg_id m = None" for m
    using assms that by (cases "ev_id e") (simp_all add: apply_field_simps(2) [simplified] event_ok_def)
  moreover have "foldl apply_field m (case ev_event e of Some n \<Rightarrow> [''event: '' @ n] | None \<Rightarrow> [])
      = m\<lparr>msg_event := ev_event e\<rparr>" if "msg_event m = None" for m
    using that by (cases "ev_event e") (simp_all add: apply_field_simps(3) [simplified])
  moreover have "foldl apply_field m
      (case ev_data e of Some d \<Rightarrow> map (\<lambda>l. ''data: '' @ l) (split_on LF d) | None \<Rightarrow> [])
      = m\<lparr>msg_data := ev_data e\<rparr>" if "msg_data m = None" for m
    using that by (cases "ev_data e") (simp_all add: fold_data)
  moreover have "foldl apply_field m (case ev_retry e of Some r \<Rightarrow> [''retry: '' @ nat_to_string r] | None \<Rightarrow> [])
      = m\<lparr>msg_retry := ev_retry e\<rparr>" if "msg_retry m = None" for m
    using that by (cases "ev_retry e") (simp_all add: apply_field_simps(5) [simplified])
  ultimately show ?thesis
    by (simp only: event_lines_def foldl_append) (simp add: no_message_def message_of_def)
qed

lemma sse_messages_block:
  "(\<And>l. l \<in> set ls \<Longrightarrow> l \<noteq> []) \<Longrightarrow>
   sse_messages m (ls @ [] # rest) = foldl apply_field m ls # sse_messages no_message rest"
  by (induction ls arbitrary: m) simp_all

lemma sse_messages_serialize:
  assumes "\<And>e. e \<in> set es \<Longrightarrow> event_ok e"
  shows "sse_messages no_message (butlast (split_on LF (concat (map serialize es)))) = map message_of es"
  using assms
proof (induction es)
  case (Cons e es)
  note clean = event_lines_clean [OF Cons.prems [of e]]
  have "split_on LF (serialize e @ concat (map serialize es)) =
      event_lines e @ [] # split_on LF (concat (map serialize es))"
    using split_on_unlines [of "event_lines e" "LF # concat (map serialize es)"] clean(2)
    by (simp add: serialize_lines)
  then show ?case
    using Cons clean(1) by (simp add: butlast_append sse_messages_block fold_event_lines)
qed simp

lemma CR_serialize: "event_ok e \<Longrightarrow> CR \<notin> set (serialize e)"
  using event_lines_clean(3) [of e] by (auto simp: serialize_lines unlines_def)

lemma sse_parse_serialize:
  assumes "\<And>e. e \<in> set es \<Longrightarrow> event_ok e"
  shows "sse_parse (concat (map serialize es)) = map message_of es"
proof -
  have "CR \<notin> set (concat (map serialize es))" using assms CR_serialize by auto
  then show ?thesis
    by (simp add: sse_parse_def crlf_to_lf_id cr_to_lf_id sse_messages_serialize [OF assms])
qed

lemma length_field_lines:
  "length (field_lines p ls) = length ls * (length p + 1) + sum_list (map length ls)"
  by (induction ls) (simp_all add: field_lines_def)

lemma length_split_lines:
  "length (field_lines p (split_on LF s)) =
     length (split_on LF s) * (length p + 1) + length s - (length (split_on LF s) - 1)"
  using length_split_on [of s LF] by (simp add: length_field_lines)

subsection \<open>Runs of the body\<close>

text \<open>A run polls the body with the clock and the answer of the handler's stream; it stops at the
  end of the stream or an error.\<close>

fun body_run :: "sse_body \<Rightarrow> (nat \<times> stream_poll) list \<Rightarrow> string list" where
  "body_run b [] = []"
| "body_run b ((now, p) # ps) =
     (case poll_frame b now p of
        (FData d, b') \<Rightarrow> d # body_run b' ps
      | (FPending, b') \<Rightarrow> body_run b' ps
      | (FErr _, _) \<Rightarrow> []
      | (FEnd, _) \<Rightarrow> [])"

fun stream_events :: "(nat \<times> stream_poll) list \<Rightarrow> event list" where
  "stream_events [] = []"
| "stream_events ((_, SItem e) # ps) = e # stream_events ps"
| "stream_events ((_, SPending) # ps) = stream_events ps"
| "stream_events _ = []"

inductive keep_alive_built :: "keep_alive \<Rightarrow> bool" where
  new: "keep_alive_built keep_alive_new"
| interval: "keep_alive_built k \<Longrightarrow> keep_alive_built (keep_alive_interval k d)"
| with_text: "keep_alive_built k \<Longrightarrow> keep_alive_built (keep_alive_text k t)"

definition comment_event :: "string \<Rightarrow> event" where
  "comment_event c = event_comment event_default c"

lemma comment_event_ok: "event_ok (comment_event c)" "msg_data (message_of (comment_event c)) = None"
  using event_ok_ops(5) [OF event_ok_default, of c]
  by (simp_all add: comment_event_def message_of_def) (simp add: event_comment_def event_default_def)

lemma keep_alive_comment: "keep_alive_built k \<Longrightarrow> \<exists>c. ka_comment_bytes k = serialize (comment_event c)"
proof (induction rule: keep_alive_built.induct)
  case new
  have "ka_comment_bytes keep_alive_new = serialize (comment_event [])"
    by (simp add: keep_alive_new_def comment_event_def event_comment_def event_default_def serialize_def
        field_lines_def normalize_newlines_def)
  then show ?case by blast
next
  case (with_text k t)
  have "ka_comment_bytes (keep_alive_text k t) = serialize (comment_event t)"
    by (simp add: keep_alive_text_def comment_event_def)
  then show ?case by blast
qed (simp add: keep_alive_interval_def)

lemma sb_reset_keep_alive [simp]: "sb_keep_alive (sb_reset b now) = sb_keep_alive b"
  by (simp add: sb_reset_def split: option.split)

text \<open>The frames of a run are the serialised events with keep-alive comments in between.\<close>

lemma body_run_frames:
  assumes "\<And>k. sb_keep_alive b = Some k \<Longrightarrow> keep_alive_built k"
    and "\<And>e. e \<in> set (stream_events ps) \<Longrightarrow> event_ok e"
  shows "\<exists>es. body_run b ps = map serialize es \<and> (\<forall>e \<in> set es. event_ok e) \<and>
    dispatched (map message_of es) = dispatched (map message_of (stream_events ps))"
  using assms
proof (induction ps arbitrary: b)
  case Nil
  show ?case by (intro exI [of _ "[]"]) simp
next
  case (Cons pp ps)
  obtain now p where pp: "pp = (now, p)" by (cases pp)
  consider e where "p = SItem e" | "p = SPending" | "p = SEnd \<or> (\<exists>m. p = SErr m)"
    by (cases p) auto
  then show ?case
  proof cases
    case (1 e)
    obtain es where "body_run (sb_reset b now) ps = map serialize es" "\<forall>e \<in> set es. event_ok e"
      "dispatched (map message_of es) = dispatched (map message_of (stream_events ps))"
      using Cons.IH [of "sb_reset b now"] Cons.prems pp 1 by auto
    moreover have "event_ok e" using Cons.prems(2) pp 1 by simp
    ultimately show ?thesis
      using pp 1 by (intro exI [of _ "e # es"]) (simp add: poll_frame_def dispatched_def)
  next
    case 2
    have prems: "\<And>e. e \<in> set (stream_events ps) \<Longrightarrow> event_ok e" using Cons.prems(2) pp 2 by simp
    show ?thesis
    proof (cases "\<exists>k. sb_keep_alive b = Some k \<and> sb_timer b \<le> now")
      case True
      then obtain k where k: "sb_keep_alive b = Some k" "sb_timer b \<le> now" by blast
      obtain c where c: "ka_comment_bytes k = serialize (comment_event c)"
        using keep_alive_comment Cons.prems(1) k by blast
      obtain es where "body_run (sb_reset b now) ps = map serialize es" "\<forall>e \<in> set es. event_ok e"
        "dispatched (map message_of es) = dispatched (map message_of (stream_events ps))"
        using Cons.IH [of "sb_reset b now"] Cons.prems(1) prems by auto
      then show ?thesis
        using k c pp 2 comment_event_ok
        by (intro exI [of _ "comment_event c # es"]) (simp add: poll_frame_def dispatched_def)
    next
      case False
      then have "poll_frame b now SPending = (FPending, b)"
        by (auto simp: poll_frame_def split: option.split)
      with Cons.IH [of b] Cons.prems(1) prems show ?thesis by (simp add: pp 2)
    qed
  next
    case 3
    then show ?thesis by (intro exI [of _ "[]"]) (auto simp: pp poll_frame_def)
  qed
qed

subsection \<open>Chains of builder calls\<close>

text \<open>A handler makes an event by a chain of calls on \<^verbatim>\<open>Event::default()\<close>, each with any text.\<close>

datatype 'a event_call =
    CallData string | CallId string | CallEvent string | CallRetry nat | CallComment string | CallJson 'a

primrec do_call :: "('a \<Rightarrow> 'e + string) \<Rightarrow> 'a event_call \<Rightarrow> event \<Rightarrow> 'e + event" where
  "do_call to_json (CallData s) e = Inr (event_data e s)"
| "do_call to_json (CallId s) e = Inr (event_id e s)"
| "do_call to_json (CallEvent s) e = Inr (event_event e s)"
| "do_call to_json (CallRetry ms) e = Inr (event_retry e ms)"
| "do_call to_json (CallComment s) e = Inr (event_comment e s)"
| "do_call to_json (CallJson v) e = event_json_data to_json e v"

fun event_calls :: "('a \<Rightarrow> 'e + string) \<Rightarrow> event \<Rightarrow> 'a event_call list \<Rightarrow> 'e + event" where
  "event_calls to_json e [] = Inr e"
| "event_calls to_json e (op # ops) =
     (case do_call to_json op e of Inl x \<Rightarrow> Inl x | Inr e' \<Rightarrow> event_calls to_json e' ops)"

text \<open>What each call means to the client, on the text itself: its lines, ended by LF, CR or CRLF.  An id and an event
  name are the first line, an id without its NULs; data keeps all lines; a comment is not seen.  A later call for
  a field replaces the earlier one.\<close>

function text_lines :: "string \<Rightarrow> string list" where
  "text_lines [] = [[]]"
| "text_lines (c # cs) =
     (if c = LF then [] # text_lines cs
      else if c = CR then [] # text_lines (if cs \<noteq> [] \<and> hd cs = LF then tl cs else cs)
      else (c # hd (text_lines cs)) # tl (text_lines cs))"
  by pat_completeness auto

termination by (relation "measure length") auto

primrec call_meaning :: "('a \<Rightarrow> 'e + string) \<Rightarrow> 'a event_call \<Rightarrow> message \<Rightarrow> message" where
  "call_meaning to_json (CallData s) m = m\<lparr>msg_data := Some (join_with [LF] (text_lines s))\<rparr>"
| "call_meaning to_json (CallId s) m = m\<lparr>msg_id := Some (filter (\<lambda>c. c \<noteq> NUL) (hd (text_lines s)))\<rparr>"
| "call_meaning to_json (CallEvent s) m = m\<lparr>msg_event := Some (hd (text_lines s))\<rparr>"
| "call_meaning to_json (CallRetry ms) m = m\<lparr>msg_retry := Some (ms mod 2 ^ 64)\<rparr>"
| "call_meaning to_json (CallComment s) m = m"
| "call_meaning to_json (CallJson v) m = (case to_json v of Inr s \<Rightarrow> m\<lparr>msg_data := Some s\<rparr> | Inl _ \<Rightarrow> m)"

definition intended_message :: "('a \<Rightarrow> 'e + string) \<Rightarrow> 'a event_call list \<Rightarrow> message" where
  "intended_message to_json ops = fold (call_meaning to_json) ops no_message"

lemma text_lines_nonempty [simp]: "text_lines s \<noteq> []"
  by (cases s) simp_all

lemma hd_text_lines: "hd (text_lines s) = takeWhile (\<lambda>c. c \<noteq> LF \<and> c \<noteq> CR) s"
  by (induction s rule: text_lines.induct) auto

lemma join_with_LF_simps [simp]:
  "ls \<noteq> [] \<Longrightarrow> join_with [LF] ([] # ls) = LF # join_with [LF] ls"
  "ls \<noteq> [] \<Longrightarrow> join_with [LF] ((c # hd ls) # tl ls) = c # join_with [LF] ls"
  by (cases ls; simp add: join_with_LF)+

lemma cr_to_lf_simps [simp]: "cr_to_lf [] = []" "cr_to_lf (c # s) = (if c = CR then LF else c) # cr_to_lf s"
  by (simp_all add: cr_to_lf_def)

lemma crlf_to_lf_Cons:
  "crlf_to_lf (c # s) = (if c = CR \<and> s \<noteq> [] \<and> hd s = LF then LF # crlf_to_lf (tl s) else c # crlf_to_lf s)"
  by (cases s) auto

lemma cr_to_lf_text_lines: "cr_to_lf (crlf_to_lf s) = join_with [LF] (text_lines s)"
  by (induction s rule: text_lines.induct) (auto simp: crlf_to_lf_Cons split: list.splits)

lemma normalize_text_lines: "normalize_newlines s = join_with [LF] (text_lines s)"
  by (simp add: normalize_newlines_def cr_to_lf_text_lines [symmetric] crlf_to_lf_id cr_to_lf_id)

lemma do_call_ok:
  assumes "\<And>v s. to_json v = Inr s \<Longrightarrow> CR \<notin> set s" "do_call to_json op e = Inr e'" "event_ok e"
  shows "event_ok e' \<and> message_of e' = call_meaning to_json op (message_of e)"
proof (cases op)
  case (CallJson v)
  with assms show ?thesis
    by (auto simp: event_json_data_def message_of_def event_ok_def split: sum.splits)
qed (use assms event_ok_ops [OF assms(3)] in
  \<open>auto simp: message_of_def event_data_def event_id_def event_event_def event_retry_def event_comment_def
     hd_text_lines normalize_text_lines\<close>)

lemma event_calls_ok:
  assumes "\<And>v s. to_json v = Inr s \<Longrightarrow> CR \<notin> set s"
  shows "event_calls to_json e ops = Inr e' \<Longrightarrow> event_ok e
    \<Longrightarrow> event_ok e' \<and> message_of e' = fold (call_meaning to_json) ops (message_of e)"
proof (induction ops arbitrary: e)
  case (Cons op ops)
  then obtain e1 where "do_call to_json op e = Inr e1" "event_calls to_json e1 ops = Inr e'"
    by (auto split: sum.splits)
  with Cons do_call_ok [of to_json op e e1, OF assms] show ?case by simp
qed simp

lemma built_events_ok:
  assumes "\<And>v s. to_json v = Inr s \<Longrightarrow> CR \<notin> set s"
    and "list_all2 (\<lambda>ops e. event_calls to_json event_default ops = Inr e) callss es"
  shows "(\<forall>e \<in> set es. event_ok e) \<and> map message_of es = map (intended_message to_json) callss"
  using assms(2)
proof (induction rule: list_all2_induct)
  case (Cons ops callss e es)
  moreover have "message_of event_default = no_message"
    by (simp add: message_of_def event_default_def no_message_def)
  ultimately show ?case
    using event_calls_ok [of to_json event_default ops e, OF assms(1)] event_ok_default
    by (simp add: intended_message_def)
qed simp

subsection \<open>Properties\<close>

definition demo_event :: event where
  "demo_event = event_data (event_id event_default ''7'') (''a'' @ [CR, LF] @ '': b'')"

lemma demo_event_ok: "event_ok demo_event"
  by (simp add: demo_event_def wf_intros)

text \<open>C19: Whatever a handler puts into its events, the client reads what was meant, and nothing else.  Let every
  event of a stream be built by a chain of builder calls (\<open>data\<close>, \<open>id\<close>, \<open>event\<close>, \<open>retry\<close>, \<open>comment\<close>, \<open>json_data\<close>) on the default
  event with any texts, with line breaks of any kind or field syntax of their own, where no JSON text has a raw
  carriage return (\<^verbatim>\<open>serde_json\<close> escapes it).  A parser written from the format reads from the bytes one message per
  event, in order: its data is the last data text with its line breaks as LF or the JSON text, its id the first line of the last id
  without NULs, its name the first line of the last event name, its retry time the last duration in milliseconds as 64
  bits; a field that was not set is absent.  So no field can be injected and no event split or merged.\<close>

theorem sse_roundtrip:
  assumes "\<And>v s. to_json v = Inr s \<Longrightarrow> CR \<notin> set s"
    and "list_all2 (\<lambda>ops e. event_calls to_json event_default ops = Inr e) callss es"
  shows "sse_parse (concat (map serialize es)) = map (intended_message to_json) callss"
  using built_events_ok [of to_json callss es, OF assms] by (simp add: sse_parse_serialize)

theorem sse_roundtrip_witness:
  "sse_parse (concat (map serialize
     [event_data (event_id event_default (''7'' @ [NUL, LF] @ ''data: x'')) (''a'' @ [CR, LF] @ '': b'')]))
   = [\<lparr>msg_id = Some ''7'', msg_event = None, msg_data = Some (''a'' @ [LF] @ '': b''), msg_retry = None\<rparr>]"
proof -
  let ?json = "\<lambda>u :: unit. Inr ''null'' :: unit + string"
  let ?ops = "[CallId (''7'' @ [NUL, LF] @ ''data: x''), CallData (''a'' @ [CR, LF] @ '': b'')]"
  let ?e = "event_data (event_id event_default (''7'' @ [NUL, LF] @ ''data: x'')) (''a'' @ [CR, LF] @ '': b'')"
  have json: "CR \<notin> set s" if "?json v = Inr s" for v s using that by auto
  have built: "list_all2 (\<lambda>ops e. event_calls ?json event_default ops = Inr e) [?ops] [?e]" by simp
  have "intended_message ?json ?ops =
      \<lparr>msg_id = Some ''7'', msg_event = None, msg_data = Some (''a'' @ [LF] @ '': b''), msg_retry = None\<rparr>"
    by (simp add: intended_message_def no_message_def)
  with sse_roundtrip [OF json built] show ?thesis by simp
qed

text \<open>Keep-alive frames never disturb the stream.  For any interleaving of polls, timer expiries
  and events, the messages a client dispatches from the bytes of the body are those of the
  handler's events, in order.\<close>

theorem sse_body_transparent:
  assumes "\<And>k. sb_keep_alive b = Some k \<Longrightarrow> keep_alive_built k"
    and "\<And>e. e \<in> set (stream_events ps) \<Longrightarrow> event_ok e"
  shows "dispatched (sse_parse (concat (body_run b ps))) = dispatched (map message_of (stream_events ps))"
proof -
  obtain es where es: "body_run b ps = map serialize es" "\<forall>e \<in> set es. event_ok e"
    "dispatched (map message_of es) = dispatched (map message_of (stream_events ps))"
    using body_run_frames [of b ps] assms by blast
  have "sse_parse (concat (map serialize es)) = map message_of es"
    using es(2) by (intro sse_parse_serialize) blast
  with es show ?thesis by simp
qed

theorem sse_body_transparent_witness:
  "dispatched (sse_parse (concat (body_run (sse_body_new (Some keep_alive_new) 0)
     [(1, SItem demo_event), (40000000000, SPending), (40000000001, SItem demo_event), (40000000002, SEnd)])))
   = dispatched (map message_of (stream_events
     [(1, SItem demo_event), (40000000000, SPending), (40000000001, SItem demo_event), (40000000002, SEnd)]))"
  by (rule sse_body_transparent)
    (auto simp: sse_body_new_def demo_event_ok keep_alive_built.new)

text \<open>A keep-alive frame is sent only after a full interval without any frame: while the stream
  is silent, the body stays pending until the interval since the last frame has passed.\<close>

theorem keep_alive_only_when_idle:
  assumes "sb_keep_alive b = Some k" and "fst (poll_frame b t0 p) = FData d"
  shows "fst (poll_frame (snd (poll_frame b t0 p)) t SPending) =
    (if t < t0 + ka_interval k then FPending else FData (ka_comment_bytes k))"
  using assms
  by (auto simp: poll_frame_def sb_reset_def split: stream_poll.splits if_splits)

theorem keep_alive_only_when_idle_witness:
  "fst (poll_frame (snd (poll_frame (sse_body_new (Some keep_alive_new) 0) 5 (SItem demo_event))) 6 SPending)
   = FPending"
  using keep_alive_only_when_idle [of "sse_body_new (Some keep_alive_new) 0" keep_alive_new 5 "SItem demo_event"
      "serialize demo_event" 6]
  by (simp add: sse_body_new_def poll_frame_def keep_alive_new_def)

text \<open>The buffer reserved for an event is never too small, so serialising allocates once; the
  subtraction in the estimate does not underflow.\<close>

theorem estimate_wire_len_bound:
  assumes "event_ok e"
  shows "length (serialize e) \<le> estimate_wire_len e"
proof -
  have retry: "length (nat_to_string r) \<le> 20" if "ev_retry e = Some r" for r
    using assms that by (intro length_nat_to_string_le) (auto simp: event_ok_def)
  have "length (case ev_comment e of Some c \<Rightarrow> field_lines '': '' (split_on LF c) | None \<Rightarrow> [])
      \<le> (case ev_comment e of Some c \<Rightarrow> length (split_on LF c) * 3 + length c | None \<Rightarrow> 0)"
    by (auto simp: length_split_lines split: option.split)
  moreover have "length (case ev_id e of Some i \<Rightarrow> ''id: '' @ i @ [LF] | None \<Rightarrow> [])
      = (case ev_id e of Some i \<Rightarrow> 4 + length i + 1 | None \<Rightarrow> 0)"
    by (simp split: option.split)
  moreover have "length (case ev_event e of Some n \<Rightarrow> ''event: '' @ n @ [LF] | None \<Rightarrow> [])
      = (case ev_event e of Some n \<Rightarrow> 7 + length n + 1 | None \<Rightarrow> 0)"
    by (simp split: option.split)
  moreover have "length (case ev_data e of
        Some d \<Rightarrow> if d = [] then ''data: '' @ [LF] else field_lines ''data: '' (split_on LF d) | None \<Rightarrow> [])
      = (case ev_data e of
          Some d \<Rightarrow> (let lines = (if d = [] then 1 else length (split_on LF d))
                    in lines * 7 + length d - (lines - 1)) | None \<Rightarrow> 0)"
    by (auto simp: length_split_lines Let_def split: option.split)
  moreover have "length (case ev_retry e of Some ms \<Rightarrow> ''retry: '' @ nat_to_string ms @ [LF] | None \<Rightarrow> [])
      \<le> (case ev_retry e of Some _ \<Rightarrow> 7 + 20 + 1 | None \<Rightarrow> 0)"
    using retry by (simp split: option.split)
  ultimately show ?thesis
    unfolding serialize_def estimate_wire_len_def length_append by simp
qed

theorem estimate_wire_len_bound_witness: "length (serialize demo_event) \<le> estimate_wire_len demo_event"
  by (rule estimate_wire_len_bound [OF demo_event_ok])

end
