(* ===== verification/Bodies.thy ===== *)
theory Bodies
  imports Http
begin

text \<open>
  Request and response bodies: arvik-core/src/body.rs, stream_body.rs and body_limit.rs, and the
  limiting layers of arvik-middleware/src/body_limit.rs.

  A body is read by polling it for frames; \<open>frames_of\<close> is the sequence it yields when polled to
  its end.  Byte counts are naturals: a body of 2^64 bytes is out of reach.
\<close>

subsection \<open>Bodies\<close>

definition USIZE_MAX :: nat where "USIZE_MAX = 2 ^ 64 - 1"

definition body_new :: "frame list \<Rightarrow> nat option \<Rightarrow> body" where
  "body_new frames upper = BBoxed frames upper"

definition body_empty :: body where "body_empty = BEmpty"
definition body_from_bytes :: "string \<Rightarrow> body" where "body_from_bytes b = BFull b"

definition body_from_chunks :: "string list \<Rightarrow> body" where
  "body_from_chunks cs =
     (let chunks = filter (\<lambda>c. c \<noteq> []) cs
      in if chunks = [] then body_empty else BChunks chunks (sum_list (map length chunks)))"

text \<open>A stream yields chunks until it ends or fails.\<close>

definition body_from_stream :: "(body_error + string) list \<Rightarrow> body" where
  "body_from_stream items = body_new (map (\<lambda>x. case x of Inr b \<Rightarrow> Data b | Inl e \<Rightarrow> FrameErr e) items) None"

text \<open>\<^verbatim>\<open>StreamBody::into_response\<close>.\<close>

definition stream_body_into_response :: "'h http_lib \<Rightarrow> (body_error + string) list \<Rightarrow> 'h response" where
  "stream_body_into_response H items = rb_body H (body_from_stream items) (rb_new H)"

text \<open>
  \<^verbatim>\<open>Trailers::into_response\<close>: \<open>with_trailers\<close> is the combinator of the http-body-util crate, which gives the frames of a
  body followed by its trailers, and what it reports as size hint.
\<close>

definition trailers_into_response :: "(body \<Rightarrow> frame list \<times> nat option) \<Rightarrow> 'h response \<Rightarrow> 'h response" where
  "trailers_into_response with_trailers response =
     (let (frames, hint) = with_trailers (res_body response) in response\<lparr>res_body := body_new frames hint\<rparr>)"

text \<open>\<^verbatim>\<open>poll_frame\<close>: the next frame, if any, and the rest of the body.\<close>

fun body_poll :: "body \<Rightarrow> frame option \<times> body" where
  "body_poll BEmpty = (None, BEmpty)"
| "body_poll (BFull b) = (if b = [] then (None, BFull []) else (Some (Data b), BFull []))"
| "body_poll (BChunks [] r) = (None, BChunks [] r)"
| "body_poll (BChunks (c # cs) r) = (Some (Data c), BChunks cs (r - length c))"
| "body_poll (BBoxed [] u) = (None, BBoxed [] u)"
| "body_poll (BBoxed (f # fs) u) = (Some f, BBoxed fs u)"

fun size_hint_upper :: "body \<Rightarrow> nat option" where
  "size_hint_upper BEmpty = Some 0"
| "size_hint_upper (BFull b) = Some (length b)"
| "size_hint_upper (BChunks cs r) = Some r"
| "size_hint_upper (BBoxed fs u) = u"

text \<open>The lower bound is never above the upper one.\<close>

definition is_empty_hint :: "body \<Rightarrow> bool" where
  "is_empty_hint b \<longleftrightarrow> size_hint_upper b = Some 0"

fun frames_of :: "body \<Rightarrow> frame list" where
  "frames_of BEmpty = []"
| "frames_of (BFull b) = (if b = [] then [] else [Data b])"
| "frames_of (BChunks cs r) = map Data cs"
| "frames_of (BBoxed fs u) = fs"

text \<open>\<^verbatim>\<open>to_bytes\<close>: collecting keeps the data and skips trailers.\<close>

fun collect_frames :: "frame list \<Rightarrow> body_error + string" where
  "collect_frames [] = Inr []"
| "collect_frames (Data b # fs) = (case collect_frames fs of Inr r \<Rightarrow> Inr (b @ r) | Inl e \<Rightarrow> Inl e)"
| "collect_frames (Trailers # fs) = collect_frames fs"
| "collect_frames (FrameErr e # fs) = Inl e"

definition to_bytes :: "body \<Rightarrow> body_error + string" where
  "to_bytes b = collect_frames (frames_of b)"

definition body_to_string :: "body \<Rightarrow> body_error + string" where
  "body_to_string b =
     (case to_bytes b of
        Inl e \<Rightarrow> Inl e
      | Inr s \<Rightarrow> if utf8_valid s then Inr s else Inl (OtherError ''invalid utf-8''))"

datatype body_limit_error = TooLarge | ReadErr body_error

definition is_payload_too_large :: "body_limit_error \<Rightarrow> bool" where
  "is_payload_too_large e = (case e of TooLarge \<Rightarrow> True | ReadErr x \<Rightarrow> x = BodyTooLarge)"

text \<open>The \<open>while\<close> loop of \<^verbatim>\<open>to_bytes_limited\<close>: \<open>acc\<close> are the frames read so far.\<close>

fun limited_loop :: "nat \<Rightarrow> nat \<Rightarrow> string list \<Rightarrow> frame list \<Rightarrow> body_limit_error + string" where
  "limited_loop limit tot acc [] = Inr (concat acc)"
| "limited_loop limit tot acc (Data d # fs) =
     (if tot + length d > limit then Inl TooLarge
      else limited_loop limit (tot + length d) (acc @ [d]) fs)"
| "limited_loop limit tot acc (Trailers # fs) = Inl (ReadErr (OtherError ''unexpected body trailer''))"
| "limited_loop limit tot acc (FrameErr e # fs) = Inl (ReadErr e)"

definition to_bytes_limited :: "body \<Rightarrow> nat \<Rightarrow> body_limit_error + string" where
  "to_bytes_limited self limit =
     (case size_hint_upper self of
        Some upper \<Rightarrow> if upper > limit then Inl TooLarge else limited_loop limit 0 [] (frames_of self)
      | None \<Rightarrow> limited_loop limit 0 [] (frames_of self))"

definition DEFAULT_BODY_LIMIT :: nat where "DEFAULT_BODY_LIMIT = 2 * 1024 * 1024"

definition resolve_limit :: "extensions \<Rightarrow> nat" where
  "resolve_limit ext = (case ext_body_limit ext of Some l \<Rightarrow> l | None \<Rightarrow> DEFAULT_BODY_LIMIT)"

subsection \<open>The limiting layers\<close>

text \<open>\<^verbatim>\<open>LimitedBody::poll_frame\<close>, frame by frame: \<open>count\<close> is the number of bytes seen.\<close>

fun limited_frames :: "nat \<Rightarrow> nat \<Rightarrow> frame list \<Rightarrow> frame list" where
  "limited_frames limit count [] = []"
| "limited_frames limit count (Data d # fs) =
     (if count + length d > limit then FrameErr BodyTooLarge else Data d)
     # limited_frames limit (count + length d) fs"
| "limited_frames limit count (f # fs) = f # limited_frames limit count fs"

definition limited_body :: "nat \<Rightarrow> body \<Rightarrow> body" where
  "limited_body limit inner = body_new (limited_frames limit 0 (frames_of inner)) (size_hint_upper inner)"

definition payload_too_large :: "'h http_lib \<Rightarrow> nat \<Rightarrow> 'h outcome" where
  "payload_too_large H limit =
     builder_unwrap
       (BFull (''{\"error\":\"Payload Too Large\",\"code\":413,\"limit_bytes\":'' @ nat_to_string limit @ ''}''))
       (rb_header_str H ''content-type'' ''application/json'' (rb_with_status 413 (rb_new H)))"

definition declared_length :: "'h http_lib \<Rightarrow> 'h request \<Rightarrow> nat option" where
  "declared_length H req =
     Option.bind (Option.bind (hm_get H (req_headers req) ''content-length'') (hv_to_str H)) parse_u64"

definition request_body_limit_call :: "'h http_lib \<Rightarrow> nat \<Rightarrow> ('h, 'w) layer" where
  "request_body_limit_call H limit inner = (\<lambda>req w.
     (let reject = (payload_too_large H limit, w);
          accept = inner (req\<lparr>req_body := limited_body limit (req_body req)\<rparr>) w
      in case declared_length H req of
           Some n \<Rightarrow> if n > limit then reject else accept
         | None \<Rightarrow> accept))"

definition default_body_limit_call :: "nat \<Rightarrow> ('h, 'w) layer" where
  "default_body_limit_call limit inner = (\<lambda>req w.
     inner (req\<lparr>req_ext := (req_ext req)\<lparr>ext_body_limit := Some limit\<rparr>\<rparr>) w)"

subsection \<open>Lemmas\<close>

definition frame_data :: "frame \<Rightarrow> string" where
  "frame_data f = (case f of Data d \<Rightarrow> d | _ \<Rightarrow> [])"

definition all_data :: "frame list \<Rightarrow> bool" where
  "all_data fs \<longleftrightarrow> list_all (\<lambda>f. case f of Data _ \<Rightarrow> True | _ \<Rightarrow> False) fs"

definition data_of :: "frame list \<Rightarrow> string" where
  "data_of fs = concat (map frame_data fs)"

lemma data_simps [simp]: "data_of [] = []" "data_of (Data d # fs) = d @ data_of fs"
  "data_of (Trailers # fs) = data_of fs" "data_of (FrameErr e # fs) = data_of fs"
  "all_data []" "all_data (Data d # fs) = all_data fs" "\<not> all_data (Trailers # fs)"
  "\<not> all_data (FrameErr e # fs)"
  by (simp_all add: data_of_def all_data_def frame_data_def)

lemma collect_all_data: "all_data fs \<Longrightarrow> collect_frames fs = Inr (data_of fs)"
  by (induction fs rule: collect_frames.induct) simp_all

text \<open>What a reader that stops at the first error has been given.\<close>

fun read_upto_error :: "frame list \<Rightarrow> string" where
  "read_upto_error (Data d # fs) = d @ read_upto_error fs"
| "read_upto_error (Trailers # fs) = read_upto_error fs"
| "read_upto_error _ = []"

lemma limited_loop_Inr:
  "limited_loop limit tot acc fs = Inr s \<longleftrightarrow>
     all_data fs \<and> s = concat acc @ data_of fs \<and> (fs = [] \<or> tot + length (data_of fs) \<le> limit)"
proof (induction limit tot acc fs rule: limited_loop.induct)
  case (2 limit tot acc d fs)
  show ?case
  proof (cases "tot + length d > limit")
    case False
    with 2 show ?thesis by (cases "fs = []") auto
  qed simp
qed auto

lemma limited_loop_TooLarge:
  "all_data fs \<Longrightarrow> fs \<noteq> [] \<Longrightarrow> tot + length (data_of fs) > limit \<Longrightarrow>
     limited_loop limit tot acc fs = Inl TooLarge"
proof (induction limit tot acc fs rule: limited_loop.induct)
  case (2 limit tot acc d fs)
  then show ?case by (cases "fs = []") auto
qed auto

lemma limited_frames_id:
  "count + length (data_of fs) \<le> limit \<Longrightarrow> limited_frames limit count fs = fs"
  by (induction limit count fs rule: limited_frames.induct) auto

lemma limited_frames_read:
  "count \<le> limit \<Longrightarrow> count + length (read_upto_error (limited_frames limit count fs)) \<le> limit"
  by (induction limit count fs rule: limited_frames.induct) auto

lemma limited_frames_error:
  "count + length (data_of fs) > limit \<Longrightarrow> count \<le> limit \<Longrightarrow> all_data fs \<Longrightarrow>
     collect_frames (limited_frames limit count fs) = Inl BodyTooLarge"
proof (induction limit count fs rule: limited_frames.induct)
  case (2 limit count d fs)
  then show ?case by (cases "count + length d > limit") auto
qed auto

text \<open>A size hint is honest when it bounds the data still to come.\<close>

definition hint_ok :: "body \<Rightarrow> bool" where
  "hint_ok b \<longleftrightarrow> (\<forall>u. size_hint_upper b = Some u \<longrightarrow> length (data_of (frames_of b)) \<le> u)"

definition chunks_ok :: "body \<Rightarrow> bool" where
  "chunks_ok b \<longleftrightarrow> (case b of BChunks cs r \<Rightarrow> r = length (concat cs) \<and> [] \<notin> set cs | _ \<Rightarrow> True)"

lemma data_of_map_Data [simp]: "data_of (map Data cs) = concat cs" "all_data (map Data cs)"
  by (induction cs) simp_all

lemma body_from_chunks_ok: "chunks_ok (body_from_chunks cs)"
  by (auto simp: chunks_ok_def body_from_chunks_def body_empty_def Let_def length_concat)

lemma body_poll_ok: "chunks_ok b \<Longrightarrow> chunks_ok (snd (body_poll b))"
  by (cases b rule: body_poll.cases) (auto simp: chunks_ok_def)

lemma body_poll_frames:
  "frames_of b = (case fst (body_poll b) of Some f \<Rightarrow> f # frames_of (snd (body_poll b)) | None \<Rightarrow> [])"
  by (cases b rule: body_poll.cases) auto

lemma concat_filter_nonempty: "concat (filter (\<lambda>c. c \<noteq> []) cs) = concat cs"
  by (induction cs) auto

lemma chunks_hint_exact: "chunks_ok b \<Longrightarrow> (\<And>fs u. b \<noteq> BBoxed fs u) \<Longrightarrow>
    size_hint_upper b = Some (length (data_of (frames_of b)))"
  by (cases b) (auto simp: chunks_ok_def)

lemma body_poll_kind: "(\<And>fs u. b \<noteq> BBoxed fs u) \<Longrightarrow> snd (body_poll b) \<noteq> BBoxed fs u"
  by (cases b rule: body_poll.cases) auto

lemma to_bytes_limited_spec:
  assumes "all_data (frames_of b)"
    and "\<And>u. size_hint_upper b = Some u \<Longrightarrow> u = length (data_of (frames_of b))"
  shows "to_bytes_limited b limit =
    (if length (data_of (frames_of b)) \<le> limit then Inr (data_of (frames_of b)) else Inl TooLarge)"
proof (cases "length (data_of (frames_of b)) \<le> limit")
  case True
  then have "limited_loop limit 0 [] (frames_of b) = Inr (data_of (frames_of b))"
    using assms(1) by (simp add: limited_loop_Inr)
  with True assms(2) show ?thesis by (auto simp: to_bytes_limited_def split: option.split)
next
  case False
  then have "frames_of b \<noteq> []" by auto
  with False assms show ?thesis
    by (auto simp: to_bytes_limited_def limited_loop_TooLarge split: option.split)
qed

subsection \<open>Properties\<close>

text \<open>Reading under a limit never buffers more than the limit, and when it succeeds it returns
  what reading without a limit returns, whatever the body's frames and size hint are.\<close>

theorem to_bytes_limited_sound:
  assumes "to_bytes_limited b limit = Inr s"
  shows "length s \<le> limit \<and> to_bytes b = Inr s"
proof -
  have "limited_loop limit 0 [] (frames_of b) = Inr s"
    using assms by (auto simp: to_bytes_limited_def split: option.splits if_splits)
  then show ?thesis
    by (auto simp: limited_loop_Inr to_bytes_def collect_all_data)
qed

theorem to_bytes_limited_sound_witness:
  "length ''hello'' \<le> 5 \<and> to_bytes (BBoxed [Data ''he'', Data ''llo''] None) = Inr ''hello''"
  by (rule to_bytes_limited_sound) (simp add: to_bytes_limited_def)

text \<open>On a body of data frames whose size hint, if it has one, is right, the limit is exact:
  the whole body is returned when it fits and TooLarge otherwise.\<close>

theorem to_bytes_limited_exact:
  assumes "all_data (frames_of b)"
    and "\<And>u. size_hint_upper b = Some u \<Longrightarrow> u = length (data_of (frames_of b))"
  shows "to_bytes_limited b limit =
    (if length (data_of (frames_of b)) \<le> limit then Inr (data_of (frames_of b)) else Inl TooLarge)"
  using assms by (rule to_bytes_limited_spec)

theorem to_bytes_limited_exact_witness:
  "to_bytes_limited (body_from_chunks [''ab'', [], ''c'']) 2 = Inl TooLarge"
  using to_bytes_limited_exact [of "body_from_chunks [''ab'', [], ''c'']" 2]
  by (simp add: body_from_chunks_def Let_def)

text \<open>C15: Behind the limiting layer no reader is given more than the limit.  A declared length over
  the limit is answered 413 without calling the service; otherwise the service runs on a body
  whose data up to the first error is within the limit, which is the original body when that
  fits and fails with BodyTooLarge when read to the end otherwise.\<close>

theorem request_body_limit_enforced:
  assumes "header_map H"
  shows "(\<exists>n > limit. declared_length H req = Some n) \<and>
      (\<exists>resp. request_body_limit_call H limit inner req w = (Done resp, w) \<and> res_status resp = 413)
    \<or> \<not> (\<exists>n > limit. declared_length H req = Some n) \<and>
      (\<exists>b. request_body_limit_call H limit inner req w = inner (req\<lparr>req_body := b\<rparr>) w
        \<and> length (read_upto_error (frames_of b)) \<le> limit
        \<and> (if length (data_of (frames_of (req_body req))) \<le> limit
           then frames_of b = frames_of (req_body req)
           else all_data (frames_of (req_body req)) \<longrightarrow> to_bytes b = Inl BodyTooLarge))"
proof -
  have resp: "\<exists>resp. payload_too_large H limit = Done resp \<and> res_status resp = 413"
    by (simp add: payload_too_large_def rb_defs header_map.from_str [OF assms] header_visible_def)
  let ?b = "limited_body limit (req_body req)"
  have b: "length (read_upto_error (frames_of ?b)) \<le> limit"
    "length (data_of (frames_of (req_body req))) \<le> limit \<Longrightarrow> frames_of ?b = frames_of (req_body req)"
    "\<not> length (data_of (frames_of (req_body req))) \<le> limit \<Longrightarrow> all_data (frames_of (req_body req)) \<Longrightarrow>
      to_bytes ?b = Inl BodyTooLarge"
    using limited_frames_read [of 0 limit "frames_of (req_body req)"]
      limited_frames_id [of 0 "frames_of (req_body req)" limit]
      limited_frames_error [of limit 0 "frames_of (req_body req)"]
    by (simp_all add: limited_body_def body_new_def to_bytes_def)
  show ?thesis
  proof (cases "\<exists>n > limit. declared_length H req = Some n")
    case True
    with resp show ?thesis by (auto simp: request_body_limit_call_def Let_def)
  next
    case False
    then have "request_body_limit_call H limit inner req w = inner (req\<lparr>req_body := ?b\<rparr>) w"
      by (auto simp: request_body_limit_call_def Let_def split: option.split)
    with False b show ?thesis by (intro disjI2 conjI exI [of _ ?b]) auto
  qed
qed

theorem request_body_limit_enforced_witness:
  "\<exists>b. request_body_limit_call alist_lib 3 counting_service
      ((sample_request Post ''/'' [])\<lparr>req_body := BBoxed [Data ''ab'', Data ''cd''] None\<rparr>) 0
    = counting_service ((sample_request Post ''/'' [])\<lparr>req_body := b\<rparr>) 0 \<and> to_bytes b = Inl BodyTooLarge"
  using request_body_limit_enforced [OF alist_header_map, where limit = 3 and inner = counting_service
      and w = 0 and req = "(sample_request Post ''/'' [])\<lparr>req_body := BBoxed [Data ''ab'', Data ''cd''] None\<rparr>"]
  by (auto simp: declared_length_def alist_sel sample_request_def)

text \<open>A body built from chunks yields exactly their bytes, and after any number of polls its size
  hint is exactly the number of bytes still to come.\<close>

theorem body_from_chunks_exact:
  "to_bytes (body_from_chunks cs) = Inr (concat cs) \<and>
   size_hint_upper (((\<lambda>b. snd (body_poll b)) ^^ n) (body_from_chunks cs)) =
     Some (length (data_of (frames_of (((\<lambda>b. snd (body_poll b)) ^^ n) (body_from_chunks cs)))))"
proof
  show "to_bytes (body_from_chunks cs) = Inr (concat cs)"
    using concat_filter_nonempty [of cs]
    by (auto simp: to_bytes_def body_from_chunks_def body_empty_def Let_def collect_all_data)
  let ?b = "\<lambda>n. ((\<lambda>b. snd (body_poll b)) ^^ n) (body_from_chunks cs)"
  have "chunks_ok (?b n) \<and> (\<forall>fs u. ?b n \<noteq> BBoxed fs u)"
  proof (induction n)
    case 0
    show ?case by (simp add: body_from_chunks_ok) (simp add: body_from_chunks_def body_empty_def Let_def)
  next
    case (Suc n)
    then show ?case by (simp add: body_poll_ok body_poll_kind)
  qed
  then show "size_hint_upper (?b n) = Some (length (data_of (frames_of (?b n))))"
    by (intro chunks_hint_exact) auto
qed

text \<open>Trailers do not disturb an unlimited read, but no limited read accepts a body that has them.\<close>

lemma collect_frames_trailers: "all_data fs \<Longrightarrow> collect_frames (fs @ [Trailers]) = Inr (data_of fs)"
  by (induction fs rule: collect_frames.induct) (simp_all add: all_data_def data_of_def frame_data_def)

lemma limited_loop_trailers: "all_data fs \<Longrightarrow> \<exists>e. limited_loop limit n acc (fs @ [Trailers]) = Inl e"
  by (induction limit n acc fs rule: limited_loop.induct) (simp_all add: all_data_def)

lemma trailers_read:
  assumes "with_trailers (res_body resp) = (fs @ [Trailers], u)" "all_data fs"
  shows "to_bytes (res_body (trailers_into_response with_trailers resp)) = Inr (data_of fs)"
    and "\<exists>e. to_bytes_limited (res_body (trailers_into_response with_trailers resp)) limit = Inl e"
  using collect_frames_trailers [OF assms(2)] limited_loop_trailers [OF assms(2), of limit 0 "[]"]
  by (auto simp: trailers_into_response_def assms(1) to_bytes_def to_bytes_limited_def body_new_def split: option.split)

end
