(* ===== verification/Compression.thy ===== *)
theory Compression
  imports Bodies
begin

text \<open>
  Content negotiation (arvik-core/src/accept.rs) and the compression layers
  (arvik-middleware/src/compression.rs).

  \<open>negotiate\<close> is the allocation-free routine the server uses, \<open>parse_accept_encodings\<close> the
  parser beside it; a theorem says that they agree.  Parsing of a quality is a parameter
  \<open>parse_float\<close> with the exact reals and NaN as values.  The codecs are parameters too; the locale
  \<open>body_codec\<close> states that decoding inverts encoding.
\<close>

subsection \<open>Negotiation\<close>

datatype f32 = F32 real | NaN32

definition clamp01 :: "f32 \<Rightarrow> f32" where
  "clamp01 q = (case q of F32 r \<Rightarrow> F32 (max 0 (min 1 r)) | NaN32 \<Rightarrow> NaN32)"

definition positive :: "f32 \<Rightarrow> bool" where
  "positive q = (case q of F32 r \<Rightarrow> r > 0 | NaN32 \<Rightarrow> False)"

text \<open>One parameter of an entry, \<open>None\<close> when it is no quality.\<close>

definition quality_of :: "(string \<Rightarrow> f32 option) \<Rightarrow> string \<Rightarrow> f32 option" where
  "quality_of parse_float p =
     (let parameter = trim p
      in map_option (\<lambda>q. case parse_float (trim q) of Some v \<Rightarrow> v | None \<Rightarrow> F32 1)
           (case strip_prefix ''q='' parameter of Some q \<Rightarrow> Some q | None \<Rightarrow> strip_prefix ''Q='' parameter))"

fun parse_q_loop :: "(string \<Rightarrow> f32 option) \<Rightarrow> f32 \<Rightarrow> string list \<Rightarrow> f32" where
  "parse_q_loop parse_float quality [] = quality"
| "parse_q_loop parse_float quality (p # ps) =
     parse_q_loop parse_float (case quality_of parse_float p of Some q \<Rightarrow> q | None \<Rightarrow> quality) ps"

definition parse_q :: "(string \<Rightarrow> f32 option) \<Rightarrow> string list \<Rightarrow> f32" where
  "parse_q parse_float segments = clamp01 (parse_q_loop parse_float (F32 1) segments)"

definition parse_entry :: "(string \<Rightarrow> f32 option) \<Rightarrow> string \<Rightarrow> (string \<times> f32) option" where
  "parse_entry parse_float entry =
     (let parts = split_on (CHR '';'') (trim entry);
          coding = to_ascii_lowercase (trim (hd parts))
      in if coding = [] then None else Some (coding, parse_q parse_float (tl parts)))"

definition parse_accept_encodings :: "(string \<Rightarrow> f32 option) \<Rightarrow> string \<Rightarrow> (string \<times> f32) list" where
  "parse_accept_encodings parse_float value = List.map_filter (parse_entry parse_float) (split_on (CHR '','') value)"

text \<open>The inner loop of \<^verbatim>\<open>negotiate\<close>: what has been seen of the candidate and of the wildcard.\<close>

fun negotiate_loop :: "(string \<Rightarrow> f32 option) \<Rightarrow> string \<Rightarrow> bool \<Rightarrow> bool \<Rightarrow> bool \<Rightarrow> string list \<Rightarrow> bool" where
  "negotiate_loop parse_float candidate exact_seen exact_allowed wildcard_allowed [] =
     (if exact_seen then exact_allowed else wildcard_allowed)"
| "negotiate_loop parse_float candidate exact_seen exact_allowed wildcard_allowed (entry # es) =
     (let segments = split_on (CHR '';'') (trim entry);
          coding = trim (hd segments)
      in if eq_ignore_ascii_case coding candidate
         then negotiate_loop parse_float candidate True (positive (parse_q parse_float (tl segments))) wildcard_allowed es
         else if coding = ''*''
         then negotiate_loop parse_float candidate exact_seen exact_allowed (positive (parse_q parse_float (tl segments))) es
         else negotiate_loop parse_float candidate exact_seen exact_allowed wildcard_allowed es)"

fun negotiate :: "(string \<Rightarrow> f32 option) \<Rightarrow> string list \<Rightarrow> string \<Rightarrow> string option" where
  "negotiate parse_float [] accept_encoding = None"
| "negotiate parse_float (candidate # cs) accept_encoding =
     (if negotiate_loop parse_float candidate False False False (split_on (CHR '','') accept_encoding)
      then Some candidate else negotiate parse_float cs accept_encoding)"

subsection \<open>Compression\<close>

datatype compression_level = Fastest | Best | DefaultLevel
datatype encoding = Gzip | Br | Zstd | Deflate

fun header_value :: "encoding \<Rightarrow> string" where
  "header_value Gzip = ''gzip''"
| "header_value Br = ''br''"
| "header_value Zstd = ''zstd''"
| "header_value Deflate = ''deflate''"

record compression_layer =
  cl_gzip :: bool
  cl_br :: bool
  cl_zstd :: bool
  cl_deflate :: bool
  cl_level :: compression_level
  cl_min_size :: nat

definition compression_new :: compression_layer where
  "compression_new = \<lparr>cl_gzip = True, cl_br = True, cl_zstd = True, cl_deflate = True,
     cl_level = DefaultLevel, cl_min_size = 1024\<rparr>"

definition compression_enable :: "encoding \<Rightarrow> bool \<Rightarrow> compression_layer \<Rightarrow> compression_layer" where
  "compression_enable e b self =
     (case e of
        Gzip \<Rightarrow> self\<lparr>cl_gzip := b\<rparr> | Br \<Rightarrow> self\<lparr>cl_br := b\<rparr>
      | Zstd \<Rightarrow> self\<lparr>cl_zstd := b\<rparr> | Deflate \<Rightarrow> self\<lparr>cl_deflate := b\<rparr>)"
definition compression_quality :: "compression_level \<Rightarrow> compression_layer \<Rightarrow> compression_layer" where
  "compression_quality l self = self\<lparr>cl_level := l\<rparr>"
definition compression_min_size :: "nat \<Rightarrow> compression_layer \<Rightarrow> compression_layer" where
  "compression_min_size n self = self\<lparr>cl_min_size := n\<rparr>"

fun preferred_loop :: "(string \<Rightarrow> f32 option) \<Rightarrow> string \<Rightarrow> (bool \<times> string \<times> encoding) list \<Rightarrow> encoding option" where
  "preferred_loop parse_float accept [] = None"
| "preferred_loop parse_float accept ((enabled, name, e) # rest) =
     (if enabled \<and> negotiate parse_float [name] accept \<noteq> None then Some e
      else preferred_loop parse_float accept rest)"

definition preferred_encoding :: "(string \<Rightarrow> f32 option) \<Rightarrow> compression_layer \<Rightarrow> string \<Rightarrow> encoding option" where
  "preferred_encoding parse_float self accept =
     preferred_loop parse_float accept
       [(cl_zstd self, ''zstd'', Zstd), (cl_br self, ''br'', Br),
        (cl_gzip self, ''gzip'', Gzip), (cl_deflate self, ''deflate'', Deflate)]"

definition should_compress :: "'h http_lib \<Rightarrow> 'h \<Rightarrow> bool" where
  "should_compress H headers =
     (case Option.bind (hm_get H headers ''content-type'') (hv_to_str H) of
        None \<Rightarrow> False
      | Some ct \<Rightarrow>
          starts_with ct ''text/'' \<or> contains_str ''json'' ct \<or> contains_str ''xml'' ct
          \<or> contains_str ''javascript'' ct \<or> contains_str ''css'' ct
          \<or> starts_with ct ''application/wasm'' \<or> starts_with ct ''image/svg'')"

text \<open>\<^verbatim>\<open>body_byte_stream\<close>: trailers end the stream, errors are passed on.\<close>

fun body_byte_stream :: "frame list \<Rightarrow> frame list" where
  "body_byte_stream [] = []"
| "body_byte_stream (Data d # fs) = Data d # body_byte_stream fs"
| "body_byte_stream (Trailers # fs) = []"
| "body_byte_stream (FrameErr e # fs) = FrameErr e # body_byte_stream fs"

type_synonym encoder = "encoding \<Rightarrow> compression_level \<Rightarrow> frame list \<Rightarrow> frame list"

definition compress_response :: "'h http_lib \<Rightarrow> encoder \<Rightarrow> 'h response \<Rightarrow> encoding \<Rightarrow> compression_layer
    \<Rightarrow> 'h response" where
  "compress_response H encode response enc config =
     (let vary = hm_insert H (res_headers response) ''vary'' ''Accept-Encoding'';
          compressed =
            (let h1 = hm_insert H (res_headers response) ''content-encoding'' (header_value enc);
                 h2 = hm_insert H h1 ''vary'' ''Accept-Encoding'';
                 h3 = hm_remove H h2 ''content-length''
             in response\<lparr>res_headers := h3,
                  res_body := BBoxed (encode enc (cl_level config)
                    (body_byte_stream (frames_of (res_body response)))) None\<rparr>)
      in case size_hint_upper (res_body response) of
           Some upper \<Rightarrow> if upper < cl_min_size config then response\<lparr>res_headers := vary\<rparr> else compressed
         | None \<Rightarrow> compressed)"

definition accepted_encoding :: "'h http_lib \<Rightarrow> (string \<Rightarrow> f32 option) \<Rightarrow> compression_layer \<Rightarrow> 'h request
    \<Rightarrow> encoding option" where
  "accepted_encoding H parse_float config req =
     (case Option.bind (hm_get H (req_headers req) ''accept-encoding'') (hv_to_str H) of
        Some accept \<Rightarrow> if accept = [] then None else preferred_encoding parse_float config accept
      | None \<Rightarrow> None)"

definition compression_finish :: "'h http_lib \<Rightarrow> encoder \<Rightarrow> compression_layer \<Rightarrow> encoding option \<Rightarrow> bool
    \<Rightarrow> 'h response \<Rightarrow> 'h response" where
  "compression_finish H encode config enc is_head response =
     (case enc of
        None \<Rightarrow> response
      | Some e \<Rightarrow>
          if hm_contains_key H (res_headers response) ''content-encoding'' then response
          else if is_head then response
          else if \<not> should_compress H (res_headers response) then response
          else compress_response H encode response e config)"

definition compression_call :: "'h http_lib \<Rightarrow> (string \<Rightarrow> f32 option) \<Rightarrow> encoder \<Rightarrow> compression_layer
    \<Rightarrow> ('h, 'w) layer" where
  "compression_call H parse_float encode config inner = (\<lambda>req w.
     then_response (compression_finish H encode config (accepted_encoding H parse_float config req)
         (req_method req = Head))
       (inner req w))"

subsection \<open>Decompression\<close>

text \<open>\<open>decode\<close> is the decoder, \<open>None\<close> when the input is not valid; \<open>to_lower\<close> is \<^verbatim>\<open>str::to_lowercase\<close>,
  on header text the ASCII one.\<close>

fun coding_of :: "string \<Rightarrow> encoding option" where
  "coding_of s =
     (if s = ''gzip'' then Some Gzip else if s = ''br'' \<or> s = ''brotli'' then Some Br
      else if s = ''zstd'' then Some Zstd else if s = ''deflate'' then Some Deflate else None)"

definition decompression_call :: "'h http_lib \<Rightarrow> (encoding \<Rightarrow> string \<Rightarrow> string option) \<Rightarrow> ('h, 'w) layer" where
  "decompression_call H decode inner = (\<lambda>req w.
     (case map_option to_ascii_lowercase
             (Option.bind (hm_get H (req_headers req) ''content-encoding'') (hv_to_str H)) of
        None \<Rightarrow> inner req w
      | Some e \<Rightarrow>
          (case to_bytes (req_body req) of
             Inl _ \<Rightarrow>
               (builder_unwrap (BFull ''Failed to read compressed body'') (rb_with_status 400 (rb_new H)), w)
           | Inr bytes \<Rightarrow>
               (case Option.bind (coding_of e) (\<lambda>c. decode c bytes) of
                  Some data \<Rightarrow>
                    inner (req\<lparr>req_headers :=
                        hm_insert H (hm_remove H (req_headers req) ''content-encoding'')
                          ''content-length'' (nat_to_string (length data)),
                      req_body := body_from_bytes data\<rparr>) w
                | None \<Rightarrow> inner (req\<lparr>req_body := body_from_bytes bytes\<rparr>) w))))"

subsection \<open>Negotiation lemmas\<close>

text \<open>The quality of the last entry for a coding.\<close>

definition last_quality :: "string \<Rightarrow> (string \<times> f32) list \<Rightarrow> f32 option" where
  "last_quality c ps = map_option snd (find (\<lambda>(n, _). n = c) (rev ps))"

lemma last_quality_simps [simp]:
  "last_quality c [] = None"
  "last_quality c (ps @ [(n, q)]) = (if n = c then Some q else last_quality c ps)"
  by (simp_all add: last_quality_def)

definition acceptable :: "(string \<times> f32) list \<Rightarrow> string \<Rightarrow> bool" where
  "acceptable ps c =
     (case last_quality (to_ascii_lowercase c) ps of
        Some q \<Rightarrow> positive q
      | None \<Rightarrow> (case last_quality ''*'' ps of Some q \<Rightarrow> positive q | None \<Rightarrow> False))"

lemma find_append: "find P (xs @ ys) = (case find P xs of Some x \<Rightarrow> Some x | None \<Rightarrow> find P ys)"
  by (induction xs) auto

lemma last_quality_Cons:
  "last_quality c ((n, q) # ps) =
     (case last_quality c ps of Some x \<Rightarrow> Some x | None \<Rightarrow> if n = c then Some q else None)"
  by (auto simp: last_quality_def find_append split: option.splits)

lemma ascii_lower_star: "ascii_lower c = CHR ''*'' \<longleftrightarrow> c = CHR ''*''"
proof -
  have "ascii_lower c = CHR ''*'' \<Longrightarrow> c = CHR ''*''"
  proof (cases "65 \<le> (of_char c :: nat) \<and> (of_char c :: nat) \<le> 90")
    case True
    assume "ascii_lower c = CHR ''*''"
    with True have "(of_char (char_of ((of_char c :: nat) + 32) :: char) :: nat) = 42"
      by (simp add: ascii_lower_def)
    with True show ?thesis by simp
  qed (simp add: ascii_lower_def)
  then show ?thesis by (auto simp: ascii_lower_def)
qed

lemma lower_star: "to_ascii_lowercase s = ''*'' \<longleftrightarrow> s = ''*''"
  by (cases s) (auto simp: to_ascii_lowercase_def ascii_lower_star)

lemma lower_Nil [simp]: "to_ascii_lowercase s = [] \<longleftrightarrow> s = []"
  by (simp add: to_ascii_lowercase_def)

lemma negotiate_loop_parsed:
  assumes "c \<noteq> []" and "c \<noteq> ''*''"
  shows "negotiate_loop p c seen allowed wild es =
    (let ps = List.map_filter (parse_entry p) es
     in case last_quality (to_ascii_lowercase c) ps of
          Some q \<Rightarrow> positive q
        | None \<Rightarrow> if seen then allowed
                  else (case last_quality ''*'' ps of Some q \<Rightarrow> positive q | None \<Rightarrow> wild))"
proof (induction es arbitrary: seen allowed wild)
  case Nil
  show ?case by simp
next
  case (Cons e es)
  let ?ps = "List.map_filter (parse_entry p) es"
  let ?segs = "split_on (CHR '';'') (trim e)"
  let ?coding = "trim (hd ?segs)"
  let ?q = "parse_q p (tl ?segs)"
  have c: "to_ascii_lowercase c \<noteq> ''*''" "to_ascii_lowercase c \<noteq> []"
    using assms by (simp_all add: lower_star)
  consider "to_ascii_lowercase ?coding = to_ascii_lowercase c"
    | "to_ascii_lowercase ?coding \<noteq> to_ascii_lowercase c" "?coding = ''*''"
    | "to_ascii_lowercase ?coding \<noteq> to_ascii_lowercase c" "?coding \<noteq> ''*''" by blast
  then show ?case
  proof cases
    case 1
    then have "?coding \<noteq> []" using c by (metis lower_Nil)
    with 1 have "parse_entry p e = Some (to_ascii_lowercase c, ?q)"
      by (simp add: parse_entry_def Let_def)
    with 1 c show ?thesis
      using Cons.IH [of True "positive ?q" wild]
      by (simp add: Let_def eq_ignore_ascii_case_def last_quality_Cons split: option.splits)
  next
    case 2
    then have "parse_entry p e = Some (''*'', ?q)"
      by (simp add: parse_entry_def Let_def to_ascii_lowercase_def ascii_lower_def)
    with 2 c show ?thesis
      using Cons.IH [of seen allowed "positive ?q"]
      by (auto simp: Let_def eq_ignore_ascii_case_def last_quality_Cons split: option.splits)
  next
    case 3
    then have "parse_entry p e = None \<or>
        (\<exists>n. parse_entry p e = Some (n, ?q) \<and> n \<noteq> to_ascii_lowercase c \<and> n \<noteq> ''*'')"
      by (auto simp: parse_entry_def Let_def lower_star)
    with 3 show ?thesis
      using Cons.IH [of seen allowed wild]
      by (auto simp: Let_def eq_ignore_ascii_case_def last_quality_Cons split: option.splits)
  qed
qed

lemma negotiate_single:
  assumes "c \<noteq> []" and "c \<noteq> ''*''"
  shows "negotiate p [c] accept = (if acceptable (parse_accept_encodings p accept) c then Some c else None)"
  using negotiate_loop_parsed [OF assms, of p False False False "split_on (CHR '','') accept"]
  by (simp add: acceptable_def parse_accept_encodings_def Let_def cong: option.case_cong)

definition enabled_encoding :: "compression_layer \<Rightarrow> encoding \<Rightarrow> bool" where
  "enabled_encoding c e = (case e of Gzip \<Rightarrow> cl_gzip c | Br \<Rightarrow> cl_br c | Zstd \<Rightarrow> cl_zstd c | Deflate \<Rightarrow> cl_deflate c)"

lemma preferred_encoding_find:
  "preferred_encoding p cl accept =
     find (\<lambda>e. enabled_encoding cl e \<and> acceptable (parse_accept_encodings p accept) (header_value e))
       [Zstd, Br, Gzip, Deflate]"
  by (simp add: preferred_encoding_def negotiate_single enabled_encoding_def del: negotiate.simps)

definition compressed_response :: "'h http_lib \<Rightarrow> encoder \<Rightarrow> 'h response \<Rightarrow> encoding \<Rightarrow> compression_layer \<Rightarrow> 'h response" where
  "compressed_response H encode orig e cl =
     orig\<lparr>res_headers := hm_remove H (hm_insert H (hm_insert H (res_headers orig) ''content-encoding''
          (header_value e)) ''vary'' ''Accept-Encoding'') ''content-length'',
        res_body := BBoxed (encode e (cl_level cl) (body_byte_stream (frames_of (res_body orig)))) None\<rparr>"

lemma compress_response_cases:
  "compress_response H encode orig e cl = compressed_response H encode orig e cl \<or>
   compress_response H encode orig e cl = orig\<lparr>res_headers := hm_insert H (res_headers orig) ''vary'' ''Accept-Encoding''\<rparr>"
  by (simp add: compress_response_def compressed_response_def Let_def split: option.split)

lemma compression_finish_cases:
  "compression_finish H encode cl enc head orig = orig \<or>
   compression_finish H encode cl enc head orig =
     orig\<lparr>res_headers := hm_insert H (res_headers orig) ''vary'' ''Accept-Encoding''\<rparr> \<or>
   (\<exists>e. enc = Some e \<and> \<not> hm_contains_key H (res_headers orig) ''content-encoding'' \<and>
      compression_finish H encode cl enc head orig = compressed_response H encode orig e cl)"
proof (cases enc)
  case (Some e)
  with compress_response_cases [of H encode orig e cl] show ?thesis
    by (simp add: compression_finish_def) metis
qed (simp add: compression_finish_def)

subsection \<open>Codecs\<close>

text \<open>The frames up to the trailers.\<close>

definition before_trailers :: "frame list \<Rightarrow> frame list" where
  "before_trailers fs = takeWhile (\<lambda>f. f \<noteq> Trailers) fs"

locale body_codec =
  fixes encode :: encoder and decode :: "encoding \<Rightarrow> string \<Rightarrow> string option"
  assumes encode_data: "all_data fs \<Longrightarrow> all_data (encode e l fs)"
    and decode_encode: "all_data fs \<Longrightarrow> decode e (data_of (encode e l fs)) = Some (data_of fs)"
begin

lemma compressed_body:
  assumes "all_data (before_trailers fs)"
  shows "\<exists>bytes. to_bytes (BBoxed (encode e l (body_byte_stream fs)) None) = Inr bytes
    \<and> decode e bytes = Some (data_of (before_trailers fs))"
proof -
  have "all_data (before_trailers fs) \<Longrightarrow> body_byte_stream fs = before_trailers fs" for fs
    by (induction fs rule: body_byte_stream.induct) (simp_all add: before_trailers_def)
  with assms show ?thesis
    by (simp add: to_bytes_def collect_all_data encode_data decode_encode)
qed

end

text \<open>An instance: each codec writes its name in front of the data.\<close>

definition tag_encode :: encoder where
  "tag_encode e l fs = Data (header_value e) # fs"

definition tag_decode :: "encoding \<Rightarrow> string \<Rightarrow> string option" where
  "tag_decode e s = strip_prefix (header_value e) s"

interpretation tag: body_codec tag_encode tag_decode
  by unfold_locales (simp_all add: tag_encode_def tag_decode_def)

lemmas tag_body_codec = tag.body_codec_axioms

subsection \<open>Properties\<close>

text \<open>The allocation-free negotiation agrees with the parsed header.  A coding is picked exactly
  when it is the first supported one that the client accepts: its own last entry decides when
  there is one, an explicit refusal winning over the wildcard, and the wildcard otherwise.\<close>

theorem negotiate_parsed:
  assumes "\<And>c. c \<in> set supported \<Longrightarrow> c \<noteq> [] \<and> c \<noteq> ''*''"
  shows "negotiate parse_float supported accept =
    find (acceptable (parse_accept_encodings parse_float accept)) supported"
  using assms
proof (induction supported)
  case (Cons c cs)
  then show ?case
    using negotiate_single [of c parse_float accept] by (simp split: if_splits)
qed simp

definition demo_f32 :: "string \<Rightarrow> f32 option" where
  "demo_f32 s = (if s = ''0'' then Some (F32 0) else Some (F32 1))"

theorem negotiate_parsed_witness:
  "negotiate demo_f32 [''br'', ''gzip''] ''gzip, br;q=0, *'' =
     find (acceptable (parse_accept_encodings demo_f32 ''gzip, br;q=0, *'')) [''br'', ''gzip'']"
  by (rule negotiate_parsed) auto

text \<open>C24: Compression is transparent.  Let the header map and the codec behave as documented (the decoder of a coding
  inverts its encoder on plain data), and let the inner service answer; the body is any, with trailers and failing
  frames.  The answer keeps the status and the extensions.  Either it has the inner body as it is and all inner headers,
  where only Vary may have become Accept-Encoding; or it is compressed: it has all inner headers but
  Content-Encoding, Vary and Content-Length, the inner response had no coding, the new one is enabled in the layer,
  accepted by the client's Accept-Encoding and announced alone, Vary is Accept-Encoding, there is no length, and, when no frame before the
  trailers fails, the body decodes to exactly the data before the trailers (trailers themselves are dropped).\<close>

theorem compression_transparent:
  assumes "header_map H" and "body_codec encode decode"
    and "inner req w = (Done orig, w')"
  shows "\<exists>resp. compression_call H parse_float encode cl inner req w = (Done resp, w')
    \<and> res_status resp = res_status orig \<and> res_ext resp = res_ext orig
    \<and> (res_body resp = res_body orig
        \<and> (\<forall>n. n \<noteq> ''vary'' \<longrightarrow> hm_get_all H (res_headers resp) n = hm_get_all H (res_headers orig) n)
        \<and> hm_get_all H (res_headers resp) ''vary'' \<in> {hm_get_all H (res_headers orig) ''vary'', [''Accept-Encoding'']}
      \<or> (\<exists>e accept. hm_get H (req_headers req) ''accept-encoding'' = Some accept
          \<and> enabled_encoding cl e
          \<and> acceptable (parse_accept_encodings parse_float accept) (header_value e)
          \<and> hm_get_all H (res_headers orig) ''content-encoding'' = []
          \<and> hm_get_all H (res_headers resp) ''content-encoding'' = [header_value e]
          \<and> hm_get_all H (res_headers resp) ''vary'' = [''Accept-Encoding'']
          \<and> hm_get_all H (res_headers resp) ''content-length'' = []
          \<and> (\<forall>n. n \<notin> {''content-encoding'', ''vary'', ''content-length''}
               \<longrightarrow> hm_get_all H (res_headers resp) n = hm_get_all H (res_headers orig) n)
          \<and> (all_data (before_trailers (frames_of (res_body orig))) \<longrightarrow>
               (\<exists>bytes. to_bytes (res_body resp) = Inr bytes
                 \<and> decode e bytes = Some (data_of (before_trailers (frames_of (res_body orig))))))))"
proof -
  let ?enc = "accepted_encoding H parse_float cl req"
  let ?resp = "compression_finish H encode cl ?enc (req_method req = Head) orig"
  note headers = header_map.get_all_simps [OF assms(1)] header_map.contains_key [OF assms(1)]
  have call: "compression_call H parse_float encode cl inner req w = (Done ?resp, w')"
    by (simp add: compression_call_def assms(3))
  consider "?resp = orig" | "?resp = orig\<lparr>res_headers := hm_insert H (res_headers orig) ''vary'' ''Accept-Encoding''\<rparr>"
    | e where "?enc = Some e" "hm_get_all H (res_headers orig) ''content-encoding'' = []"
      "?resp = compressed_response H encode orig e cl"
    using compression_finish_cases [of H encode cl ?enc "req_method req = Head" orig] headers by auto
  then show ?thesis
  proof cases
    case 1
    then show ?thesis using call by auto
  next
    case 2
    then show ?thesis using call by (auto simp: headers)
  next
    case (3 e)
    obtain accept where accept: "hm_get H (req_headers req) ''accept-encoding'' = Some accept"
      and pref: "preferred_encoding parse_float cl accept = Some e"
      using 3(1) header_map.to_str_id [OF assms(1)]
      by (auto simp: accepted_encoding_def bind_eq_Some_conv split: option.splits if_splits)
    have "enabled_encoding cl e \<and> acceptable (parse_accept_encodings parse_float accept) (header_value e)"
      using pref unfolding preferred_encoding_find by (auto simp only: find_Some_iff)
    moreover have "all_data (before_trailers (frames_of (res_body orig))) \<longrightarrow>
        (\<exists>bytes. to_bytes (res_body ?resp) = Inr bytes
          \<and> decode e bytes = Some (data_of (before_trailers (frames_of (res_body orig)))))"
      using body_codec.compressed_body [OF assms(2), of "frames_of (res_body orig)" e "cl_level cl"]
      by (auto simp: 3(3) compressed_response_def)
    moreover have "hm_get_all H (res_headers ?resp) ''content-encoding'' = [header_value e]"
      "hm_get_all H (res_headers ?resp) ''vary'' = [''Accept-Encoding'']"
      "hm_get_all H (res_headers ?resp) ''content-length'' = []"
      "res_status ?resp = res_status orig" "res_ext ?resp = res_ext orig"
      "\<forall>n. n \<notin> {''content-encoding'', ''vary'', ''content-length''}
         \<longrightarrow> hm_get_all H (res_headers ?resp) n = hm_get_all H (res_headers orig) n"
      by (simp_all add: 3(3) compressed_response_def headers)
    ultimately show ?thesis using call accept 3(2) by blast
  qed
qed

definition json_service :: "(alist_headers, nat) service" where
  "json_service = (\<lambda>req w. (Done (sample_response 200 [(''content-type'', ''application/json''),
      (''vary'', ''origin'')] ''{}''), Suc w))"

theorem compression_transparent_witness:
  "\<exists>resp. compression_call alist_lib demo_f32 tag_encode (compression_min_size 0 compression_new) json_service
      (sample_request Get ''/'' [(''accept-encoding'', ''gzip'')]) 0 = (Done resp, 1)
    \<and> res_status resp = 200 \<and> hm_get_all alist_lib (res_headers resp) ''content-type'' = [''application/json'']"
proof -
  let ?cl = "compression_min_size 0 compression_new" and ?req = "sample_request Get ''/'' [(''accept-encoding'', ''gzip'')]"
  let ?orig = "sample_response 200 [(''content-type'', ''application/json''), (''vary'', ''origin'')] ''{}''"
  let ?call = "compression_call alist_lib demo_f32 tag_encode ?cl json_service ?req 0"
  have inner: "json_service ?req 0 = (Done ?orig, 1)" by (simp add: json_service_def)
  have orig: "res_status ?orig = 200" "hm_get_all alist_lib (res_headers ?orig) ''content-type'' = [''application/json'']"
    by (simp_all add: sample_response_def alist_lib_def alist_get_all_def)
  have n: "''content-type'' \<noteq> ''vary''" "''content-type'' \<notin> {''content-encoding'', ''vary'', ''content-length''}" by simp_all
  show ?thesis
    using compression_transparent [OF alist_header_map tag_body_codec, where inner = json_service and req = ?req
        and w = 0 and orig = ?orig and w' = 1 and parse_float = demo_f32 and cl = ?cl, OF inner]
  proof (elim exE conjE disjE)
    fix resp
    assume "?call = (Done resp, 1)" "res_status resp = res_status ?orig"
      "\<forall>n. n \<noteq> ''vary'' \<longrightarrow> hm_get_all alist_lib (res_headers resp) n = hm_get_all alist_lib (res_headers ?orig) n"
    then show ?thesis unfolding orig using n(1) orig by metis
  next
    fix resp
    assume "?call = (Done resp, 1)" "res_status resp = res_status ?orig"
      "\<forall>n. n \<notin> {''content-encoding'', ''vary'', ''content-length''}
         \<longrightarrow> hm_get_all alist_lib (res_headers resp) n = hm_get_all alist_lib (res_headers ?orig) n"
    then show ?thesis unfolding orig using n(2) orig by metis
  qed
qed

text \<open>The coding is the server's favourite among those allowed: of the enabled codings the client
  accepts, zstd before br before gzip before deflate, and none when there is none.\<close>

theorem preferred_encoding_priority:
  "preferred_encoding parse_float cl accept =
     find (\<lambda>e. enabled_encoding cl e \<and> acceptable (parse_accept_encodings parse_float accept) (header_value e))
       [Zstd, Br, Gzip, Deflate]"
  by (rule preferred_encoding_find)

text \<open>Compressing overwrites the Vary header of the inner response: an answer that varies by
  origin is announced as varying by Accept-Encoding only.\<close>

theorem compression_overwrites_vary:
  assumes "header_map H"
  shows "hm_get_all H (res_headers (compress_response H encode orig e cl)) ''vary'' = [''Accept-Encoding'']"
  using compress_response_cases [of H encode orig e cl]
  by (auto simp: compressed_response_def header_map.get_all_simps [OF assms])

theorem compression_overwrites_vary_witness:
  "hm_get_all alist_lib [(''vary'', ''origin'')] ''vary'' = [''origin''] \<and>
   hm_get_all alist_lib (res_headers (compress_response alist_lib tag_encode
      (sample_response 200 [(''vary'', ''origin'')] ''{}'') Gzip compression_new)) ''vary'' = [''Accept-Encoding'']"
  by (intro conjI compression_overwrites_vary [OF alist_header_map])
    (simp add: alist_sel alist_get_all_def)

text \<open>Decompression undoes compression.  A request whose body is the encoding of some data under
  its announced coding reaches the inner service with that data, the announcement removed and
  the length corrected.\<close>

theorem decompression_roundtrip:
  assumes "header_map H" and "body_codec encode decode" and "all_data fs"
    and "hm_get H (req_headers req) ''content-encoding'' = Some (header_value e)"
    and "frames_of (req_body req) = encode e l fs"
  shows "\<exists>req'. decompression_call H decode inner req w = inner req' w
    \<and> to_bytes (req_body req') = Inr (data_of fs)
    \<and> hm_get_all H (req_headers req') ''content-encoding'' = []
    \<and> hm_get_all H (req_headers req') ''content-length'' = [nat_to_string (length (data_of fs))]"
proof -
  have vis: "list_all header_visible (header_value e)" by (cases e) (simp_all add: header_visible_def)
  have low: "coding_of (to_ascii_lowercase (header_value e)) = Some e"
    by (cases e) (simp_all add: to_ascii_lowercase_def ascii_lower_def)
  have body: "to_bytes (req_body req) = Inr (data_of (encode e l fs))"
    by (simp add: to_bytes_def assms(5) collect_all_data body_codec.encode_data [OF assms(2,3)])
  show ?thesis
    using vis low body body_codec.decode_encode [OF assms(2,3)]
    by (auto simp: decompression_call_def assms(4) header_map.to_str [OF assms(1)]
        header_map.get_all_simps [OF assms(1)] to_bytes_def body_from_bytes_def simp del: coding_of.simps)
qed

theorem decompression_roundtrip_witness:
  "\<exists>req'. decompression_call alist_lib tag_decode counting_service
      ((sample_request Post ''/'' [(''content-encoding'', ''br'')])
         \<lparr>req_body := BBoxed [Data ''br'', Data ''hello''] None\<rparr>) 0
    = counting_service req' 0 \<and> to_bytes (req_body req') = Inr ''hello''"
  using decompression_roundtrip [OF alist_header_map tag_body_codec, where fs = "[Data ''hello'']" and e = Br
      and l = Best and w = 0 and inner = counting_service and req = "(sample_request Post ''/''
        [(''content-encoding'', ''br'')])\<lparr>req_body := BBoxed [Data ''br'', Data ''hello''] None\<rparr>"]
  by (auto simp: alist_sel sample_request_def tag_encode_def)

end
