(* ===== verification/Static_Files.thy ===== *)
theory Static_Files
  imports Compression
begin

text \<open>
  Static files, the parts shared by the three services of arvik-static/src/lib.rs and the service
  for embedded assets: request paths, byte ranges, validators, responses and listings.

  \<open>static_env\<close> holds the crates the file calls: the percent decoder (with its UTF-8 check), the MIME
  table, HTTP dates and the parser of a quality value.  A time is the number of nanoseconds since
  the epoch.  Lengths and range bounds are 64-bit words, as in the code.
\<close>

record static_env =
  se_decode :: "string \<Rightarrow> string option"
  se_mime :: "string \<Rightarrow> string"
  se_fmt_date :: "int \<Rightarrow> string"
  se_parse_date :: "string \<Rightarrow> int option"
  se_parse_float :: "string \<Rightarrow> f32 option"

type_synonym time = int

definition INDEX_FILE :: string where "INDEX_FILE = ''index.html''"
definition DEFAULT_CHUNK_SIZE :: nat where "DEFAULT_CHUNK_SIZE = 64 * 1024"

subsection \<open>Paths\<close>

fun valid_percent_encoding :: "string \<Rightarrow> bool" where
  "valid_percent_encoding [] = True"
| "valid_percent_encoding (c # s) =
     (if c = CHR ''%''
      then (case s of
              a # b # t \<Rightarrow> is_ascii_hexdigit a \<and> is_ascii_hexdigit b \<and> valid_percent_encoding t
            | _ \<Rightarrow> False)
      else valid_percent_encoding s)"

text \<open>The loop over the parts of the decoded path, building the normalised path.\<close>

fun normalize_parts :: "string \<Rightarrow> string list \<Rightarrow> string option" where
  "normalize_parts acc [] = Some acc"
| "normalize_parts acc (part # ps) =
     (if part = [] \<or> part = ''.'' then normalize_parts acc ps
      else if part = ''..'' then None
      else normalize_parts ((if acc = [] then acc else acc @ ''/'') @ part) ps)"

definition relative_path :: "static_env \<Rightarrow> string \<Rightarrow> string option" where
  "relative_path E path =
     (if \<not> valid_percent_encoding path then None
      else (case se_decode E (trim_start_matches (CHR ''/'') path) of
              None \<Rightarrow> None
            | Some decoded \<Rightarrow>
                if starts_with decoded ''/'' \<or> BACKSLASH \<in> set decoded \<or> NUL \<in> set decoded then None
                else normalize_parts [] (split_on (CHR ''/'') decoded)))"

definition is_get_or_head :: "http_method \<Rightarrow> bool" where
  "is_get_or_head m \<longleftrightarrow> m = Get \<or> m = Head"

text \<open>\<^verbatim>\<open>Path::extension\<close> of the last component.\<close>

definition path_extension :: "string \<Rightarrow> string option" where
  "path_extension path =
     (let comps = filter (\<lambda>c. c \<noteq> [] \<and> c \<noteq> ''.'') (split_on (CHR ''/'') path)
      in if comps = [] \<or> last comps = ''..'' then None
         else (case split_once (CHR ''.'') (rev (last comps)) of
                 Some (ext, stem) \<Rightarrow> if stem = [] then None else Some (rev ext)
               | None \<Rightarrow> None))"

definition mime_table :: "(string \<times> string) list" where
  "mime_table =
     [(''html'', ''text/html''), (''htm'', ''text/html''), (''css'', ''text/css''),
      (''js'', ''text/javascript''), (''mjs'', ''application/javascript''), (''json'', ''application/json''),
      (''txt'', ''text/plain''), (''xml'', ''text/xml''), (''svg'', ''image/svg+xml''), (''png'', ''image/png''),
      (''jpg'', ''image/jpeg''), (''jpeg'', ''image/jpeg''), (''gif'', ''image/gif''), (''webp'', ''image/webp''),
      (''avif'', ''image/avif''), (''ico'', ''image/x-icon''), (''wasm'', ''application/wasm''),
      (''woff'', ''application/font-woff''), (''woff2'', ''font/woff2''), (''ttf'', ''font/ttf''),
      (''otf'', ''application/font-sfnt''), (''mp4'', ''video/mp4''), (''webm'', ''video/webm''),
      (''pdf'', ''application/pdf'')]"

definition content_type :: "static_env \<Rightarrow> string \<Rightarrow> string" where
  "content_type E path =
     (let ext = to_ascii_lowercase (case path_extension path of Some e \<Rightarrow> e | None \<Rightarrow> [])
      in case map_of mime_table ext of Some m \<Rightarrow> m | None \<Rightarrow> se_mime E path)"

definition join_asset_path :: "string \<Rightarrow> string \<Rightarrow> string" where
  "join_asset_path base file =
     (if base = [] then file else trim_end_matches (CHR ''/'') base @ ''/'' @ file)"

fun combine_values :: "'h http_lib \<Rightarrow> string \<Rightarrow> string list \<Rightarrow> string" where
  "combine_values H acc [] = acc"
| "combine_values H acc (v # vs) =
     (case hv_to_str H v of
        Some s \<Rightarrow> combine_values H ((if acc = [] then acc else acc @ '', '') @ s) vs
      | None \<Rightarrow> combine_values H acc vs)"

definition combined_accept_encoding :: "'h http_lib \<Rightarrow> 'h request \<Rightarrow> string" where
  "combined_accept_encoding H req = combine_values H [] (hm_get_all H (req_headers req) ''accept-encoding'')"

definition accepted_precompressed :: "'h http_lib \<Rightarrow> static_env \<Rightarrow> 'h request \<Rightarrow> bool \<Rightarrow> bool \<Rightarrow> bool \<times> bool" where
  "accepted_precompressed H E req want_br want_gzip =
     (if \<not> (want_br \<or> want_gzip) then (False, False)
      else (let combined = combined_accept_encoding H req;
                ok = (\<lambda>enc. negotiate (se_parse_float E) [enc] combined \<noteq> None)
            in (want_br \<and> ok ''br'', want_gzip \<and> ok ''gzip'')))"

subsection \<open>Ranges\<close>

datatype range_decision = FullRange | Partial u64 u64 | Unsatisfiable

definition parse_range :: "'h http_lib \<Rightarrow> string option \<Rightarrow> u64 \<Rightarrow> range_decision" where
  "parse_range H value len =
     (case Option.bind value (hv_to_str H) of
        None \<Rightarrow> FullRange
      | Some v \<Rightarrow>
          (case strip_prefix ''bytes='' v of
             None \<Rightarrow> FullRange
           | Some spec \<Rightarrow>
               if CHR '','' \<in> set spec \<or> spec = [] then FullRange
               else (case split_once (CHR ''-'') spec of
                       None \<Rightarrow> Unsatisfiable
                     | Some (start, end1) \<Rightarrow>
                         if len = 0 then Unsatisfiable
                         else if start = [] then
                           (case map_option of_nat (parse_u64 end1) of
                              None \<Rightarrow> Unsatisfiable
                            | Some sfx \<Rightarrow>
                                if sfx = 0 then Unsatisfiable
                                else Partial (len - min sfx len) (len - 1))
                         else
                           (case map_option of_nat (parse_u64 start) of
                              None \<Rightarrow> Unsatisfiable
                            | Some s \<Rightarrow>
                                if s \<ge> len then Unsatisfiable
                                else if end1 = [] then Partial s (len - 1)
                                else (case map_option of_nat (parse_u64 end1) of
                                        None \<Rightarrow> Unsatisfiable
                                      | Some e \<Rightarrow>
                                          if e < s then Unsatisfiable
                                          else Partial s (min e (len - 1)))))))"

subsection \<open>Validators\<close>

definition unix_seconds :: "time \<Rightarrow> nat" where
  "unix_seconds t = nat (t div 10 ^ 9)"

definition etag_matches :: "string \<Rightarrow> string \<Rightarrow> bool" where
  "etag_matches candidate etag \<longleftrightarrow>
     candidate = etag \<or> strip_prefix ''W/'' candidate = Some etag \<or> strip_prefix ''W/'' etag = Some candidate"

definition is_not_modified :: "'h http_lib \<Rightarrow> static_env \<Rightarrow> 'h request \<Rightarrow> string \<Rightarrow> time option \<Rightarrow> bool" where
  "is_not_modified H E req etag modified =
     (case (Option.bind (hm_get H (req_headers req) ''if-none-match'') (hv_to_str H), hv_to_str H etag) of
        (Some hdr, Some tag) \<Rightarrow>
          list_ex (\<lambda>c. c = ''*'' \<or> etag_matches c tag) (map trim (split_on (CHR '','') hdr))
      | _ \<Rightarrow>
          (case (modified, hm_get H (req_headers req) ''if-modified-since'') of
             (Some m, Some v) \<Rightarrow>
               (case Option.bind (hv_to_str H v) (se_parse_date E) of
                  Some since \<Rightarrow> unix_seconds m \<le> unix_seconds since
                | None \<Rightarrow> False)
           | _ \<Rightarrow> False))"

definition if_range_allows_partial :: "'h http_lib \<Rightarrow> static_env \<Rightarrow> 'h request \<Rightarrow> string \<Rightarrow> time option \<Rightarrow> bool" where
  "if_range_allows_partial H E req etag modified =
     (case hm_get H (req_headers req) ''if-range'' of
        None \<Rightarrow> True
      | Some raw \<Rightarrow>
          (case hv_to_str H raw of
             None \<Rightarrow> False
           | Some v \<Rightarrow>
               if starts_with v [DQUOTE] \<or> starts_with v ''W/''
               then \<not> starts_with v ''W/'' \<and> v = etag
               else (case modified of
                       Some m \<Rightarrow> (case se_parse_date E v of Some d \<Rightarrow> d = m | None \<Rightarrow> False)
                     | None \<Rightarrow> False)))"

text \<open>\<^verbatim>\<open>{:x}\<close> of a natural number.\<close>

definition hex_char :: "nat \<Rightarrow> char" where
  "hex_char d = (if d < 10 then char_of (48 + d) else char_of (87 + d))"

fun to_hex :: "nat \<Rightarrow> string" where
  "to_hex n = (if n < 16 then [hex_char n] else to_hex (n div 16) @ [hex_char (n mod 16)])"

definition fs_etag :: "u64 \<Rightarrow> time option \<Rightarrow> string" where
  "fs_etag len modified =
     (let t = (case modified of Some m \<Rightarrow> if m \<ge> 0 then nat m else 0 | None \<Rightarrow> 0)
      in [DQUOTE] @ to_hex (unat len) @ ''-'' @ to_hex (t div 10 ^ 9) @ ''-'' @ to_hex (t mod 10 ^ 9) @ [DQUOTE])"

definition embedded_etag :: "u8 list \<Rightarrow> string" where
  "embedded_etag hash =
     [DQUOTE] @ concat (map (\<lambda>b. [hex_char (unat b div 16), hex_char (unat b mod 16)]) hash) @ [DQUOTE]"

subsection \<open>Responses\<close>

definition rb_opt :: "'h http_lib \<Rightarrow> string \<Rightarrow> string option \<Rightarrow> 'h response_builder \<Rightarrow> 'h response_builder" where
  "rb_opt H n v b = (case v of Some x \<Rightarrow> rb_header H n x b | None \<Rightarrow> b)"

definition rb_opt_str :: "'h http_lib \<Rightarrow> string \<Rightarrow> string option \<Rightarrow> 'h response_builder \<Rightarrow> 'h response_builder" where
  "rb_opt_str H n v b = (case v of Some x \<Rightarrow> rb_header_str H n x b | None \<Rightarrow> b)"

definition vary_header :: "'h http_lib \<Rightarrow> bool \<Rightarrow> 'h response_builder \<Rightarrow> 'h response_builder" where
  "vary_header H vary b = (if vary then rb_header_str H ''vary'' ''Accept-Encoding'' b else b)"

definition not_modified :: "'h http_lib \<Rightarrow> static_env \<Rightarrow> string \<Rightarrow> time option \<Rightarrow> string option \<Rightarrow> bool
    \<Rightarrow> 'h response" where
  "not_modified H E etag modified cache_control vary =
     rb_empty H (vary_header H vary
       (rb_opt H ''cache-control'' cache_control
         (rb_opt_str H ''last-modified'' (map_option (se_fmt_date E) modified)
           (rb_header H ''etag'' etag (rb_with_status 304 (rb_new H))))))"

definition range_not_satisfiable :: "'h http_lib \<Rightarrow> u64 \<Rightarrow> 'h response" where
  "range_not_satisfiable H len =
     rb_empty H (rb_header_str H ''content-range'' (''bytes */'' @ nat_to_string (unat len))
       (rb_with_status 416 (rb_new H)))"

definition static_method_not_allowed :: "'h http_lib \<Rightarrow> 'h response" where
  "static_method_not_allowed H =
     rb_text H ''Method Not Allowed'' (rb_header_str H ''allow'' ''GET, HEAD'' (rb_with_status 405 (rb_new H)))"

definition static_not_found :: "'h http_lib \<Rightarrow> 'h response" where
  "static_not_found H =
     rb_text H ''Not Found''
       (rb_header_str H ''content-type'' ''text/plain; charset=utf-8'' (rb_with_status 404 (rb_new H)))"

definition slash_location :: "uri \<Rightarrow> string" where
  "slash_location u =
     (if ends_with (uri_path u) ''/'' then uri_path u else uri_path u @ ''/'') @
     (case uri_query u of Some q \<Rightarrow> ''?'' @ q | None \<Rightarrow> [])"

definition redirect_to_slash :: "'h http_lib \<Rightarrow> 'h request \<Rightarrow> 'h response" where
  "redirect_to_slash H req =
     (let u = (case ext_original_uri (req_ext req) of Some o1 \<Rightarrow> o1 | None \<Rightarrow> req_uri req)
      in rb_empty H (rb_header_str H ''location'' (slash_location u) (rb_with_status 307 (rb_new H))))"

fun escape_char :: "char \<Rightarrow> string" where
  "escape_char c =
     (if c = CHR ''&'' then ''&amp;'' else if c = CHR ''<'' then ''&lt;'' else if c = CHR ''>'' then ''&gt;''
      else if c = DQUOTE then ''&quot;'' else if c = CHR 0x27 then ''&#39;'' else [c])"

definition escape_html :: "string \<Rightarrow> string" where
  "escape_html s = concat (map escape_char s)"

definition listing_item :: "string \<Rightarrow> string" where
  "listing_item entry =
     ''<li><a href='' @ [DQUOTE] @ escape_html entry @ [DQUOTE] @ ''>'' @ escape_html entry @ ''</a></li>''"

definition listing_response :: "'h http_lib \<Rightarrow> string \<Rightarrow> string list \<Rightarrow> 'h response" where
  "listing_response H request_path entries =
     rb_body H (BFull
       (''<!doctype html><meta charset='' @ [DQUOTE] @ ''utf-8'' @ [DQUOTE] @ ''><title>Index of '' @ escape_html request_path
         @ ''</title><h1>Index of '' @ escape_html request_path @ ''</h1><ul>''
         @ concat (map listing_item entries) @ ''</ul>''))
       (rb_header_str H ''content-type'' ''text/html; charset=utf-8'' (rb_new H))"

text \<open>The headers of a 200 or 206 answer, the same for files and embedded assets.\<close>

definition asset_builder :: "'h http_lib \<Rightarrow> static_env \<Rightarrow> (u64 \<times> u64) option \<Rightarrow> u64 \<Rightarrow> string \<Rightarrow> string
    \<Rightarrow> time option \<Rightarrow> string option \<Rightarrow> string option \<Rightarrow> bool \<Rightarrow> 'h response_builder" where
  "asset_builder H E rg len ctype etag modified cache_control cenc vary =
     (let body_len = (case rg of Some (s, e) \<Rightarrow> e - s + 1 | None \<Rightarrow> len)
      in rb_opt_str H ''content-range''
           (map_option (\<lambda>(s, e). ''bytes '' @ nat_to_string (unat s) @ ''-'' @ nat_to_string (unat e)
              @ ''/'' @ nat_to_string (unat len)) rg)
           (vary_header H vary
             (rb_opt H ''content-encoding'' cenc
               (rb_opt H ''cache-control'' cache_control
                 (rb_opt_str H ''last-modified'' (map_option (se_fmt_date E) modified)
                   (rb_header H ''etag'' etag
                     (rb_header_str H ''accept-ranges'' ''bytes''
                       (rb_header_str H ''content-length'' (nat_to_string (unat body_len))
                         (rb_header H ''content-type'' ctype
                           (rb_with_status (if rg \<noteq> None then 206 else 200) (rb_new H)))))))))))"

subsection \<open>Embedded assets\<close>

record embedded_file =
  ef_data :: string
  ef_sha256 :: "u8 list"
  ef_last_modified :: "nat option"

record embedded_meta =
  em_modified :: "time option"
  em_etag :: string

text \<open>The process-wide cache of \<^verbatim>\<open>embedded_meta\<close>, keyed by asset path alone.\<close>

type_synonym meta_cache = "string \<rightharpoonup> embedded_meta"

definition fresh_meta :: "u8 list \<Rightarrow> nat option \<Rightarrow> embedded_meta" where
  "fresh_meta sha last_modified =
     \<lparr>em_modified = map_option (\<lambda>s. int s * 10 ^ 9) last_modified, em_etag = embedded_etag sha\<rparr>"

definition embedded_meta_of :: "meta_cache \<Rightarrow> string \<Rightarrow> u8 list \<Rightarrow> nat option \<Rightarrow> embedded_meta \<times> meta_cache" where
  "embedded_meta_of cache asset_path sha last_modified =
     (case cache asset_path of
        Some meta \<Rightarrow> (meta, cache)
      | None \<Rightarrow>
          (let meta = fresh_meta sha last_modified in (meta, cache(asset_path \<mapsto> meta))))"

record embedded_asset =
  ea_bytes :: string
  ea_len :: u64
  ea_modified :: "time option"
  ea_etag :: string
  ea_content_type :: string
  ea_content_encoding :: "string option"
  ea_vary :: bool

definition embedded_asset_new :: "meta_cache \<Rightarrow> string \<Rightarrow> embedded_file \<Rightarrow> string \<Rightarrow> string option \<Rightarrow> bool
    \<Rightarrow> embedded_asset \<times> meta_cache" where
  "embedded_asset_new cache asset_path file ctype cenc vary =
     (let (meta, cache') = embedded_meta_of cache asset_path (ef_sha256 file) (ef_last_modified file)
      in (\<lparr>ea_bytes = ef_data file, ea_len = of_nat (length (ef_data file)), ea_modified = em_modified meta,
            ea_etag = em_etag meta, ea_content_type = ctype, ea_content_encoding = cenc, ea_vary = vary\<rparr>,
          cache'))"

text \<open>\<^verbatim>\<open>bytes.slice(start..=end)\<close>.\<close>

definition byte_slice :: "string \<Rightarrow> u64 \<Rightarrow> u64 \<Rightarrow> string" where
  "byte_slice bs s e = take (unat e + 1 - unat s) (drop (unat s) bs)"

definition range_of_request :: "'h http_lib \<Rightarrow> static_env \<Rightarrow> 'h request \<Rightarrow> string \<Rightarrow> time option \<Rightarrow> u64
    \<Rightarrow> range_decision" where
  "range_of_request H E req etag modified len =
     (if if_range_allows_partial H E req etag modified
      then parse_range H (hm_get H (req_headers req) ''range'') len else FullRange)"

definition serve_embedded_asset :: "'h http_lib \<Rightarrow> static_env \<Rightarrow> embedded_asset \<Rightarrow> 'h request \<Rightarrow> bool
    \<Rightarrow> string option \<Rightarrow> 'h response" where
  "serve_embedded_asset H E asset req head cache_control =
     (if is_not_modified H E req (ea_etag asset) (ea_modified asset)
      then not_modified H E (ea_etag asset) (ea_modified asset) cache_control (ea_vary asset)
      else
        (let serve = (\<lambda>rg body.
               (let b = asset_builder H E rg (ea_len asset) (ea_content_type asset) (ea_etag asset)
                      (ea_modified asset) cache_control (ea_content_encoding asset) (ea_vary asset)
                in if head then rb_empty H b else rb_body H body b))
         in case range_of_request H E req (ea_etag asset) (ea_modified asset) (ea_len asset) of
              Unsatisfiable \<Rightarrow> range_not_satisfiable H (ea_len asset)
            | FullRange \<Rightarrow> serve None (BFull (ea_bytes asset))
            | Partial s e \<Rightarrow> serve (Some (s, e)) (BFull (byte_slice (ea_bytes asset) s e))))"

text \<open>The embedded set of files is \<^verbatim>\<open>A::get\<close> and \<^verbatim>\<open>A::iter\<close>.\<close>

record embedded_set =
  es_get :: "string \<Rightarrow> embedded_file option"
  es_iter :: "string list"

record ('h, 'w) embedded_service =
  ems_fallback :: "('h, 'w) service option"
  ems_gzip :: bool
  ems_br :: bool
  ems_fallback_405 :: bool
  ems_append_index :: bool
  ems_listing :: bool
  ems_cache_control :: "string option"

definition embedded_new :: "('h, 'w) embedded_service" where
  "embedded_new = \<lparr>ems_fallback = None, ems_gzip = False, ems_br = False, ems_fallback_405 = False,
     ems_append_index = True, ems_listing = False, ems_cache_control = None\<rparr>"

definition embedded_not_found_service :: "('h, 'w) embedded_service \<Rightarrow> ('h, 'w) service \<Rightarrow> ('h, 'w) embedded_service" where
  "embedded_not_found_service self service = self\<lparr>ems_fallback := Some service\<rparr>"

definition embedded_precompressed_gzip :: "('h, 'w) embedded_service \<Rightarrow> ('h, 'w) embedded_service" where
  "embedded_precompressed_gzip self = self\<lparr>ems_gzip := True\<rparr>"

definition embedded_precompressed_br :: "('h, 'w) embedded_service \<Rightarrow> ('h, 'w) embedded_service" where
  "embedded_precompressed_br self = self\<lparr>ems_br := True\<rparr>"

definition embedded_call_fallback_405 :: "('h, 'w) embedded_service \<Rightarrow> bool \<Rightarrow> ('h, 'w) embedded_service" where
  "embedded_call_fallback_405 self b = self\<lparr>ems_fallback_405 := b\<rparr>"

definition embedded_append_index :: "('h, 'w) embedded_service \<Rightarrow> bool \<Rightarrow> ('h, 'w) embedded_service" where
  "embedded_append_index self b = self\<lparr>ems_append_index := b\<rparr>"

definition embedded_set_listing :: "('h, 'w) embedded_service \<Rightarrow> bool \<Rightarrow> ('h, 'w) embedded_service" where
  "embedded_set_listing self b = self\<lparr>ems_listing := b\<rparr>"

text \<open>\<^verbatim>\<open>None\<close> is the panic of a text that is no header value.\<close>

definition embedded_cache_control ::
  "'h http_lib \<Rightarrow> ('h, 'w) embedded_service \<Rightarrow> string \<Rightarrow> ('h, 'w) embedded_service option" where
  "embedded_cache_control H self v = map_option (\<lambda>x. self\<lparr>ems_cache_control := Some x\<rparr>) (hv_from_str H v)"

definition embedded_select_file :: "'h http_lib \<Rightarrow> static_env \<Rightarrow> embedded_set \<Rightarrow> ('h, 'w) embedded_service
    \<Rightarrow> meta_cache \<Rightarrow> string \<Rightarrow> 'h request \<Rightarrow> embedded_asset option \<times> meta_cache" where
  "embedded_select_file H E A self cache asset_path req =
     (let ctype = content_type E asset_path;
          (accepts_br, accepts_gzip) = accepted_precompressed H E req (ems_br self) (ems_gzip self);
          vary = ems_gzip self \<or> ems_br self;
          found = (\<lambda>p file cenc.
            (let (a, c) = embedded_asset_new cache p file ctype cenc vary in (Some a, c)));
          plain = (case es_get A asset_path of
                     Some file \<Rightarrow> found asset_path file None | None \<Rightarrow> (None, cache));
          gzip = (if accepts_gzip
                  then (case es_get A (asset_path @ ''.gz'') of
                          Some file \<Rightarrow> found (asset_path @ ''.gz'') file (Some ''gzip'') | None \<Rightarrow> plain)
                  else plain)
      in if accepts_br
         then (case es_get A (asset_path @ ''.br'') of
                 Some file \<Rightarrow> found (asset_path @ ''.br'') file (Some ''br'') | None \<Rightarrow> gzip)
         else gzip)"

definition dir_prefix :: "string \<Rightarrow> string" where
  "dir_prefix asset_path = (if asset_path = [] then [] else trim_end_matches (CHR ''/'') asset_path @ ''/'')"

definition embedded_dir_exists :: "embedded_set \<Rightarrow> string \<Rightarrow> bool" where
  "embedded_dir_exists A asset_path =
     list_ex (\<lambda>p. starts_with p (dir_prefix asset_path) \<and> length p > length (dir_prefix asset_path)) (es_iter A)"

text \<open>The entries are collected in a \<^verbatim>\<open>BTreeSet\<close>, so each occurs once and in order.\<close>

definition listing_entry :: "string \<Rightarrow> string \<Rightarrow> string list" where
  "listing_entry pre p =
     (if \<not> starts_with p pre \<or> length p = length pre then []
      else (let rest = drop (length pre) p
            in [hd (split_on (CHR ''/'') rest) @ (if CHR ''/'' \<in> set rest then ''/'' else [])]))"

definition string_lt :: "string \<Rightarrow> string \<Rightarrow> bool" where
  "string_lt a b \<longleftrightarrow> (a, b) \<in> lexord {(x, y). (of_char x :: nat) < of_char y}"

fun btree_insert :: "string \<Rightarrow> string list \<Rightarrow> string list" where
  "btree_insert x [] = [x]"
| "btree_insert x (y # ys) =
     (if x = y then y # ys else if string_lt x y then x # y # ys else y # btree_insert x ys)"

definition embedded_directory_listing :: "'h http_lib \<Rightarrow> embedded_set \<Rightarrow> string \<Rightarrow> string \<Rightarrow> 'h response" where
  "embedded_directory_listing H A asset_path request_path =
     listing_response H request_path
       (foldl (\<lambda>es x. btree_insert x es) [] (concat (map (listing_entry (dir_prefix asset_path)) (es_iter A))))"

definition call_fallback :: "'h http_lib \<Rightarrow> ('h, 'w) service option \<Rightarrow> ('h, 'w) service" where
  "call_fallback H fallback = (case fallback of
     Some service \<Rightarrow> service | None \<Rightarrow> (\<lambda>req w. (Done (static_not_found H), w)))"

definition embedded_handle_directory :: "'h http_lib \<Rightarrow> static_env \<Rightarrow> embedded_set \<Rightarrow> ('h, 'w) embedded_service
    \<Rightarrow> meta_cache \<Rightarrow> 'h request \<Rightarrow> string \<Rightarrow> 'w \<Rightarrow> ('h outcome \<times> 'w) \<times> meta_cache" where
  "embedded_handle_directory H E A self cache req relative w =
     (if \<not> ends_with (uri_path (req_uri req)) ''/'' \<and> (ems_append_index self \<or> ems_listing self)
      then ((Done (redirect_to_slash H req), w), cache)
      else
        (let (index, cache') =
               (if ems_append_index self
                then embedded_select_file H E A self cache (join_asset_path relative INDEX_FILE) req
                else (None, cache))
         in case index of
              Some asset \<Rightarrow> ((Done (serve_embedded_asset H E asset req False (ems_cache_control self)), w), cache')
            | None \<Rightarrow>
                if ems_listing self
                then ((Done (embedded_directory_listing H A relative (uri_path (req_uri req))), w), cache')
                else (call_fallback H (ems_fallback self) req w, cache')))"

definition embedded_handle :: "'h http_lib \<Rightarrow> static_env \<Rightarrow> embedded_set \<Rightarrow> ('h, 'w) embedded_service
    \<Rightarrow> meta_cache \<Rightarrow> 'h request \<Rightarrow> 'w \<Rightarrow> ('h outcome \<times> 'w) \<times> meta_cache" where
  "embedded_handle H E A self cache req w =
     (if \<not> is_get_or_head (req_method req)
      then ((if ems_fallback_405 self then call_fallback H (ems_fallback self) req w
             else (Done (static_method_not_allowed H), w)), cache)
      else (case relative_path E (uri_path (req_uri req)) of
              None \<Rightarrow> (call_fallback H (ems_fallback self) req w, cache)
            | Some relative \<Rightarrow>
                (let (asset, cache') = embedded_select_file H E A self cache relative req
                 in case asset of
                      Some a \<Rightarrow>
                        ((Done (serve_embedded_asset H E a req (req_method req = Head) (ems_cache_control self)), w),
                          cache')
                    | None \<Rightarrow>
                        if embedded_dir_exists A relative
                        then embedded_handle_directory H E A self cache' req relative w
                        else (call_fallback H (ems_fallback self) req w, cache'))))"

subsection \<open>Lemmas\<close>

lemma normalize_parts_eq:
  assumes "[] \<notin> set dn"
  shows "normalize_parts (join_with ''/'' dn) ps =
    (if ''..'' \<in> set ps then None
     else Some (join_with ''/'' (dn @ filter (\<lambda>p. p \<noteq> [] \<and> p \<noteq> ''.'') ps)))"
  using assms
proof (induction ps arbitrary: dn)
  case (Cons p ps)
  show ?case
  proof (cases "p = [] \<or> p = ''.'' \<or> p = ''..''")
    case False
    have "(if join_with ''/'' dn = [] then join_with ''/'' dn else join_with ''/'' dn @ ''/'') @ p =
        join_with ''/'' (dn @ [p])"
      using Cons.prems by (cases "dn = []") (simp_all add: join_with_Nil_iff join_with_snoc)
    with False Cons.IH [of "dn @ [p]"] Cons.prems show ?thesis by auto
  qed (use Cons in auto)
qed simp

text \<open>A path that stays below the root it is joined to, on any platform.\<close>

definition safe_segment :: "string \<Rightarrow> bool" where
  "safe_segment s \<longleftrightarrow> s \<noteq> [] \<and> s \<noteq> ''.'' \<and> s \<noteq> ''..'' \<and> CHR ''/'' \<notin> set s \<and> BACKSLASH \<notin> set s \<and> NUL \<notin> set s"

lemma relative_path_segments:
  assumes "relative_path E path = Some r"
  shows "\<exists>segs. r = join_with ''/'' segs \<and> list_all safe_segment segs"
proof -
  obtain d where d: "BACKSLASH \<notin> set d" "NUL \<notin> set d"
    and n: "normalize_parts [] (split_on (CHR ''/'') d) = Some r"
    using assms by (auto simp: relative_path_def split: if_splits option.splits)
  let ?segs = "filter (\<lambda>p. p \<noteq> [] \<and> p \<noteq> ''.'') (split_on (CHR ''/'') d)"
  have r: "''..'' \<notin> set (split_on (CHR ''/'') d)" "r = join_with ''/'' ?segs"
    using n normalize_parts_eq [of "[]" "split_on (CHR ''/'') d"] by (auto split: if_splits)
  have "safe_segment p" if "p \<in> set ?segs" for p
  proof -
    from that have p: "p \<in> set (split_on (CHR ''/'') d)" "p \<noteq> []" "p \<noteq> ''.''" by auto
    with r(1) d split_on_no_sep [OF p(1)] split_on_subset [OF p(1)] show ?thesis
      by (auto simp: safe_segment_def)
  qed
  with r(2) show ?thesis by (intro exI [of _ ?segs]) (auto simp: list_all_iff)
qed

lemma unat_pred:
  fixes len :: u64
  assumes "len \<noteq> 0"
  shows "unat (len - 1) = unat len - 1" and "0 < unat len"
  using assms by (simp_all add: unat_minus_one unat_gt_0)

lemma parse_range_bounds:
  assumes "parse_range H v len = Partial s e"
  shows "s \<le> e \<and> e < len"
proof -
  have pred: "len - 1 < len" if "len \<noteq> 0"
    using unat_pred [OF that] by (simp add: word_less_nat_alt)
  have last: "s \<le> len - 1" if "s < len" for s :: u64
  proof -
    have "len \<noteq> 0" using that by auto
    with that show ?thesis using unat_pred [of len] by (simp add: word_le_nat_alt word_less_nat_alt)
  qed
  have sfx: "len - min x len \<le> len - 1" if "len \<noteq> 0" "x \<noteq> 0" for x :: u64
  proof -
    have "min x len \<noteq> 0" "min x len \<le> len" using that by (auto simp: min_def)
    then have "unat (len - min x len) = unat len - unat (min x len)" "0 < unat (min x len)"
      by (simp_all add: unat_sub unat_gt_0)
    then show ?thesis using unat_pred [OF that(1)] by (simp add: word_le_nat_alt)
  qed
  have both: "s \<le> min e (len - 1)" "min e (len - 1) < len" if "\<not> e < s" "s < len" for s e :: u64
    using that last [of s] pred by (auto simp: min_less_iff_disj) (cases "len = 0"; simp)
  show ?thesis
    using assms pred last sfx both
    by (auto simp: parse_range_def not_le split: option.splits if_splits)
qed

text \<open>Hexadecimal text reads back.\<close>

declare to_hex.simps [simp del]

definition hex_val :: "char \<Rightarrow> nat" where
  "hex_val c = (let n = of_char c in if n < 58 then n - 48 else n - 87)"

definition from_hex :: "string \<Rightarrow> nat" where
  "from_hex s = foldl (\<lambda>a c. 16 * a + hex_val c) 0 s"

lemma hex_val_hex_char: "d < 16 \<Longrightarrow> hex_val (hex_char d) = d"
  by (auto simp: hex_val_def hex_char_def Let_def)

lemma hex_char_range: "d < 16 \<Longrightarrow> hex_char d \<noteq> CHR ''-'' \<and> hex_char d \<noteq> CHR '','' \<and> hex_char d \<noteq> DQUOTE
    \<and> header_visible (hex_char d) \<and> \<not> is_ascii_ws (hex_char d)"
proof -
  assume "d < 16"
  then have n: "48 \<le> (of_char (hex_char d) :: nat) \<and> (of_char (hex_char d) :: nat) \<le> 102"
    by (simp add: hex_char_def)
  have "hex_char d \<noteq> c" if "(of_char c :: nat) < 48" for c
    using n that by auto
  from this [of "CHR ''-''"] this [of "CHR '',''"] this [of DQUOTE] this [of "CHR '' ''"]
    this [of "CHR 0x09"] this [of LF] this [of CR] this [of "CHR 0x0B"] this [of "CHR 0x0C"] n
  show ?thesis by (simp add: header_visible_def is_ascii_ws_def)
qed

lemma from_to_hex: "from_hex (to_hex n) = n"
proof (induction n rule: to_hex.induct)
  case (1 n)
  then show ?case
    by (cases "n < 16") (simp_all add: to_hex.simps [of n] from_hex_def hex_val_hex_char)
qed

lemma to_hex_chars: "list_all (\<lambda>c. \<exists>d < 16. c = hex_char d) (to_hex n)"
proof (induction n rule: to_hex.induct)
  case (1 n)
  have last: "\<exists>d < 16. hex_char (n mod 16) = hex_char d" by (intro exI [of _ "n mod 16"]) simp
  show ?case
  proof (cases "n < 16")
    case True
    then show ?thesis by (auto simp: to_hex.simps [of n])
  next
    case False
    with 1 last show ?thesis by (subst to_hex.simps) simp
  qed
qed

lemma to_hex_clean:
  "CHR ''-'' \<notin> set (to_hex n)" "DQUOTE \<notin> set (to_hex n)" "CHR '','' \<notin> set (to_hex n)"
  "list_all header_visible (to_hex n)"
  using to_hex_chars [of n] hex_char_range
  by (fastforce simp: list_all_iff)+

definition nanos :: "time option \<Rightarrow> nat" where
  "nanos modified = (case modified of Some m \<Rightarrow> if m \<ge> 0 then nat m else 0 | None \<Rightarrow> 0)"

lemma fs_etag_inject:
  assumes "fs_etag l m = fs_etag l' m'"
  shows "l = l' \<and> nanos m = nanos m'"
proof -
  let ?body = "\<lambda>l m. to_hex (unat l) @ CHR ''-'' # to_hex (nanos m div 10 ^ 9) @ CHR ''-'' # to_hex (nanos m mod 10 ^ 9)"
  have "fs_etag l m = [DQUOTE] @ ?body l m @ [DQUOTE]" for l m
    by (simp add: fs_etag_def nanos_def Let_def)
  with assms have "?body l m = ?body l' m'" by simp
  then have "split_on (CHR ''-'') (?body l m) = split_on (CHR ''-'') (?body l' m')" by simp
  then have "to_hex (unat l) = to_hex (unat l') \<and> to_hex (nanos m div 10 ^ 9) = to_hex (nanos m' div 10 ^ 9)
      \<and> to_hex (nanos m mod 10 ^ 9) = to_hex (nanos m' mod 10 ^ 9)"
    by (simp add: split_on_append_sep to_hex_clean)
  then have "unat l = unat l'" "nanos m div 10 ^ 9 = nanos m' div 10 ^ 9" "nanos m mod 10 ^ 9 = nanos m' mod 10 ^ 9"
    by (metis from_to_hex)+
  then show ?thesis by (metis div_mult_mod_eq unsigned_word_eqI)
qed

text \<open>An entity tag of the file: quoted, without comma or blank.\<close>

definition plain_tag :: "string \<Rightarrow> bool" where
  "plain_tag t \<longleftrightarrow> (\<exists>b. t = [DQUOTE] @ b @ [DQUOTE] \<and> CHR '','' \<notin> set b) \<and> list_all header_visible t"

lemma plain_tag_fs: "plain_tag (fs_etag l m)"
  unfolding plain_tag_def
  by (intro conjI exI [of _ "to_hex (unat l) @ ''-'' @ to_hex (nanos m div 10 ^ 9) @ ''-'' @ to_hex (nanos m mod 10 ^ 9)"])
    (simp_all add: fs_etag_def nanos_def Let_def to_hex_clean header_visible_def)

lemma plain_tag_embedded: "plain_tag (embedded_etag h)"
proof -
  let ?x = "concat (map (\<lambda>b. [hex_char (unat b div 16), hex_char (unat b mod 16)]) h)"
  have clean: "hex_char (unat b div 16) \<noteq> CHR '','' \<and> header_visible (hex_char (unat b div 16))
      \<and> hex_char (unat b mod 16) \<noteq> CHR '','' \<and> header_visible (hex_char (unat b mod 16))" for b :: u8
  proof -
    have "unat b < 2 ^ LENGTH(8)" by (rule unsigned_less)
    then have "unat b div 16 < 16" by (simp add: less_mult_imp_div_less)
    with hex_char_range [of "unat b div 16"] hex_char_range [of "unat b mod 16"] show ?thesis by simp
  qed
  have "list_all (\<lambda>c. c \<noteq> CHR '','' \<and> header_visible c) ?x"
    by (induction h) (simp_all add: clean)
  then have "CHR '','' \<notin> set ?x" "list_all header_visible ?x"
    by (auto simp: list_all_iff)
  then show ?thesis
    unfolding plain_tag_def embedded_etag_def by (auto simp: header_visible_def)
qed

lemma trim_quoted: "trim ([DQUOTE] @ b @ [DQUOTE]) = [DQUOTE] @ b @ [DQUOTE]"
  by (simp add: trim_def is_ascii_ws_def)

context header_map
begin

lemma revalidated:
  assumes "plain_tag etag" and "hm_get H (req_headers req) ''if-none-match'' = Some etag"
  shows "is_not_modified H E req etag modified"
proof -
  have "trim etag = etag" "split_on (CHR '','') etag = [etag]" "hv_to_str H etag = Some etag"
    using assms(1) trim_quoted by (auto simp: plain_tag_def to_str)
  then show ?thesis
    using assms(2) by (simp add: is_not_modified_def etag_matches_def)
qed

end

subsection \<open>Headers of an answer\<close>

definition builder_good :: "'h response_builder \<Rightarrow> bool" where
  "builder_good b \<longleftrightarrow> rb_headers b \<noteq> None"

definition builder_get :: "'h http_lib \<Rightarrow> 'h response_builder \<Rightarrow> string \<Rightarrow> string list" where
  "builder_get H b n = (case rb_headers b of Some h \<Rightarrow> hm_get_all H h n | None \<Rightarrow> [])"

lemma rb_body_good:
  "builder_good b \<Longrightarrow> res_status (rb_body H bd b) = rb_status b \<and> res_body (rb_body H bd b) = bd \<and>
     hm_get_all H (res_headers (rb_body H bd b)) n = builder_get H b n"
  by (auto simp: builder_good_def builder_get_def rb_body_def)

lemma rb_status_simps [simp]:
  "rb_status (rb_header H n v b) = rb_status b" "rb_status (rb_header_str H n v b) = rb_status b"
  "rb_status (rb_opt H n o1 b) = rb_status b" "rb_status (rb_opt_str H n o1 b) = rb_status b"
  "rb_status (vary_header H vr b) = rb_status b" "rb_status (rb_with_status st b) = st"
  by (simp_all add: rb_header_def rb_header_str_def rb_opt_def rb_opt_str_def vary_header_def rb_with_status_def
      split: option.split)

lemma builder_good_simps [simp]:
  "builder_good (rb_with_status st (rb_new H))" "builder_good (rb_header H n v b) = builder_good b"
  "builder_good (rb_opt H n o1 b) = builder_good b" "builder_good (rb_new H)"
  by (auto simp: builder_good_def rb_with_status_def rb_new_def rb_header_def rb_opt_def split: option.split)

definition dates_visible :: "static_env \<Rightarrow> bool" where
  "dates_visible E \<longleftrightarrow> (\<forall>t. list_all header_visible (se_fmt_date E t))"

context header_map
begin

lemma header_str_visible: "list_all header_visible v \<Longrightarrow> rb_header_str H n v b = rb_header H n v b"
  by (simp add: rb_header_str_def from_str)

lemma opt_str_visible:
  "(\<And>x. v = Some x \<Longrightarrow> list_all header_visible x) \<Longrightarrow> rb_opt_str H n v b = rb_opt H n v b"
  by (simp add: rb_opt_str_def rb_opt_def header_str_visible split: option.split)

lemma vary_header_opt: "vary_header H vr b = rb_opt H ''vary'' (if vr then Some ''Accept-Encoding'' else None) b"
  by (simp add: vary_header_def rb_opt_def header_str_visible header_visible_def)

lemma builder_get_simps:
  "builder_get H (rb_with_status st (rb_new H)) n = []" "builder_get H (rb_new H) n = []"
  "builder_good b \<Longrightarrow> builder_get H (rb_header H m v b) n = builder_get H b n @ (if n = m then [v] else [])"
  "builder_good b \<Longrightarrow> builder_get H (rb_opt H m o1 b) n =
     builder_get H b n @ (case o1 of Some v \<Rightarrow> if n = m then [v] else [] | None \<Rightarrow> [])"
  by (auto simp: builder_get_def builder_good_def rb_with_status_def rb_new_def rb_header_def rb_opt_def
      get_all_simps split: option.split)

lemma content_range_visible:
  "list_all header_visible (''bytes '' @ nat_to_string a @ ''-'' @ nat_to_string b @ ''/'' @ nat_to_string c)"
  by (simp add: nat_to_string_visible header_visible_def)

lemma last_modified_opt:
  "dates_visible E \<Longrightarrow> rb_opt_str H ''last-modified'' (map_option (se_fmt_date E) modified) b =
     rb_opt H ''last-modified'' (map_option (se_fmt_date E) modified) b"
  by (intro opt_str_visible) (auto simp: dates_visible_def)

lemma asset_builder_opt:
  assumes "dates_visible E"
  shows "asset_builder H E rg len ctype etag modified cc cenc vr =
     rb_opt H ''content-range''
       (map_option (\<lambda>(s, e). ''bytes '' @ nat_to_string (unat s) @ ''-'' @ nat_to_string (unat e)
              @ ''/'' @ nat_to_string (unat len)) rg)
       (rb_opt H ''vary'' (if vr then Some ''Accept-Encoding'' else None)
         (rb_opt H ''content-encoding'' cenc
           (rb_opt H ''cache-control'' cc
             (rb_opt H ''last-modified'' (map_option (se_fmt_date E) modified)
               (rb_header H ''etag'' etag
                 (rb_header H ''accept-ranges'' ''bytes''
                   (rb_header H ''content-length''
                     (nat_to_string (unat (case rg of Some (s, e) \<Rightarrow> e - s + 1 | None \<Rightarrow> len)))
                     (rb_header H ''content-type'' ctype
                       (rb_with_status (if rg \<noteq> None then 206 else 200) (rb_new H))))))))))"
proof -
  have "list_all header_visible ''bytes''" by (simp add: header_visible_def)
  moreover have "rb_opt_str H ''content-range''
       (map_option (\<lambda>(s, e). ''bytes '' @ nat_to_string (unat s) @ ''-'' @ nat_to_string (unat e)
              @ ''/'' @ nat_to_string (unat len)) rg) b =
      rb_opt H ''content-range''
       (map_option (\<lambda>(s, e). ''bytes '' @ nat_to_string (unat s) @ ''-'' @ nat_to_string (unat e)
              @ ''/'' @ nat_to_string (unat len)) rg) b" for b
    by (intro opt_str_visible) (auto simp: nat_to_string_visible header_visible_def)
  ultimately show ?thesis
    by (simp only: asset_builder_def Let_def vary_header_opt header_str_visible nat_to_string_visible
        last_modified_opt [OF assms])
qed

lemma asset_builder_headers:
  assumes "dates_visible E"
  defines "b \<equiv> \<lambda>rg len ctype etag modified cc cenc vr. asset_builder H E rg len ctype etag modified cc cenc vr"
  shows "builder_good (b rg len ctype etag modified cc cenc vr)"
    and "rb_status (b rg len ctype etag modified cc cenc vr) = (if rg \<noteq> None then 206 else 200)"
    and "builder_get H (b rg len ctype etag modified cc cenc vr) ''content-length'' =
      [nat_to_string (unat (case rg of Some (s, e) \<Rightarrow> e - s + 1 | None \<Rightarrow> len))]"
    and "builder_get H (b rg len ctype etag modified cc cenc vr) ''content-range'' =
      (case rg of Some (s, e) \<Rightarrow>
         [''bytes '' @ nat_to_string (unat s) @ ''-'' @ nat_to_string (unat e) @ ''/'' @ nat_to_string (unat len)]
       | None \<Rightarrow> [])"
    and "builder_get H (b rg len ctype etag modified cc cenc vr) ''etag'' = [etag]"
  by (simp_all add: b_def asset_builder_opt [OF assms(1)] builder_get_simps split: option.split)

end

subsection \<open>Answers for an embedded asset\<close>

definition asset_ok :: "embedded_asset \<Rightarrow> bool" where
  "asset_ok a \<longleftrightarrow> ea_len a = of_nat (length (ea_bytes a)) \<and> length (ea_bytes a) < 2 ^ 64"

lemma asset_ok_len: "asset_ok a \<Longrightarrow> unat (ea_len a) = length (ea_bytes a)"
  by (simp add: asset_ok_def unat_of_nat)

lemma range_facts:
  assumes "asset_ok a" and "range_of_request H E req etag modified (ea_len a) = Partial s e"
  shows "s \<le> e" and "unat s \<le> unat e" and "unat e < length (ea_bytes a)"
    and "unat (e - s + 1) = unat e + 1 - unat s"
    and "length (byte_slice (ea_bytes a) s e) = unat e + 1 - unat s"
proof -
  have r: "s \<le> e \<and> e < ea_len a"
    using assms(2) parse_range_bounds [of H "hm_get H (req_headers req) ''range''" "ea_len a" s e]
    by (simp add: range_of_request_def split: if_splits)
  then show "s \<le> e" by blast
  show se: "unat s \<le> unat e" using r by (simp add: word_le_nat_alt)
  show e: "unat e < length (ea_bytes a)"
    using r asset_ok_len [OF assms(1)] by (simp add: word_less_nat_alt)
  have sub: "unat (e - s) = unat e - unat s"
    using r by (simp add: unat_sub)
  have "unat (e - s) + 1 < 2 ^ 64"
    using sub e assms(1) unfolding asset_ok_def by linarith
  then have "unat (e - s + 1) = unat (e - s) + 1"
    by (subst unat_plus_simple [THEN iffD1]) (simp_all add: no_olen_add_nat)
  then show "unat (e - s + 1) = unat e + 1 - unat s" using sub se by simp
  show "length (byte_slice (ea_bytes a) s e) = unat e + 1 - unat s"
    using e se by (simp add: byte_slice_def)
qed

definition meta_cache_ok :: "embedded_set \<Rightarrow> meta_cache \<Rightarrow> bool" where
  "meta_cache_ok A cache \<longleftrightarrow> (\<forall>p m. cache p = Some m \<longrightarrow>
     (\<exists>f. es_get A p = Some f \<and> m = fresh_meta (ef_sha256 f) (ef_last_modified f)))"

lemma embedded_meta_of_ok:
  assumes "meta_cache_ok A cache" and "es_get A p = Some f"
  shows "fst (embedded_meta_of cache p (ef_sha256 f) (ef_last_modified f)) =
      fresh_meta (ef_sha256 f) (ef_last_modified f)"
    and "meta_cache_ok A (snd (embedded_meta_of cache p (ef_sha256 f) (ef_last_modified f)))"
proof -
  have hit: "m = fresh_meta (ef_sha256 f) (ef_last_modified f)" if "cache p = Some m" for m
    using assms that by (fastforce simp: meta_cache_ok_def)
  show "fst (embedded_meta_of cache p (ef_sha256 f) (ef_last_modified f)) =
      fresh_meta (ef_sha256 f) (ef_last_modified f)"
    using hit by (cases "cache p") (simp_all add: embedded_meta_of_def Let_def)
  show "meta_cache_ok A (snd (embedded_meta_of cache p (ef_sha256 f) (ef_last_modified f)))"
    using assms by (cases "cache p") (simp_all add: meta_cache_ok_def embedded_meta_of_def Let_def)
qed

lemma meta_cache_ok_empty [simp]: "meta_cache_ok A Map.empty"
  by (simp add: meta_cache_ok_def)

text \<open>The metadata taken from the cache do not depend on the cache.\<close>

definition fresh_asset :: "string \<Rightarrow> embedded_file \<Rightarrow> string \<Rightarrow> string option \<Rightarrow> bool \<Rightarrow> embedded_asset" where
  "fresh_asset p f ctype cenc vary = fst (embedded_asset_new Map.empty p f ctype cenc vary)"

lemma embedded_asset_new_ok:
  assumes "meta_cache_ok A cache" and "es_get A p = Some f"
  shows "\<exists>c. embedded_asset_new cache p f ctype cenc vary = (fresh_asset p f ctype cenc vary, c) \<and> meta_cache_ok A c"
  using embedded_meta_of_ok [OF assms] embedded_meta_of_ok [OF meta_cache_ok_empty assms(2)]
  by (auto simp: fresh_asset_def embedded_asset_new_def split: prod.split)

lemma embedded_select_ok:
  assumes "meta_cache_ok A cache"
  shows "fst (embedded_select_file H E A self cache p req) = fst (embedded_select_file H E A self Map.empty p req)"
    and "meta_cache_ok A (snd (embedded_select_file H E A self cache p req))"
proof -
  define br gz where "br = fst (accepted_precompressed H E req (ems_br self) (ems_gzip self))"
    and "gz = snd (accepted_precompressed H E req (ems_br self) (ems_gzip self))"
  have pr: "accepted_precompressed H E req (ems_br self) (ems_gzip self) = (br, gz)"
    by (simp add: br_def gz_def)
  let ?ct = "content_type E p" and ?vary = "ems_gzip self \<or> ems_br self"
  let ?probe = "\<lambda>c q enc. (case es_get A q of Some f \<Rightarrow>
       let (a, c) = embedded_asset_new c q f ?ct enc ?vary in (Some a, c) | None \<Rightarrow> (None, c))"
  have sel: "embedded_select_file H E A self c p req =
      (if br \<and> es_get A (p @ ''.br'') \<noteq> None then ?probe c (p @ ''.br'') (Some ''br'')
       else if gz \<and> es_get A (p @ ''.gz'') \<noteq> None then ?probe c (p @ ''.gz'') (Some ''gzip'')
       else ?probe c p None)" for c
    by (cases br; cases gz) (auto simp: embedded_select_file_def pr Let_def split: option.split)
  have step: "fst (?probe cache q enc) = fst (?probe Map.empty q enc) \<and> meta_cache_ok A (snd (?probe cache q enc))" for q enc
  proof (cases "es_get A q")
    case None
    then show ?thesis using assms by simp
  next
    case (Some f)
    from embedded_asset_new_ok [OF assms Some, of ?ct enc ?vary]
      embedded_asset_new_ok [OF meta_cache_ok_empty Some, of ?ct enc ?vary]
    show ?thesis using Some by auto
  qed
  let ?br = "br \<and> es_get A (p @ ''.br'') \<noteq> None" and ?gz = "gz \<and> es_get A (p @ ''.gz'') \<noteq> None"
  define q where "q = (if ?br then p @ ''.br'' else if ?gz then p @ ''.gz'' else p)"
  define enc where "enc = (if ?br then Some ''br'' else if ?gz then Some ''gzip'' else None)"
  have one: "embedded_select_file H E A self c p req = ?probe c q enc" for c
  proof -
    consider "?br" | "\<not> ?br" "?gz" | "\<not> ?br" "\<not> ?gz" by blast
    then show ?thesis
      by cases (simp_all only: sel q_def enc_def if_True if_False simp_thms)
  qed
  show "fst (embedded_select_file H E A self cache p req) = fst (embedded_select_file H E A self Map.empty p req)"
    unfolding one using step [of q enc] by blast
  show "meta_cache_ok A (snd (embedded_select_file H E A self cache p req))"
    unfolding one using step [of q enc] by blast
qed

lemma embedded_directory_ok:
  assumes "meta_cache_ok A cache" and "meta_cache_ok A cache'"
  shows "fst (embedded_handle_directory H E A self cache req r w) = fst (embedded_handle_directory H E A self cache' req r w)"
    and "meta_cache_ok A (snd (embedded_handle_directory H E A self cache req r w))"
proof -
  let ?p = "join_asset_path r INDEX_FILE"
  obtain o1 c where s1: "embedded_select_file H E A self cache ?p req = (o1, c)" "meta_cache_ok A c"
    using embedded_select_ok(2) [OF assms(1)] by (metis prod.exhaust_sel)
  obtain o2 c' where s2: "embedded_select_file H E A self cache' ?p req = (o2, c')"
    by (metis prod.exhaust_sel)
  have "o1 = o2"
    using embedded_select_ok(1) [OF assms(1), of H E self ?p req] embedded_select_ok(1) [OF assms(2), of H E self ?p req] s1 s2
    by simp
  then show "fst (embedded_handle_directory H E A self cache req r w) = fst (embedded_handle_directory H E A self cache' req r w)"
    and "meta_cache_ok A (snd (embedded_handle_directory H E A self cache req r w))"
    using s1 s2 assms by (simp_all add: embedded_handle_directory_def Let_def split: option.split)
qed

subsection \<open>Properties\<close>

definition demo_env :: static_env where
  "demo_env = \<lparr>se_decode = Some, se_mime = (\<lambda>_. ''application/octet-stream''),
     se_fmt_date = (\<lambda>t. nat_to_string (nat (t div 10 ^ 9))),
     se_parse_date = (\<lambda>s. map_option (\<lambda>n. int n * 10 ^ 9) (parse_u64 s)),
     se_parse_float = demo_f32\<rparr>"

lemma demo_env_dates: "dates_visible demo_env"
  by (simp add: dates_visible_def demo_env_def nat_to_string_visible)

definition demo_asset :: embedded_asset where
  "demo_asset = \<lparr>ea_bytes = ''0123456789'', ea_len = 10, ea_modified = None, ea_etag = embedded_etag [],
     ea_content_type = ''text/plain'', ea_content_encoding = None, ea_vary = False\<rparr>"

lemma demo_asset_ok: "asset_ok demo_asset"
  by (simp add: asset_ok_def demo_asset_def)

text \<open>No request path leaves the served tree.  Whatever the percent decoder returns, the
  normalised path is made of ordinary names only: no parent or current directory, no empty name,
  no separator of any platform and no NUL.\<close>

theorem relative_path_safe:
  assumes "relative_path E path = Some r"
  shows "\<exists>segs. r = join_with ''/'' segs \<and> (\<forall>s \<in> set segs. s \<noteq> [] \<and> s \<noteq> ''.'' \<and> s \<noteq> ''..''
    \<and> CHR ''/'' \<notin> set s \<and> BACKSLASH \<notin> set s \<and> NUL \<notin> set s)"
  using relative_path_segments [OF assms] by (auto simp: list_all_iff safe_segment_def)

theorem relative_path_safe_witness:
  "relative_path demo_env ''//a/./b//c.txt'' = Some ''a/b/c.txt'' \<and>
   (\<exists>segs. ''a/b/c.txt'' = join_with ''/'' segs \<and> (\<forall>s \<in> set segs. s \<noteq> [] \<and> s \<noteq> ''.'' \<and> s \<noteq> ''..''
    \<and> CHR ''/'' \<notin> set s \<and> BACKSLASH \<notin> set s \<and> NUL \<notin> set s))"
proof -
  have "relative_path demo_env ''//a/./b//c.txt'' = Some ''a/b/c.txt''"
    by (simp add: relative_path_def demo_env_def trim_start_matches_def)
  from relative_path_safe [OF this] this show ?thesis by (intro conjI)
qed



text \<open>HEAD tells the truth about GET: the answer is the one GET would get, status and headers,
  with the body dropped.\<close>

theorem serve_embedded_head:
  assumes "header_map H" and "dates_visible E"
  shows "serve_embedded_asset H E a req True cc = (serve_embedded_asset H E a req False cc)\<lparr>res_body := BEmpty\<rparr>"
proof -
  have drop: "rb_empty H b = (rb_body H bd b)\<lparr>res_body := BEmpty\<rparr>" if "builder_good b" for b bd
    using that by (auto simp: builder_good_def rb_empty_def rb_body_def)
  have same: "rb_empty H b = (rb_empty H b)\<lparr>res_body := BEmpty\<rparr>" if "builder_good b" for b
    using drop [OF that, of BEmpty] by (simp add: rb_empty_def)
  have "builder_good (asset_builder H E rg (ea_len a) (ea_content_type a) (ea_etag a) (ea_modified a) cc
      (ea_content_encoding a) (ea_vary a))" for rg
    by (rule header_map.asset_builder_headers(1) [OF assms])
  note asset = drop [OF this]
  have nm: "not_modified H E t m cc v = (not_modified H E t m cc v)\<lparr>res_body := BEmpty\<rparr>" for t m v
    unfolding not_modified_def
    by (rule same) (simp add: header_map.vary_header_opt [OF assms(1)] header_map.last_modified_opt [OF assms])
  have rn: "range_not_satisfiable H l = (range_not_satisfiable H l)\<lparr>res_body := BEmpty\<rparr>" for l
    unfolding range_not_satisfiable_def
    by (rule same) (simp add: header_map.header_str_visible [OF assms(1)] nat_to_string_visible header_visible_def)
  show ?thesis
  proof (cases "is_not_modified H E req (ea_etag a) (ea_modified a)")
    case True
    then show ?thesis using nm by (simp add: serve_embedded_asset_def)
  next
    case False
    then show ?thesis
      using rn asset [symmetric] by (simp add: serve_embedded_asset_def Let_def split: range_decision.split)
  qed
qed

theorem serve_embedded_head_witness:
  "serve_embedded_asset alist_lib demo_env demo_asset (sample_request Head ''/'' []) True None
   = (serve_embedded_asset alist_lib demo_env demo_asset (sample_request Head ''/'' []) False None)\<lparr>res_body := BEmpty\<rparr>"
  by (rule serve_embedded_head [OF alist_header_map demo_env_dates])

text \<open>An entity tag of a file identifies its version.  A client that revalidates with the tag of
  an earlier version of a file is told "not modified" exactly when length and modification time,
  to the nanosecond, are still the same.\<close>

theorem fs_etag_revalidation:
  assumes "header_map H"
    and "hm_get H (req_headers req) ''if-none-match'' = Some (fs_etag len' modified')"
  shows "is_not_modified H E req (fs_etag len modified) modified \<longleftrightarrow>
     len = len' \<and> nanos modified = nanos modified'"
proof -
  let ?c = "fs_etag len' modified'"
  obtain b where b: "?c = [DQUOTE] @ b @ [DQUOTE]" "CHR '','' \<notin> set b"
    using plain_tag_fs by (auto simp: plain_tag_def)
  have tags: "hv_to_str H (fs_etag l m) = Some (fs_etag l m)" for l m
    using plain_tag_fs [of l m] header_map.to_str [OF assms(1)] by (auto simp: plain_tag_def)
  have one: "map trim (split_on (CHR '','') ?c) = [?c]"
    using b trim_quoted [of b] by simp
  have weak: "strip_prefix ''W/'' (fs_etag l m) = None" for l m
    by (simp add: fs_etag_def Let_def strip_prefix_def)
  have star: "?c \<noteq> ''*''" by (simp add: fs_etag_def Let_def)
  have same: "?c = fs_etag len modified \<longleftrightarrow> len = len' \<and> nanos modified = nanos modified'"
  proof
    assume "?c = fs_etag len modified"
    then show "len = len' \<and> nanos modified = nanos modified'" by (metis fs_etag_inject)
  next
    assume "len = len' \<and> nanos modified = nanos modified'"
    then show "?c = fs_etag len modified" unfolding fs_etag_def nanos_def [symmetric] by simp
  qed
  show ?thesis
    unfolding is_not_modified_def assms(2)
    by (simp add: tags one star etag_matches_def weak same)
qed

theorem fs_etag_revalidation_witness:
  "is_not_modified alist_lib demo_env (sample_request Get ''/'' [(''if-none-match'', fs_etag 10 (Some 5))])
     (fs_etag 10 (Some 5)) (Some 5)
   \<and> \<not> is_not_modified alist_lib demo_env (sample_request Get ''/'' [(''if-none-match'', fs_etag 10 (Some 5))])
     (fs_etag 10 (Some 6)) (Some 6)"
proof -
  have g: "hm_get alist_lib (req_headers (sample_request Get ''/'' [(''if-none-match'', fs_etag 10 (Some 5))]))
      ''if-none-match'' = Some (fs_etag 10 (Some 5))"
    by (simp add: sample_request_def alist_sel)
  show ?thesis
    using fs_etag_revalidation [OF alist_header_map g, of demo_env 10 "Some 5"]
      fs_etag_revalidation [OF alist_header_map g, of demo_env 10 "Some 6"]
    by (simp add: nanos_def)
qed

text \<open>The cache of metadata is transparent while it belongs to one embedded set: every entry
  that the service reads or adds is the metadata of that set's own file, and every request is
  answered as with an empty cache.\<close>

theorem embedded_cache_transparent:
  assumes "meta_cache_ok A cache"
  shows "fst (embedded_handle H E A self cache req w) = fst (embedded_handle H E A self Map.empty req w)
    \<and> meta_cache_ok A (snd (embedded_handle H E A self cache req w))"
proof (cases "is_get_or_head (req_method req)")
  case False
  then show ?thesis using assms by (simp add: embedded_handle_def)
next
  case True
  show ?thesis
  proof (cases "relative_path E (uri_path (req_uri req))")
    case None
    then show ?thesis using True assms by (simp add: embedded_handle_def)
  next
    case (Some r)
    obtain o1 c where s1: "embedded_select_file H E A self cache r req = (o1, c)" "meta_cache_ok A c"
      using embedded_select_ok(2) [OF assms] by (metis prod.exhaust_sel)
    obtain o2 c' where s2: "embedded_select_file H E A self Map.empty r req = (o2, c')" "meta_cache_ok A c'"
      using embedded_select_ok(2) [OF meta_cache_ok_empty] by (metis prod.exhaust_sel)
    have "o1 = o2"
      using embedded_select_ok(1) [OF assms, of H E self r req] s1 s2 by simp
    then show ?thesis
      using True Some s1 s2 embedded_directory_ok(1) [OF s1(2) s2(2), of H E self req r w]
        embedded_directory_ok(2) [OF s1(2), of c H E self req r w]
      by (simp add: embedded_handle_def split: option.split)
  qed
qed

definition demo_file :: "string \<Rightarrow> u8 list \<Rightarrow> embedded_file" where
  "demo_file bytes sha = \<lparr>ef_data = bytes, ef_sha256 = sha, ef_last_modified = None\<rparr>"

definition one_file_set :: "string \<Rightarrow> embedded_file \<Rightarrow> embedded_set" where
  "one_file_set p f = \<lparr>es_get = [p \<mapsto> f], es_iter = [p]\<rparr>"

theorem embedded_cache_transparent_witness:
  "fst (embedded_handle alist_lib demo_env (one_file_set ''a'' (demo_file ''x'' [7])) embedded_new
      [''a'' \<mapsto> fresh_meta [7] None] (sample_request Get ''/a'' []) ()) =
   fst (embedded_handle alist_lib demo_env (one_file_set ''a'' (demo_file ''x'' [7])) embedded_new
      Map.empty (sample_request Get ''/a'' []) ())"
proof -
  have "meta_cache_ok (one_file_set ''a'' (demo_file ''x'' [7])) [''a'' \<mapsto> fresh_meta [7] None]"
    by (simp add: meta_cache_ok_def one_file_set_def demo_file_def)
  then show ?thesis by (rule embedded_cache_transparent [THEN conjunct1])
qed

text \<open>The cache is shared by all embedded sets of the process and keyed by the path alone.  Once
  one set has been asked for a path, another set's different file of the same path carries the
  first file's tag, so a client that holds the first file is told it has not changed.\<close>

theorem embedded_cache_shared_between_sets:
  assumes "header_map H" and "cache p = None"
    and "hm_get H (req_headers req) ''if-none-match'' = Some (embedded_etag (ef_sha256 f))"
    and "cache' = snd (embedded_asset_new cache p f ctype cenc vary)"
    and "a = fst (embedded_asset_new cache' p g ctype' cenc' vary')"
  shows "ea_bytes a = ef_data g \<and> ea_etag a = embedded_etag (ef_sha256 f)
    \<and> serve_embedded_asset H E a req False cc = not_modified H E (ea_etag a) (ea_modified a) cc (ea_vary a)"
proof -
  have e: "ea_bytes a = ef_data g" "ea_etag a = embedded_etag (ef_sha256 f)"
    using assms(2,4,5) by (simp_all add: embedded_asset_new_def embedded_meta_of_def fresh_meta_def Let_def)
  have "is_not_modified H E req (ea_etag a) (ea_modified a)"
    using header_map.revalidated [OF assms(1) plain_tag_embedded assms(3)] e by simp
  with e show ?thesis by (simp add: serve_embedded_asset_def)
qed

theorem embedded_cache_shared_between_sets_witness:
  "\<exists>a. ea_bytes a = ''new'' \<and> res_status (serve_embedded_asset alist_lib demo_env a
      (sample_request Get ''/a'' [(''if-none-match'', embedded_etag [7])]) False None) = 304"
proof -
  have g: "hm_get alist_lib (req_headers (sample_request Get ''/a'' [(''if-none-match'', embedded_etag [7])]))
      ''if-none-match'' = Some (embedded_etag (ef_sha256 (demo_file ''old'' [7])))"
    by (simp add: sample_request_def alist_sel demo_file_def)
  let ?c = "snd (embedded_asset_new Map.empty ''a'' (demo_file ''old'' [7]) ''t'' None False)"
  let ?a = "fst (embedded_asset_new ?c ''a'' (demo_file ''new'' [8]) ''t'' None False)"
  have "ea_bytes ?a = ''new'' \<and> serve_embedded_asset alist_lib demo_env ?a
      (sample_request Get ''/a'' [(''if-none-match'', embedded_etag [7])]) False None
      = not_modified alist_lib demo_env (ea_etag ?a) (ea_modified ?a) None (ea_vary ?a)"
    using embedded_cache_shared_between_sets [OF alist_header_map _ g refl refl, where E = demo_env and cc = None]
    by (simp add: demo_file_def)
  moreover have "res_status (not_modified alist_lib demo_env t m None v) = 304" for t m v
    by (simp add: not_modified_def rb_empty_def rb_body_def rb_header_def rb_opt_def rb_opt_str_def vary_header_def
        rb_header_str_def rb_with_status_def rb_new_def internal_error_response_def alist_sel
        header_visible_def dates_visible_def demo_env_def nat_to_string_visible split: option.split)
  ultimately show ?thesis by auto
qed

text \<open>The text a browser reads for a character reference, for the five that are written.\<close>

fun html_text :: "string \<Rightarrow> string" where
  "html_text [] = []"
| "html_text (c # s) =
     (if c \<noteq> CHR ''&'' then c # html_text s
      else if starts_with s ''amp;'' then CHR ''&'' # html_text (drop 4 s)
      else if starts_with s ''lt;'' then CHR ''<'' # html_text (drop 3 s)
      else if starts_with s ''gt;'' then CHR ''>'' # html_text (drop 3 s)
      else if starts_with s ''quot;'' then DQUOTE # html_text (drop 5 s)
      else if starts_with s ''#39;'' then CHR 0x27 # html_text (drop 4 s)
      else c # html_text s)"

lemma html_text_escape_char: "html_text (escape_char c @ s) = c # html_text s"
  by auto

text \<open>A file name cannot leave its place in a directory listing.  The escaped text has no markup
  character and no quote, so it cannot close the attribute or open a tag, and a browser reads it
  back as the name itself.\<close>

theorem escape_html_safe:
  "set (escape_html s) \<inter> {CHR ''<'', CHR ''>'', DQUOTE, CHR 0x27} = {} \<and> html_text (escape_html s) = s"
proof -
  have "set (escape_char c) \<inter> {CHR ''<'', CHR ''>'', DQUOTE, CHR 0x27} = {}" for c
    by auto
  then have "set (escape_html s) \<inter> {CHR ''<'', CHR ''>'', DQUOTE, CHR 0x27} = {}"
    by (auto simp: escape_html_def simp del: escape_char.simps)
  moreover have "html_text (escape_html s) = s"
    by (induction s) (simp_all add: escape_html_def html_text_escape_char del: escape_char.simps html_text.simps(2))
  ultimately show ?thesis by blast
qed

text \<open>A date in If-Range never matches a file whose modification time has a fraction of a second:
  the date is compared with the full time, while it was sent to the client in whole seconds.  The
  range is then ignored and the whole file is sent again.\<close>

theorem if_range_date_ignores_range:
  assumes "header_map H" and "hm_get H (req_headers req) ''if-range'' = Some v"
    and "v = se_fmt_date E t" and "list_all header_visible v"
    and "se_parse_date E v = Some (t - t mod 10 ^ 9)" and "t mod 10 ^ 9 \<noteq> 0"
    and "\<not> starts_with v [DQUOTE]" and "\<not> starts_with v ''W/''"
  shows "range_of_request H E req etag (Some t) len = FullRange"
proof -
  have "hv_to_str H v = Some v" using header_map.to_str [OF assms(1)] assms(4) by simp
  then show ?thesis
    using assms(2,5,6,7,8) by (simp add: range_of_request_def if_range_allows_partial_def)
qed

theorem if_range_date_ignores_range_witness:
  "range_of_request alist_lib demo_env
     (sample_request Get ''/'' [(''range'', ''bytes=0-1''), (''if-range'', ''1'')]) [] (Some 1500000000) 10 = FullRange"
proof -
  have p: "parse_u64 ''1'' = Some 1" by (simp add: parse_u64_def digits_val_def digit_val_def is_ascii_digit_def)
  show ?thesis
  proof (rule if_range_date_ignores_range [OF alist_header_map, where v = "''1''"])
    show "''1'' = se_fmt_date demo_env 1500000000"
      unfolding demo_env_def by code_simp
  qed (simp_all add: sample_request_def alist_sel header_visible_def demo_env_def p)
qed

text \<open>A directory asked for with two leading slashes is answered with a redirect that a browser
  reads as another host.\<close>

theorem redirect_to_other_host:
  assumes "header_map H" and "relative_path E (''/'' @ p) = Some r" and "ext_original_uri (req_ext req) = None"
    and "uri_path (req_uri req) = ''//'' @ p" and "uri_query (req_uri req) = None"
    and "p \<noteq> []" and "\<not> ends_with p ''/''" and "list_all header_visible p"
  shows "relative_path E (''//'' @ p) = Some r
    \<and> hm_get_all H (res_headers (redirect_to_slash H req)) ''location'' = [''//'' @ p @ ''/'']"
proof
  show "relative_path E (''//'' @ p) = Some r"
    using assms(2) by (simp add: relative_path_def trim_start_matches_def split: if_splits)
  have "slash_location (req_uri req) = ''//'' @ p @ ''/''"
    using assms(4-7) by (simp add: slash_location_def suffix_Cons)
  moreover have "list_all header_visible (''//'' @ p @ ''/'')"
    using assms(8) by (simp add: header_visible_def)
  ultimately show "hm_get_all H (res_headers (redirect_to_slash H req)) ''location'' = [''//'' @ p @ ''/'']"
    using assms(3) rb_body_good [of "rb_header H ''location'' (''//'' @ p @ ''/'') (rb_with_status 307 (rb_new H))" H BEmpty]
    by (simp add: redirect_to_slash_def rb_empty_def header_map.header_str_visible [OF assms(1)]
        header_map.builder_get_simps [OF assms(1)])
qed

theorem redirect_to_other_host_witness:
  "relative_path demo_env ''//host.example'' = Some ''host.example''
    \<and> hm_get_all alist_lib (res_headers (redirect_to_slash alist_lib (sample_request Get ''//host.example'' [])))
        ''location'' = [''//host.example/'']"
proof -
  have r: "relative_path demo_env (''/'' @ ''host.example'') = Some ''host.example''"
    by (simp add: relative_path_def demo_env_def trim_start_matches_def)
  show ?thesis
    using redirect_to_other_host [OF alist_header_map r, of "sample_request Get ''//host.example'' []"]
    by (simp add: sample_request_def sample_uri_def no_extensions_def header_visible_def suffix_Cons)
qed

end
