(* ===== verification/Serve_Dir.thy ===== *)
theory Serve_Dir
  imports Static_Files
begin

text \<open>
  Static files from the file system: \<^verbatim>\<open>ServeDir\<close> and \<^verbatim>\<open>ServeFile\<close> of arvik-static/src/lib.rs.

  The file system is a parameter: a record with one operation per system call of the code.  The
  operations are independent of each other, so nothing is assumed about a file that changes
  between two calls: a probe may see one file and the later open of the same path another.  The
  locale \<open>file_reader\<close> states what tokio-util's \<^verbatim>\<open>ReaderStream\<close> promises.  Paths are Unix paths.
\<close>

record fs_meta =
  fm_is_file :: bool
  fm_is_dir :: bool
  fm_len :: u64
  fm_modified :: "time option"

text \<open>An open file: its metadata, what is read from it, and whether it can be positioned.\<close>

record fs_file =
  ff_meta :: "fs_meta option"
  ff_bytes :: string
  ff_seekable :: bool

record fs_env =
  fs_canonicalize :: "string \<Rightarrow> string option"
  fs_metadata :: "string \<Rightarrow> fs_meta option"
  fs_probe :: "string \<Rightarrow> fs_meta option" \<comment> \<open>open, then the metadata of the descriptor\<close>
  fs_open :: "string \<Rightarrow> fs_file option"
  fs_read_dir :: "string \<Rightarrow> (string \<times> bool) list option" \<comment> \<open>names, and whether a directory\<close>
  fs_stream :: "nat \<Rightarrow> string \<Rightarrow> (body_error + string) list" \<comment> \<open>chunk size and bytes read\<close>

subsection \<open>Unix paths\<close>

definition path_join :: "string \<Rightarrow> string \<Rightarrow> string" where
  "path_join base p =
     (if starts_with p ''/'' then p
      else (if base \<noteq> [] \<and> \<not> ends_with base ''/'' then base @ ''/'' else base) @ p)"

definition path_components :: "string \<Rightarrow> string list" where
  "path_components p = filter (\<lambda>c. c \<noteq> [] \<and> c \<noteq> ''.'') (split_on (CHR ''/'') p)"

definition path_starts_with :: "string \<Rightarrow> string \<Rightarrow> bool" where
  "path_starts_with p q \<longleftrightarrow> (starts_with p ''/'' \<longleftrightarrow> starts_with q ''/'')
     \<and> prefix (path_components q) (path_components p)"

text \<open>The path without trailing separators and \<^verbatim>\<open>.\<close> components, on the reversed text.\<close>

fun trim_reversed :: "string \<Rightarrow> string" where
  "trim_reversed r =
     (case r of
        a # b # s \<Rightarrow>
          if a = CHR ''/'' \<or> (a = CHR ''.'' \<and> b = CHR ''/'') then trim_reversed (b # s) else r
      | _ \<Rightarrow> r)"

declare trim_reversed.simps [simp del]

text \<open>\<^verbatim>\<open>file_name\<close> and the path without it.\<close>

definition path_file_name :: "string \<Rightarrow> string option" where
  "path_file_name p =
     (let comps = path_components p
      in if comps = [] \<or> last comps = ''..'' then None else Some (last comps))"

definition path_parent :: "string \<Rightarrow> string" where
  "path_parent p =
     (let q = rev (trim_reversed (rev p))
      in rev (trim_reversed (dropWhile (\<lambda>c. c \<noteq> CHR ''/'') (rev q))))"

definition set_file_name :: "string \<Rightarrow> string \<Rightarrow> string" where
  "set_file_name p name =
     (case path_file_name p of None \<Rightarrow> path_join p name | Some _ \<Rightarrow> path_join (path_parent p) name)"

definition append_suffix :: "string \<Rightarrow> string \<Rightarrow> string" where
  "append_suffix path sfx =
     (let file_name = (case path_file_name path of Some n \<Rightarrow> n | None \<Rightarrow> []) @ sfx
      in set_file_name path file_name)"

subsection \<open>Serving an open file\<close>

record fs_candidate =
  fc_path :: string
  fc_content_type :: string
  fc_content_encoding :: "string option"
  fc_vary :: bool

definition file_body :: "fs_env \<Rightarrow> fs_file \<Rightarrow> nat \<Rightarrow> body" where
  "file_body F file chunk_size = body_from_stream (fs_stream F chunk_size (ff_bytes file))"

definition ranged_file_body :: "fs_env \<Rightarrow> fs_file \<Rightarrow> u64 \<Rightarrow> u64 \<Rightarrow> nat \<Rightarrow> body" where
  "ranged_file_body F file s e chunk_size =
     (if \<not> ff_seekable file then body_empty
      else body_from_stream (fs_stream F chunk_size (take (unat (e - s + 1)) (drop (unat s) (ff_bytes file)))))"

definition serve_fs_asset :: "'h http_lib \<Rightarrow> static_env \<Rightarrow> fs_env \<Rightarrow> fs_candidate \<Rightarrow> 'h request \<Rightarrow> bool
    \<Rightarrow> nat \<Rightarrow> string option \<Rightarrow> 'h response" where
  "serve_fs_asset H E F cand req head chunk_size cache_control =
     (case fs_open F (fc_path cand) of
        None \<Rightarrow> static_not_found H
      | Some file \<Rightarrow>
          (case ff_meta file of
             None \<Rightarrow> static_not_found H
           | Some m \<Rightarrow>
               (let len = fm_len m;
                    modified = fm_modified m;
                    etag = fs_etag len modified
                in if is_not_modified H E req etag modified
                   then not_modified H E etag modified cache_control (fc_vary cand)
                   else
                     (let serve = (\<lambda>rg body.
                            (let b = asset_builder H E rg len (fc_content_type cand) etag modified cache_control
                                   (fc_content_encoding cand) (fc_vary cand)
                             in if head then rb_empty H b else rb_body H body b))
                      in case range_of_request H E req etag modified len of
                           Unsatisfiable \<Rightarrow> range_not_satisfiable H len
                         | FullRange \<Rightarrow> serve None (file_body F file chunk_size)
                         | Partial s e \<Rightarrow> serve (Some (s, e)) (ranged_file_body F file s e chunk_size)))))"

subsection \<open>Directories\<close>

text \<open>
  The service.  The last field is the cell for the canonical root.  \<^verbatim>\<open>call\<close> clones the service, cell
  included, and handles the request with the clone.
\<close>

record ('h, 'w) serve_dir =
  sd_root :: string
  sd_fallback :: "('h, 'w) service option"
  sd_gzip :: bool
  sd_br :: bool
  sd_fallback_405 :: bool
  sd_append_index :: bool
  sd_listing :: bool
  sd_chunk_size :: nat
  sd_cache_control :: "string option"
  sd_follow_symlinks :: bool
  sd_canonical_root :: "string option option"

definition serve_dir_new :: "string \<Rightarrow> ('h, 'w) serve_dir" where
  "serve_dir_new path = \<lparr>sd_root = path, sd_fallback = None, sd_gzip = False, sd_br = False,
     sd_fallback_405 = False, sd_append_index = True, sd_listing = False,
     sd_chunk_size = DEFAULT_CHUNK_SIZE, sd_cache_control = None, sd_follow_symlinks = False,
     sd_canonical_root = None\<rparr>"

definition sd_set_follow_symlinks :: "('h, 'w) serve_dir \<Rightarrow> bool \<Rightarrow> ('h, 'w) serve_dir" where
  "sd_set_follow_symlinks self enabled = self\<lparr>sd_follow_symlinks := enabled\<rparr>"

definition sd_not_found_service :: "('h, 'w) serve_dir \<Rightarrow> ('h, 'w) service \<Rightarrow> ('h, 'w) serve_dir" where
  "sd_not_found_service self service = self\<lparr>sd_fallback := Some service\<rparr>"

definition sd_precompressed_gzip :: "('h, 'w) serve_dir \<Rightarrow> ('h, 'w) serve_dir" where
  "sd_precompressed_gzip self = self\<lparr>sd_gzip := True\<rparr>"

definition sd_precompressed_br :: "('h, 'w) serve_dir \<Rightarrow> ('h, 'w) serve_dir" where
  "sd_precompressed_br self = self\<lparr>sd_br := True\<rparr>"

definition sd_call_fallback_405 :: "('h, 'w) serve_dir \<Rightarrow> bool \<Rightarrow> ('h, 'w) serve_dir" where
  "sd_call_fallback_405 self b = self\<lparr>sd_fallback_405 := b\<rparr>"

definition sd_set_append_index :: "('h, 'w) serve_dir \<Rightarrow> bool \<Rightarrow> ('h, 'w) serve_dir" where
  "sd_set_append_index self b = self\<lparr>sd_append_index := b\<rparr>"

definition sd_directory_listing :: "('h, 'w) serve_dir \<Rightarrow> bool \<Rightarrow> ('h, 'w) serve_dir" where
  "sd_directory_listing self b = self\<lparr>sd_listing := b\<rparr>"

definition sd_with_buf_chunk_size :: "('h, 'w) serve_dir \<Rightarrow> nat \<Rightarrow> ('h, 'w) serve_dir" where
  "sd_with_buf_chunk_size self n = (if n > 0 then self\<lparr>sd_chunk_size := n\<rparr> else self)"

text \<open>\<^verbatim>\<open>None\<close> when the value is no header value and the call panics.\<close>

definition sd_set_cache_control :: "'h http_lib \<Rightarrow> ('h, 'w) serve_dir \<Rightarrow> string \<Rightarrow> ('h, 'w) serve_dir option" where
  "sd_set_cache_control H self v = map_option (\<lambda>x. self\<lparr>sd_cache_control := Some x\<rparr>) (hv_from_str H v)"

text \<open>The answer and the cell after the check.\<close>

definition path_contained :: "fs_env \<Rightarrow> string \<Rightarrow> string option option \<Rightarrow> string \<Rightarrow> bool \<times> string option option" where
  "path_contained F base cached_root path =
     (let canonical_root = (case cached_root of Some c \<Rightarrow> c | None \<Rightarrow> fs_canonicalize F base)
      in (case canonical_root of
            None \<Rightarrow> False
          | Some r \<Rightarrow>
              (case fs_canonicalize F path of
                 Some p \<Rightarrow> path_starts_with p r
               | None \<Rightarrow> False),
          Some canonical_root))"

definition fs_is_file :: "fs_meta option \<Rightarrow> bool" where
  "fs_is_file m = (case m of Some x \<Rightarrow> fm_is_file x | None \<Rightarrow> False)"

definition sd_select_file :: "static_env \<Rightarrow> fs_env \<Rightarrow> ('h, 'w) serve_dir \<Rightarrow> string \<Rightarrow> fs_meta \<Rightarrow> string
    \<Rightarrow> bool \<Rightarrow> bool \<Rightarrow> fs_candidate option" where
  "sd_select_file E F self path existing asset_path accepts_br accepts_gzip =
     (let ctype = content_type E asset_path;
          vary = sd_gzip self \<or> sd_br self;
          cand = (\<lambda>p enc. \<lparr>fc_path = p, fc_content_type = ctype, fc_content_encoding = enc, fc_vary = vary\<rparr>)
      in if accepts_br \<and> fs_is_file (fs_probe F (append_suffix path ''.br''))
         then Some (cand (append_suffix path ''.br'') (Some ''br''))
         else if accepts_gzip \<and> fs_is_file (fs_probe F (append_suffix path ''.gz''))
         then Some (cand (append_suffix path ''.gz'') (Some ''gzip''))
         else if \<not> fm_is_file existing then None
         else Some (cand path None))"

fun sorted_insert :: "string \<Rightarrow> string list \<Rightarrow> string list" where
  "sorted_insert x [] = [x]"
| "sorted_insert x (y # ys) = (if string_lt y x then y # sorted_insert x ys else x # y # ys)"

definition directory_listing_response :: "'h http_lib \<Rightarrow> fs_env \<Rightarrow> string \<Rightarrow> string \<Rightarrow> 'h response" where
  "directory_listing_response H F dir request_path =
     (case fs_read_dir F dir of
        None \<Rightarrow> static_not_found H
      | Some entries \<Rightarrow>
          listing_response H request_path
            (foldr sorted_insert (map (\<lambda>(name, d). name @ (if d then ''/'' else [])) entries) []))"

definition sd_handle_directory :: "'h http_lib \<Rightarrow> static_env \<Rightarrow> fs_env \<Rightarrow> ('h, 'w) serve_dir \<Rightarrow> 'h request
    \<Rightarrow> string \<Rightarrow> string \<Rightarrow> 'w \<Rightarrow> 'h outcome \<times> 'w" where
  "sd_handle_directory H E F self req relative dir w =
     (if \<not> ends_with (uri_path (req_uri req)) ''/'' \<and> (sd_append_index self \<or> sd_listing self)
      then (Done (redirect_to_slash H req), w)
      else
        (let index_path = path_join dir INDEX_FILE;
             otherwise = (if sd_listing self
                          then (Done (directory_listing_response H F dir (uri_path (req_uri req))), w)
                          else call_fallback H (sd_fallback self) req w)
         in if \<not> sd_append_index self then otherwise
            else (case fs_metadata F index_path of
                    Some index_meta \<Rightarrow>
                      if fm_is_file index_meta
                      then (let (accepts_br, accepts_gzip) = accepted_precompressed H E req (sd_br self) (sd_gzip self)
                            in case sd_select_file E F self index_path index_meta
                                      (join_asset_path relative INDEX_FILE) accepts_br accepts_gzip of
                                 Some asset \<Rightarrow>
                                   (Done (serve_fs_asset H E F asset req False (sd_chunk_size self)
                                      (sd_cache_control self)), w)
                               | None \<Rightarrow> call_fallback H (sd_fallback self) req w)
                      else otherwise
                  | None \<Rightarrow> otherwise)))"

definition sd_handle :: "'h http_lib \<Rightarrow> static_env \<Rightarrow> fs_env \<Rightarrow> ('h, 'w) serve_dir \<Rightarrow> ('h, 'w) service" where
  "sd_handle H E F self = (\<lambda>req w.
     if \<not> is_get_or_head (req_method req)
     then (if sd_fallback_405 self then call_fallback H (sd_fallback self) req w
           else (Done (static_method_not_allowed H), w))
     else (case relative_path E (uri_path (req_uri req)) of
             None \<Rightarrow> call_fallback H (sd_fallback self) req w
           | Some relative \<Rightarrow>
               (let candidate = path_join (sd_root self) relative
                in if \<not> sd_follow_symlinks self
                      \<and> \<not> fst (path_contained F (sd_root self) (sd_canonical_root self) candidate)
                   then call_fallback H (sd_fallback self) req w
                   else (case fs_metadata F candidate of
                           None \<Rightarrow> call_fallback H (sd_fallback self) req w
                         | Some metadata \<Rightarrow>
                             if fm_is_dir metadata
                             then sd_handle_directory H E F self req relative candidate w
                             else
                               (let (accepts_br, accepts_gzip) =
                                      accepted_precompressed H E req (sd_br self) (sd_gzip self)
                                in case sd_select_file E F self candidate metadata relative
                                          accepts_br accepts_gzip of
                                     Some asset \<Rightarrow>
                                       (Done (serve_fs_asset H E F asset req (req_method req = Head)
                                          (sd_chunk_size self) (sd_cache_control self)), w)
                                   | None \<Rightarrow> call_fallback H (sd_fallback self) req w)))))"

text \<open>\<^verbatim>\<open>Service::call\<close>: the clone is consumed, the service itself keeps its cell as it was.\<close>

definition serve_dir_call :: "'h http_lib \<Rightarrow> static_env \<Rightarrow> fs_env \<Rightarrow> ('h, 'w) serve_dir \<Rightarrow> 'h request \<Rightarrow> 'w
    \<Rightarrow> ('h outcome \<times> 'w) \<times> ('h, 'w) serve_dir" where
  "serve_dir_call H E F self req w = (sd_handle H E F self req w, self)"

subsection \<open>One file\<close>

record serve_file =
  sf_path :: string
  sf_mime :: string
  sf_gzip :: bool
  sf_br :: bool
  sf_chunk_size :: nat
  sf_cache_control :: "string option"

definition serve_file_with_mime :: "string \<Rightarrow> string \<Rightarrow> serve_file" where
  "serve_file_with_mime path m = \<lparr>sf_path = path, sf_mime = m, sf_gzip = False, sf_br = False,
     sf_chunk_size = DEFAULT_CHUNK_SIZE, sf_cache_control = None\<rparr>"

definition serve_file_new :: "static_env \<Rightarrow> string \<Rightarrow> serve_file" where
  "serve_file_new E path = serve_file_with_mime path (content_type E path)"

definition sf_precompressed_gzip :: "serve_file \<Rightarrow> serve_file" where
  "sf_precompressed_gzip self = self\<lparr>sf_gzip := True\<rparr>"

definition sf_precompressed_br :: "serve_file \<Rightarrow> serve_file" where
  "sf_precompressed_br self = self\<lparr>sf_br := True\<rparr>"

definition sf_with_buf_chunk_size :: "serve_file \<Rightarrow> nat \<Rightarrow> serve_file" where
  "sf_with_buf_chunk_size self n = (if n > 0 then self\<lparr>sf_chunk_size := n\<rparr> else self)"

definition sf_set_cache_control :: "'h http_lib \<Rightarrow> serve_file \<Rightarrow> string \<Rightarrow> serve_file option" where
  "sf_set_cache_control H self v = map_option (\<lambda>x. self\<lparr>sf_cache_control := Some x\<rparr>) (hv_from_str H v)"

definition sf_select_file :: "fs_env \<Rightarrow> serve_file \<Rightarrow> bool \<Rightarrow> bool \<Rightarrow> fs_candidate option" where
  "sf_select_file F self accepts_br accepts_gzip =
     (let cand = (\<lambda>p enc. \<lparr>fc_path = p, fc_content_type = sf_mime self, fc_content_encoding = enc,
            fc_vary = sf_gzip self \<or> sf_br self\<rparr>)
      in if accepts_br \<and> fs_is_file (fs_probe F (append_suffix (sf_path self) ''.br''))
         then Some (cand (append_suffix (sf_path self) ''.br'') (Some ''br''))
         else if accepts_gzip \<and> fs_is_file (fs_probe F (append_suffix (sf_path self) ''.gz''))
         then Some (cand (append_suffix (sf_path self) ''.gz'') (Some ''gzip''))
         else if \<not> fs_is_file (fs_metadata F (sf_path self)) then None
         else Some (cand (sf_path self) None))"

definition serve_file_handle :: "'h http_lib \<Rightarrow> static_env \<Rightarrow> fs_env \<Rightarrow> serve_file \<Rightarrow> 'h request \<Rightarrow> 'h response" where
  "serve_file_handle H E F self req =
     (if \<not> is_get_or_head (req_method req) then static_method_not_allowed H
      else (let (accepts_br, accepts_gzip) = accepted_precompressed H E req (sf_br self) (sf_gzip self)
            in case sf_select_file F self accepts_br accepts_gzip of
                 Some asset \<Rightarrow>
                   serve_fs_asset H E F asset req (req_method req = Head) (sf_chunk_size self) (sf_cache_control self)
               | None \<Rightarrow> static_not_found H))"

subsection \<open>Lemmas\<close>

text \<open>What \<^verbatim>\<open>ReaderStream\<close> promises of a file that can be read: chunks that add up to its bytes.\<close>

locale file_reader =
  fixes F :: fs_env
  assumes stream: "0 < n \<Longrightarrow> \<exists>cs. fs_stream F n bs = map Inr cs \<and> concat cs = bs"
begin

lemma body_bytes: "0 < n \<Longrightarrow> to_bytes (body_from_stream (fs_stream F n bs)) = Inr bs"
proof -
  assume "0 < n"
  then obtain cs where cs: "fs_stream F n bs = map Inr cs" "concat cs = bs" using stream by blast
  have "collect_frames (map Data ds) = Inr (concat ds)" for ds
    by (induction ds) simp_all
  with cs show ?thesis
    by (simp add: body_from_stream_def body_new_def to_bytes_def o_def)
qed

lemma file_body_bytes: "0 < n \<Longrightarrow> to_bytes (file_body F file n) = Inr (ff_bytes file)"
  by (simp add: file_body_def body_bytes)

lemma ranged_file_body_bytes:
  "0 < n \<Longrightarrow> ff_seekable file \<Longrightarrow>
   to_bytes (ranged_file_body F file s e n) = Inr (take (unat (e - s + 1)) (drop (unat s) (ff_bytes file)))"
  by (simp add: ranged_file_body_def body_bytes)

end

text \<open>The open file seen as an embedded asset.\<close>

definition file_asset :: "fs_candidate \<Rightarrow> fs_meta \<Rightarrow> string \<Rightarrow> embedded_asset" where
  "file_asset cand m bytes = \<lparr>ea_bytes = bytes, ea_len = fm_len m, ea_modified = fm_modified m,
     ea_etag = fs_etag (fm_len m) (fm_modified m), ea_content_type = fc_content_type cand,
     ea_content_encoding = fc_content_encoding cand, ea_vary = fc_vary cand\<rparr>"

definition inside_root :: "fs_env \<Rightarrow> string \<Rightarrow> string \<Rightarrow> bool" where
  "inside_root F base path \<longleftrightarrow> (\<exists>r p. fs_canonicalize F base = Some r \<and> fs_canonicalize F path = Some p
     \<and> path_starts_with p r)"

definition cell_ok :: "fs_env \<Rightarrow> string \<Rightarrow> string option option \<Rightarrow> bool" where
  "cell_ok F base cell \<longleftrightarrow> (case cell of None \<Rightarrow> True | Some c \<Rightarrow> c = fs_canonicalize F base)"

lemma path_contained_iff:
  "cell_ok F base cell \<Longrightarrow> fst (path_contained F base cell p) \<longleftrightarrow> inside_root F base p"
  "cell_ok F base cell \<Longrightarrow> cell_ok F base (snd (path_contained F base cell p))"
  by (auto simp: cell_ok_def path_contained_def inside_root_def Let_def split: option.splits)

text \<open>The precompressed neighbours a service is configured to look for.\<close>

definition neighbours :: "('h, 'w) serve_dir \<Rightarrow> string \<Rightarrow> string set" where
  "neighbours self p = {q. sd_br self \<and> q = append_suffix p ''.br'' \<or> sd_gzip self \<and> q = append_suffix p ''.gz''}"

lemma sd_select_neighbours:
  assumes "sd_select_file E F self p m ap br gz = Some c"
    "accepted_precompressed H E req (sd_br self) (sd_gzip self) = (br, gz)"
  shows "fc_path c = p \<or> fc_path c \<in> neighbours self p"
  using assms by (auto simp: sd_select_file_def accepted_precompressed_def neighbours_def Let_def split: if_splits)

text \<open>What a request to a directory may be answered with.\<close>

lemma sd_handle_directory_cases:
  obtains "sd_handle_directory H E F self req rel dir w = (Done (redirect_to_slash H req), w)"
  | "sd_handle_directory H E F self req rel dir w = call_fallback H (sd_fallback self) req w"
  | "sd_handle_directory H E F self req rel dir w
       = (Done (directory_listing_response H F dir (uri_path (req_uri req))), w)"
  | c where "sd_append_index self"
      "fc_path c = path_join dir INDEX_FILE \<or> fc_path c \<in> neighbours self (path_join dir INDEX_FILE)"
      "sd_handle_directory H E F self req rel dir w
       = (Done (serve_fs_asset H E F c req False (sd_chunk_size self) (sd_cache_control self)), w)"
proof (cases "\<not> ends_with (uri_path (req_uri req)) ''/'' \<and> (sd_append_index self \<or> sd_listing self)")
  case True
  then show ?thesis using that(1) by (simp add: sd_handle_directory_def)
next
  case outer: False
  define br gz where "br = fst (accepted_precompressed H E req (sd_br self) (sd_gzip self))"
    and "gz = snd (accepted_precompressed H E req (sd_br self) (sd_gzip self))"
  have pr: "accepted_precompressed H E req (sd_br self) (sd_gzip self) = (br, gz)"
    by (simp add: br_def gz_def)
  show ?thesis
  proof (cases "sd_append_index self \<and> fs_is_file (fs_metadata F (path_join dir INDEX_FILE))")
    case True
    then obtain m where m: "fs_metadata F (path_join dir INDEX_FILE) = Some m" "fm_is_file m"
      by (auto simp: fs_is_file_def split: option.splits)
    show ?thesis
    proof (cases "sd_select_file E F self (path_join dir INDEX_FILE) m (join_asset_path rel INDEX_FILE) br gz")
      case None
      then show ?thesis using that(2) True m outer pr by (simp add: sd_handle_directory_def Let_def)
    next
      case (Some c)
      then show ?thesis
        using that(4) [OF _ sd_select_neighbours [OF Some pr]] True m outer pr
        by (simp add: sd_handle_directory_def Let_def)
    qed
  next
    case False
    then have "sd_handle_directory H E F self req rel dir w =
      (if sd_listing self then (Done (directory_listing_response H F dir (uri_path (req_uri req))), w)
       else call_fallback H (sd_fallback self) req w)"
      using outer by (auto simp: sd_handle_directory_def fs_is_file_def Let_def split: option.splits)
    then show ?thesis using that(2,3) by (cases "sd_listing self") simp_all
  qed
qed

lemma sd_handle_cases:
  assumes "\<not> sd_follow_symlinks self" and "cell_ok F (sd_root self) (sd_canonical_root self)"
  obtains "sd_handle H E F self req w = call_fallback H (sd_fallback self) req w"
  | "sd_handle H E F self req w = (Done (static_method_not_allowed H), w)"
  | r where "relative_path E (uri_path (req_uri req)) = Some r" "inside_root F (sd_root self) (path_join (sd_root self) r)"
      "sd_handle H E F self req w = sd_handle_directory H E F self req r (path_join (sd_root self) r) w"
  | r c where "relative_path E (uri_path (req_uri req)) = Some r" "inside_root F (sd_root self) (path_join (sd_root self) r)"
      "fc_path c = path_join (sd_root self) r \<or> fc_path c \<in> neighbours self (path_join (sd_root self) r)"
      "sd_handle H E F self req w
       = (Done (serve_fs_asset H E F c req (req_method req = Head) (sd_chunk_size self) (sd_cache_control self)), w)"
proof (cases "is_get_or_head (req_method req)")
  case False
  then show ?thesis using that(1,2) by (cases "sd_fallback_405 self") (simp_all add: sd_handle_def)
next
  case getm: True
  show ?thesis
  proof (cases "relative_path E (uri_path (req_uri req))")
    case None
    then show ?thesis using that(1) getm by (simp add: sd_handle_def)
  next
    case (Some r)
    let ?p = "path_join (sd_root self) r"
    note sd = sd_handle_def [of H E F self] Let_def assms(1) getm Some path_contained_iff(1) [OF assms(2)]
    show ?thesis
    proof (cases "inside_root F (sd_root self) ?p \<and> fs_metadata F ?p \<noteq> None")
      case False
      then show ?thesis
        using that(1) by (cases "inside_root F (sd_root self) ?p") (simp_all add: sd)
    next
      case True
      then obtain m where m: "inside_root F (sd_root self) ?p" "fs_metadata F ?p = Some m" by auto
      obtain br gz where pr: "accepted_precompressed H E req (sd_br self) (sd_gzip self) = (br, gz)"
        by fastforce
      show ?thesis
      proof (cases "fm_is_dir m")
        case True
        then show ?thesis using that(3) [OF Some] m by (simp add: sd)
      next
        case False
        then show ?thesis
          using that(1) that(4) [OF Some m(1) sd_select_neighbours [OF _ pr]] m pr
          by (cases "sd_select_file E F self ?p m r br gz") (simp_all add: sd)
      qed
    qed
  qed
qed

subsection \<open>An instance\<close>

text \<open>Reading a file in chunks of the given size.\<close>

function read_chunks :: "nat \<Rightarrow> string \<Rightarrow> (body_error + string) list" where
  "read_chunks n bs = (if bs = [] \<or> n = 0 then [] else Inr (take n bs) # read_chunks n (drop n bs))"
  by pat_completeness auto
termination by (relation "measure (\<lambda>(n, bs). length bs)") auto

declare read_chunks.simps [simp del]

text \<open>A tree \<open>/srv\<close> whose \<open>index.html\<close> is a symbolic link to a file outside.\<close>

definition demo_meta :: "bool \<Rightarrow> nat \<Rightarrow> fs_meta" where
  "demo_meta dir n = \<lparr>fm_is_file = \<not> dir, fm_is_dir = dir, fm_len = of_nat n, fm_modified = None\<rparr>"

definition demo_fs :: fs_env where
  "demo_fs = \<lparr>
     fs_canonicalize = [''/srv'' \<mapsto> ''/srv'', ''/srv/'' \<mapsto> ''/srv'', ''/srv/a.txt'' \<mapsto> ''/srv/a.txt'',
       ''/srv/index.html'' \<mapsto> ''/etc/passwd''],
     fs_metadata = [''/srv/'' \<mapsto> demo_meta True 0, ''/srv/a.txt'' \<mapsto> demo_meta False 5,
       ''/srv/index.html'' \<mapsto> demo_meta False 6],
     fs_probe = (\<lambda>_. None),
     fs_open = [''/srv/a.txt'' \<mapsto> \<lparr>ff_meta = Some (demo_meta False 5), ff_bytes = ''hello'', ff_seekable = True\<rparr>,
       ''/srv/index.html'' \<mapsto> \<lparr>ff_meta = Some (demo_meta False 6), ff_bytes = ''secret'', ff_seekable = True\<rparr>],
     fs_read_dir = (\<lambda>_. None),
     fs_stream = read_chunks\<rparr>"

interpretation demo: file_reader demo_fs
proof
  fix n :: nat and bs :: string
  assume n: "0 < n"
  show "\<exists>cs. fs_stream demo_fs n bs = map Inr cs \<and> concat cs = bs"
  proof (induction "length bs" arbitrary: bs rule: less_induct)
    case less
    show ?case
    proof (cases "bs = []")
      case True
      then show ?thesis by (simp add: demo_fs_def read_chunks.simps [of n])
    next
      case False
      then obtain cs where "read_chunks n (drop n bs) = map Inr cs" "concat cs = drop n bs"
        using less [of "drop n bs"] n by (auto simp: demo_fs_def)
      then have "fs_stream demo_fs n bs = map Inr (take n bs # cs) \<and> concat (take n bs # cs) = bs"
        using False n by (simp add: demo_fs_def read_chunks.simps [of n bs])
      then show ?thesis by blast
    qed
  qed
qed

lemma demo_file_reader: "file_reader demo_fs" ..

subsection \<open>Properties\<close>

text \<open>C23: A file is served as an embedded asset with the same bytes would be: status, headers and
  extensions are the same, for GET and HEAD, full, partial, conditional and unsatisfiable
  requests alike, and the streamed body adds up to the same bytes.  Length, validators and range
  all describe the file that was opened, whatever the path named before.\<close>

theorem serve_fs_as_embedded:
  assumes "file_reader F" and "0 < chunk"
    and "fs_open F (fc_path cand) = Some file" and "ff_meta file = Some m" and "ff_seekable file"
    and "unat (fm_len m) = length (ff_bytes file)"
    and "fs = serve_fs_asset H E F cand req head chunk cc"
    and "emb = serve_embedded_asset H E (file_asset cand m (ff_bytes file)) req head cc"
  shows "fs = emb\<lparr>res_body := res_body fs\<rparr> \<and> to_bytes (res_body fs) = to_bytes (res_body emb)"
proof -
  let ?a = "file_asset cand m (ff_bytes file)"
  have ok: "asset_ok ?a"
    using assms(6) unsigned_less [of "fm_len m"] by (simp add: asset_ok_def file_asset_def flip: assms(6))
  have full: "to_bytes (BFull b) = Inr b" for b
    by (simp add: to_bytes_def)
  have body: "rb_body H b1 bld = (rb_body H b2 bld)\<lparr>res_body := res_body (rb_body H b1 bld)\<rparr>
      \<and> to_bytes (res_body (rb_body H b1 bld)) = to_bytes (res_body (rb_body H b2 bld))"
    if "to_bytes b1 = to_bytes b2" for b1 b2 bld
    using that by (auto simp: rb_body_def split: option.split)
  note fb = file_reader.file_body_bytes [OF assms(1,2)]
  note rb = file_reader.ranged_file_body_bytes [OF assms(1,2,5)]
  show ?thesis
  proof (cases "is_not_modified H E req (ea_etag ?a) (ea_modified ?a)")
    case True
    then show ?thesis
      using assms(3,4) by (simp add: assms(7,8) serve_fs_asset_def serve_embedded_asset_def file_asset_def Let_def)
  next
    case fresh: False
    show ?thesis
    proof (cases "range_of_request H E req (ea_etag ?a) (ea_modified ?a) (ea_len ?a)")
      case Unsatisfiable
      then show ?thesis
        using fresh assms(3,4)
        by (simp add: assms(7,8) serve_fs_asset_def serve_embedded_asset_def file_asset_def Let_def)
    next
      case FullRange
      then show ?thesis
        using fresh assms(3,4) body [of "file_body F file chunk" "BFull (ff_bytes file)"] fb full
        by (simp add: assms(7,8) serve_fs_asset_def serve_embedded_asset_def file_asset_def Let_def)
    next
      case (Partial s e)
      have "to_bytes (ranged_file_body F file s e chunk) = to_bytes (BFull (byte_slice (ff_bytes file) s e))"
        using rb [of s e] range_facts(4) [OF ok Partial] full by (simp add: byte_slice_def)
      then show ?thesis
        using fresh assms(3,4) body [of "ranged_file_body F file s e chunk" "BFull (byte_slice (ff_bytes file) s e)"] Partial
        by (simp add: assms(7,8) serve_fs_asset_def serve_embedded_asset_def file_asset_def Let_def)
    qed
  qed
qed

theorem serve_fs_as_embedded_witness:
  "to_bytes (res_body (serve_fs_asset alist_lib demo_env demo_fs
      \<lparr>fc_path = ''/srv/a.txt'', fc_content_type = ''text/plain'', fc_content_encoding = None, fc_vary = False\<rparr>
      (sample_request Get ''/a.txt'' []) False 2 None))
   = to_bytes (res_body (serve_embedded_asset alist_lib demo_env
      (file_asset \<lparr>fc_path = ''/srv/a.txt'', fc_content_type = ''text/plain'', fc_content_encoding = None,
         fc_vary = False\<rparr> (demo_meta False 5) ''hello'')
      (sample_request Get ''/a.txt'' []) False None))"
proof -
  let ?file = "\<lparr>ff_meta = Some (demo_meta False 5), ff_bytes = ''hello'', ff_seekable = True\<rparr>"
  have o: "fs_open demo_fs ''/srv/a.txt'' = Some ?file" "unat (fm_len (demo_meta False 5)) = length (ff_bytes ?file)"
    by (simp_all add: demo_fs_def demo_meta_def)
  show ?thesis
    using serve_fs_as_embedded [OF demo_file_reader, of 2
        "\<lparr>fc_path = ''/srv/a.txt'', fc_content_type = ''text/plain'', fc_content_encoding = None, fc_vary = False\<rparr>"
        ?file "demo_meta False 5" _ alist_lib demo_env "sample_request Get ''/a.txt'' []" False None, OF _ _ _ _ _ refl refl]
      o by simp
qed

text \<open>C22: With links not followed, the path that a request names must lie in the tree, and it alone is checked.
  For a service whose cell is empty or holds the canonical root, the answer is the fallback's, a refusal of the
  method, or it is about \<open>p\<close>, the root joined with the decoded and normalised path of the request, and then \<open>p\<close>
  resolves to a place inside the canonical root: a redirect to the path with a slash, a listing of \<open>p\<close>, or the
  bytes of a file opened at \<open>p\<close>, at a precompressed neighbour of \<open>p\<close> of a kind that was enabled, or, where index files
  are on, at the index file in \<open>p\<close> or such a neighbour of that.  Nothing else is opened.  The neighbours and the index file are
  not resolved: a symbolic link there does leave the root, although the documentation of \<^verbatim>\<open>follow_symlinks\<close>
  says such a request is treated as not found; \<open>serve_dir_index_escapes\<close> below is an instance.\<close>

theorem serve_dir_contained:
  assumes "\<not> sd_follow_symlinks self" and "cell_ok F (sd_root self) (sd_canonical_root self)"
    and "out = sd_handle H E F self req w"
  shows "out = call_fallback H (sd_fallback self) req w
    \<or> out = (Done (static_method_not_allowed H), w)
    \<or> (\<exists>r p. relative_path E (uri_path (req_uri req)) = Some r \<and> p = path_join (sd_root self) r
         \<and> inside_root F (sd_root self) p
         \<and> (out = (Done (redirect_to_slash H req), w)
           \<or> out = (Done (directory_listing_response H F p (uri_path (req_uri req))), w)
           \<or> (\<exists>c head. out = (Done (serve_fs_asset H E F c req head (sd_chunk_size self) (sd_cache_control self)), w)
                \<and> (fc_path c = p \<or> fc_path c \<in> neighbours self p
                  \<or> sd_append_index self \<and> (fc_path c = path_join p INDEX_FILE
                      \<or> fc_path c \<in> neighbours self (path_join p INDEX_FILE))))))"
proof -
  let ?fb = "call_fallback H (sd_fallback self) req w"
  consider "out = ?fb" | "out = (Done (static_method_not_allowed H), w)"
    | r where "relative_path E (uri_path (req_uri req)) = Some r" "inside_root F (sd_root self) (path_join (sd_root self) r)"
        "out = sd_handle_directory H E F self req r (path_join (sd_root self) r) w"
    | r c where "relative_path E (uri_path (req_uri req)) = Some r" "inside_root F (sd_root self) (path_join (sd_root self) r)"
        "fc_path c = path_join (sd_root self) r \<or> fc_path c \<in> neighbours self (path_join (sd_root self) r)"
        "out = (Done (serve_fs_asset H E F c req (req_method req = Head) (sd_chunk_size self) (sd_cache_control self)), w)"
    using sd_handle_cases [OF assms(1,2), of H E req w] assms(3) by blast
  then show ?thesis
  proof cases
    case (3 r)
    show ?thesis
      using 3 by (cases rule: sd_handle_directory_cases [of H E F self req r "path_join (sd_root self) r" w]) auto
  next
    case (4 r c)
    then show ?thesis by blast
  qed simp_all
qed

theorem serve_dir_contained_witness:
  "let out = sd_handle alist_lib demo_env demo_fs (serve_dir_new ''/srv'') (sample_request Get ''/a.txt'' []) (0 :: nat)
   in out = call_fallback alist_lib None (sample_request Get ''/a.txt'' []) 0
    \<or> out = (Done (static_method_not_allowed alist_lib), 0)
    \<or> (\<exists>r p. relative_path demo_env ''/a.txt'' = Some r \<and> p = path_join ''/srv'' r
         \<and> inside_root demo_fs ''/srv'' p
         \<and> (out = (Done (redirect_to_slash alist_lib (sample_request Get ''/a.txt'' [])), 0)
           \<or> out = (Done (directory_listing_response alist_lib demo_fs p ''/a.txt''), 0)
           \<or> (\<exists>c head. out = (Done (serve_fs_asset alist_lib demo_env demo_fs c (sample_request Get ''/a.txt'' []) head
                      DEFAULT_CHUNK_SIZE None), 0)
                \<and> (fc_path c = p \<or> fc_path c = path_join p INDEX_FILE))))"
  using serve_dir_contained [of "serve_dir_new ''/srv''" demo_fs _ alist_lib demo_env "sample_request Get ''/a.txt'' []"
      "0 :: nat", OF _ _ refl]
  by (simp add: serve_dir_new_def cell_ok_def sample_request_def sample_uri_def Let_def neighbours_def)

text \<open>The index file itself is not checked.  With links not followed, a request for a directory
  of the tree is answered with the bytes of a file outside it when \<^verbatim>\<open>index.html\<close> is a symbolic
  link.\<close>

theorem serve_dir_index_escapes:
  "\<not> inside_root demo_fs ''/srv'' ''/srv/index.html''
   \<and> (\<exists>resp. sd_handle alist_lib demo_env demo_fs (serve_dir_new ''/srv'') (sample_request Get ''/'' []) (0 :: nat)
         = (Done resp, 0) \<and> to_bytes (res_body resp) = Inr ''secret'')"
proof
  show "\<not> inside_root demo_fs ''/srv'' ''/srv/index.html''"
    by (simp add: inside_root_def demo_fs_def path_starts_with_def path_components_def)
  let ?self = "serve_dir_new ''/srv''" and ?req = "sample_request Get ''/'' []"
  let ?file = "\<lparr>ff_meta = Some (demo_meta False 6), ff_bytes = ''secret'', ff_seekable = True\<rparr>"
  let ?c = "\<lparr>fc_path = ''/srv/index.html'', fc_content_type = content_type demo_env INDEX_FILE,
     fc_content_encoding = None, fc_vary = False\<rparr>"
  let ?resp = "serve_fs_asset alist_lib demo_env demo_fs ?c ?req False DEFAULT_CHUNK_SIZE None"
  have rel: "relative_path demo_env ''/'' = Some []"
    by (simp add: relative_path_def demo_env_def trim_start_matches_def)
  have join: "path_join ''/srv'' [] = ''/srv/''" "path_join ''/srv/'' INDEX_FILE = ''/srv/index.html''"
    by (simp_all add: path_join_def INDEX_FILE_def suffix_Cons)
  have inside: "fst (path_contained demo_fs ''/srv'' None ''/srv/'')"
    by (simp add: path_contained_def demo_fs_def path_starts_with_def path_components_def)
  have dir: "sd_handle_directory alist_lib demo_env demo_fs ?self ?req [] ''/srv/'' (0 :: nat) = (Done ?resp, 0)"
    by (simp add: sd_handle_directory_def serve_dir_new_def sample_request_def sample_uri_def join Let_def
        demo_fs_def [THEN arg_cong, of fs_metadata] demo_meta_def accepted_precompressed_def sd_select_file_def
        join_asset_path_def)
  have meta: "fs_metadata demo_fs ''/srv/'' = Some (demo_meta True 0)" "fm_is_dir (demo_meta True 0)"
    by (simp_all add: demo_fs_def demo_meta_def)
  have sel: "is_get_or_head (req_method ?req)" "uri_path (req_uri ?req) = ''/''"
    by (simp_all add: sample_request_def sample_uri_def is_get_or_head_def)
  have conf: "sd_root ?self = ''/srv''" "sd_canonical_root ?self = None"
    by (simp_all add: serve_dir_new_def)
  have "sd_handle alist_lib demo_env demo_fs ?self ?req (0 :: nat) = (Done ?resp, 0)"
    by (simp add: sd_handle_def Let_def sel conf rel join inside meta dir)
  moreover have "to_bytes (res_body ?resp) = Inr ''secret''"
  proof -
    have o: "fs_open demo_fs (fc_path ?c) = Some ?file" "ff_meta ?file = Some (demo_meta False 6)"
      "unat (fm_len (demo_meta False 6)) = length (ff_bytes ?file)" "ff_seekable ?file" "0 < DEFAULT_CHUNK_SIZE"
      by (simp_all add: demo_fs_def demo_meta_def DEFAULT_CHUNK_SIZE_def)
    have r: "range_of_request alist_lib demo_env ?req t m l = FullRange" for t m l
      by (simp add: range_of_request_def parse_range_def sample_request_def alist_sel)
    have n: "\<not> is_not_modified alist_lib demo_env ?req t None" for t
      by (simp add: is_not_modified_def sample_request_def alist_sel)
    let ?b = "asset_builder alist_lib demo_env None (fm_len (demo_meta False 6)) (fc_content_type ?c)
      (fs_etag (fm_len (demo_meta False 6)) None) None None None False"
    have "?resp = rb_body alist_lib (file_body demo_fs ?file DEFAULT_CHUNK_SIZE) ?b"
      using o r n by (simp add: serve_fs_asset_def Let_def) (simp add: demo_meta_def)
    then show ?thesis
      using rb_body_good [of ?b alist_lib "file_body demo_fs ?file DEFAULT_CHUNK_SIZE"]
        header_map.asset_builder_headers(1) [OF alist_header_map demo_env_dates] demo.file_body_bytes [OF o(5), of ?file]
      by simp
  qed
  ultimately show "\<exists>resp. sd_handle alist_lib demo_env demo_fs ?self ?req (0 :: nat) = (Done resp, 0)
      \<and> to_bytes (res_body resp) = Inr ''secret''"
    by blast
qed

end
