(* ===== verification/Responses.thy ===== *)
theory Responses
  imports Bodies
begin

text \<open>
  What a handler may return: arvik-core/src/into_response.rs, into_response_parts.rs and error.rs.

  One definition per implementation of \<^verbatim>\<open>IntoResponse\<close>; the tuple forms take the response that their
  last component converts to.  Conversions into header names and values, the JSON serialiser and the
  canonical reason phrases belong to other crates and are parameters.

  \<open>response_parts\<close> accumulates headers; \<open>parts_apply_to\<close> is \<^verbatim>\<open>ResponseParts::apply_to\<close>.
\<close>

subsection \<open>Plain values\<close>

definition status_into_response :: "'h http_lib \<Rightarrow> nat \<Rightarrow> 'h response" where
  "status_into_response H st = rb_empty H (rb_with_status st (rb_new H))"

definition string_into_response :: "'h http_lib \<Rightarrow> string \<Rightarrow> 'h response" where
  "string_into_response H s =
     rb_body H (BFull s) (rb_header H ''content-type'' ''text/plain; charset=utf-8'' (rb_new H))"

definition bytes_into_response :: "'h http_lib \<Rightarrow> string \<Rightarrow> 'h response" where
  "bytes_into_response H b =
     rb_body H (BFull b) (rb_header H ''content-type'' ''application/octet-stream'' (rb_new H))"

definition unit_into_response :: "'h http_lib \<Rightarrow> 'h response" where
  "unit_into_response H = status_into_response H 200"

fun result_into_response :: "('t \<Rightarrow> 'h response) \<Rightarrow> ('e \<Rightarrow> 'h response) \<Rightarrow> 'e + 't \<Rightarrow> 'h response" where
  "result_into_response ok err (Inr v) = ok v"
| "result_into_response ok err (Inl e) = err e"

definition html_into_response :: "'h http_lib \<Rightarrow> string \<Rightarrow> 'h response" where
  "html_into_response H s =
     rb_body H (BFull s) (rb_header H ''content-type'' ''text/html; charset=utf-8'' (rb_new H))"

definition json_into_response :: "'h http_lib \<Rightarrow> ('a \<Rightarrow> string option) \<Rightarrow> 'a \<Rightarrow> 'h response" where
  "json_into_response H ser v =
     (case ser v of
        Some j \<Rightarrow> rb_body H (BFull j) (rb_header H ''content-type'' ''application/json'' (rb_new H))
      | None \<Rightarrow>
          rb_body H (BFull ''{\"error\":\"Serialization failed\",\"code\":500}'')
            (rb_header H ''content-type'' ''application/json'' (rb_with_status 500 (rb_new H))))"

subsection \<open>Response parts\<close>

text \<open>\<^verbatim>\<open>apply_to\<close> walks the owned header map: a further value of the same header comes without a key.\<close>

definition append_keyed :: "'h http_lib \<Rightarrow> (string option \<times> string) list \<Rightarrow> 'h \<Rightarrow> 'h" where
  "append_keyed H entries h =
     fold (\<lambda>(key, v) h. case key of Some k \<Rightarrow> hm_append H h k v | None \<Rightarrow> h) entries h"

definition parts_apply_to :: "'h http_lib \<Rightarrow> 'h \<Rightarrow> 'h response \<Rightarrow> 'h response" where
  "parts_apply_to H acc resp = resp\<lparr>res_headers := append_keyed H (hm_into_iter H acc) (res_headers resp)\<rparr>"

text \<open>\<^verbatim>\<open>AppendHeaders\<close>: pairs whose name or value does not convert are dropped.\<close>

fun append_headers_parts :: "'h http_lib \<Rightarrow> ('k \<Rightarrow> string option) \<Rightarrow> ('v \<Rightarrow> string option) \<Rightarrow> ('k \<times> 'v) list
    \<Rightarrow> 'h \<Rightarrow> 'h" where
  "append_headers_parts H try_name try_value [] parts = parts"
| "append_headers_parts H try_name try_value ((k, v) # rest) parts =
     append_headers_parts H try_name try_value rest
       (case (try_name k, try_value v) of
          (Some name, Some val) \<Rightarrow> hm_append H parts name val
        | _ \<Rightarrow> parts)"

definition header_map_parts :: "'h http_lib \<Rightarrow> 'h \<Rightarrow> 'h \<Rightarrow> 'h" where
  "header_map_parts H self parts = append_keyed H (hm_into_iter H self) parts"

record preload_link =
  pl_href :: string
  pl_as :: "string option"
  pl_mime_type :: "string option"
  pl_crossorigin :: bool

definition preload_link_new :: "string \<Rightarrow> preload_link" where
  "preload_link_new href = \<lparr>pl_href = href, pl_as = None, pl_mime_type = None, pl_crossorigin = False\<rparr>"

definition pl_as_type :: "preload_link \<Rightarrow> string \<Rightarrow> preload_link" where
  "pl_as_type self v = self\<lparr>pl_as := Some v\<rparr>"

definition pl_set_mime_type :: "preload_link \<Rightarrow> string \<Rightarrow> preload_link" where
  "pl_set_mime_type self v = self\<lparr>pl_mime_type := Some v\<rparr>"

definition pl_set_crossorigin :: "preload_link \<Rightarrow> preload_link" where
  "pl_set_crossorigin self = self\<lparr>pl_crossorigin := True\<rparr>"

definition pl_script :: "string \<Rightarrow> preload_link" where
  "pl_script href = pl_as_type (preload_link_new href) ''script''"

definition pl_style :: "string \<Rightarrow> preload_link" where
  "pl_style href = pl_as_type (preload_link_new href) ''style''"

definition pl_font :: "string \<Rightarrow> preload_link" where
  "pl_font href = pl_set_crossorigin (pl_as_type (preload_link_new href) ''font'')"

definition pl_image :: "string \<Rightarrow> preload_link" where
  "pl_image href = pl_as_type (preload_link_new href) ''image''"

definition pl_header_value :: "'h http_lib \<Rightarrow> preload_link \<Rightarrow> string option" where
  "pl_header_value H self =
     hv_from_str H
       (''<'' @ pl_href self @ ''>; rel=preload''
        @ (case pl_as self of Some a \<Rightarrow> ''; as='' @ a | None \<Rightarrow> [])
        @ (case pl_mime_type self of Some m \<Rightarrow> ''; type='' @ [DQUOTE] @ m @ [DQUOTE] | None \<Rightarrow> [])
        @ (if pl_crossorigin self then ''; crossorigin'' else []))"

fun preload_parts :: "'h http_lib \<Rightarrow> preload_link list \<Rightarrow> 'h \<Rightarrow> 'h" where
  "preload_parts H [] parts = parts"
| "preload_parts H (p # ps) parts =
     preload_parts H ps (case pl_header_value H p of Some v \<Rightarrow> hm_append H parts ''link'' v | None \<Rightarrow> parts)"

text \<open>A value of a type with \<^verbatim>\<open>IntoResponseParts\<close>: it turns the accumulator into a new one, or fails
  with an error that converts to a response.\<close>

type_synonym 'h parts_value = "'h \<Rightarrow> 'h response + 'h"

definition apply_parts :: "'h http_lib \<Rightarrow> 'h parts_value \<Rightarrow> 'h response \<Rightarrow> 'h response" where
  "apply_parts H p resp =
     (case p (hm_new H) of
        Inr acc \<Rightarrow> parts_apply_to H acc resp
      | Inl e \<Rightarrow> e)"

subsection \<open>Tuples\<close>

definition status_tuple :: "nat \<Rightarrow> 'h response \<Rightarrow> 'h response" where
  "status_tuple st r = r\<lparr>res_status := st\<rparr>"

fun insert_headers :: "'h http_lib \<Rightarrow> ('k \<Rightarrow> string option) \<Rightarrow> ('v \<Rightarrow> string option) \<Rightarrow> ('k \<times> 'v) list
    \<Rightarrow> 'h \<Rightarrow> 'h" where
  "insert_headers H try_name try_value [] h = h"
| "insert_headers H try_name try_value ((k, v) # rest) h =
     insert_headers H try_name try_value rest
       (case (try_name k, try_value v) of
          (Some name, Some val) \<Rightarrow> hm_insert H h name val
        | _ \<Rightarrow> h)"

definition array_tuple :: "'h http_lib \<Rightarrow> ('k \<Rightarrow> string option) \<Rightarrow> ('v \<Rightarrow> string option) \<Rightarrow> ('k \<times> 'v) list
    \<Rightarrow> 'h response \<Rightarrow> 'h response" where
  "array_tuple H try_name try_value headers r =
     r\<lparr>res_headers := insert_headers H try_name try_value headers (res_headers r)\<rparr>"

definition status_array_tuple :: "'h http_lib \<Rightarrow> ('k \<Rightarrow> string option) \<Rightarrow> ('v \<Rightarrow> string option) \<Rightarrow> nat
    \<Rightarrow> ('k \<times> 'v) list \<Rightarrow> 'h response \<Rightarrow> 'h response" where
  "status_array_tuple H try_name try_value st headers r =
     (let r1 = r\<lparr>res_status := st\<rparr>
      in r1\<lparr>res_headers := insert_headers H try_name try_value headers (res_headers r1)\<rparr>)"

definition parts_tuple :: "'h http_lib \<Rightarrow> 'h parts_value \<Rightarrow> 'h response \<Rightarrow> 'h response" where
  "parts_tuple H p r = apply_parts H p r"

definition parts2_tuple :: "'h http_lib \<Rightarrow> 'h parts_value \<Rightarrow> 'h parts_value \<Rightarrow> 'h response \<Rightarrow> 'h response" where
  "parts2_tuple H p1 p2 r = apply_parts H p2 (apply_parts H p1 r)"

definition status_parts_tuple :: "'h http_lib \<Rightarrow> nat \<Rightarrow> 'h parts_value \<Rightarrow> 'h response \<Rightarrow> 'h response" where
  "status_parts_tuple H st p r = apply_parts H p (r\<lparr>res_status := st\<rparr>)"

subsection \<open>Errors\<close>

text \<open>The arguments of \<^verbatim>\<open>json!\<close>: an object of strings and numbers, in order.\<close>

datatype json_field = JStr string | JNum nat

text \<open>What the error responses need of other crates: the canonical reason of a status and the text
  of a JSON object.\<close>

record error_env =
  ee_reason :: "nat \<Rightarrow> string option"
  ee_json :: "(string \<times> json_field) list \<Rightarrow> string"

record error_response =
  er_status :: nat
  er_message :: "string option"
  er_request_id :: "string option"

definition error_response_new :: "nat \<Rightarrow> error_response" where
  "error_response_new st = \<lparr>er_status = st, er_message = None, er_request_id = None\<rparr>"

definition er_with_message :: "error_response \<Rightarrow> string \<Rightarrow> error_response" where
  "er_with_message self m = self\<lparr>er_message := Some m\<rparr>"

definition er_with_request_id :: "error_response \<Rightarrow> string \<Rightarrow> error_response" where
  "er_with_request_id self i = self\<lparr>er_request_id := Some i\<rparr>"

definition er_build_body :: "error_env \<Rightarrow> error_response \<Rightarrow> string" where
  "er_build_body X self =
     (let msg = (case er_message self of Some m \<Rightarrow> m
                 | None \<Rightarrow> (case ee_reason X (er_status self) of Some r \<Rightarrow> r | None \<Rightarrow> ''Internal Server Error''))
      in ee_json X ([(''error'', JStr msg), (''code'', JNum (er_status self))]
           @ (case er_request_id self of Some rid \<Rightarrow> [(''request_id'', JStr rid)] | None \<Rightarrow> [])))"

definition error_response_into_response :: "'h http_lib \<Rightarrow> error_env \<Rightarrow> error_response \<Rightarrow> 'h response" where
  "error_response_into_response H X self =
     rb_body H (BFull (er_build_body X self))
       (rb_header_str H ''content-type'' ''application/json'' (rb_with_status (er_status self) (rb_new H)))"

text \<open>\<^verbatim>\<open>Error\<close>; the boxed inner error has an abstract type.\<close>

record 'e fw_error =
  fe_inner :: 'e
  fe_status :: nat
  fe_public_message :: "string option"

definition fw_error_new :: "'e \<Rightarrow> 'e fw_error" where
  "fw_error_new e = \<lparr>fe_inner = e, fe_status = 500, fe_public_message = None\<rparr>"

definition fw_error_from_status :: "error_env \<Rightarrow> (string \<Rightarrow> 'e) \<Rightarrow> nat \<Rightarrow> 'e fw_error" where
  "fw_error_from_status X boxed st =
     (let reason = (case ee_reason X st of Some r \<Rightarrow> r | None \<Rightarrow> ''Unknown Error'')
      in \<lparr>fe_inner = boxed reason, fe_status = st, fe_public_message = Some reason\<rparr>)"

definition fe_with_status :: "'e fw_error \<Rightarrow> nat \<Rightarrow> 'e fw_error" where
  "fe_with_status self st = self\<lparr>fe_status := st\<rparr>"

definition fe_with_message :: "'e fw_error \<Rightarrow> string \<Rightarrow> 'e fw_error" where
  "fe_with_message self m = self\<lparr>fe_public_message := Some m\<rparr>"

definition fw_error_into_response :: "'h http_lib \<Rightarrow> error_env \<Rightarrow> 'e fw_error \<Rightarrow> 'h response" where
  "fw_error_into_response H X self =
     (let message = (case fe_public_message self of Some m \<Rightarrow> m
                     | None \<Rightarrow> (case ee_reason X (fe_status self) of Some r \<Rightarrow> r | None \<Rightarrow> ''Internal Server Error''))
      in error_response_into_response H X (er_with_message (error_response_new (fe_status self)) message))"

text \<open>The \<^verbatim>\<open>From\<close> implementations: all but the one for JSON errors keep status 500.\<close>

definition fw_error_from_json :: "'e \<Rightarrow> 'e fw_error" where
  "fw_error_from_json e = fe_with_status (fw_error_new e) 400"

subsection \<open>Lemmas\<close>

text \<open>The values that a list of pairs has for a name, invalid pairs left out.\<close>

fun valid_values :: "('k \<Rightarrow> string option) \<Rightarrow> ('v \<Rightarrow> string option) \<Rightarrow> ('k \<times> 'v) list \<Rightarrow> string \<Rightarrow> string list" where
  "valid_values try_name try_value [] n = []"
| "valid_values try_name try_value ((k, v) # rest) n =
     (case (try_name k, try_value v) of
        (Some name, Some val) \<Rightarrow> if name = n then [val] else []
      | _ \<Rightarrow> []) @ valid_values try_name try_value rest n"

context header_map
begin

lemma append_keyed_append:
  "append_keyed H (xs @ ys) h = append_keyed H ys (append_keyed H xs h)"
  by (simp add: append_keyed_def)

lemma append_keyed_None: "append_keyed H (map (Pair None) vs) h = h"
  by (induction vs) (simp_all add: append_keyed_def)

lemma append_keyed_group:
  "hm_get_all H (append_keyed H (iter_group n vs) h) m = hm_get_all H h m @ (if m = n then take 1 vs else [])"
proof (cases vs)
  case (Cons v rest)
  have "append_keyed H (iter_group n vs) h = append_keyed H (map (Pair None) rest) (hm_append H h n v)"
    by (simp add: Cons append_keyed_def)
  then show ?thesis by (simp add: append_keyed_None get_all_append Cons)
qed (simp add: append_keyed_def)

lemma append_keyed_groups:
  "distinct ns \<Longrightarrow>
   hm_get_all H (append_keyed H (concat (map (\<lambda>n. iter_group n (vals n)) ns)) h) m =
     hm_get_all H h m @ (if m \<in> set ns then take 1 (vals m) else [])"
proof (induction ns arbitrary: h)
  case (Cons n ns)
  then show ?case
    by (auto simp: append_keyed_append append_keyed_group)
qed (simp add: append_keyed_def)

lemma append_keyed_iter:
  "hm_get_all H (append_keyed H (hm_into_iter H acc) h) m = hm_get_all H h m @ take 1 (hm_get_all H acc m)"
proof -
  obtain ns where ns: "distinct ns" "set ns = {n. hm_get_all H acc n \<noteq> []}"
      "hm_into_iter H acc = concat (map (\<lambda>n. iter_group n (hm_get_all H acc n)) ns)"
    using into_iter [of acc] by blast
  then show ?thesis by (simp add: append_keyed_groups)
qed

lemma append_headers_get_all:
  "hm_get_all H (append_headers_parts H tn tv ps h) m = hm_get_all H h m @ valid_values tn tv ps m"
  by (induction ps arbitrary: h) (auto simp: get_all_append split: option.splits)

lemma insert_headers_get_all:
  "hm_get_all H (insert_headers H tn tv ps h) m =
     (if valid_values tn tv ps m = [] then hm_get_all H h m else [last (valid_values tn tv ps m)])"
  by (induction ps arbitrary: h) (auto simp: get_all_insert split: option.splits)

lemma preload_get_all:
  "hm_get_all H (preload_parts H ps h) m =
     hm_get_all H h m @ (if m = ''link'' then List.map_filter (pl_header_value H) ps else [])"
  by (induction ps arbitrary: h) (auto simp: get_all_append List.map_filter_simps split: option.splits)

end

subsection \<open>Properties\<close>

text \<open>Parts drop repeated headers.  Whatever header names and values a response part carries, the
  answer gets only the first value it carries for each name, after the values it had; every further
  value is lost.\<close>

theorem append_headers_first_only:
  assumes "header_map H"
    and "r' = parts_tuple H (\<lambda>acc. Inr (append_headers_parts H tn tv ps acc)) r"
  shows "res_status r' = res_status r \<and> res_body r' = res_body r
    \<and> hm_get_all H (res_headers r') n = hm_get_all H (res_headers r) n @ take 1 (valid_values tn tv ps n)"
  by (simp add: assms(2) parts_tuple_def apply_parts_def parts_apply_to_def
      header_map.append_keyed_iter [OF assms(1)] header_map.append_headers_get_all [OF assms(1)]
      header_map.get_all_simps [OF assms(1)])

theorem append_headers_first_only_witness:
  "hm_get_all alist_lib (res_headers (parts_tuple alist_lib
      (\<lambda>acc. Inr (append_headers_parts alist_lib Some Some [(''set-cookie'', ''a=1''), (''set-cookie'', ''b=2'')] acc))
      (sample_response 200 [] ''ok''))) ''set-cookie'' = [''a=1'']"
  using append_headers_first_only [OF alist_header_map refl, of Some Some
      "[(''set-cookie'', ''a=1''), (''set-cookie'', ''b=2'')]" "sample_response 200 [] ''ok''" "''set-cookie''"]
  by (simp add: sample_response_def alist_sel alist_get_all_def)

text \<open>An array of headers overwrites.  For each name the answer carries the last valid value of the
  array, in place of whatever it had; names the array does not mention keep their values.\<close>

theorem array_tuple_overwrites:
  assumes "header_map H"
  shows "res_status (status_array_tuple H tn tv st ps r) = st
    \<and> res_body (status_array_tuple H tn tv st ps r) = res_body r
    \<and> hm_get_all H (res_headers (status_array_tuple H tn tv st ps r)) n =
        (if valid_values tn tv ps n = [] then hm_get_all H (res_headers r) n else [last (valid_values tn tv ps n)])"
  by (simp add: status_array_tuple_def Let_def header_map.insert_headers_get_all [OF assms])

theorem array_tuple_overwrites_witness:
  "hm_get_all alist_lib (res_headers (status_array_tuple alist_lib Some Some 201
      [(''x'', ''1''), (''x'', ''2'')] (sample_response 200 [(''x'', ''0'')] ''ok''))) ''x'' = [''2'']"
  using array_tuple_overwrites [OF alist_header_map, of Some Some 201 "[(''x'', ''1''), (''x'', ''2'')]"
      "sample_response 200 [(''x'', ''0'')] ''ok''" "''x''"]
  by simp

text \<open>Internal errors are not shown to clients.  The answer to an error depends on its status and
  public message only, whatever the inner error is; and an error built from an inner error alone
  is answered 500 with the canonical reason.\<close>

theorem fw_error_hides_inner:
  "fw_error_into_response H X (fe\<lparr>fe_inner := e\<rparr>) = fw_error_into_response H X fe
   \<and> fw_error_into_response H X (fw_error_new e) =
       error_response_into_response H X (er_with_message (error_response_new 500)
         (case ee_reason X 500 of Some r \<Rightarrow> r | None \<Rightarrow> ''Internal Server Error''))"
  by (simp add: fw_error_into_response_def fw_error_new_def Let_def split: option.split)

text \<open>An error in a response part replaces the whole answer, status included.\<close>

theorem status_parts_error:
  "status_parts_tuple H st (\<lambda>_. Inl e) r = e"
  by (simp add: status_parts_tuple_def apply_parts_def)

end
