(* ===== verification/Handlers.thy ===== *)
theory Handlers
  imports Responses Paths
begin

text \<open>
  Extractors and handlers (arvik-core/src/extract.rs, handler.rs, request.rs, request_parts.rs) and the
  rejections of the built-in extractors (arvik-extract/src/rejection.rs).

  \<open>request_parts\<close> is a request without its body.  An extractor that reads the parts is a function
  of the parts, the application state and the outside world; it answers an error or a value, the parts it
  may have changed, and the new world.  A handler of \<open>n\<close> arguments is the function \<open>f\<close> on the list of
  the first \<open>n - 1\<close> extracted values and the last one.
\<close>

subsection \<open>Requests and their parts\<close>

record 'h request_parts =
  rp_method :: http_method
  rp_uri :: uri
  rp_headers :: 'h
  rp_ext :: extensions

definition into_request_parts :: "'h request \<Rightarrow> 'h request_parts \<times> body" where
  "into_request_parts req =
     (\<lparr>rp_method = req_method req, rp_uri = req_uri req, rp_headers = req_headers req, rp_ext = req_ext req\<rparr>,
      req_body req)"

definition from_request_parts :: "'h request_parts \<Rightarrow> body \<Rightarrow> 'h request" where
  "from_request_parts p b =
     \<lparr>req_method = rp_method p, req_uri = rp_uri p, req_headers = rp_headers p, req_ext = rp_ext p, req_body = b\<rparr>"

definition request_map_body :: "'h request \<Rightarrow> (body \<Rightarrow> body) \<Rightarrow> 'h request" where
  "request_map_body req f = req\<lparr>req_body := f (req_body req)\<rparr>"

definition original_uri_extract :: "'h request_parts \<Rightarrow> uri" where
  "original_uri_extract p = (case ext_original_uri (rp_ext p) of Some u \<Rightarrow> u | None \<Rightarrow> rp_uri p)"

subsection \<open>The extractor traits\<close>

type_synonym ('h, 's, 'w, 'e, 'v) parts_extractor =
  "'h request_parts \<Rightarrow> 's \<Rightarrow> 'w \<Rightarrow> ('e + 'v) \<times> 'h request_parts \<times> 'w"

type_synonym ('h, 's, 'w, 'e, 'v) request_extractor = "'h request \<Rightarrow> 's \<Rightarrow> 'w \<Rightarrow> ('e + 'v) \<times> 'w"

text \<open>The blanket implementation: every parts extractor reads a whole request and drops the body.\<close>

definition via_parts :: "('h, 's, 'w, 'e, 'v) parts_extractor \<Rightarrow> ('h, 's, 'w, 'e, 'v) request_extractor" where
  "via_parts ex req st w =
     (let (p, _) = into_request_parts req; (r, _, w') = ex p st w in (r, w'))"

definition optional_extract ::
  "('h, 's, 'w, 'e, 'v) parts_extractor \<Rightarrow> ('h, 's, 'w, 'i, 'v option) parts_extractor" where
  "optional_extract ex p st w =
     (let (r, p', w') = ex p st w
      in (Inr (case r of Inl _ \<Rightarrow> None | Inr v \<Rightarrow> Some v), p', w'))"

definition result_extract ::
  "('h, 's, 'w, 'e, 'v) parts_extractor \<Rightarrow> ('h, 's, 'w, 'i, 'e + 'v) parts_extractor" where
  "result_extract ex p st w = (let (r, p', w') = ex p st w in (Inr r, p', w'))"

definition method_extract :: "('h, 's, 'w, 'e, http_method) parts_extractor" where
  "method_extract p st w = (Inr (rp_method p), p, w)"

definition uri_extract :: "('h, 's, 'w, 'e, uri) parts_extractor" where
  "uri_extract p st w = (Inr (rp_uri p), p, w)"

definition headers_extract :: "('h, 's, 'w, 'e, 'h) parts_extractor" where
  "headers_extract p st w = (Inr (rp_headers p), p, w)"

definition body_extract :: "('h, 's, 'w, 'e, body) request_extractor" where
  "body_extract req st w = (Inr (req_body req), w)"

definition request_extract :: "('h, 's, 'w, 'e, 'h request) request_extractor" where
  "request_extract req st w = (Inr req, w)"

text \<open>The errors of a limited read, displayed; the inner error of a framework error is that text.\<close>

fun show_body_error :: "body_error \<Rightarrow> string" where
  "show_body_error BodyTooLarge = ''request body exceeds the maximum allowed size''"
| "show_body_error (OtherError m) = m"

fun show_limit_error :: "body_limit_error \<Rightarrow> string" where
  "show_limit_error TooLarge = ''request body exceeds the maximum allowed size''"
| "show_limit_error (ReadErr e) = ''failed to read request body: '' @ show_body_error e"

definition body_limit_rejection :: "body_limit_error \<Rightarrow> string fw_error" where
  "body_limit_rejection e =
     (if is_payload_too_large e then fe_with_status (fw_error_new (show_limit_error e)) 413
      else fw_error_new (show_limit_error e))"

definition bytes_extract :: "'h request \<Rightarrow> string fw_error + string" where
  "bytes_extract req =
     (case to_bytes_limited (req_body req) (resolve_limit (req_ext req)) of
        Inl e \<Rightarrow> Inl (body_limit_rejection e)
      | Inr bs \<Rightarrow> Inr bs)"

text \<open>\<open>utf8_error\<close> is the text of \<^verbatim>\<open>FromUtf8Error\<close>.\<close>

definition string_extract :: "(string \<Rightarrow> string) \<Rightarrow> 'h request \<Rightarrow> string fw_error + string" where
  "string_extract utf8_error req =
     (case to_bytes_limited (req_body req) (resolve_limit (req_ext req)) of
        Inl e \<Rightarrow> Inl (body_limit_rejection e)
      | Inr bs \<Rightarrow> if utf8_valid bs then Inr bs
          else Inl (fe_with_status (fw_error_new (utf8_error bs)) 400))"

subsection \<open>Handlers\<close>

text \<open>The repeated block of \<^verbatim>\<open>impl_handler!\<close>: the parts extractors in the order of the arguments.
  The extractors of a handler answer their rejections already converted to responses.\<close>

fun run_extractors ::
  "('h, 's, 'w, 'h response, 'v) parts_extractor list \<Rightarrow> 'h request_parts \<Rightarrow> 's \<Rightarrow> 'w
   \<Rightarrow> ('h response + 'v list) \<times> 'h request_parts \<times> 'w" where
  "run_extractors [] p st w = (Inr [], p, w)"
| "run_extractors (ex # rest) p st w =
     (case ex p st w of
        (Inl rejection, p', w') \<Rightarrow> (Inl rejection, p', w')
      | (Inr v, p', w') \<Rightarrow>
          (case run_extractors rest p' st w' of
             (Inl rejection, p'', w'') \<Rightarrow> (Inl rejection, p'', w'')
           | (Inr vs, p'', w'') \<Rightarrow> (Inr (v # vs), p'', w'')))"

definition handler_call ::
  "('h, 's, 'w, 'h response, 'v) parts_extractor list \<Rightarrow> ('h, 's, 'w, 'h response, 'u) request_extractor
   \<Rightarrow> ('v list \<Rightarrow> 'u \<Rightarrow> 'w \<Rightarrow> 'h outcome \<times> 'w) \<Rightarrow> 's \<Rightarrow> ('h, 'w) service" where
  "handler_call exs lastex f st req w =
     (let (parts, bd) = into_request_parts req in
      case run_extractors exs parts st w of
        (Inl rejection, _, w') \<Rightarrow> (Done rejection, w')
      | (Inr vs, parts', w') \<Rightarrow>
          (case lastex (from_request_parts parts' bd) st w' of
             (Inl rejection, w'') \<Rightarrow> (Done rejection, w'')
           | (Inr u, w'') \<Rightarrow> f vs u w''))"

definition handler0_call :: "('w \<Rightarrow> 'h outcome \<times> 'w) \<Rightarrow> 's \<Rightarrow> ('h, 'w) service" where
  "handler0_call f st req w = f w"

text \<open>A handler stored in a router is called through a clone of the wrapped value.\<close>

definition erased_call :: "('s \<Rightarrow> ('h, 'w) service) \<Rightarrow> 's \<Rightarrow> ('h, 'w) service" where
  "erased_call handler st req w = handler st req w"

subsection \<open>Lemmas\<close>

lemma from_into_parts [simp]: "from_request_parts (fst (into_request_parts req)) (snd (into_request_parts req)) = req"
  by (simp add: into_request_parts_def from_request_parts_def)

lemma into_from_parts [simp]: "into_request_parts (from_request_parts p b) = (p, b)"
  by (simp add: into_request_parts_def from_request_parts_def)

text \<open>The extraction of a list split in two.\<close>

lemma run_extractors_append:
  "run_extractors (xs @ ys) p st w =
     (case run_extractors xs p st w of
        (Inl e, p', w') \<Rightarrow> (Inl e, p', w')
      | (Inr vs, p', w') \<Rightarrow>
          (case run_extractors ys p' st w' of
             (Inl e, p'', w'') \<Rightarrow> (Inl e, p'', w'')
           | (Inr us, p'', w'') \<Rightarrow> (Inr (vs @ us), p'', w'')))"
  by (induction xs arbitrary: p w) (auto split: prod.split sum.split)

lemma run_extractors_length:
  "run_extractors xs p st w = (Inr vs, p', w') \<Longrightarrow> length vs = length xs"
  by (induction xs arbitrary: p w vs) (auto split: prod.splits sum.splits)

text \<open>A trace of the arguments' extractors, position by position: the states (parts and world) before each
  extractor, the one after the last that accepted, and the values.  The extractor at position \<open>i\<close> runs in state
  \<open>i\<close>, yields value \<open>i\<close> and leaves state \<open>i + 1\<close>.\<close>

definition extraction_trace ::
  "('h, 's, 'w, 'h response, 'v) parts_extractor list \<Rightarrow> 's \<Rightarrow> ('h request_parts \<times> 'w) list \<Rightarrow> 'v list \<Rightarrow> bool" where
  "extraction_trace exs st ss vs \<longleftrightarrow>
     length vs \<le> length exs \<and> length ss = Suc (length vs)
     \<and> (\<forall>i < length vs. (exs ! i) (fst (ss ! i)) st (snd (ss ! i)) = (Inr (vs ! i), ss ! Suc i))"

lemma extraction_trace_Cons:
  assumes "ex p st w = (Inr v, s)" "extraction_trace exs st ss vs" "ss ! 0 = s"
  shows "extraction_trace (ex # exs) st ((p, w) # ss) (v # vs)"
  using assms by (auto simp: extraction_trace_def nth_Cons split: nat.split)

lemma run_extractors_trace:
  "\<exists>ss vs. extraction_trace exs st ss vs \<and> ss ! 0 = (p, w)
    \<and> (if length vs < length exs
       then \<exists>e p' w'. (exs ! length vs) (fst (ss ! length vs)) st (snd (ss ! length vs)) = (Inl e, p', w')
              \<and> run_extractors exs p st w = (Inl e, p', w')
       else run_extractors exs p st w = (Inr vs, ss ! length vs))"
proof (induction exs arbitrary: p w)
  case Nil
  show ?case by (intro exI [of _ "[(p, w)]"] exI [of _ "[]"]) (simp add: extraction_trace_def)
next
  case (Cons ex exs)
  obtain r p' w' where ex: "ex p st w = (r, p', w')" by (cases "ex p st w")
  show ?case
  proof (cases r)
    case (Inl e)
    with ex show ?thesis
      by (intro exI [of _ "[(p, w)]"] exI [of _ "[]"]) (simp add: extraction_trace_def)
  next
    case (Inr v)
    obtain ss vs where IH: "extraction_trace exs st ss vs" "ss ! 0 = (p', w')"
      "if length vs < length exs
       then \<exists>e p'' w''. (exs ! length vs) (fst (ss ! length vs)) st (snd (ss ! length vs)) = (Inl e, p'', w'')
              \<and> run_extractors exs p' st w' = (Inl e, p'', w'')
       else run_extractors exs p' st w' = (Inr vs, ss ! length vs)"
      using Cons.IH [of p' w'] by blast
    then have "extraction_trace (ex # exs) st ((p, w) # ss) (v # vs)"
      using extraction_trace_Cons [of ex p st w v "(p', w')"] ex Inr by simp
    with IH ex Inr show ?thesis
      by (intro exI [of _ "(p, w) # ss"] exI [of _ "v # vs"])
        (auto split: if_splits prod.splits)
  qed
qed

text \<open>C26: A handler runs only when every extractor of its arguments accepts, and it gets their values in the order of
  its arguments.  For every handler, request and world there is a trace of its extractors from the left, the first
  on the parts of the request and the world of the call, each next one on the parts and the world the one before
  left.  If the trace stops at an extractor that rejects, the answer is that rejection, and neither a later extractor
  nor the handler has run: the world is the one the rejecting extractor left.  Otherwise the last extractor reads the
  parts as the others left them with the whole body; it rejects, and that is the answer, or the handler is applied
  to the list of the values, value \<open>i\<close> from extractor \<open>i\<close>, and to the last extractor's value.\<close>

theorem handler_call_order:
  "\<exists>ss vs. extraction_trace exs st ss vs
    \<and> snd (ss ! 0) = w \<and> from_request_parts (fst (ss ! 0)) (req_body req) = req
    \<and> (if length vs < length exs
       then \<exists>e p' w'. (exs ! length vs) (fst (ss ! length vs)) st (snd (ss ! length vs)) = (Inl e, p', w')
              \<and> handler_call exs lastex f st req w = (Done e, w')
       else handler_call exs lastex f st req w =
              (case lastex (from_request_parts (fst (ss ! length vs)) (req_body req)) st (snd (ss ! length vs)) of
                 (Inl e, w') \<Rightarrow> (Done e, w') | (Inr u, w') \<Rightarrow> f vs u w'))"
proof -
  have req: "from_request_parts (fst (into_request_parts req)) (req_body req) = req"
    using from_into_parts [of req] by (simp add: into_request_parts_def)
  obtain ss vs where "extraction_trace exs st ss vs" "ss ! 0 = (fst (into_request_parts req), w)"
    "if length vs < length exs
     then \<exists>e p' w'. (exs ! length vs) (fst (ss ! length vs)) st (snd (ss ! length vs)) = (Inl e, p', w')
            \<and> run_extractors exs (fst (into_request_parts req)) st w = (Inl e, p', w')
     else run_extractors exs (fst (into_request_parts req)) st w = (Inr vs, ss ! length vs)"
    using run_extractors_trace [of exs st "fst (into_request_parts req)" w] by (elim exE conjE) (erule (2) that)
  with req show ?thesis
    by (intro exI [of _ ss] exI [of _ vs])
      (auto simp: handler_call_def into_request_parts_def split: if_splits prod.split sum.split)
qed

definition count_extract :: "(alist_headers, 's, nat, alist_headers response, http_method) parts_extractor" where
  "count_extract p st w = (if w = 0 then (Inr Put, p\<lparr>rp_method := Delete\<rparr>, Suc w)
     else (Inl (sample_response 400 [] ''no''), p, Suc w))"

text \<open>Two calls: the handler gets the values of its two extractors in their order, and a second call of the counting
  extractor is refused with the world as it leaves it.\<close>

theorem handler_call_order_witness:
  "handler_call [method_extract, count_extract] request_extract
     (\<lambda>vs u w. (Done (sample_response (if vs = [Get, Put] \<and> req_method u = Delete then 200 else 500) [] []), Suc (Suc w)))
     () (sample_request Get ''/'' []) (0 :: nat) = (Done (sample_response 200 [] []), 3)"
proof -
  let ?exs = "[method_extract, count_extract]
    :: (alist_headers, unit, nat, alist_headers response, http_method) parts_extractor list"
  let ?req = "sample_request Get ''/'' []"
  let ?f = "\<lambda>vs u w. (Done (sample_response (if vs = [Get, Put] \<and> req_method u = Delete then 200 else 500) [] []), Suc (Suc w))"
  obtain ss vs where t: "extraction_trace ?exs () ss vs" "snd (ss ! 0) = 0"
    "from_request_parts (fst (ss ! 0)) (req_body ?req) = ?req"
    "if length vs < length ?exs
     then \<exists>e p' w'. (?exs ! length vs) (fst (ss ! length vs)) () (snd (ss ! length vs)) = (Inl e, p', w')
              \<and> handler_call ?exs request_extract ?f () ?req 0 = (Done e, w')
     else handler_call ?exs request_extract ?f () ?req 0 =
              (case request_extract (from_request_parts (fst (ss ! length vs)) (req_body ?req)) () (snd (ss ! length vs)) of
                 (Inl e, w') \<Rightarrow> (Done e, w') | (Inr u, w') \<Rightarrow> ?f vs u w')"
    using handler_call_order [of ?exs "()" 0 ?req request_extract ?f] by (elim exE conjE) (erule (3) that)
  let ?p = "fst (into_request_parts ?req)"
  have s0: "ss ! 0 = (?p, 0)"
    using t(2) arg_cong [OF t(3), of into_request_parts] by (cases "ss ! 0") (simp, metis fst_conv)
  have "length vs \<noteq> 0" using t(4) s0 by (auto simp: method_extract_def)
  then have s1: "vs ! 0 = Get" "ss ! 1 = (?p, 0)"
    using t(1) s0 by (auto simp: extraction_trace_def method_extract_def into_request_parts_def sample_defs)
  have "length vs \<noteq> 1" using t(4) s1 by (auto simp: count_extract_def)
  with \<open>length vs \<noteq> 0\<close> have len: "length vs = 2" using t(1) by (auto simp: extraction_trace_def le_Suc_eq)
  then have s2: "vs ! 1 = Put" "ss ! Suc (Suc 0) = (?p\<lparr>rp_method := Delete\<rparr>, 1)"
    using t(1) s1 by (auto simp: extraction_trace_def count_extract_def numeral_2_eq_2)
  from len s1 s2 have "vs = [Get, Put]" by (cases vs; cases "tl vs") auto
  with t(4) len s2 show ?thesis
    by (simp add: request_extract_def from_request_parts_def)
qed

text \<open>The body extractors of the core buffer at most the limit in force: a body of plain data is answered
  byte for byte when it fits, and 413 when it does not; with no \<^verbatim>\<open>DefaultBodyLimit\<close> in the extensions
  the limit is 2 MiB.\<close>

theorem bytes_extract_limit:
  assumes "all_data (frames_of (req_body req))"
    and "\<And>u. size_hint_upper (req_body req) = Some u \<Longrightarrow> u = length (data_of (frames_of (req_body req)))"
  shows "bytes_extract req =
           (if length (data_of (frames_of (req_body req))) \<le> resolve_limit (req_ext req)
            then Inr (data_of (frames_of (req_body req)))
            else Inl (fe_with_status (fw_error_new ''request body exceeds the maximum allowed size'') 413))"
  by (simp add: bytes_extract_def to_bytes_limited_spec [of "req_body req", OF assms]
      body_limit_rejection_def is_payload_too_large_def)

theorem bytes_extract_limit_witness:
  "bytes_extract ((sample_request Post ''/'' [])\<lparr>req_body := BFull ''hello'',
       req_ext := no_extensions\<lparr>ext_body_limit := Some 4\<rparr>\<rparr>)
     = Inl (fe_with_status (fw_error_new ''request body exceeds the maximum allowed size'') 413)"
  using bytes_extract_limit [of "(sample_request Post ''/'' [])\<lparr>req_body := BFull ''hello'',
       req_ext := no_extensions\<lparr>ext_body_limit := Some 4\<rparr>\<rparr>"]
  by (simp add: sample_defs resolve_limit_def no_extensions_def)

end
