(* ===== verification/Rejections.thy ===== *)
theory Rejections
  imports Handlers
begin

text \<open>
  The rejections of the built-in extractors (arvik-extract/src/rejection.rs, connect_info.rs,
  matched_path.rs): one datatype per enum, its \<^verbatim>\<open>Display\<close> text and its response.
\<close>

text \<open>The builder calls shared by every \<^verbatim>\<open>into_response\<close> of the file.\<close>

abbreviation plain_text_response :: "'h http_lib \<Rightarrow> nat \<Rightarrow> string \<Rightarrow> 'h response" where
  "plain_text_response H st msg \<equiv>
     rb_body H (BFull msg)
       (rb_header_str H ''content-type'' ''text/plain; charset=utf-8'' (rb_with_status st (rb_new H)))"

datatype path_rejection = MissingPathParams | PathDeserializationFailed string

fun show_path_rejection :: "path_rejection \<Rightarrow> string" where
  "show_path_rejection MissingPathParams = ''No path parameters found''"
| "show_path_rejection (PathDeserializationFailed m) = ''Invalid path parameters: '' @ m"

fun path_rejection_status :: "path_rejection \<Rightarrow> nat" where
  "path_rejection_status MissingPathParams = 500"
| "path_rejection_status (PathDeserializationFailed m) = 400"

definition path_rejection_response :: "'h http_lib \<Rightarrow> path_rejection \<Rightarrow> 'h response" where
  "path_rejection_response H e = plain_text_response H (path_rejection_status e) (show_path_rejection e)"

datatype query_rejection = MissingQueryString | QueryDeserializationFailed string

fun show_query_rejection :: "query_rejection \<Rightarrow> string" where
  "show_query_rejection MissingQueryString = ''Missing query string''"
| "show_query_rejection (QueryDeserializationFailed m) = ''Invalid query string: '' @ m"

definition query_rejection_response :: "'h http_lib \<Rightarrow> query_rejection \<Rightarrow> 'h response" where
  "query_rejection_response H e = plain_text_response H 400 (show_query_rejection e)"

datatype json_rejection =
    JsonBodyReadFailed string | MissingJsonContentType | JsonDeserializationFailed string | JsonPayloadTooLarge

fun show_json_rejection :: "json_rejection \<Rightarrow> string" where
  "show_json_rejection (JsonBodyReadFailed m) = ''Failed to read request body: '' @ m"
| "show_json_rejection MissingJsonContentType = ''Expected Content-Type: application/json''"
| "show_json_rejection (JsonDeserializationFailed m) = ''Invalid JSON: '' @ m"
| "show_json_rejection JsonPayloadTooLarge = ''Request payload exceeds the maximum allowed size''"

fun json_rejection_status :: "json_rejection \<Rightarrow> nat" where
  "json_rejection_status MissingJsonContentType = 415"
| "json_rejection_status JsonPayloadTooLarge = 413"
| "json_rejection_status (JsonBodyReadFailed m) = 400"
| "json_rejection_status (JsonDeserializationFailed m) = 400"

definition json_rejection_response :: "'h http_lib \<Rightarrow> json_rejection \<Rightarrow> 'h response" where
  "json_rejection_response H e = plain_text_response H (json_rejection_status e) (show_json_rejection e)"

datatype form_rejection =
    FormBodyReadFailed string | InvalidFormContentType | FormDeserializationFailed string | FormPayloadTooLarge

fun show_form_rejection :: "form_rejection \<Rightarrow> string" where
  "show_form_rejection (FormBodyReadFailed m) = ''Failed to read request body: '' @ m"
| "show_form_rejection InvalidFormContentType = ''Expected Content-Type: application/x-www-form-urlencoded''"
| "show_form_rejection (FormDeserializationFailed m) = ''Invalid form data: '' @ m"
| "show_form_rejection FormPayloadTooLarge = ''Request payload exceeds the maximum allowed size''"

fun form_rejection_status :: "form_rejection \<Rightarrow> nat" where
  "form_rejection_status InvalidFormContentType = 415"
| "form_rejection_status FormPayloadTooLarge = 413"
| "form_rejection_status (FormBodyReadFailed m) = 400"
| "form_rejection_status (FormDeserializationFailed m) = 400"

definition form_rejection_response :: "'h http_lib \<Rightarrow> form_rejection \<Rightarrow> 'h response" where
  "form_rejection_response H e = plain_text_response H (form_rejection_status e) (show_form_rejection e)"

datatype typed_header_rejection = HeaderMissing string | HeaderDecodeFailed string

fun show_typed_header_rejection :: "typed_header_rejection \<Rightarrow> string" where
  "show_typed_header_rejection (HeaderMissing n) = ''Missing header: '' @ n"
| "show_typed_header_rejection (HeaderDecodeFailed m) = ''Invalid header value: '' @ m"

definition typed_header_rejection_response :: "'h http_lib \<Rightarrow> typed_header_rejection \<Rightarrow> 'h response" where
  "typed_header_rejection_response H e = plain_text_response H 400 (show_typed_header_rejection e)"

datatype extension_rejection = ExtensionRejection string

fun show_extension_rejection :: "extension_rejection \<Rightarrow> string" where
  "show_extension_rejection (ExtensionRejection t) = ''Missing request extension: '' @ t"

definition extension_rejection_response :: "'h http_lib \<Rightarrow> extension_rejection \<Rightarrow> 'h response" where
  "extension_rejection_response H e = plain_text_response H 500 (show_extension_rejection e)"

definition state_rejection_response :: "'h http_lib \<Rightarrow> 'h response" where
  "state_rejection_response H =
     plain_text_response H 500 ''State not configured. Use `.with_state(state)` on your Router''"

definition body_rejection_response :: "'h http_lib \<Rightarrow> string \<Rightarrow> 'h response" where
  "body_rejection_response H m = plain_text_response H 400 (''Failed to read request body: '' @ m)"

datatype string_rejection = StringBodyReadFailed string | StringInvalidUtf8 string

fun show_string_rejection :: "string_rejection \<Rightarrow> string" where
  "show_string_rejection (StringBodyReadFailed m) = ''Failed to read request body: '' @ m"
| "show_string_rejection (StringInvalidUtf8 m) = ''Request body is not valid UTF-8: '' @ m"

definition string_rejection_response :: "'h http_lib \<Rightarrow> string_rejection \<Rightarrow> 'h response" where
  "string_rejection_response H e = plain_text_response H 400 (show_string_rejection e)"

datatype multipart_rejection =
    InvalidMultipartContentType | MissingBoundary | MultipartError string | MultipartPayloadTooLarge

fun show_multipart_rejection :: "multipart_rejection \<Rightarrow> string" where
  "show_multipart_rejection InvalidMultipartContentType = ''Expected Content-Type: multipart/form-data''"
| "show_multipart_rejection MissingBoundary = ''Missing multipart boundary in Content-Type''"
| "show_multipart_rejection (MultipartError m) = ''Multipart error: '' @ m"
| "show_multipart_rejection MultipartPayloadTooLarge = ''Request payload exceeds the maximum allowed size''"

fun multipart_rejection_status :: "multipart_rejection \<Rightarrow> nat" where
  "multipart_rejection_status InvalidMultipartContentType = 415"
| "multipart_rejection_status MultipartPayloadTooLarge = 413"
| "multipart_rejection_status MissingBoundary = 400"
| "multipart_rejection_status (MultipartError m) = 400"

definition multipart_rejection_response :: "'h http_lib \<Rightarrow> multipart_rejection \<Rightarrow> 'h response" where
  "multipart_rejection_response H e =
     plain_text_response H (multipart_rejection_status e) (show_multipart_rejection e)"

text \<open>These two leave the content type out.\<close>

definition connect_info_rejection_response :: "'h http_lib \<Rightarrow> 'h response" where
  "connect_info_rejection_response H =
     rb_body H (BFull ''Missing ConnectInfo. Did you configure the server to insert it?'')
       (rb_with_status 500 (rb_new H))"

definition matched_path_rejection_response :: "'h http_lib \<Rightarrow> 'h response" where
  "matched_path_rejection_response H =
     rb_body H (BFull ''No matched path available'') (rb_with_status 500 (rb_new H))"

context header_map
begin

lemma plain_text_status [simp]: "res_status (plain_text_response H st m) = st"
  by (simp add: rb_defs from_str header_visible_def)

lemma plain_text_body [simp]: "res_body (plain_text_response H st m) = BFull m"
  by (simp add: rb_defs from_str header_visible_def)

end

end
