(* ===== verification/Path_De.thy ===== *)
theory Path_De
  imports Rejections
begin

text \<open>
  The \<^verbatim>\<open>Path\<close> extractor: arvik-extract/src/path_de.rs and path.rs.

  A serde deserializer is asked for a value with a hint (the \<^verbatim>\<open>deserialize_*\<close> method the target type
  calls) and answers by calling one method of a visitor, or with an error.  The target types and their
  visitors are the application's and serde's: a target is a hint with a visitor, a function of the call the
  deserializer makes (\<open>visit\<close>).  So \<open>path_deserialize\<close> answers the call, and \<open>path_extract\<close> applies the
  visitor to it.  A deserializer handed to a visitor (for options, newtypes, elements and map values) is a
  value of \<open>deser\<close>; a seed is a function of it.  Parsing of floating-point numbers is the parameter \<open>pf\<close>,
  of the width and the text.
\<close>

subsection \<open>Machine integers in decimal\<close>

datatype int_ty = I8 | I16 | I32 | I64 | U8 | U16 | U32 | U64

fun ty_min :: "int_ty \<Rightarrow> int" where
  "ty_min I8 = - (2 ^ 7)"
| "ty_min I16 = - (2 ^ 15)"
| "ty_min I32 = - (2 ^ 31)"
| "ty_min I64 = - (2 ^ 63)"
| "ty_min U8 = 0"
| "ty_min U16 = 0"
| "ty_min U32 = 0"
| "ty_min U64 = 0"

fun ty_max :: "int_ty \<Rightarrow> int" where
  "ty_max I8 = 2 ^ 7 - 1"
| "ty_max I16 = 2 ^ 15 - 1"
| "ty_max I32 = 2 ^ 31 - 1"
| "ty_max I64 = 2 ^ 63 - 1"
| "ty_max U8 = 2 ^ 8 - 1"
| "ty_max U16 = 2 ^ 16 - 1"
| "ty_max U32 = 2 ^ 32 - 1"
| "ty_max U64 = 2 ^ 64 - 1"

abbreviation ty_signed :: "int_ty \<Rightarrow> bool" where
  "ty_signed t \<equiv> ty_min t < 0"

definition in_type :: "int_ty \<Rightarrow> int \<Rightarrow> bool" where
  "in_type t n \<longleftrightarrow> ty_min t \<le> n \<and> n \<le> ty_max t"

fun ty_name :: "int_ty \<Rightarrow> string" where
  "ty_name I8 = ''i8''" | "ty_name I16 = ''i16''" | "ty_name I32 = ''i32''" | "ty_name I64 = ''i64''"
| "ty_name U8 = ''u8''" | "ty_name U16 = ''u16''" | "ty_name U32 = ''u32''" | "ty_name U64 = ''u64''"

text \<open>
  \<^verbatim>\<open>str::parse\<close> of an integer type: a sign (a minus only for a signed type), then at least one digit
  and nothing else; a value outside the type is an error.
\<close>

fun split_sign :: "int_ty \<Rightarrow> string \<Rightarrow> bool \<times> string" where
  "split_sign t [] = (False, [])"
| "split_sign t (c # cs) =
     (if c = CHR ''+'' then (False, cs)
      else if c = CHR ''-'' \<and> ty_signed t then (True, cs) else (False, c # cs))"

definition parse_int :: "int_ty \<Rightarrow> string \<Rightarrow> int option" where
  "parse_int t s =
     (let (negative, ds) = split_sign t s in
      if ds = [] \<or> \<not> list_all is_ascii_digit ds then None
      else let n = (if negative then - int (digits_val ds) else int (digits_val ds))
           in if in_type t n then Some n else None)"

text \<open>\<^verbatim>\<open>to_string\<close> of an integer.\<close>

definition int_to_string :: "int \<Rightarrow> string" where
  "int_to_string n = (if n < 0 then CHR ''-'' # nat_to_string (nat (- n)) else nat_to_string (nat n))"

subsection \<open>Hints, visitor calls and deserializers\<close>

datatype hint =
    HAny | HBool | HInt int_ty | HFloat nat | HChar | HStr | HString | HBytes | HByteBuf | HOption
  | HUnit | HUnitStruct | HNewtypeStruct | HSeq | HTuple nat | HTupleStruct nat | HMap | HStruct "string list"
  | HEnum "string list" | HIdentifier | HIgnoredAny

type_synonym params = "(string \<times> string) list"

record map_access =
  ma_params :: params
  ma_index :: nat

record seq_access =
  sa_params :: params
  sa_index :: nat

datatype deser = PathDeserializer params | ValueDeserializer string | StrDeserializer string

datatype 'f visit =
    VisitBool bool | VisitInt int_ty int | VisitFloat nat 'f | VisitChar string | VisitStr string
  | VisitSome deser | VisitNewtypeStruct deser | VisitSeq seq_access | VisitMap map_access | VisitEnum string

text \<open>The name of the method in the message of \<^verbatim>\<open>delegate_single!\<close>; \<open>None\<close> for the methods it does not cover.\<close>

fun single_method :: "hint \<Rightarrow> string option" where
  "single_method HBool = Some ''deserialize_bool''"
| "single_method (HInt t) = Some (''deserialize_'' @ ty_name t)"
| "single_method (HFloat bits) = Some (''deserialize_f'' @ nat_to_string bits)"
| "single_method HChar = Some ''deserialize_char''"
| "single_method HStr = Some ''deserialize_str''"
| "single_method HString = Some ''deserialize_string''"
| "single_method HBytes = Some ''deserialize_bytes''"
| "single_method HByteBuf = Some ''deserialize_byte_buf''"
| "single_method _ = None"

text \<open>A string of one Unicode scalar value, by the length its first byte announces.\<close>

definition utf8_width :: "char \<Rightarrow> nat" where
  "utf8_width c = (let n = of_char c :: nat in if n < 128 then 1 else if n < 224 then 2 else if n < 240 then 3 else 4)"

definition single_char :: "string \<Rightarrow> bool" where
  "single_char s \<longleftrightarrow> (case s of [] \<Rightarrow> False | c # _ \<Rightarrow> length s = utf8_width c)"

definition invalid_value :: "string \<Rightarrow> string \<Rightarrow> string" where
  "invalid_value what s = ''invalid '' @ what @ '': `'' @ s @ ''`''"

fun value_deserialize :: "(nat \<Rightarrow> string \<Rightarrow> 'f option) \<Rightarrow> hint \<Rightarrow> string \<Rightarrow> string + 'f visit" where
  "value_deserialize pf HBool s =
     (if s = ''true'' \<or> s = ''1'' then Inr (VisitBool True)
      else if s = ''false'' \<or> s = ''0'' then Inr (VisitBool False)
      else Inl (invalid_value ''boolean'' s))"
| "value_deserialize pf (HInt t) s =
     (case parse_int t s of None \<Rightarrow> Inl (invalid_value (ty_name t) s) | Some n \<Rightarrow> Inr (VisitInt t n))"
| "value_deserialize pf (HFloat bits) s =
     (case pf bits s of None \<Rightarrow> Inl (invalid_value (CHR ''f'' # nat_to_string bits) s)
      | Some x \<Rightarrow> Inr (VisitFloat bits x))"
| "value_deserialize pf HString s = Inr (VisitStr s)"
| "value_deserialize pf HStr s = Inr (VisitStr s)"
| "value_deserialize pf HChar s =
     (if single_char s then Inr (VisitChar s) else Inl (invalid_value ''char'' s))"
| "value_deserialize pf HOption s = Inr (VisitSome (ValueDeserializer s))"
| "value_deserialize pf HNewtypeStruct s = Inr (VisitNewtypeStruct (ValueDeserializer s))"
| "value_deserialize pf (HEnum variants) s = Inr (VisitEnum s)"
| "value_deserialize pf _ s = Inr (VisitStr s)"

definition str_deserialize :: "hint \<Rightarrow> string \<Rightarrow> string + 'f visit" where
  "str_deserialize h s = Inr (VisitStr s)"

definition map_access_new :: "params \<Rightarrow> map_access" where
  "map_access_new ps = \<lparr>ma_params = ps, ma_index = 0\<rparr>"

definition seq_access_new :: "params \<Rightarrow> seq_access" where
  "seq_access_new ps = \<lparr>sa_params = ps, sa_index = 0\<rparr>"

definition path_deserialize_any :: "params \<Rightarrow> string + 'f visit" where
  "path_deserialize_any ps =
     (case ps of [(_, v)] \<Rightarrow> Inr (VisitStr v) | _ \<Rightarrow> Inr (VisitMap (map_access_new ps)))"

definition path_deserialize_seq :: "params \<Rightarrow> string + 'f visit" where
  "path_deserialize_seq ps = Inr (VisitSeq (seq_access_new ps))"

definition path_deserialize_enum :: "params \<Rightarrow> string + 'f visit" where
  "path_deserialize_enum ps =
     (case ps of [(_, v)] \<Rightarrow> Inr (VisitEnum v)
      | _ \<Rightarrow> Inl ''enums can only be extracted from a single path parameter'')"

definition path_deserialize_option :: "(nat \<Rightarrow> string \<Rightarrow> 'f option) \<Rightarrow> params \<Rightarrow> string + 'f visit" where
  "path_deserialize_option pf ps =
     (case ps of [(_, v)] \<Rightarrow> value_deserialize pf HOption v
      | _ \<Rightarrow> Inl ''expected single path parameter for option'')"

text \<open>\<^verbatim>\<open>delegate_single!\<close>\<close>

definition delegate_single ::
  "(nat \<Rightarrow> string \<Rightarrow> 'f option) \<Rightarrow> hint \<Rightarrow> string \<Rightarrow> params \<Rightarrow> string + 'f visit" where
  "delegate_single pf h method ps =
     (case ps of [(_, v)] \<Rightarrow> value_deserialize pf h v
      | _ \<Rightarrow> Inl (''expected single path parameter for '' @ method))"

definition path_deserialize :: "(nat \<Rightarrow> string \<Rightarrow> 'f option) \<Rightarrow> hint \<Rightarrow> params \<Rightarrow> string + 'f visit" where
  "path_deserialize pf h ps =
     (case h of
        HMap \<Rightarrow> Inr (VisitMap (map_access_new ps))
      | HStruct fs \<Rightarrow> Inr (VisitMap (map_access_new ps))
      | HSeq \<Rightarrow> path_deserialize_seq ps
      | HTuple n \<Rightarrow> path_deserialize_seq ps
      | HTupleStruct n \<Rightarrow> path_deserialize_seq ps
      | HNewtypeStruct \<Rightarrow> Inr (VisitNewtypeStruct (PathDeserializer ps))
      | HEnum variants \<Rightarrow> path_deserialize_enum ps
      | HOption \<Rightarrow> path_deserialize_option pf ps
      | _ \<Rightarrow> (case single_method h of
               Some m \<Rightarrow> delegate_single pf h m ps
             | None \<Rightarrow> path_deserialize_any ps))"

text \<open>What a visitor may call on the deserializer it was handed.\<close>

fun deserialize :: "(nat \<Rightarrow> string \<Rightarrow> 'f option) \<Rightarrow> hint \<Rightarrow> deser \<Rightarrow> string + 'f visit" where
  "deserialize pf h (PathDeserializer ps) = path_deserialize pf h ps"
| "deserialize pf h (ValueDeserializer s) = value_deserialize pf h s"
| "deserialize pf h (StrDeserializer s) = str_deserialize h s"

subsection \<open>Access to maps, sequences and enums\<close>

type_synonym 'v seed = "deser \<Rightarrow> string + 'v"

definition next_key_seed :: "'v seed \<Rightarrow> map_access \<Rightarrow> string + 'v option" where
  "next_key_seed seed a =
     (if ma_index a \<ge> length (ma_params a) then Inr None
      else case seed (StrDeserializer (fst (ma_params a ! ma_index a))) of
             Inl e \<Rightarrow> Inl e | Inr v \<Rightarrow> Inr (Some v))"

text \<open>\<open>None\<close> is the panic of the index past the end.\<close>

definition next_value_seed :: "'v seed \<Rightarrow> map_access \<Rightarrow> ((string + 'v) \<times> map_access) option" where
  "next_value_seed seed a =
     (if ma_index a \<ge> length (ma_params a) then None
      else Some (seed (ValueDeserializer (snd (ma_params a ! ma_index a))), a\<lparr>ma_index := Suc (ma_index a)\<rparr>))"

definition next_element_seed :: "'v seed \<Rightarrow> seq_access \<Rightarrow> (string + 'v option) \<times> seq_access" where
  "next_element_seed seed a =
     (if sa_index a \<ge> length (sa_params a) then (Inr None, a)
      else (case seed (ValueDeserializer (snd (sa_params a ! sa_index a))) of
              Inl e \<Rightarrow> Inl e | Inr v \<Rightarrow> Inr (Some v),
            a\<lparr>sa_index := Suc (sa_index a)\<rparr>))"

definition variant_seed :: "'v seed \<Rightarrow> string \<Rightarrow> string + 'v" where
  "variant_seed seed s = seed (ValueDeserializer s)"

definition unit_variant :: "string + unit" where "unit_variant = Inr ()"

definition newtype_variant_seed :: "'v seed \<Rightarrow> string + 'v" where
  "newtype_variant_seed seed = Inl ''newtype variants not supported''"

definition tuple_variant :: "nat \<Rightarrow> ('f visit \<Rightarrow> string + 'v) \<Rightarrow> string + 'v" where
  "tuple_variant len visitor = Inl ''tuple variants not supported''"

definition struct_variant :: "string list \<Rightarrow> ('f visit \<Rightarrow> string + 'v) \<Rightarrow> string + 'v" where
  "struct_variant fs visitor = Inl ''struct variants not supported''"

subsection \<open>The extractor\<close>

definition path_extract ::
  "(nat \<Rightarrow> string \<Rightarrow> 'f option) \<Rightarrow> hint \<Rightarrow> ('f visit \<Rightarrow> string + 'v) \<Rightarrow> 'h request_parts \<Rightarrow> path_rejection + 'v" where
  "path_extract pf h visitor p =
     (case ext_path_params (rp_ext p) of
        None \<Rightarrow> Inl MissingPathParams
      | Some ps \<Rightarrow>
          (case path_deserialize pf h ps of
             Inl e \<Rightarrow> Inl (PathDeserializationFailed e)
           | Inr call \<Rightarrow>
               (case visitor call of
                  Inl e \<Rightarrow> Inl (PathDeserializationFailed e)
                | Inr v \<Rightarrow> Inr v)))"

subsection \<open>Clients of the access objects\<close>

text \<open>A struct or map visitor, by serde's protocol: ask for a key, and for its value when there is one, until there
  is no key.  The outer option is the panic of an index past the end.\<close>

function drive_map :: "'k seed \<Rightarrow> 'v seed \<Rightarrow> map_access \<Rightarrow> (string + ('k \<times> 'v) list) option" where
  "drive_map ks vs a =
     (case next_key_seed ks a of
        Inl e \<Rightarrow> Some (Inl e)
      | Inr None \<Rightarrow> Some (Inr [])
      | Inr (Some k) \<Rightarrow>
          (case next_value_seed vs a of
             None \<Rightarrow> None
           | Some (Inl e, _) \<Rightarrow> Some (Inl e)
           | Some (Inr v, a') \<Rightarrow>
               (case drive_map ks vs a' of
                  Some (Inr rest) \<Rightarrow> Some (Inr ((k, v) # rest))
                | failure \<Rightarrow> failure)))"
  by pat_completeness auto

termination
  by (relation "measure (\<lambda>(ks, vs, a). length (ma_params a) - ma_index a)")
    (auto simp: next_value_seed_def split: if_splits)

declare drive_map.simps [simp del]

text \<open>A tuple visitor: one element for each component; \<open>None\<close> when the elements run out.\<close>

fun drive_seq :: "'v seed list \<Rightarrow> seq_access \<Rightarrow> (string + 'v list option) \<times> seq_access" where
  "drive_seq [] a = (Inr (Some []), a)"
| "drive_seq (s # ss) a =
     (case next_element_seed s a of
        (Inl e, a') \<Rightarrow> (Inl e, a')
      | (Inr None, a') \<Rightarrow> (Inr None, a')
      | (Inr (Some v), a') \<Rightarrow>
          (case drive_seq ss a' of
             (Inr (Some vs), a'') \<Rightarrow> (Inr (Some (v # vs)), a'')
           | failure \<Rightarrow> failure))"

text \<open>The first error of a list of results, or all the values.\<close>

fun all_results :: "('e + 'a) list \<Rightarrow> 'e + 'a list" where
  "all_results [] = Inr []"
| "all_results (Inl e # rs) = Inl e"
| "all_results (Inr v # rs) = (case all_results rs of Inl e \<Rightarrow> Inl e | Inr vs \<Rightarrow> Inr (v # vs))"

definition entry_result :: "'k seed \<Rightarrow> 'v seed \<Rightarrow> string \<times> string \<Rightarrow> string + 'k \<times> 'v" where
  "entry_result ks vs kv =
     (case ks (StrDeserializer (fst kv)) of
        Inl e \<Rightarrow> Inl e
      | Inr k \<Rightarrow> (case vs (ValueDeserializer (snd kv)) of Inl e \<Rightarrow> Inl e | Inr v \<Rightarrow> Inr (k, v)))"

subsection \<open>Lemmas\<close>

lemma split_sign_digits: "list_all is_ascii_digit ds \<Longrightarrow> split_sign t ds = (False, ds)"
  by (cases ds) (auto simp: is_ascii_digit_def)

lemma parse_int_to_string:
  "parse_int t (int_to_string n) = (if in_type t n then Some n else None)"
proof (cases "n < 0")
  case True
  show ?thesis
  proof (cases "ty_signed t")
    case True
    with \<open>n < 0\<close> show ?thesis
      by (simp add: parse_int_def int_to_string_def nat_to_string_digits)
  next
    case False
    then have "\<not> in_type t n" using \<open>n < 0\<close> by (simp add: in_type_def)
    with False \<open>n < 0\<close> show ?thesis
      by (simp add: parse_int_def int_to_string_def is_ascii_digit_def)
  qed
next
  case False
  then show ?thesis
    by (simp add: parse_int_def int_to_string_def split_sign_digits nat_to_string_digits)
qed

lemma drive_map_from:
  "ma_index a \<le> length (ma_params a) \<Longrightarrow>
   drive_map ks vs a = Some (all_results (map (entry_result ks vs) (drop (ma_index a) (ma_params a))))"
proof (induction ks vs a rule: drive_map.induct)
  case (1 ks vs a)
  show ?case
  proof (cases "ma_index a < length (ma_params a)")
    case True
    then have d: "drop (ma_index a) (ma_params a)
        = ma_params a ! ma_index a # drop (Suc (ma_index a)) (ma_params a)"
      by (simp add: Cons_nth_drop_Suc)
    show ?thesis
      using 1 True unfolding d drive_map.simps [of ks vs a]
      by (auto simp: next_key_seed_def next_value_seed_def entry_result_def split: sum.split)
  next
    case False
    with 1(2) have "ma_index a = length (ma_params a)" by simp
    then show ?thesis unfolding drive_map.simps [of ks vs a] by (simp add: next_key_seed_def)
  qed
qed

lemma drive_seq_from:
  "sa_index a + length ss \<le> length (sa_params a) \<Longrightarrow>
   fst (drive_seq ss a) =
     map_sum id Some (all_results (map2 (\<lambda>s kv. s (ValueDeserializer (snd kv))) ss (drop (sa_index a) (sa_params a))))"
proof (induction ss arbitrary: a)
  case (Cons s ss)
  then have d: "drop (sa_index a) (sa_params a)
      = sa_params a ! sa_index a # drop (Suc (sa_index a)) (sa_params a)"
    by (simp add: Cons_nth_drop_Suc)
  from Cons.prems have "fst (drive_seq ss (a\<lparr>sa_index := Suc (sa_index a)\<rparr>)) =
      map_sum id Some (all_results (map2 (\<lambda>s kv. s (ValueDeserializer (snd kv))) ss
        (drop (Suc (sa_index a)) (sa_params a))))"
    by (subst Cons.IH) simp_all
  with Cons.prems show ?case
    unfolding d by (cases "drive_seq ss (a\<lparr>sa_index := Suc (sa_index a)\<rparr>)")
      (auto simp: next_element_seed_def split: sum.split)
qed simp

text \<open>The specification, on the texts of the parameters: which call a visitor gets for a hint.  A decimal text
  is a sign, a minus only for a signed type, and at least one digit.\<close>

definition decimal_text :: "int_ty \<Rightarrow> string \<Rightarrow> int \<Rightarrow> bool" where
  "decimal_text t s n \<longleftrightarrow>
     (\<exists>ds. ds \<noteq> [] \<and> list_all is_ascii_digit ds
       \<and> ((s = ds \<or> s = CHR ''+'' # ds) \<and> n = int (digits_val ds)
          \<or> ty_signed t \<and> s = CHR ''-'' # ds \<and> n = - int (digits_val ds)))"

fun text_call :: "(nat \<Rightarrow> string \<Rightarrow> 'f option) \<Rightarrow> hint \<Rightarrow> string \<Rightarrow> 'f visit \<Rightarrow> bool" where
  "text_call pf HBool s c \<longleftrightarrow>
     s \<in> {''true'', ''1''} \<and> c = VisitBool True \<or> s \<in> {''false'', ''0''} \<and> c = VisitBool False"
| "text_call pf (HInt t) s c \<longleftrightarrow> (\<exists>n. decimal_text t s n \<and> in_type t n \<and> c = VisitInt t n)"
| "text_call pf (HFloat bits) s c \<longleftrightarrow> (\<exists>x. pf bits s = Some x \<and> c = VisitFloat bits x)"
| "text_call pf HChar s c \<longleftrightarrow> single_char s \<and> c = VisitChar s"
| "text_call pf HOption s c \<longleftrightarrow> c = VisitSome (ValueDeserializer s)"
| "text_call pf (HEnum variants) s c \<longleftrightarrow> c = VisitEnum s"
| "text_call pf _ s c \<longleftrightarrow> c = VisitStr s"

fun params_call :: "(nat \<Rightarrow> string \<Rightarrow> 'f option) \<Rightarrow> hint \<Rightarrow> params \<Rightarrow> 'f visit \<Rightarrow> bool" where
  "params_call pf HNewtypeStruct ps c \<longleftrightarrow> c = VisitNewtypeStruct (PathDeserializer ps)"
| "params_call pf HSeq ps c \<longleftrightarrow> c = VisitSeq \<lparr>sa_params = ps, sa_index = 0\<rparr>"
| "params_call pf (HTuple n) ps c \<longleftrightarrow> c = VisitSeq \<lparr>sa_params = ps, sa_index = 0\<rparr>"
| "params_call pf (HTupleStruct n) ps c \<longleftrightarrow> c = VisitSeq \<lparr>sa_params = ps, sa_index = 0\<rparr>"
| "params_call pf HMap ps c \<longleftrightarrow> c = VisitMap \<lparr>ma_params = ps, ma_index = 0\<rparr>"
| "params_call pf (HStruct fs) ps c \<longleftrightarrow> c = VisitMap \<lparr>ma_params = ps, ma_index = 0\<rparr>"
| "params_call pf h ps c \<longleftrightarrow>
     (case ps of
        [(name, s)] \<Rightarrow> text_call pf h s c
      | _ \<Rightarrow> h \<in> {HAny, HUnit, HUnitStruct, HIdentifier, HIgnoredAny} \<and> c = VisitMap \<lparr>ma_params = ps, ma_index = 0\<rparr>)"

lemma parse_int_split:
  "parse_int t s = Some n \<longleftrightarrow>
     (case split_sign t s of (negative, ds) \<Rightarrow> ds \<noteq> [] \<and> list_all is_ascii_digit ds
        \<and> n = (if negative then - int (digits_val ds) else int (digits_val ds))) \<and> in_type t n"
  by (cases "split_sign t s") (auto simp: parse_int_def Let_def)

lemma decimal_text_split:
  "decimal_text t s n \<longleftrightarrow>
     (case split_sign t s of (negative, ds) \<Rightarrow> ds \<noteq> [] \<and> list_all is_ascii_digit ds
        \<and> n = (if negative then - int (digits_val ds) else int (digits_val ds)))"
proof (cases s)
  case Nil
  then show ?thesis by (simp add: decimal_text_def)
next
  case (Cons c cs)
  have signs: "\<not> is_ascii_digit (CHR ''+'')" "\<not> is_ascii_digit (CHR ''-'')" by (simp_all add: is_ascii_digit_def)
  have plus: "(\<exists>ds. ds \<noteq> [] \<and> list_all is_ascii_digit ds \<and> ((s = ds \<or> s = CHR ''+'' # ds) \<and> P ds \<or> Q \<and> s = CHR ''-'' # ds \<and> R ds))
      \<longleftrightarrow> (s \<noteq> [] \<and> list_all is_ascii_digit s \<and> P s
         \<or> c = CHR ''+'' \<and> cs \<noteq> [] \<and> list_all is_ascii_digit cs \<and> P cs
         \<or> Q \<and> c = CHR ''-'' \<and> cs \<noteq> [] \<and> list_all is_ascii_digit cs \<and> R cs)" for P Q R
    unfolding Cons by blast
  show ?thesis unfolding decimal_text_def plus using signs by (auto simp: Cons)
qed

lemma text_call_int: "text_call pf (HInt t) s c \<longleftrightarrow> (\<exists>n. parse_int t s = Some n \<and> c = VisitInt t n)"
  by (auto simp: parse_int_split decimal_text_split)

subsection \<open>Properties\<close>

text \<open>C27: The deserializer of path parameters answers every hint exactly as the texts of the parameters say.  It
  makes a visitor call if and only if this is the call the specification gives for the hint and the
  parameters, and an error in every other case.  For a single parameter the call carries its text, never its name:
  true only for \<^verbatim>\<open>true\<close> and \<^verbatim>\<open>1\<close>, false only for \<^verbatim>\<open>false\<close> and \<^verbatim>\<open>0\<close>; an
  integer type gets the number its decimal text denotes, when it is in the range of the type; a float what the
  parser of floats gives; a \<^verbatim>\<open>char\<close> a text of one scalar value; strings, bytes and enum variants the text itself.  With
  no or several parameters all of these are errors; tuples and sequences, maps and structs get all the parameters from the first.\<close>

theorem path_deserialize_typed:
  "path_deserialize pf h ps = Inr call \<longleftrightarrow> params_call pf h ps call"
proof (cases h)
  case (HInt t)
  then show ?thesis
    by (auto simp: path_deserialize_def delegate_single_def text_call_int simp del: text_call.simps
        split: list.splits option.splits)
qed (auto simp: path_deserialize_def delegate_single_def path_deserialize_any_def path_deserialize_seq_def
      path_deserialize_enum_def path_deserialize_option_def map_access_new_def seq_access_new_def
      split: list.splits option.splits if_splits)

theorem path_deserialize_typed_witness:
  "path_deserialize (\<lambda>_ _. None :: nat option) (HInt I8) [(''7'', ''-12'')] = Inr (VisitInt I8 (- 12))
   \<and> path_deserialize (\<lambda>_ _. None :: nat option) HBool [(''true'', ''0'')] = Inr (VisitBool False)"
proof -
  have "decimal_text I8 ''-12'' (- 12)"
    unfolding decimal_text_def
    by (intro exI [of _ "''12''"]) (simp add: is_ascii_digit_def digits_val_def digit_val_def)
  then show ?thesis
    using path_deserialize_typed [of "\<lambda>_ _. None :: nat option" "HInt I8" "[(''7'', ''-12'')]" "VisitInt I8 (- 12)"]
      path_deserialize_typed [of "\<lambda>_ _. None :: nat option" HBool "[(''true'', ''0'')]" "VisitBool False"]
    by (simp add: in_type_def)
qed

text \<open>An integer that a route captured comes back: with one parameter whose text is the decimal form of
  \<open>n\<close>, extracting a target of an integer type hands \<open>n\<close> to its visitor when it is in the range of
  the type, and answers 400 with the offending text otherwise.\<close>

theorem path_int_roundtrip:
  assumes "ext_path_params (rp_ext p) = Some [(name, int_to_string n)]"
  shows "path_extract pf (HInt t) visitor p =
    (if in_type t n then
       (case visitor (VisitInt t n) of Inl e \<Rightarrow> Inl (PathDeserializationFailed e) | Inr v \<Rightarrow> Inr v)
     else Inl (PathDeserializationFailed (invalid_value (ty_name t) (int_to_string n))))"
  using assms
  by (simp add: path_extract_def path_deserialize_def delegate_single_def parse_int_to_string)

theorem path_int_roundtrip_witness:
  "path_extract (\<lambda>_ _. None :: nat option) (HInt I8) (\<lambda>c. case c of VisitInt t n \<Rightarrow> Inr n | _ \<Rightarrow> Inl ''type'')
     (fst (into_request_parts ((sample_request Get ''/'' [])
        \<lparr>req_ext := no_extensions\<lparr>ext_path_params := Some [(''id'', int_to_string (- 128))]\<rparr>\<rparr>))) = Inr (- 128)"
  by (subst path_int_roundtrip [of _ "''id''" "- 128"])
    (simp_all add: into_request_parts_def in_type_def)

text \<open>A visitor that reads a map by asking for keys until there is none always stops, after one entry for
  each parameter, and never reaches past the end: it gets the names with their values in route order, or the first
  error one of its seeds raised.\<close>

theorem path_map_access_complete:
  "drive_map ks vs (map_access_new ps) = Some (all_results (map (entry_result ks vs) ps))"
  by (subst drive_map_from) (simp_all add: map_access_new_def)

text \<open>A tuple target reads the parameters by position: with at least as many parameters as components,
  component \<open>i\<close> is its seed on the text of parameter \<open>i\<close>, the first failing seed is the answer, and
  parameters beyond the last component are ignored.\<close>

theorem path_tuple_positional:
  assumes "length ss \<le> length ps"
  shows "fst (drive_seq ss (seq_access_new ps)) =
    map_sum id Some (all_results (map2 (\<lambda>s kv. s (ValueDeserializer (snd kv))) ss ps))"
  using drive_seq_from [of "seq_access_new ps" ss] assms by (simp add: seq_access_new_def)

theorem path_tuple_positional_witness:
  "fst (drive_seq [\<lambda>d. case d of ValueDeserializer s \<Rightarrow> Inr s | _ \<Rightarrow> Inl ''type'']
     (seq_access_new [(''a'', ''1''), (''b'', ''2'')])) = Inr (Some [''1''])"
  by (subst path_tuple_positional) simp_all

end
