(* ===== verification/Extractors.thy ===== *)
theory Extractors
  imports Path_De
begin

text \<open>
  The extractors of arvik-extract: json.rs, form.rs, query.rs, validation.rs, state.rs, extension.rs,
  matched_path.rs, raw_path_params.rs, typed_header.rs, connect_info.rs and cookies.rs.

  JSON, form and MIME parsing, the \<^verbatim>\<open>headers\<close> and \<^verbatim>\<open>cookie\<close> crates and the application's validators belong to other
  crates; they are parameters.  Parsers answer \<open>Inl\<close> with the text of their error.  The cookie jar is an
  abstract type with the operations the code calls (\<open>cookie_lib\<close>).
\<close>

subsection \<open>Content types\<close>

record mime =
  mime_type :: string
  mime_subtype :: string
  mime_suffix :: "string option"

definition strip_ascii_case_prefix :: "string \<Rightarrow> string \<Rightarrow> string option" where
  "strip_ascii_case_prefix v pre =
     (if length v \<ge> length pre \<and> eq_ignore_ascii_case (take (length pre) v) pre
      then Some (drop (length pre) v) else None)"

definition is_application_json :: "mime \<Rightarrow> bool" where
  "is_application_json m \<longleftrightarrow>
     mime_type m = ''application'' \<and> (mime_subtype m = ''json'' \<or> mime_suffix m = Some ''json'')"

definition json_content_type :: "'h http_lib \<Rightarrow> (string \<Rightarrow> mime option) \<Rightarrow> 'h \<Rightarrow> bool" where
  "json_content_type H parse_mime h =
     (case hm_get H h ''content-type'' of
        None \<Rightarrow> False
      | Some ct \<Rightarrow>
          (case hv_to_str H ct of
             None \<Rightarrow> False
           | Some s \<Rightarrow>
               if eq_ignore_ascii_case s ''application/json'' then True
               else if (case strip_ascii_case_prefix s ''application/json'' of
                          Some rest \<Rightarrow> rest = [] \<or> starts_with rest '';''
                            \<or> starts_with (dropWhile is_ascii_ws rest) '';''
                        | None \<Rightarrow> False) then True
               else (case parse_mime s of Some m \<Rightarrow> is_application_json m | None \<Rightarrow> False)))"

definition form_content_type :: "'h http_lib \<Rightarrow> (string \<Rightarrow> mime option) \<Rightarrow> 'h \<Rightarrow> bool" where
  "form_content_type H parse_mime h =
     (case hm_get H h ''content-type'' of
        None \<Rightarrow> False
      | Some ct \<Rightarrow>
          (case hv_to_str H ct of
             None \<Rightarrow> False
           | Some s \<Rightarrow>
               if eq_ignore_ascii_case s ''application/x-www-form-urlencoded'' then True
               else (case parse_mime s of
                       Some m \<Rightarrow> mime_type m = ''application'' \<and> mime_subtype m = ''x-www-form-urlencoded''
                     | None \<Rightarrow> False)))"

subsection \<open>JSON, forms and queries\<close>

definition json_extract ::
  "'h http_lib \<Rightarrow> (string \<Rightarrow> mime option) \<Rightarrow> (string \<Rightarrow> string + 'v) \<Rightarrow> 'h request \<Rightarrow> json_rejection + 'v" where
  "json_extract H parse_mime from_slice req =
     (if \<not> json_content_type H parse_mime (req_headers req) then Inl MissingJsonContentType
      else case to_bytes_limited (req_body req) (resolve_limit (req_ext req)) of
             Inl e \<Rightarrow> if is_payload_too_large e then Inl JsonPayloadTooLarge
                      else Inl (JsonBodyReadFailed (show_limit_error e))
           | Inr bs \<Rightarrow>
               (case from_slice bs of
                  Inl e \<Rightarrow> Inl (JsonDeserializationFailed e)
                | Inr v \<Rightarrow> Inr v))"

definition form_extract ::
  "'h http_lib \<Rightarrow> (string \<Rightarrow> mime option) \<Rightarrow> (string \<Rightarrow> string + 'v) \<Rightarrow> 'h request \<Rightarrow> form_rejection + 'v" where
  "form_extract H parse_mime from_bytes req =
     (if \<not> form_content_type H parse_mime (req_headers req) then Inl InvalidFormContentType
      else case to_bytes_limited (req_body req) (resolve_limit (req_ext req)) of
             Inl e \<Rightarrow> if is_payload_too_large e then Inl FormPayloadTooLarge
                      else Inl (FormBodyReadFailed (show_limit_error e))
           | Inr bs \<Rightarrow>
               (case from_bytes bs of
                  Inl e \<Rightarrow> Inl (FormDeserializationFailed e)
                | Inr v \<Rightarrow> Inr v))"

definition query_extract :: "(string \<Rightarrow> string + 'v) \<Rightarrow> 'h request_parts \<Rightarrow> query_rejection + 'v" where
  "query_extract from_str p =
     (let query = (case uri_query (rp_uri p) of Some q \<Rightarrow> q | None \<Rightarrow> [])
      in case from_str query of
           Inl e \<Rightarrow> Inl (QueryDeserializationFailed e)
         | Inr v \<Rightarrow> Inr v)"

definition json_value_response ::
  "'h http_lib \<Rightarrow> ('v \<Rightarrow> string + string) \<Rightarrow> 'v \<Rightarrow> 'h response" where
  "json_value_response H to_writer v =
     (case to_writer v of
        Inr j \<Rightarrow> rb_body H (BFull j) (rb_header H ''content-type'' ''application/json'' (rb_new H))
      | Inl err \<Rightarrow>
          rb_body H (BFull (''{\"error\":\"JSON serialization failed: '' @ err @ ''\"}''))
            (rb_header H ''content-type'' ''application/json'' (rb_with_status 500 (rb_new H))))"

subsection \<open>Validation\<close>

text \<open>The error tree of the \<^verbatim>\<open>validator\<close> crate, its maps as association lists in iteration order.\<close>

record 'j validation_error =
  ve_code :: string
  ve_message :: "string option"
  ve_params :: "(string \<times> 'j) list"

datatype 'j errors_kind =
    FieldErrors "'j validation_error list"
  | StructErrors "(string \<times> 'j errors_kind) list"
  | ListErrors "(nat \<times> (string \<times> 'j errors_kind) list) list"

type_synonym 'j validation_errors = "(string \<times> 'j errors_kind) list"

record 'j field_error =
  vf_field :: string
  vf_code :: string
  vf_message :: "string option"
  vf_params :: "(string \<times> 'j) list"

record 'j validation_problem =
  vp_error :: string
  vp_message :: string
  vp_fields :: "'j field_error list"

definition join_path :: "string \<Rightarrow> string \<Rightarrow> string" where
  "join_path pre field = (if pre = [] then field else pre @ ''.'' @ field)"

definition sanitized :: "string \<Rightarrow> 'j validation_error \<Rightarrow> 'j field_error" where
  "sanitized path e =
     \<lparr>vf_field = path, vf_code = ve_code e, vf_message = ve_message e,
      vf_params = filter (\<lambda>(key, _). key \<noteq> ''value'') (ve_params e)\<rparr>"

fun collect_kind :: "string \<Rightarrow> 'j errors_kind \<Rightarrow> 'j field_error list" where
  "collect_kind path (FieldErrors es) = map (sanitized path) es"
| "collect_kind path (StructErrors errs) =
     concat (map (\<lambda>(field, kind). collect_kind (join_path path field) kind) errs)"
| "collect_kind path (ListErrors items) =
     concat (map (\<lambda>(index, errs).
       concat (map (\<lambda>(field, kind).
         collect_kind (join_path (path @ ''['' @ nat_to_string index @ '']'') field) kind) errs)) items)"

definition collect_validation_errors :: "string \<Rightarrow> 'j validation_errors \<Rightarrow> 'j field_error list" where
  "collect_validation_errors pre errs = concat (map (\<lambda>(field, kind). collect_kind (join_path pre field) kind) errs)"

definition validation_problem_from :: "'j validation_errors \<Rightarrow> 'j validation_problem" where
  "validation_problem_from errs =
     \<lparr>vp_error = ''validation_failed'', vp_message = ''Request validation failed'',
      vp_fields = collect_validation_errors [] errs\<rparr>"

datatype 'j validation_rejection =
    ValJson json_rejection | ValForm form_rejection | ValQuery query_rejection | ValProblem "'j validation_problem"

fun show_validation_rejection :: "'j validation_rejection \<Rightarrow> string" where
  "show_validation_rejection (ValJson e) = show_json_rejection e"
| "show_validation_rejection (ValForm e) = show_form_rejection e"
| "show_validation_rejection (ValQuery e) = show_query_rejection e"
| "show_validation_rejection (ValProblem p) = vp_message p"

text \<open>\<open>validate\<close> is the value's own \<^verbatim>\<open>Validate\<close> implementation: \<open>None\<close> when the value is valid.\<close>

definition validate_value :: "('v \<Rightarrow> 'j validation_errors option) \<Rightarrow> 'v \<Rightarrow> 'j validation_rejection + 'v" where
  "validate_value validate v =
     (case validate v of None \<Rightarrow> Inr v | Some errs \<Rightarrow> Inl (ValProblem (validation_problem_from errs)))"

definition validated_json_extract ::
  "'h http_lib \<Rightarrow> (string \<Rightarrow> mime option) \<Rightarrow> (string \<Rightarrow> string + 'v) \<Rightarrow> ('v \<Rightarrow> 'j validation_errors option)
   \<Rightarrow> 'h request \<Rightarrow> 'j validation_rejection + 'v" where
  "validated_json_extract H parse_mime from_slice validate req =
     (case json_extract H parse_mime from_slice req of
        Inl e \<Rightarrow> Inl (ValJson e) | Inr v \<Rightarrow> validate_value validate v)"

definition validated_form_extract ::
  "'h http_lib \<Rightarrow> (string \<Rightarrow> mime option) \<Rightarrow> (string \<Rightarrow> string + 'v) \<Rightarrow> ('v \<Rightarrow> 'j validation_errors option)
   \<Rightarrow> 'h request \<Rightarrow> 'j validation_rejection + 'v" where
  "validated_form_extract H parse_mime from_bytes validate req =
     (case form_extract H parse_mime from_bytes req of
        Inl e \<Rightarrow> Inl (ValForm e) | Inr v \<Rightarrow> validate_value validate v)"

definition validated_query_extract ::
  "(string \<Rightarrow> string + 'v) \<Rightarrow> ('v \<Rightarrow> 'j validation_errors option) \<Rightarrow> 'h request_parts
   \<Rightarrow> 'j validation_rejection + 'v" where
  "validated_query_extract from_str validate p =
     (case query_extract from_str p of Inl e \<Rightarrow> Inl (ValQuery e) | Inr v \<Rightarrow> validate_value validate v)"

text \<open>\<open>ser\<close> is the derived JSON serialisation of the problem.\<close>

definition validation_rejection_response ::
  "'h http_lib \<Rightarrow> ('j validation_problem \<Rightarrow> string option) \<Rightarrow> 'j validation_rejection \<Rightarrow> 'h response" where
  "validation_rejection_response H ser e =
     (case e of
        ValJson r \<Rightarrow> json_rejection_response H r
      | ValForm r \<Rightarrow> form_rejection_response H r
      | ValQuery r \<Rightarrow> query_rejection_response H r
      | ValProblem p \<Rightarrow>
          rb_json H ser p (rb_header_str H ''content-type'' ''application/json'' (rb_with_status 422 (rb_new H))))"

subsection \<open>State, extensions and single headers\<close>

definition state_extract :: "('s \<Rightarrow> 't) \<Rightarrow> ('h, 's, 'w, 'e, 't) parts_extractor" where
  "state_extract from_ref p st w = (Inr (from_ref st), p, w)"

text \<open>The extension of a given type is read by \<open>sel\<close>; \<open>type_name\<close> names the type in the error.\<close>

definition extension_extract :: "(extensions \<Rightarrow> 't option) \<Rightarrow> string \<Rightarrow> 'h request_parts \<Rightarrow> extension_rejection + 't" where
  "extension_extract sel type_name p =
     (case sel (rp_ext p) of Some v \<Rightarrow> Inr v | None \<Rightarrow> Inl (ExtensionRejection type_name))"

definition connect_info_extract :: "(extensions \<Rightarrow> 't option) \<Rightarrow> 'h request_parts \<Rightarrow> unit + 't" where
  "connect_info_extract sel p = (case sel (rp_ext p) of Some v \<Rightarrow> Inr v | None \<Rightarrow> Inl ())"

definition matched_path_extract :: "'h request_parts \<Rightarrow> unit + string" where
  "matched_path_extract p = (case ext_matched_path (rp_ext p) of Some m \<Rightarrow> Inr m | None \<Rightarrow> Inl ())"

definition raw_path_params_extract :: "'h request_parts \<Rightarrow> (string \<times> string) list" where
  "raw_path_params_extract p = (case ext_path_params (rp_ext p) of Some ps \<Rightarrow> ps | None \<Rightarrow> [])"

definition typed_header_extract ::
  "'h http_lib \<Rightarrow> string \<Rightarrow> (string list \<Rightarrow> string + 't) \<Rightarrow> 'h request_parts \<Rightarrow> typed_header_rejection + 't" where
  "typed_header_extract H name decode p =
     (case decode (hm_get_all H (rp_headers p) name) of
        Inr v \<Rightarrow> Inr v
      | Inl e \<Rightarrow> if hm_get H (rp_headers p) name = None then Inl (HeaderMissing name)
                 else Inl (HeaderDecodeFailed e))"

subsection \<open>Lemmas\<close>

text \<open>The status of every rejection, the body it reads being the limited one.\<close>

lemma json_extract_ok_iff:
  "json_extract H pm fs req = Inr v \<longleftrightarrow>
     json_content_type H pm (req_headers req)
     \<and> (\<exists>bs. to_bytes_limited (req_body req) (resolve_limit (req_ext req)) = Inr bs \<and> fs bs = Inr v)"
  by (auto simp: json_extract_def split: sum.splits)

lemma collect_kind_params:
  "fe \<in> set (collect_kind path k) \<Longrightarrow> ''value'' \<notin> set (map fst (vf_params fe))"
proof (induction path k rule: collect_kind.induct)
  case (1 path es)
  then show ?case by (auto simp: sanitized_def)
next
  case (2 path errs)
  from 2(2) obtain field kind where k: "(field, kind) \<in> set errs"
      and f: "fe \<in> set (collect_kind (join_path path field) kind)"
    by auto
  show ?case using 2(1) [OF k refl f] .
next
  case (3 path items)
  from 3(2) obtain ix errs field kind where i: "(ix, errs) \<in> set items" and k: "(field, kind) \<in> set errs"
      and f: "fe \<in> set (collect_kind (join_path (path @ ''['' @ nat_to_string ix @ '']'') field) kind)"
    by auto
  show ?case using 3(1) [OF i refl k refl f] .
qed

lemma collect_validation_params:
  "fe \<in> set (collect_validation_errors pre errs) \<Longrightarrow> ''value'' \<notin> set (map fst (vf_params fe))"
  using collect_kind_params [of fe _ _] by (fastforce simp: collect_validation_errors_def)

text \<open>The number of single errors in an error tree.\<close>

fun kind_errors :: "'j errors_kind \<Rightarrow> nat" where
  "kind_errors (FieldErrors es) = length es"
| "kind_errors (StructErrors errs) = sum_list (map (\<lambda>(field, kind). kind_errors kind) errs)"
| "kind_errors (ListErrors items) =
     sum_list (map (\<lambda>(index, errs). sum_list (map (\<lambda>(field, kind). kind_errors kind) errs)) items)"

lemma sum_list_case_cong:
  "(\<And>a b. (a, b) \<in> set xs \<Longrightarrow> f a b = g a b) \<Longrightarrow> sum_list (map (case_prod f) xs) = sum_list (map (case_prod g) xs)"
  by (intro arg_cong [where f = sum_list] map_cong) auto

lemma length_concat_case:
  "length (concat (map (case_prod f) xs)) = sum_list (map (\<lambda>(a, b). length (f a b)) xs)"
  by (induction xs) auto

lemma collect_kind_length: "length (collect_kind path k) = kind_errors k"
proof (induction path k rule: collect_kind.induct)
  case (2 path errs)
  then show ?case by (simp add: length_concat_case cong: sum_list_case_cong)
next
  case (3 path items)
  then show ?case by (simp add: length_concat_case cong: sum_list_case_cong)
qed simp

context header_map
begin

lemma json_type_visible: "hv_from_str H ''application/json'' = Some ''application/json''"
  by (simp add: from_str header_visible_def)

end

subsection \<open>Properties\<close>

text \<open>The JSON extractor decides in a fixed order.  Without a JSON content type the answer is 415 and the
  body is not read; a body over the limit, or cut off by the limiting layer, is 413; a failing body or invalid
  JSON is 400; a value reaches the handler exactly when the parser accepts the whole body, which is then no
  longer than the limit.\<close>

theorem json_extract_cases:
  assumes "header_map H" "r = json_extract H pm fs req"
  shows "(r = Inl MissingJsonContentType \<longleftrightarrow> \<not> json_content_type H pm (req_headers req))
    \<and> (\<forall>v. r = Inr v \<longleftrightarrow> json_content_type H pm (req_headers req)
         \<and> (\<exists>bs. to_bytes_limited (req_body req) (resolve_limit (req_ext req)) = Inr bs \<and> fs bs = Inr v))
    \<and> (\<forall>e. r = Inl e \<longrightarrow> res_status (json_rejection_response H e) \<in> {400, 413, 415})
    \<and> (\<forall>e. r = Inl e \<and> res_status (json_rejection_response H e) = 413 \<longrightarrow>
         to_bytes_limited (req_body req) (resolve_limit (req_ext req)) \<in> {Inl TooLarge, Inl (ReadErr BodyTooLarge)})"
proof -
  have st: "res_status (json_rejection_response H e) = json_rejection_status e" for e
    unfolding json_rejection_response_def by (rule header_map.plain_text_status [OF assms(1)])
  show ?thesis
    unfolding assms(2) json_extract_ok_iff st
    by (auto simp: json_extract_def is_payload_too_large_def split: sum.splits if_splits
        body_limit_error.splits body_error.splits)
qed

theorem json_extract_cases_witness:
  "res_status (json_rejection_response alist_lib MissingJsonContentType) \<in> {400, 413, 415}"
  using json_extract_cases [OF alist_header_map, of "Inl MissingJsonContentType" "\<lambda>_. None"
      "\<lambda>s. Inr s" "sample_request Post ''/'' []"]
  by (simp add: json_extract_def json_content_type_def sample_defs alist_sel)

text \<open>Validation answers do not echo the rejected input: no field of a validation problem carries the raw
  \<open>value\<close> parameter, and every single error of the tree appears exactly once.\<close>

theorem validation_hides_values:
  assumes "validate v = Some errs"
  shows "\<exists>p. validate_value validate v = Inl (ValProblem p)
    \<and> (\<forall>fe \<in> set (vp_fields p). ''value'' \<notin> set (map fst (vf_params fe)))
    \<and> length (vp_fields p) = kind_errors (StructErrors errs)"
proof -
  have "length (collect_validation_errors [] errs) = kind_errors (StructErrors errs)"
    by (simp add: collect_validation_errors_def length_concat_case collect_kind_length)
  moreover have "\<forall>fe \<in> set (collect_validation_errors [] errs). ''value'' \<notin> set (map fst (vf_params fe))"
    using collect_validation_params by blast
  ultimately show ?thesis
    using assms by (simp add: validate_value_def validation_problem_from_def)
qed

theorem validation_hides_values_witness:
  "\<exists>p. validate_value (\<lambda>_. Some [(''email'', FieldErrors [\<lparr>ve_code = ''email'', ve_message = None,
        ve_params = [(''value'', 1::nat)]\<rparr>])]) ''x'' = Inl (ValProblem p)
     \<and> length (vp_fields p) = 1"
  using validation_hides_values [of "\<lambda>_. Some [(''email'', FieldErrors [\<lparr>ve_code = ''email'', ve_message = None,
        ve_params = [(''value'', 1::nat)]\<rparr>])]" "''x''"]
  by fastforce

text \<open>The 422 answer of a failed validation has its content type twice: the header is set by hand and
  again by the JSON body.\<close>

theorem validation_content_type_twice:
  assumes "header_map H" "ser p = Some j"
  shows "res_status (validation_rejection_response H ser (ValProblem p)) = 422
    \<and> hm_get_all H (res_headers (validation_rejection_response H ser (ValProblem p))) ''content-type''
        = [''application/json'', ''application/json'']"
  by (simp add: validation_rejection_response_def rb_json_def rb_defs assms(2)
      header_map.json_type_visible [OF assms(1)] header_map.get_all_simps [OF assms(1)])

theorem validation_content_type_twice_witness:
  "hm_get_all alist_lib (res_headers (validation_rejection_response alist_lib (\<lambda>_. Some ''{}'')
      (ValProblem (validation_problem_from ([] :: nat validation_errors))))) ''content-type''
    = [''application/json'', ''application/json'']"
  using validation_content_type_twice [OF alist_header_map, of "\<lambda>_. Some ''{}''"
      "validation_problem_from ([] :: nat validation_errors)" "''{}''"] by simp

end
