(* ===== verification/Cookies.thy ===== *)
theory Cookies
  imports Extractors
begin

text \<open>
  The cookie jars of arvik-extract/src/cookies.rs.

  \<open>cookie_lib\<close> has the operations of the \<^verbatim>\<open>cookie\<close> crate that the code calls, on abstract types of jars
  \<open>'j\<close>, cookies \<open>'c\<close> and keys \<open>'k\<close>; the locale \<open>cookie_jar\<close> states what the crate documents about
  the plain operations.  The parsed jar that the extractors cache is an extension private to this module: it
  travels beside the parts (\<open>'j option\<close>).
\<close>

record ('j, 'c, 'k) cookie_lib =
  cj_new :: 'j
  cj_parse_encoded :: "string \<Rightarrow> 'c option"
  cj_add_original :: "'j \<Rightarrow> 'c \<Rightarrow> 'j"
  cj_get :: "'j \<Rightarrow> string \<Rightarrow> 'c option"
  cj_add :: "'j \<Rightarrow> 'c \<Rightarrow> 'j"
  cj_remove :: "'j \<Rightarrow> 'c \<Rightarrow> 'j"
  cj_iter :: "'j \<Rightarrow> 'c list"
  cj_delta :: "'j \<Rightarrow> 'c list"
  cj_to_string :: "'c \<Rightarrow> string"
  cj_signed_get :: "'k \<Rightarrow> 'j \<Rightarrow> string \<Rightarrow> 'c option"
  cj_signed_add :: "'k \<Rightarrow> 'j \<Rightarrow> 'c \<Rightarrow> 'j"
  cj_private_get :: "'k \<Rightarrow> 'j \<Rightarrow> string \<Rightarrow> 'c option"
  cj_private_add :: "'k \<Rightarrow> 'j \<Rightarrow> 'c \<Rightarrow> 'j"

subsection \<open>Reading the request\<close>

definition add_pair :: "('j, 'c, 'k) cookie_lib \<Rightarrow> string \<Rightarrow> 'j \<Rightarrow> 'j" where
  "add_pair C pair jar =
     (let pair = trim pair in
      if pair = [] then jar
      else case cj_parse_encoded C pair of Some c \<Rightarrow> cj_add_original C jar c | None \<Rightarrow> jar)"

definition add_header :: "('j, 'c, 'k) cookie_lib \<Rightarrow> 'h http_lib \<Rightarrow> string \<Rightarrow> 'j \<Rightarrow> 'j" where
  "add_header C H v jar =
     (case hv_to_str H v of None \<Rightarrow> jar | Some s \<Rightarrow> fold (add_pair C) (split_on CHR '';'' s) jar)"

definition parse_cookie_header :: "('j, 'c, 'k) cookie_lib \<Rightarrow> 'h http_lib \<Rightarrow> 'h request_parts \<Rightarrow> 'j" where
  "parse_cookie_header C H p = fold (add_header C H) (hm_get_all H (rp_headers p) ''cookie'') (cj_new C)"

definition request_cookie_jar ::
  "('j, 'c, 'k) cookie_lib \<Rightarrow> 'h http_lib \<Rightarrow> 'h request_parts \<times> 'j option \<Rightarrow> 'j \<times> 'h request_parts \<times> 'j option" where
  "request_cookie_jar C H pc =
     (case snd pc of
        Some cached \<Rightarrow> (cached, pc)
      | None \<Rightarrow> let jar = parse_cookie_header C H (fst pc) in (jar, fst pc, Some jar))"

subsection \<open>The three jars\<close>

text \<open>\<^verbatim>\<open>CookieJar\<close> wraps the inner jar and delegates.\<close>

record 'j plain_jar =
  pj_inner :: 'j

definition jar_new :: "('j, 'c, 'k) cookie_lib \<Rightarrow> 'j plain_jar" where
  "jar_new C = \<lparr>pj_inner = cj_new C\<rparr>"

definition jar_get :: "('j, 'c, 'k) cookie_lib \<Rightarrow> 'j plain_jar \<Rightarrow> string \<Rightarrow> 'c option" where
  "jar_get C self name = cj_get C (pj_inner self) name"

definition jar_add :: "('j, 'c, 'k) cookie_lib \<Rightarrow> 'j plain_jar \<Rightarrow> 'c \<Rightarrow> 'j plain_jar" where
  "jar_add C self c = self\<lparr>pj_inner := cj_add C (pj_inner self) c\<rparr>"

definition jar_remove :: "('j, 'c, 'k) cookie_lib \<Rightarrow> 'j plain_jar \<Rightarrow> 'c \<Rightarrow> 'j plain_jar" where
  "jar_remove C self c = self\<lparr>pj_inner := cj_remove C (pj_inner self) c\<rparr>"

definition jar_iter :: "('j, 'c, 'k) cookie_lib \<Rightarrow> 'j plain_jar \<Rightarrow> 'c list" where
  "jar_iter C self = cj_iter C (pj_inner self)"

definition jar_extract ::
  "('j, 'c, 'k) cookie_lib \<Rightarrow> 'h http_lib \<Rightarrow> 'h request_parts \<times> 'j option
   \<Rightarrow> 'j plain_jar \<times> 'h request_parts \<times> 'j option" where
  "jar_extract C H pc = (let (inner, pc') = request_cookie_jar C H pc in (\<lparr>pj_inner = inner\<rparr>, pc'))"

record ('j, 'k) keyed_jar =
  kj_inner :: 'j
  kj_key :: 'k

definition signed_get :: "('j, 'c, 'k) cookie_lib \<Rightarrow> ('j, 'k) keyed_jar \<Rightarrow> string \<Rightarrow> 'c option" where
  "signed_get C self name = cj_signed_get C (kj_key self) (kj_inner self) name"

definition signed_add :: "('j, 'c, 'k) cookie_lib \<Rightarrow> ('j, 'k) keyed_jar \<Rightarrow> 'c \<Rightarrow> ('j, 'k) keyed_jar" where
  "signed_add C self c = self\<lparr>kj_inner := cj_signed_add C (kj_key self) (kj_inner self) c\<rparr>"

definition signed_remove :: "('j, 'c, 'k) cookie_lib \<Rightarrow> ('j, 'k) keyed_jar \<Rightarrow> 'c \<Rightarrow> ('j, 'k) keyed_jar" where
  "signed_remove C self c = self\<lparr>kj_inner := cj_remove C (kj_inner self) c\<rparr>"

definition signed_extract ::
  "('j, 'c, 'k) cookie_lib \<Rightarrow> 'h http_lib \<Rightarrow> ('s \<Rightarrow> 'k) \<Rightarrow> 'h request_parts \<times> 'j option \<Rightarrow> 's
   \<Rightarrow> ('j, 'k) keyed_jar \<times> 'h request_parts \<times> 'j option" where
  "signed_extract C H key_of pc st =
     (let (inner, pc') = request_cookie_jar C H pc in (\<lparr>kj_inner = inner, kj_key = key_of st\<rparr>, pc'))"

definition private_get :: "('j, 'c, 'k) cookie_lib \<Rightarrow> ('j, 'k) keyed_jar \<Rightarrow> string \<Rightarrow> 'c option" where
  "private_get C self name = cj_private_get C (kj_key self) (kj_inner self) name"

definition private_add :: "('j, 'c, 'k) cookie_lib \<Rightarrow> ('j, 'k) keyed_jar \<Rightarrow> 'c \<Rightarrow> ('j, 'k) keyed_jar" where
  "private_add C self c = self\<lparr>kj_inner := cj_private_add C (kj_key self) (kj_inner self) c\<rparr>"

definition private_remove :: "('j, 'c, 'k) cookie_lib \<Rightarrow> ('j, 'k) keyed_jar \<Rightarrow> 'c \<Rightarrow> ('j, 'k) keyed_jar" where
  "private_remove C self c = self\<lparr>kj_inner := cj_remove C (kj_inner self) c\<rparr>"

definition private_extract ::
  "('j, 'c, 'k) cookie_lib \<Rightarrow> 'h http_lib \<Rightarrow> ('s \<Rightarrow> 'k) \<Rightarrow> 'h request_parts \<times> 'j option \<Rightarrow> 's
   \<Rightarrow> ('j, 'k) keyed_jar \<times> 'h request_parts \<times> 'j option" where
  "private_extract C H key_of pc st =
     (let (inner, pc') = request_cookie_jar C H pc in (\<lparr>kj_inner = inner, kj_key = key_of st\<rparr>, pc'))"

subsection \<open>Writing the response\<close>

fun append_cookies :: "('j, 'c, 'k) cookie_lib \<Rightarrow> 'h http_lib \<Rightarrow> 'c list \<Rightarrow> 'h \<Rightarrow> 'h" where
  "append_cookies C H [] parts = parts"
| "append_cookies C H (c # cs) parts =
     append_cookies C H cs
       (case hv_from_str H (cj_to_string C c) of
          Some v \<Rightarrow> hm_append H parts ''set-cookie'' v
        | None \<Rightarrow> parts)"

definition apply_jar_delta :: "('j, 'c, 'k) cookie_lib \<Rightarrow> 'h http_lib \<Rightarrow> 'j \<Rightarrow> 'h \<Rightarrow> 'h" where
  "apply_jar_delta C H jar parts = append_cookies C H (cj_delta C jar) parts"

definition jar_parts :: "('j, 'c, 'k) cookie_lib \<Rightarrow> 'h http_lib \<Rightarrow> 'j plain_jar \<Rightarrow> 'h parts_value" where
  "jar_parts C H self parts = Inr (apply_jar_delta C H (pj_inner self) parts)"

definition keyed_jar_parts :: "('j, 'c, 'k) cookie_lib \<Rightarrow> 'h http_lib \<Rightarrow> ('j, 'k) keyed_jar \<Rightarrow> 'h parts_value" where
  "keyed_jar_parts C H self parts = Inr (apply_jar_delta C H (kj_inner self) parts)"

subsection \<open>The plain jar of the cookie crate\<close>

text \<open>What the crate documents: \<open>original\<close> cookies are not part of the delta; the delta has one cookie for a
  name; \<^verbatim>\<open>get\<close> sees the latest.\<close>

locale cookie_jar =
  fixes C :: "('j, 'c, 'k) cookie_lib" and nm :: "'c \<Rightarrow> string"
  assumes delta_new: "cj_delta C (cj_new C) = []"
    and get_new: "cj_get C (cj_new C) n = None"
    and delta_original: "cj_delta C (cj_add_original C j c) = cj_delta C j"
    and get_original:
      "cj_delta C j = [] \<Longrightarrow> cj_get C (cj_add_original C j c) n = (if n = nm c then Some c else cj_get C j n)"
    and get_add: "cj_get C (cj_add C j c) n = (if n = nm c then Some c else cj_get C j n)"
    and delta_add: "set (cj_delta C (cj_add C j c)) = insert c {d \<in> set (cj_delta C j). nm d \<noteq> nm c}"
begin

text \<open>The cookies that the pairs of a list of header values spell.\<close>

definition spelled :: "'h http_lib \<Rightarrow> string list \<Rightarrow> 'c list" where
  "spelled H vs =
     concat (map (\<lambda>v. case hv_to_str H v of
         None \<Rightarrow> []
       | Some s \<Rightarrow> List.map_filter (\<lambda>p. if trim p = [] then None else cj_parse_encoded C (trim p))
                    (split_on CHR '';'' s)) vs)"

lemma fold_add_pair:
  "fold (add_pair C) ps j =
     fold (\<lambda>c j. cj_add_original C j c)
       (List.map_filter (\<lambda>p. if trim p = [] then None else cj_parse_encoded C (trim p)) ps) j"
  by (induction ps arbitrary: j) (auto simp: add_pair_def Let_def List.map_filter_simps split: option.split)

lemma fold_add_header:
  "fold (add_header C H) vs j = fold (\<lambda>c j. cj_add_original C j c) (spelled H vs) j"
  by (induction vs arbitrary: j) (auto simp: spelled_def add_header_def fold_add_pair split: option.split)

lemma delta_fold: "cj_delta C (fold (\<lambda>c j. cj_add_original C j c) cs j) = cj_delta C j"
  by (induction cs arbitrary: j) (simp_all add: delta_original)

lemma get_fold:
  "cj_delta C j = [] \<Longrightarrow>
   cj_get C (fold (\<lambda>c j. cj_add_original C j c) cs j) n =
     (case List.find (\<lambda>c. nm c = n) (rev cs) of Some c \<Rightarrow> Some c | None \<Rightarrow> cj_get C j n)"
proof (induction cs rule: rev_induct)
  case (snoc c cs)
  have "cj_delta C (fold (\<lambda>c j. cj_add_original C j c) cs j) = []"
    using snoc.prems by (simp add: delta_fold)
  with snoc show ?case by (auto simp: get_original)
qed simp

lemma parse_jar:
  "cj_delta C (parse_cookie_header C H p) = []"
  "cj_get C (parse_cookie_header C H p) n =
     List.find (\<lambda>c. nm c = n) (rev (spelled H (hm_get_all H (rp_headers p) ''cookie'')))"
  by (simp_all add: parse_cookie_header_def fold_add_header delta_fold delta_new get_fold get_new
      split: option.split)

lemma two_adds_delta:
  assumes "nm c1 \<noteq> nm c2" "cj_delta C j = []"
  shows "set (cj_delta C (cj_add C (cj_add C j c1) c2)) = {c1, c2}"
  using assms by (auto simp: delta_add)

end

subsection \<open>An instance\<close>

text \<open>Cookies as name and value; a jar as the original cookies and the delta.  Signing marks the value with the
  key, which suffices to evaluate the code.\<close>

type_synonym pair_jar = "(string \<times> string) list \<times> (string \<times> string) list"

definition pair_get :: "pair_jar \<Rightarrow> string \<Rightarrow> (string \<times> string) option" where
  "pair_get j n = List.find (\<lambda>c. fst c = n) (snd j @ fst j)"

definition pair_add :: "pair_jar \<Rightarrow> string \<times> string \<Rightarrow> pair_jar" where
  "pair_add j c = (fst j, c # filter (\<lambda>d. fst d \<noteq> fst c) (snd j))"

definition unsign :: "string \<Rightarrow> string \<times> string \<Rightarrow> (string \<times> string) option" where
  "unsign k c = map_option (Pair (fst c)) (strip_prefix k (snd c))"

definition pair_cookies :: "(pair_jar, string \<times> string, string) cookie_lib" where
  "pair_cookies = \<lparr>
     cj_new = ([], []),
     cj_parse_encoded = split_once CHR ''='',
     cj_add_original = (\<lambda>j c. (c # fst j, snd j)),
     cj_get = pair_get,
     cj_add = pair_add,
     cj_remove = (\<lambda>j c. pair_add j (fst c, [])),
     cj_iter = (\<lambda>j. snd j @ filter (\<lambda>c. fst c \<notin> fst ` set (snd j)) (fst j)),
     cj_delta = snd,
     cj_to_string = (\<lambda>c. fst c @ ''='' @ snd c),
     cj_signed_get = (\<lambda>k j n. Option.bind (pair_get j n) (unsign k)),
     cj_signed_add = (\<lambda>k j c. pair_add j (fst c, k @ snd c)),
     cj_private_get = (\<lambda>k j n. Option.bind (pair_get j n) (unsign k)),
     cj_private_add = (\<lambda>k j c. pair_add j (fst c, k @ snd c))\<rparr>"

lemma find_filter_other:
  "n \<noteq> fst c \<Longrightarrow> List.find (\<lambda>d. fst d = n) (filter (\<lambda>d. fst d \<noteq> fst c) ds @ xs)
     = List.find (\<lambda>d. fst d = n) (ds @ xs)"
  by (induction ds) auto

interpretation pairs: cookie_jar pair_cookies fst
  by unfold_locales (auto simp: pair_cookies_def pair_get_def pair_add_def find_filter_other)

lemma pair_parse: "cj_parse_encoded pair_cookies = split_once CHR ''=''"
  by (simp add: pair_cookies_def)

lemmas pair_cookie_jar = pairs.cookie_jar_axioms

subsection \<open>Lemmas\<close>

context header_map
begin

lemma append_cookies_get_all:
  "hm_get_all H (append_cookies C H cs h) m =
     hm_get_all H h m
     @ (if m = ''set-cookie'' then List.map_filter (\<lambda>c. hv_from_str H (cj_to_string C c)) cs else [])"
  by (induction cs arbitrary: h) (auto simp: get_all_append List.map_filter_simps split: option.splits)

lemma jar_parts_get_all:
  "hm_get_all H (res_headers (parts_tuple H (jar_parts C H jar) r)) m =
     hm_get_all H (res_headers r) m
     @ (if m = ''set-cookie''
        then take 1 (List.map_filter (\<lambda>c. hv_from_str H (cj_to_string C c)) (cj_delta C (pj_inner jar))) else [])"
  by (simp add: parts_tuple_def apply_parts_def jar_parts_def apply_jar_delta_def parts_apply_to_def
      append_keyed_iter append_cookies_get_all get_all_new)

end

lemma map_filter_length: "(\<And>x. x \<in> set xs \<Longrightarrow> f x \<noteq> None) \<Longrightarrow> length (List.map_filter f xs) = length xs"
  by (induction xs) (fastforce simp: List.map_filter_simps)+

subsection \<open>Properties\<close>

text \<open>Reading cookies.  On parts with no parsed jar yet, a cookie extractor finds under a name the last
  cookie of that name among the pairs of all \<open>Cookie\<close> headers (pairs that do not parse and headers that are not
  text being skipped); the next extractor on the same request gets the same jar without parsing; and a handler that
  hands the jar back untouched changes no header of its answer.\<close>

theorem cookie_jar_reads:
  assumes "cookie_jar C nm" "header_map H"
    and "jar_extract C H (p, None) = (jar, pc)"
  shows "jar_get C jar n =
      List.find (\<lambda>c. nm c = n) (rev (cookie_jar.spelled C H (hm_get_all H (rp_headers p) ''cookie'')))
    \<and> jar_extract C H pc = (jar, pc)
    \<and> signed_extract C H key_of pc st = (\<lparr>kj_inner = pj_inner jar, kj_key = key_of st\<rparr>, pc)
    \<and> hm_get_all H (res_headers (parts_tuple H (jar_parts C H jar) r)) m = hm_get_all H (res_headers r) m"
proof -
  have jar: "pj_inner jar = parse_cookie_header C H p" "pc = (p, Some (pj_inner jar))" "\<lparr>pj_inner = pj_inner jar\<rparr> = jar"
    using assms(3) by (auto simp: jar_extract_def request_cookie_jar_def Let_def)
  then have "jar_get C jar n = cj_get C (parse_cookie_header C H p) n" "cj_delta C (pj_inner jar) = []"
    using cookie_jar.parse_jar(1) [OF assms(1)] by (simp_all add: jar_get_def)
  with jar show ?thesis
    by (simp add: cookie_jar.parse_jar(2) [OF assms(1)] header_map.jar_parts_get_all [OF assms(2)]
        jar_extract_def signed_extract_def request_cookie_jar_def List.map_filter_simps)
qed

theorem cookie_jar_reads_witness:
  "jar_get pair_cookies (fst (jar_extract pair_cookies alist_lib
     (fst (into_request_parts (sample_request Get ''/'' [(''cookie'', ''a=1; b=2''), (''cookie'', ''a=3'')])), None))) ''a''
   = Some (''a'', ''3'')"
proof -
  have "pairs.spelled alist_lib [''a=1; b=2'', ''a=3''] = [(''a'', ''1''), (''b'', ''2''), (''a'', ''3'')]"
    by (simp add: pairs.spelled_def pair_parse alist_sel header_visible_def trim_def is_ascii_ws_def
        List.map_filter_simps)
  then show ?thesis
    using cookie_jar_reads [OF pair_cookie_jar alist_header_map prod.collapse [symmetric],
      of "fst (into_request_parts (sample_request Get ''/'' [(''cookie'', ''a=1; b=2''), (''cookie'', ''a=3'')]))" "''a''"
        "\<lambda>_. ''k''" "()" "sample_response 200 [] ''ok''" "''x''"]
    by (simp add: into_request_parts_def sample_defs alist_sel alist_get_all_def)
qed

text \<open>Only one cookie of an answer is set.  A handler that adds two cookies of different names to a jar and
  returns it answers with one \<open>Set-Cookie\<close> header more than its answer had, although both cookies are in the
  jar's delta and both convert to header values.\<close>

theorem second_cookie_lost:
  assumes "cookie_jar C nm" "header_map H"
    and "nm c1 \<noteq> nm c2" "cj_delta C (pj_inner jar) = []"
    and "hv_from_str H (cj_to_string C c1) \<noteq> None" "hv_from_str H (cj_to_string C c2) \<noteq> None"
    and "jar' = jar_add C (jar_add C jar c1) c2"
  shows "set (cj_delta C (pj_inner jar')) = {c1, c2}
    \<and> length (hm_get_all H (res_headers (parts_tuple H (jar_parts C H jar') r)) ''set-cookie'')
        = Suc (length (hm_get_all H (res_headers r) ''set-cookie''))"
proof -
  have d: "set (cj_delta C (pj_inner jar')) = {c1, c2}"
    using cookie_jar.two_adds_delta [OF assms(1,3,4)] assms(7) by (simp add: jar_add_def)
  then have "length (List.map_filter (\<lambda>c. hv_from_str H (cj_to_string C c)) (cj_delta C (pj_inner jar')))
      = length (cj_delta C (pj_inner jar'))"
    using assms(5,6) by (intro map_filter_length) auto
  with d show ?thesis
    by (cases "cj_delta C (pj_inner jar')") (auto simp: header_map.jar_parts_get_all [OF assms(2)])
qed

theorem second_cookie_lost_witness:
  "length (hm_get_all alist_lib (res_headers (parts_tuple alist_lib (jar_parts pair_cookies alist_lib
     (jar_add pair_cookies (jar_add pair_cookies (jar_new pair_cookies) (''session'', ''1'')) (''theme'', ''dark'')))
     (sample_response 200 [] ''ok''))) ''set-cookie'') = 1"
  using second_cookie_lost [OF pair_cookie_jar alist_header_map, of "(''session'', ''1'')" "(''theme'', ''dark'')"
      "jar_new pair_cookies" _ "sample_response 200 [] ''ok''"]
  by (simp add: pair_cookies_def jar_new_def alist_sel header_visible_def sample_defs alist_get_all_def)

end
