(* ===== verification/WebSockets.thy ===== *)
theory WebSockets
  imports Handlers
begin

text \<open>
  WebSockets (arvik-ws): the upgrade handshake (upgrade.rs, rejection.rs), messages and close codes
  (message.rs), the socket and its halves (socket.rs, split.rs).

  The framing is tungstenite's: \<open>t_message\<close> is its message type, \<open>'t\<close> its close codes, converted to and
  from 16-bit numbers by \<open>cc_to\<close> and \<open>cc_of\<close>.  A connection is a state \<open>'z\<close> with the operations
  of \<open>ws_stream\<close>.  The hash, the base64 encoding and hyper's upgrade handle are parameters.
\<close>

subsection \<open>Close codes and messages\<close>

datatype close_code =
    Normal | Away | Protocol | Unsupported | Status | Abnormal | Invalid | Policy | Size | Extension | Error
  | Restart | Again | Other u16

fun close_code_to_u16 :: "close_code \<Rightarrow> u16" where
  "close_code_to_u16 Normal = 1000"
| "close_code_to_u16 Away = 1001"
| "close_code_to_u16 Protocol = 1002"
| "close_code_to_u16 Unsupported = 1003"
| "close_code_to_u16 Status = 1005"
| "close_code_to_u16 Abnormal = 1006"
| "close_code_to_u16 Invalid = 1007"
| "close_code_to_u16 Policy = 1008"
| "close_code_to_u16 Size = 1009"
| "close_code_to_u16 Extension = 1010"
| "close_code_to_u16 Error = 1011"
| "close_code_to_u16 Restart = 1012"
| "close_code_to_u16 Again = 1013"
| "close_code_to_u16 (Other n) = n"

definition close_code_from_u16 :: "u16 \<Rightarrow> close_code" where
  "close_code_from_u16 n =
     (if n = 1000 then Normal else if n = 1001 then Away else if n = 1002 then Protocol
      else if n = 1003 then Unsupported else if n = 1005 then Status else if n = 1006 then Abnormal
      else if n = 1007 then Invalid else if n = 1008 then Policy else if n = 1009 then Size
      else if n = 1010 then Extension else if n = 1011 then Error else if n = 1012 then Restart
      else if n = 1013 then Again else Other n)"

record 't code_lib =
  cc_to :: "'t \<Rightarrow> u16"
  cc_of :: "u16 \<Rightarrow> 't"

definition close_code_from_t :: "'t code_lib \<Rightarrow> 't \<Rightarrow> close_code" where
  "close_code_from_t T c = close_code_from_u16 (cc_to T c)"

definition close_code_to_t :: "'t code_lib \<Rightarrow> close_code \<Rightarrow> 't" where
  "close_code_to_t T c = cc_of T (close_code_to_u16 c)"

record close_frame =
  cf_code :: close_code
  cf_reason :: string

record 't t_close_frame =
  tf_code :: 't
  tf_reason :: string

definition close_frame_new :: "close_code \<Rightarrow> string \<Rightarrow> close_frame" where
  "close_frame_new c r = \<lparr>cf_code = c, cf_reason = r\<rparr>"

definition close_frame_normal :: close_frame where
  "close_frame_normal = close_frame_new Normal []"

definition close_frame_from_t :: "'t code_lib \<Rightarrow> 't t_close_frame \<Rightarrow> close_frame" where
  "close_frame_from_t T f = \<lparr>cf_code = close_code_from_t T (tf_code f), cf_reason = tf_reason f\<rparr>"

definition close_frame_to_t :: "'t code_lib \<Rightarrow> close_frame \<Rightarrow> 't t_close_frame" where
  "close_frame_to_t T f = \<lparr>tf_code = close_code_to_t T (cf_code f), tf_reason = cf_reason f\<rparr>"

datatype message = Text string | Binary string | Ping string | Pong string | Close "close_frame option"

datatype 't t_message =
  TText string | TBinary string | TPing string | TPong string | TClose "'t t_close_frame option" | TFrame string

fun is_text :: "message \<Rightarrow> bool" where "is_text (Text _) = True" | "is_text _ = False"
fun is_binary :: "message \<Rightarrow> bool" where "is_binary (Binary _) = True" | "is_binary _ = False"
fun is_close :: "message \<Rightarrow> bool" where "is_close (Close _) = True" | "is_close _ = False"
fun is_ping :: "message \<Rightarrow> bool" where "is_ping (Ping _) = True" | "is_ping _ = False"
fun is_pong :: "message \<Rightarrow> bool" where "is_pong (Pong _) = True" | "is_pong _ = False"

fun as_text :: "message \<Rightarrow> string option" where "as_text (Text t) = Some t" | "as_text _ = None"
fun as_bytes :: "message \<Rightarrow> string option" where "as_bytes (Binary b) = Some b" | "as_bytes _ = None"

fun message_len :: "message \<Rightarrow> nat" where
  "message_len (Text t) = length t"
| "message_len (Binary b) = length b"
| "message_len (Ping b) = length b"
| "message_len (Pong b) = length b"
| "message_len (Close _) = 0"

definition message_is_empty :: "message \<Rightarrow> bool" where
  "message_is_empty m \<longleftrightarrow> message_len m = 0"

text \<open>\<open>None\<close> is the \<^verbatim>\<open>unreachable!\<close> panic on a raw frame.\<close>

fun message_from_t :: "'t code_lib \<Rightarrow> 't t_message \<Rightarrow> message option" where
  "message_from_t T (TText t) = Some (Text t)"
| "message_from_t T (TBinary b) = Some (Binary b)"
| "message_from_t T (TPing d) = Some (Ping d)"
| "message_from_t T (TPong d) = Some (Pong d)"
| "message_from_t T (TClose f) = Some (Close (map_option (close_frame_from_t T) f))"
| "message_from_t T (TFrame _) = None"

fun message_to_t :: "'t code_lib \<Rightarrow> message \<Rightarrow> 't t_message" where
  "message_to_t T (Text t) = TText t"
| "message_to_t T (Binary b) = TBinary b"
| "message_to_t T (Ping d) = TPing d"
| "message_to_t T (Pong d) = TPong d"
| "message_to_t T (Close f) = TClose (map_option (close_frame_to_t T) f)"

subsection \<open>The socket\<close>

text \<open>The stream: \<open>st_next\<close> answers \<open>None\<close> at the end.  \<open>feed\<close> queues a message, \<open>send\<close> also flushes.\<close>

record ('z, 't, 'e) ws_stream =
  st_next :: "'z \<Rightarrow> ('e + 't t_message) option \<times> 'z"
  st_send :: "'t t_message \<Rightarrow> 'z \<Rightarrow> ('e + unit) \<times> 'z"
  st_feed :: "'t t_message \<Rightarrow> 'z \<Rightarrow> ('e + unit) \<times> 'z"
  st_flush :: "'z \<Rightarrow> ('e + unit) \<times> 'z"

record 'z websocket =
  ws_inner :: 'z
  ws_protocol :: "string option"

datatype 'a panicking = Returns 'a | Panics

definition socket_send ::
  "('z, 't, 'e) ws_stream \<Rightarrow> 't code_lib \<Rightarrow> message \<Rightarrow> 'z websocket \<Rightarrow> ('e + unit) \<times> 'z websocket" where
  "socket_send W T m self =
     (let (r, z) = st_send W (message_to_t T m) (ws_inner self) in (r, self\<lparr>ws_inner := z\<rparr>))"

text \<open>
  The \<open>loop\<close> of \<^verbatim>\<open>recv\<close> may run for as long as the peer sends pings; the outer option is \<open>None\<close> when it
  does not return.
\<close>

partial_function (option) recv_loop ::
  "('z, 't, 'e) ws_stream \<Rightarrow> 't code_lib \<Rightarrow> 'z \<Rightarrow> (('e + message) option panicking \<times> 'z) option" where
  "recv_loop W T z =
     (case st_next W z of
        (None, z') \<Rightarrow> Some (Returns None, z')
      | (Some (Inl e), z') \<Rightarrow> Some (Returns (Some (Inl e)), z')
      | (Some (Inr m), z') \<Rightarrow>
          (case m of
             TPing d \<Rightarrow>
               (case st_send W (TPong d) z' of
                  (Inl e, z'') \<Rightarrow> Some (Returns (Some (Inl e)), z'')
                | (Inr _, z'') \<Rightarrow> recv_loop W T z'')
           | TFrame _ \<Rightarrow> recv_loop W T z'
           | _ \<Rightarrow> Some (case message_from_t T m of None \<Rightarrow> Panics | Some m' \<Rightarrow> Returns (Some (Inr m')), z')))"

definition socket_recv ::
  "('z, 't, 'e) ws_stream \<Rightarrow> 't code_lib \<Rightarrow> 'z websocket
   \<Rightarrow> (('e + message) option panicking \<times> 'z websocket) option" where
  "socket_recv W T self = map_option (\<lambda>(r, z). (r, self\<lparr>ws_inner := z\<rparr>)) (recv_loop W T (ws_inner self))"

definition socket_close ::
  "('z, 't, 'e) ws_stream \<Rightarrow> 't code_lib \<Rightarrow> close_frame option \<Rightarrow> 'z websocket \<Rightarrow> ('e + unit) \<times> 'z" where
  "socket_close W T f self =
     (case st_send W (message_to_t T (Close f)) (ws_inner self) of
        (Inl e, z) \<Rightarrow> (Inl e, z)
      | (Inr _, z) \<Rightarrow> st_flush W z)"

definition socket_send_text ::
  "('z, 't, 'e) ws_stream \<Rightarrow> 't code_lib \<Rightarrow> string \<Rightarrow> 'z websocket \<Rightarrow> ('e + unit) \<times> 'z websocket" where
  "socket_send_text W T t self = socket_send W T (Text t) self"

definition socket_send_binary ::
  "('z, 't, 'e) ws_stream \<Rightarrow> 't code_lib \<Rightarrow> string \<Rightarrow> 'z websocket \<Rightarrow> ('e + unit) \<times> 'z websocket" where
  "socket_send_binary W T b self = socket_send W T (Binary b) self"

text \<open>The loop of \<^verbatim>\<open>send_batch\<close>, the same for a socket and for a sender.\<close>

fun feed_all :: "('z, 't, 'e) ws_stream \<Rightarrow> 't code_lib \<Rightarrow> message list \<Rightarrow> 'z \<Rightarrow> ('e + unit) \<times> 'z" where
  "feed_all W T [] z = st_flush W z"
| "feed_all W T (m # ms) z =
     (case st_feed W (message_to_t T m) z of
        (Inl e, z') \<Rightarrow> (Inl e, z')
      | (Inr _, z') \<Rightarrow> feed_all W T ms z')"

definition socket_send_batch ::
  "('z, 't, 'e) ws_stream \<Rightarrow> 't code_lib \<Rightarrow> message list \<Rightarrow> 'z websocket \<Rightarrow> ('e + unit) \<times> 'z websocket" where
  "socket_send_batch W T ms self = (let (r, z) = feed_all W T ms (ws_inner self) in (r, self\<lparr>ws_inner := z\<rparr>))"

subsection \<open>The split halves\<close>

text \<open>Both halves share the connection.\<close>

definition sender_send ::
  "('z, 't, 'e) ws_stream \<Rightarrow> 't code_lib \<Rightarrow> message \<Rightarrow> 'z \<Rightarrow> ('e + unit) \<times> 'z" where
  "sender_send W T m z = st_send W (message_to_t T m) z"

definition sender_flush :: "('z, 't, 'e) ws_stream \<Rightarrow> 'z \<Rightarrow> ('e + unit) \<times> 'z" where
  "sender_flush W z = st_flush W z"

definition sender_close ::
  "('z, 't, 'e) ws_stream \<Rightarrow> 't code_lib \<Rightarrow> close_frame option \<Rightarrow> 'z \<Rightarrow> ('e + unit) \<times> 'z" where
  "sender_close W T f z = st_send W (message_to_t T (Close f)) z"

definition sender_send_batch ::
  "('z, 't, 'e) ws_stream \<Rightarrow> 't code_lib \<Rightarrow> message list \<Rightarrow> 'z \<Rightarrow> ('e + unit) \<times> 'z" where
  "sender_send_batch W T ms z = feed_all W T ms z"

definition receiver_next ::
  "('z, 't, 'e) ws_stream \<Rightarrow> 't code_lib \<Rightarrow> 'z \<Rightarrow> ('e + message) option panicking \<times> 'z" where
  "receiver_next W T z =
     (case st_next W z of
        (None, z') \<Rightarrow> (Returns None, z')
      | (Some (Inl e), z') \<Rightarrow> (Returns (Some (Inl e)), z')
      | (Some (Inr m), z') \<Rightarrow>
          (case message_from_t T m of None \<Rightarrow> Panics | Some m' \<Rightarrow> Returns (Some (Inr m')), z'))"

subsection \<open>The upgrade handshake\<close>

record ws_config =
  wc_max_message_size :: "nat option"
  wc_max_frame_size :: "nat option"
  wc_accept_unmasked :: bool
  wc_protocols :: "string list"
  wc_write_buffer :: nat
  wc_max_write_buffer :: nat

definition ws_config_default :: ws_config where
  "ws_config_default =
     \<lparr>wc_max_message_size = Some (64 * 1024 * 1024), wc_max_frame_size = Some (16 * 1024 * 1024),
      wc_accept_unmasked = False, wc_protocols = [], wc_write_buffer = 128 * 1024,
      wc_max_write_buffer = 512 * 1024\<rparr>"

text \<open>The fields of tungstenite's configuration that are set; \<open>tc_rest\<close> keeps the crate's defaults.\<close>

record 'd t_config =
  tc_max_message_size :: "nat option"
  tc_max_frame_size :: "nat option"
  tc_accept_unmasked :: bool
  tc_write_buffer :: nat
  tc_max_write_buffer :: nat
  tc_rest :: 'd

definition to_tungstenite :: "'d \<Rightarrow> ws_config \<Rightarrow> 'd t_config" where
  "to_tungstenite d c =
     \<lparr>tc_max_message_size = wc_max_message_size c, tc_max_frame_size = wc_max_frame_size c,
      tc_accept_unmasked = wc_accept_unmasked c, tc_write_buffer = wc_write_buffer c,
      tc_max_write_buffer = wc_max_write_buffer c, tc_rest = d\<rparr>"

record 'u ws_upgrade =
  wu_on_upgrade :: 'u
  wu_accept_key :: string
  wu_selected :: "string option"
  wu_client_protocols :: "string list"
  wu_config :: ws_config

definition wu_max_message_size :: "nat \<Rightarrow> 'u ws_upgrade \<Rightarrow> 'u ws_upgrade" where
  "wu_max_message_size n self = self\<lparr>wu_config := (wu_config self)\<lparr>wc_max_message_size := Some n\<rparr>\<rparr>"

definition wu_max_frame_size :: "nat \<Rightarrow> 'u ws_upgrade \<Rightarrow> 'u ws_upgrade" where
  "wu_max_frame_size n self = self\<lparr>wu_config := (wu_config self)\<lparr>wc_max_frame_size := Some n\<rparr>\<rparr>"

definition wu_accept_unmasked :: "bool \<Rightarrow> 'u ws_upgrade \<Rightarrow> 'u ws_upgrade" where
  "wu_accept_unmasked b self = self\<lparr>wu_config := (wu_config self)\<lparr>wc_accept_unmasked := b\<rparr>\<rparr>"

definition wu_protocols :: "string list \<Rightarrow> 'u ws_upgrade \<Rightarrow> 'u ws_upgrade" where
  "wu_protocols our self =
     self\<lparr>wu_selected := List.find (\<lambda>cp. list_ex (\<lambda>op. op = cp) our) (wu_client_protocols self),
          wu_config := (wu_config self)\<lparr>wc_protocols := our\<rparr>\<rparr>"

datatype ws_rejection =
    MethodNotGet | ConnectionNotUpgrade | UpgradeNotWebSocket | MissingSecWebSocketKey
  | InvalidWebSocketVersionHeader | ConnectionNotUpgradable

definition quoted :: "string \<Rightarrow> string" where "quoted s = CHR 0x27 # s @ [CHR 0x27]"

fun show_ws_rejection :: "ws_rejection \<Rightarrow> string" where
  "show_ws_rejection MethodNotGet = ''WebSocket upgrade requires GET method''"
| "show_ws_rejection ConnectionNotUpgrade = ''Connection header must contain '' @ quoted ''upgrade''"
| "show_ws_rejection UpgradeNotWebSocket = ''Upgrade header must be '' @ quoted ''websocket''"
| "show_ws_rejection MissingSecWebSocketKey = ''Sec-WebSocket-Key header is missing''"
| "show_ws_rejection InvalidWebSocketVersionHeader = ''Sec-WebSocket-Version must be '' @ quoted ''13''"
| "show_ws_rejection ConnectionNotUpgradable =
     ''Connection is not upgradable '' @ [CHR 0xE2, CHR 0x80, CHR 0x94] @ '' ensure you're using serve_app()''"

fun ws_rejection_status :: "ws_rejection \<Rightarrow> nat" where
  "ws_rejection_status MethodNotGet = 405"
| "ws_rejection_status InvalidWebSocketVersionHeader = 426"
| "ws_rejection_status ConnectionNotUpgradable = 500"
| "ws_rejection_status ConnectionNotUpgrade = 400"
| "ws_rejection_status UpgradeNotWebSocket = 400"
| "ws_rejection_status MissingSecWebSocketKey = 400"

definition ws_rejection_response :: "'h http_lib \<Rightarrow> ws_rejection \<Rightarrow> 'h response" where
  "ws_rejection_response H e =
     (let st = ws_rejection_status e;
          bd = ''{\"error\":\"WebSocket upgrade failed\",\"reason\":\"'' @ show_ws_rejection e
                 @ ''\",\"code\":'' @ nat_to_string st @ ''}'';
          b = rb_header_str H ''content-type'' ''application/json'' (rb_with_status st (rb_new H));
          b = (if e = InvalidWebSocketVersionHeader then rb_header_str H ''sec-websocket-version'' ''13'' b else b)
      in rb_body H (BFull bd) b)"

text \<open>The text of a header, when it is there and readable.\<close>

definition header_text :: "'h http_lib \<Rightarrow> 'h \<Rightarrow> string \<Rightarrow> string option" where
  "header_text H h n = Option.bind (hm_get H h n) (hv_to_str H)"

definition ws_guid :: string where "ws_guid = ''258EAFA5-E914-47DA-95CA-C5AB0DC85B11''"

definition compute_accept_key :: "(string \<Rightarrow> string) \<Rightarrow> (string \<Rightarrow> string) \<Rightarrow> string \<Rightarrow> string" where
  "compute_accept_key sha base64 key = base64 (sha (key @ ws_guid))"

definition connection_ok :: "'h http_lib \<Rightarrow> 'h \<Rightarrow> bool" where
  "connection_ok H h =
     (case header_text H h ''connection'' of
        None \<Rightarrow> False
      | Some v \<Rightarrow> list_ex (\<lambda>t. eq_ignore_ascii_case (trim t) ''upgrade'') (split_on CHR '','' v))"

definition upgrade_ok :: "'h http_lib \<Rightarrow> 'h \<Rightarrow> bool" where
  "upgrade_ok H h =
     (case header_text H h ''upgrade'' of
        None \<Rightarrow> False
      | Some v \<Rightarrow> eq_ignore_ascii_case (trim v) ''websocket'')"

definition version_ok :: "'h http_lib \<Rightarrow> 'h \<Rightarrow> bool" where
  "version_ok H h =
     (case header_text H h ''sec-websocket-version'' of None \<Rightarrow> False | Some v \<Rightarrow> trim v = ''13'')"

definition offered_protocols :: "'h http_lib \<Rightarrow> 'h \<Rightarrow> string list" where
  "offered_protocols H h =
     (case header_text H h ''sec-websocket-protocol'' of
        None \<Rightarrow> []
      | Some v \<Rightarrow> filter (\<lambda>p. p \<noteq> []) (map trim (split_on CHR '','' v)))"

definition ws_from_request ::
  "'h http_lib \<Rightarrow> (string \<Rightarrow> string) \<Rightarrow> (string \<Rightarrow> string) \<Rightarrow> ('h request \<Rightarrow> 'u) \<Rightarrow> 'h request
   \<Rightarrow> ws_rejection + 'u ws_upgrade" where
  "ws_from_request H sha base64 upgrade_on req =
     (let h = req_headers req in
      if req_method req \<noteq> Get then Inl MethodNotGet
      else if \<not> connection_ok H h then Inl ConnectionNotUpgrade
      else if \<not> upgrade_ok H h then Inl UpgradeNotWebSocket
      else if \<not> version_ok H h then Inl InvalidWebSocketVersionHeader
      else case header_text H h ''sec-websocket-key'' of
             None \<Rightarrow> Inl MissingSecWebSocketKey
           | Some key \<Rightarrow>
               Inr \<lparr>wu_on_upgrade = upgrade_on req,
                    wu_accept_key = compute_accept_key sha base64 (trim key),
                    wu_selected = None, wu_client_protocols = offered_protocols H h,
                    wu_config = ws_config_default\<rparr>)"

text \<open>
  \<^verbatim>\<open>on_upgrade\<close> answers 101 and spawns a task.  The task waits for hyper: \<open>established\<close> is what the handle
  resolves to, \<open>accept\<close> builds the server side of the connection from it.
\<close>

record ('u, 'd) ws_task =
  wt_handle :: 'u
  wt_config :: "'d t_config"
  wt_protocol :: "string option"

definition on_upgrade_response :: "'h http_lib \<Rightarrow> 'u ws_upgrade \<Rightarrow> 'h outcome" where
  "on_upgrade_response H self =
     (let b = rb_header_str H ''connection'' ''upgrade'' (rb_with_status 101 (rb_new H));
          b = rb_header_str H ''upgrade'' ''websocket'' b;
          b = rb_header_str H ''sec-websocket-accept'' (wu_accept_key self) b;
          b = (case wu_selected self of
                 Some p \<Rightarrow> rb_header H ''sec-websocket-protocol''
                             (case hv_from_str H p of Some v \<Rightarrow> v | None \<Rightarrow> []) b
               | None \<Rightarrow> b)
      in builder_unwrap BEmpty b)"

definition on_upgrade :: "'h http_lib \<Rightarrow> 'd \<Rightarrow> 'u ws_upgrade \<Rightarrow> 'h outcome \<times> ('u, 'd) ws_task" where
  "on_upgrade H d self =
     (on_upgrade_response H self,
      \<lparr>wt_handle = wu_on_upgrade self, wt_config = to_tungstenite d (wu_config self),
       wt_protocol = wu_selected self\<rparr>)"

definition run_ws_task ::
  "('u \<Rightarrow> 'e + 'io) \<Rightarrow> ('io \<Rightarrow> 'd t_config \<Rightarrow> 'z) \<Rightarrow> ('z websocket \<Rightarrow> 'w \<Rightarrow> 'w) \<Rightarrow> ('u, 'd) ws_task \<Rightarrow> 'w \<Rightarrow> 'w" where
  "run_ws_task established accept callback t w =
     (case established (wt_handle t) of
        Inl e \<Rightarrow> w
      | Inr io \<Rightarrow> callback \<lparr>ws_inner = accept io (wt_config t), ws_protocol = wt_protocol t\<rparr> w)"

subsection \<open>Lemmas\<close>

text \<open>The code that a number stands for: \<open>Other\<close> only for numbers without a name.\<close>

fun canonical_code :: "close_code \<Rightarrow> close_code" where
  "canonical_code (Other n) = close_code_from_u16 n"
| "canonical_code c = c"

fun canonical_message :: "message \<Rightarrow> message" where
  "canonical_message (Close (Some f)) = Close (Some (f\<lparr>cf_code := canonical_code (cf_code f)\<rparr>))"
| "canonical_message m = m"

lemma close_code_from_to: "close_code_from_u16 (close_code_to_u16 c) = canonical_code c"
  by (cases c) (simp_all add: close_code_from_u16_def)

lemma close_code_to_from: "close_code_to_u16 (close_code_from_u16 n) = n"
  by (simp add: close_code_from_u16_def)

text \<open>Streams that come to an end: every message received brings the end nearer, and sending does not put it off.\<close>

locale draining =
  fixes W :: "('z, 't, 'e) ws_stream" and left :: "'z \<Rightarrow> nat"
  assumes next_drains: "st_next W z = (Some x, z') \<Longrightarrow> left z' < left z"
    and send_keeps: "st_send W m z = (r, z') \<Longrightarrow> left z' \<le> left z"
begin

lemma recv_loop_returns: "\<exists>r z'. recv_loop W T z = Some (r, z')"
proof (induction "left z" arbitrary: z rule: less_induct)
  case less
  show ?case
  proof (cases "st_next W z")
    case (Pair x z1)
    show ?thesis
    proof (cases x)
      case None
      with Pair show ?thesis by (subst recv_loop.simps) simp
    next
      case (Some y)
      with Pair next_drains have d: "left z1 < left z" by blast
      show ?thesis
      proof (cases y)
        case (Inl e)
        with Pair Some show ?thesis by (subst recv_loop.simps) simp
      next
        case (Inr m)
        show ?thesis
        proof (cases m)
          case (TPing p)
          obtain r z2 where s: "st_send W (TPong p) z1 = (r, z2)" by (cases "st_send W (TPong p) z1")
          with d send_keeps have "left z2 < left z" by fastforce
          with less have "\<exists>r z'. recv_loop W T z2 = Some (r, z')" by blast
          with Pair Some Inr TPing s show ?thesis by (subst recv_loop.simps) (auto split: sum.split)
        next
          case (TFrame f)
          from less d have "\<exists>r z'. recv_loop W T z1 = Some (r, z')" by blast
          with Pair Some Inr TFrame show ?thesis by (subst recv_loop.simps) simp
        qed (use Pair Some Inr in \<open>subst recv_loop.simps, simp\<close>)+
      qed
    qed
  qed
qed

end

lemma recv_loop_outcome:
  assumes "recv_loop W T z = Some y"
  shows "fst y \<noteq> Panics \<and> (\<forall>d. fst y \<noteq> Returns (Some (Inr (Ping d))))"
proof (rule recv_loop.raw_induct [OF _ assms])
  fix rec :: "('z, 't, 'e) ws_stream \<Rightarrow> 't code_lib \<Rightarrow> 'z \<Rightarrow> (('e + message) option panicking \<times> 'z) option"
    and W :: "('z, 't, 'e) ws_stream" and T :: "'t code_lib" and z :: 'z
    and y :: "('e + message) option panicking \<times> 'z"
  let ?P = "\<lambda>y. fst y \<noteq> Panics \<and> (\<forall>d. fst y \<noteq> Returns (Some (Inr (Ping d))))"
  assume rec: "\<And>W T z y. rec W T z = Some y \<Longrightarrow> ?P y"
    and step: "(case st_next W z of
        (None, z') \<Rightarrow> Some (Returns None, z')
      | (Some (Inl e), z') \<Rightarrow> Some (Returns (Some (Inl e)), z')
      | (Some (Inr m), z') \<Rightarrow>
          (case m of
             TPing d \<Rightarrow>
               (case st_send W (TPong d) z' of
                  (Inl e, z'') \<Rightarrow> Some (Returns (Some (Inl e)), z'')
                | (Inr _, z'') \<Rightarrow> rec W T z'')
           | TFrame _ \<Rightarrow> rec W T z'
           | _ \<Rightarrow> Some (case message_from_t T m of None \<Rightarrow> Panics | Some m' \<Rightarrow> Returns (Some (Inr m')), z'))) = Some y"
  show "?P y"
    using step rec
    by (auto split: prod.splits option.splits sum.splits t_message.splits)
qed

text \<open>A scripted stream: the messages still to come, those sent, and how many sends still succeed.\<close>

type_synonym 't script = "(string + 't t_message) list \<times> 't t_message list \<times> nat"

fun script_next :: "'t script \<Rightarrow> (string + 't t_message) option \<times> 't script" where
  "script_next ([], out, n) = (None, ([], out, n))"
| "script_next (x # xs, out, n) = (Some x, (xs, out, n))"

fun script_send :: "'t t_message \<Rightarrow> 't script \<Rightarrow> (string + unit) \<times> 't script" where
  "script_send m (xs, out, 0) = (Inl ''closed'', (xs, out, 0))"
| "script_send m (xs, out, Suc n) = (Inr (), (xs, out @ [m], n))"

definition script_stream :: "('t script, 't, string) ws_stream" where
  "script_stream = \<lparr>st_next = script_next, st_send = script_send, st_feed = script_send,
     st_flush = (\<lambda>z. (Inr (), z))\<rparr>"

interpretation script: draining "script_stream :: ('t script, 't, string) ws_stream" "\<lambda>z. length (fst z)"
proof
  fix z z' :: "'t script" and x m r
  show "length (fst z') < length (fst z)" if "st_next script_stream z = (Some x, z')"
    using that by (cases z rule: script_next.cases) (auto simp: script_stream_def)
  show "length (fst z') \<le> length (fst z)" if "st_send script_stream m z = (r, z')"
    using that by (cases "(m, z)" rule: script_send.cases) (auto simp: script_stream_def)
qed

lemmas script_draining = script.draining_axioms

text \<open>The pongs that answer a list of messages.\<close>

fun pongs :: "(string + 't t_message) list \<Rightarrow> 't t_message list" where
  "pongs [] = []"
| "pongs (Inr (TPing d) # xs) = TPong d # pongs xs"
| "pongs (_ # xs) = pongs xs"

fun skipped :: "string + 't t_message \<Rightarrow> bool" where
  "skipped (Inr (TPing d)) = True"
| "skipped (Inr (TFrame f)) = True"
| "skipped _ = False"

lemma recv_script:
  "list_all skipped pre \<Longrightarrow> length (pongs pre) \<le> n \<Longrightarrow>
   recv_loop script_stream T (pre @ rest, out, n) = recv_loop script_stream T (rest, out @ pongs pre, n - length (pongs pre))"
proof (induction pre arbitrary: out n)
  case (Cons x pre)
  then show ?case
    by (cases x rule: skipped.cases; cases n)
      (simp_all add: recv_loop.simps [of _ _ "(_ # _, _, _)"] script_stream_def)
qed simp

lemma offered_visible:
  assumes "header_map H" "p \<in> set (offered_protocols H h)"
  shows "list_all header_visible p"
proof -
  obtain v q where v: "header_text H h ''sec-websocket-protocol'' = Some v"
      and q: "q \<in> set (split_on CHR '','' v)" "p = trim q"
    using assms(2) by (cases "header_text H h ''sec-websocket-protocol''") (auto simp: offered_protocols_def)
  obtain x where "hv_to_str H x = Some v" using v by (auto simp: header_text_def bind_eq_Some_conv)
  then have "list_all header_visible v"
    by (simp add: header_map.to_str [OF assms(1)] split: if_splits)
  moreover have "set p \<subseteq> set v" using q split_on_subset set_trim by fastforce
  ultimately show ?thesis by (auto simp: list_all_iff)
qed

context header_map
begin

lemma on_upgrade_101:
  assumes "hv_from_str H (wu_accept_key u) = Some k"
  shows "\<exists>resp. on_upgrade_response H u = Done resp \<and> res_status resp = 101
    \<and> hm_get_all H (res_headers resp) ''sec-websocket-accept'' = [k]
    \<and> hm_get_all H (res_headers resp) ''sec-websocket-protocol'' =
        (case wu_selected u of None \<Rightarrow> []
         | Some p \<Rightarrow> [case hv_from_str H p of Some v \<Rightarrow> v | None \<Rightarrow> []])"
proof -
  have lits: "hv_from_str H ''upgrade'' = Some ''upgrade''" "hv_from_str H ''websocket'' = Some ''websocket''"
    by (simp_all add: from_str header_visible_def)
  show ?thesis
    by (cases "wu_selected u")
      (simp_all add: on_upgrade_response_def Let_def rb_defs lits assms get_all_simps)
qed

end

subsection \<open>Properties\<close>

text \<open>C35: Receiving from a socket ends.  On every connection whose incoming messages run out, whatever pings and raw
  frames it carries and however sends fail, \<open>recv\<close> returns; what it returns is never a ping, and it never
  reaches the panic on raw frames.\<close>

theorem socket_recv_returns:
  assumes "draining W left"
  shows "\<exists>r self'. socket_recv W T self = Some (r, self') \<and> ws_protocol self' = ws_protocol self
    \<and> r \<noteq> Panics \<and> (\<forall>d. r \<noteq> Returns (Some (Inr (Ping d))))"
proof -
  obtain r z where r: "recv_loop W T (ws_inner self) = Some (r, z)"
    using draining.recv_loop_returns [OF assms] by blast
  show ?thesis
    using recv_loop_outcome [OF r] r by (simp add: socket_recv_def)
qed

definition number_codes :: "u16 code_lib" where
  "number_codes = \<lparr>cc_to = id, cc_of = id\<rparr>"

theorem socket_recv_returns_witness:
  "\<exists>r self'. socket_recv script_stream number_codes
     \<lparr>ws_inner = ([Inr (TPing ''p''), Inr (TFrame ''f''), Inr (TText ''hi'')], [], 0), ws_protocol = None\<rparr> = Some (r, self')
     \<and> r \<noteq> Panics"
  using socket_recv_returns [OF script_draining, of number_codes
      "\<lparr>ws_inner = ([Inr (TPing ''p''), Inr (TFrame ''f''), Inr (TText ''hi'')], [], 0), ws_protocol = None\<rparr>"]
  by blast

text \<open>Pings are answered and hidden.  When pings and raw frames precede a message and the connection takes the
  answers, \<open>recv\<close> returns that message after sending one pong for each ping, with its payload and in
  order; everything after the message is left for the next call.\<close>

theorem socket_recv_auto_pong:
  assumes "list_all skipped pre" "length (pongs pre) \<le> n" "message_from_t T m = Some m'" "\<not> skipped (Inr m)"
  shows "socket_recv script_stream T \<lparr>ws_inner = (pre @ Inr m # rest, out, n), ws_protocol = p\<rparr>
    = Some (Returns (Some (Inr m')),
            \<lparr>ws_inner = (rest, out @ pongs pre, n - length (pongs pre)), ws_protocol = p\<rparr>)"
proof -
  have "recv_loop script_stream T (Inr m # rest, o', k) = Some (Returns (Some (Inr m')), (rest, o', k))" for o' k
    using assms(3,4) by (cases m) (auto simp: recv_loop.simps [of _ _ "(_ # _, _, _)"] script_stream_def)
  then show ?thesis
    by (simp add: socket_recv_def recv_script [OF assms(1,2)])
qed

theorem socket_recv_auto_pong_witness:
  "socket_recv script_stream number_codes
     \<lparr>ws_inner = ([Inr (TPing ''p''), Inr (TText ''hi'')], [], 5), ws_protocol = None\<rparr>
   = Some (Returns (Some (Inr (Text ''hi''))), \<lparr>ws_inner = ([], [TPong ''p''], 4), ws_protocol = None\<rparr>)"
  using socket_recv_auto_pong [of "[Inr (TPing ''p'')]" 5 number_codes "TText ''hi''" "Text ''hi''" "[]" "[]" None]
  by simp

text \<open>Messages survive the trip through tungstenite.  If its close codes keep the number they are made from, a
  message converted and converted back is the message, a close code given by a number that has a name coming back as
  the name; in particular messages that do not close the connection are unchanged.\<close>

theorem message_roundtrip:
  assumes "\<And>n. cc_to T (cc_of T n) = n"
  shows "message_from_t T (message_to_t T m) = Some (canonical_message m)
    \<and> (\<not> is_close m \<longrightarrow> canonical_message m = m)"
proof (cases m)
  case (Close f)
  then show ?thesis
    by (cases f) (simp_all add: close_frame_from_t_def close_frame_to_t_def close_code_from_t_def
        close_code_to_t_def assms close_code_from_to)
qed simp_all

theorem message_roundtrip_witness:
  "message_from_t number_codes (message_to_t number_codes (Close (Some (close_frame_new (Other 1001) ''bye''))))
   = Some (Close (Some (close_frame_new Away ''bye'')))"
  using message_roundtrip [of number_codes "Close (Some (close_frame_new (Other 1001) ''bye''))"]
  by (simp add: number_codes_def close_frame_new_def close_code_from_u16_def)

text \<open>C38: The handshake.  An upgrade is accepted exactly for a GET request that asks for it in \<open>Connection\<close>,
  \<open>Upgrade\<close> and version 13 and carries a readable key; the answer is 101 with the accept key derived from the
  trimmed key, and a subprotocol only when the client offered it and the server listed it.\<close>

theorem ws_handshake:
  assumes "header_map H" "\<And>x. list_all header_visible (b64e x)"
  shows "((\<exists>u. ws_from_request H sha b64e up req = Inr u) \<longleftrightarrow>
      req_method req = Get \<and> connection_ok H (req_headers req) \<and> upgrade_ok H (req_headers req)
      \<and> version_ok H (req_headers req) \<and> header_text H (req_headers req) ''sec-websocket-key'' \<noteq> None)
    \<and> (\<forall>u key. ws_from_request H sha b64e up req = Inr u
          \<and> header_text H (req_headers req) ''sec-websocket-key'' = Some key
      \<longrightarrow> (\<exists>resp. fst (on_upgrade H d (wu_protocols our u)) = Done resp \<and> res_status resp = 101
        \<and> hm_get_all H (res_headers resp) ''sec-websocket-accept'' = [b64e (sha (trim key @ ws_guid))]
        \<and> (case wu_selected (wu_protocols our u) of
             None \<Rightarrow> hm_get_all H (res_headers resp) ''sec-websocket-protocol'' = []
               \<and> set our \<inter> set (offered_protocols H (req_headers req)) = {}
           | Some p \<Rightarrow> hm_get_all H (res_headers resp) ''sec-websocket-protocol'' = [p]
               \<and> p \<in> set our \<inter> set (offered_protocols H (req_headers req)))))"
proof (intro conjI allI impI)
  show "(\<exists>u. ws_from_request H sha b64e up req = Inr u) \<longleftrightarrow>
      req_method req = Get \<and> connection_ok H (req_headers req) \<and> upgrade_ok H (req_headers req)
      \<and> version_ok H (req_headers req) \<and> header_text H (req_headers req) ''sec-websocket-key'' \<noteq> None"
    by (auto simp: ws_from_request_def Let_def split: option.split)
next
  fix u key
  assume uk: "ws_from_request H sha b64e up req = Inr u
    \<and> header_text H (req_headers req) ''sec-websocket-key'' = Some key"
  then have f: "wu_accept_key u = b64e (sha (trim key @ ws_guid))"
      "wu_client_protocols u = offered_protocols H (req_headers req)"
    by (auto simp: ws_from_request_def Let_def compute_accept_key_def split: if_splits)
  let ?sel = "wu_selected (wu_protocols our u)"
  have sel: "case ?sel of None \<Rightarrow> set our \<inter> set (offered_protocols H (req_headers req)) = {}
      | Some p \<Rightarrow> p \<in> set our \<inter> set (offered_protocols H (req_headers req))"
    by (auto simp: wu_protocols_def f list_ex_iff find_None_iff find_Some_iff split: option.split)
  have vis: "hv_from_str H p = Some p" if "?sel = Some p" for p
    using that offered_visible [OF assms(1), of p "req_headers req"]
    by (intro header_map.from_str [OF assms(1)]) (auto simp: wu_protocols_def f find_Some_iff nth_mem)
  have "hv_from_str H (wu_accept_key (wu_protocols our u)) = Some (b64e (sha (trim key @ ws_guid)))"
    using assms(2) by (simp add: wu_protocols_def f header_map.from_str [OF assms(1)])
  from header_map.on_upgrade_101 [OF assms(1) this] obtain resp where
    "on_upgrade_response H (wu_protocols our u) = Done resp" "res_status resp = 101"
    "hm_get_all H (res_headers resp) ''sec-websocket-accept'' = [b64e (sha (trim key @ ws_guid))]"
    "hm_get_all H (res_headers resp) ''sec-websocket-protocol'' =
       (case ?sel of None \<Rightarrow> [] | Some p \<Rightarrow> [case hv_from_str H p of Some v \<Rightarrow> v | None \<Rightarrow> []])"
    by blast
  with sel vis show "\<exists>resp. fst (on_upgrade H d (wu_protocols our u)) = Done resp \<and> res_status resp = 101
        \<and> hm_get_all H (res_headers resp) ''sec-websocket-accept'' = [b64e (sha (trim key @ ws_guid))]
        \<and> (case ?sel of
             None \<Rightarrow> hm_get_all H (res_headers resp) ''sec-websocket-protocol'' = []
               \<and> set our \<inter> set (offered_protocols H (req_headers req)) = {}
           | Some p \<Rightarrow> hm_get_all H (res_headers resp) ''sec-websocket-protocol'' = [p]
               \<and> p \<in> set our \<inter> set (offered_protocols H (req_headers req)))"
    by (cases ?sel) (auto simp: on_upgrade_def)
qed

theorem ws_handshake_witness:
  "\<exists>u. ws_from_request alist_lib id (\<lambda>_. ''key'') (\<lambda>_. ()) (sample_request Get ''/ws''
     [(''connection'', ''keep-alive, Upgrade''), (''upgrade'', ''websocket''), (''sec-websocket-version'', ''13''),
      (''sec-websocket-key'', ''abc'')]) = Inr u"
proof -
  let ?h = "[(''connection'', ''keep-alive, Upgrade''), (''upgrade'', ''websocket''),
      (''sec-websocket-version'', ''13''), (''sec-websocket-key'', ''abc'')]"
  have "connection_ok alist_lib ?h" "upgrade_ok alist_lib ?h" "version_ok alist_lib ?h"
      "header_text alist_lib ?h ''sec-websocket-key'' \<noteq> None"
    by code_simp+
  then show ?thesis
    using ws_handshake [OF alist_header_map, THEN conjunct1, of "\<lambda>_. ''key''" id "\<lambda>_. ()" "sample_request Get ''/ws'' ?h"]
    by (simp add: sample_request_def header_visible_def)
qed

text \<open>The server's order of subprotocols does not matter, although it is called a preference: the first
  protocol in the client's order that the server lists is selected.\<close>

theorem ws_protocol_order_ignored:
  assumes "set our = set our'"
  shows "wu_selected (wu_protocols our u) = wu_selected (wu_protocols our' u)"
proof -
  have "list_ex (\<lambda>op. op = cp) our = list_ex (\<lambda>op. op = cp) our'" for cp
    using assms by (simp add: list_ex_iff)
  then show ?thesis by (simp add: wu_protocols_def)
qed

theorem ws_protocol_order_ignored_witness:
  "wu_selected (wu_protocols [''json'', ''chat''] u0) = wu_selected (wu_protocols [''chat'', ''json''] u0)"
  by (rule ws_protocol_order_ignored) auto

text \<open>A request that is turned away gets the status of the first check it fails, and only a wrong version is
  told which one is spoken; that the connection itself cannot be upgraded is never reported here.\<close>

theorem ws_rejections:
  assumes "header_map H" "ws_from_request H sha b64e up req = Inl e"
  shows "e \<noteq> ConnectionNotUpgradable
    \<and> res_status (ws_rejection_response H e) =
        (if req_method req \<noteq> Get then 405
         else if \<not> connection_ok H (req_headers req) \<or> \<not> upgrade_ok H (req_headers req) then 400
         else if \<not> version_ok H (req_headers req) then 426 else 400)
    \<and> hm_get_all H (res_headers (ws_rejection_response H e)) ''sec-websocket-version'' =
        (if e = InvalidWebSocketVersionHeader then [''13''] else [])"
proof -
  have lits: "hv_from_str H ''application/json'' = Some ''application/json''" "hv_from_str H ''13'' = Some ''13''"
    by (simp_all add: header_map.from_str [OF assms(1)] header_visible_def)
  have r: "res_status (ws_rejection_response H e) = ws_rejection_status e"
    "hm_get_all H (res_headers (ws_rejection_response H e)) ''sec-websocket-version'' =
        (if e = InvalidWebSocketVersionHeader then [''13''] else [])"
    by (simp_all add: ws_rejection_response_def Let_def rb_defs lits header_map.get_all_simps [OF assms(1)])
  show ?thesis
    using assms(2) unfolding r by (auto simp: ws_from_request_def Let_def split: if_splits option.splits)
qed

theorem ws_rejections_witness:
  "res_status (ws_rejection_response alist_lib MethodNotGet) = 405"
  using ws_rejections [OF alist_header_map, of id id "\<lambda>_. ()" "sample_request Post ''/ws'' []" MethodNotGet]
  by (simp add: ws_from_request_def sample_defs)

end
