(* ===== verification/Middleware.thy ===== *)
theory Middleware
  imports Handlers
begin

text \<open>
  The smaller layers of arvik-middleware: security_headers.rs, request_id.rs, timeout.rs, catch_panic.rs,
  from_fn.rs with middleware_fn.rs and next.rs, map_request.rs, map_response.rs, map_body.rs and trace.rs.

  A layer is a record of its configuration with a \<open>_call\<close> that wraps the inner service, as in the other
  middleware theories.  Two layers look inside the future of the inner service and have their own view of it:
  \<open>TimeoutLayer\<close> polls it (\<open>poll\<close>), and \<open>CatchPanicLayer\<close> distinguishes a panic of the call from one of the
  future (\<open>phased_service\<close>).  Random identifiers, conversions and the tracing subscriber are parameters.
\<close>

subsection \<open>Setting headers\<close>

datatype header_mode = IfNotPresent | Overriding | Appending

record set_header_layer =
  sh_name :: string
  sh_value :: string
  sh_mode :: header_mode

text \<open>The constructors panic on a name or value that does not convert; \<open>None\<close> is the panic.\<close>

definition set_header_new ::
  "('n \<Rightarrow> string option) \<Rightarrow> ('v \<Rightarrow> string option) \<Rightarrow> header_mode \<Rightarrow> 'n \<Rightarrow> 'v \<Rightarrow> set_header_layer option" where
  "set_header_new try_name try_value m n v =
     (case (try_name n, try_value v) of
        (Some name, Some val) \<Rightarrow> Some \<lparr>sh_name = name, sh_value = val, sh_mode = m\<rparr>
      | _ \<Rightarrow> None)"

definition res_if_not_present ::
  "('n \<Rightarrow> string option) \<Rightarrow> ('v \<Rightarrow> string option) \<Rightarrow> 'n \<Rightarrow> 'v \<Rightarrow> set_header_layer option" where
  "res_if_not_present tn tv n v = set_header_new tn tv IfNotPresent n v"

definition res_overriding ::
  "('n \<Rightarrow> string option) \<Rightarrow> ('v \<Rightarrow> string option) \<Rightarrow> 'n \<Rightarrow> 'v \<Rightarrow> set_header_layer option" where
  "res_overriding tn tv n v = set_header_new tn tv Overriding n v"

definition res_appending ::
  "('n \<Rightarrow> string option) \<Rightarrow> ('v \<Rightarrow> string option) \<Rightarrow> 'n \<Rightarrow> 'v \<Rightarrow> set_header_layer option" where
  "res_appending tn tv n v = set_header_new tn tv Appending n v"

definition req_if_not_present ::
  "('n \<Rightarrow> string option) \<Rightarrow> ('v \<Rightarrow> string option) \<Rightarrow> 'n \<Rightarrow> 'v \<Rightarrow> set_header_layer option" where
  "req_if_not_present tn tv n v = set_header_new tn tv IfNotPresent n v"

definition req_overriding ::
  "('n \<Rightarrow> string option) \<Rightarrow> ('v \<Rightarrow> string option) \<Rightarrow> 'n \<Rightarrow> 'v \<Rightarrow> set_header_layer option" where
  "req_overriding tn tv n v = set_header_new tn tv Overriding n v"

text \<open>\<^verbatim>\<open>entry(name).or_insert(value)\<close>\<close>

definition or_insert :: "'h http_lib \<Rightarrow> string \<Rightarrow> string \<Rightarrow> 'h \<Rightarrow> 'h" where
  "or_insert H n v h = (if hm_contains_key H h n then h else hm_insert H h n v)"

fun apply_mode :: "'h http_lib \<Rightarrow> header_mode \<Rightarrow> string \<Rightarrow> string \<Rightarrow> 'h \<Rightarrow> 'h" where
  "apply_mode H IfNotPresent n v h = or_insert H n v h"
| "apply_mode H Overriding n v h = hm_insert H h n v"
| "apply_mode H Appending n v h = hm_append H h n v"

definition set_response_header_call :: "'h http_lib \<Rightarrow> set_header_layer \<Rightarrow> ('h, 'w) layer" where
  "set_response_header_call H L inner req w =
     then_response (\<lambda>resp. resp\<lparr>res_headers := apply_mode H (sh_mode L) (sh_name L) (sh_value L) (res_headers resp)\<rparr>)
       (inner req w)"

definition set_request_header_call :: "'h http_lib \<Rightarrow> set_header_layer \<Rightarrow> ('h, 'w) layer" where
  "set_request_header_call H L inner req w =
     inner (req\<lparr>req_headers := apply_mode H (sh_mode L) (sh_name L) (sh_value L) (req_headers req)\<rparr>) w"

text \<open>\<^verbatim>\<open>SensitiveHeadersLayer\<close>\<close>

definition sensitive_headers_call :: "string list \<Rightarrow> ('h, 'w) layer" where
  "sensitive_headers_call headers inner req w =
     inner (req\<lparr>req_ext := (req_ext req)\<lparr>ext_sensitive := Some headers\<rparr>\<rparr>) w"

subsection \<open>Security headers\<close>

record security_headers_layer =
  shl_csp :: "string option"
  shl_hsts_max_age :: u64
  shl_frame_options :: string

definition quote_word :: "string \<Rightarrow> string" where "quote_word s = CHR 0x27 # s @ [CHR 0x27]"

definition security_headers_default :: security_headers_layer where
  "security_headers_default =
     \<lparr>shl_csp = Some (''default-src '' @ quote_word ''self'' @ ''; script-src '' @ quote_word ''self''
        @ ''; style-src '' @ quote_word ''self'' @ '' '' @ quote_word ''unsafe-inline'' @ ''; img-src ''
        @ quote_word ''self'' @ '' data:; font-src '' @ quote_word ''self'' @ ''; connect-src '' @ quote_word ''self''
        @ ''; frame-ancestors '' @ quote_word ''none''),
      shl_hsts_max_age = 31536000, shl_frame_options = ''DENY''\<rparr>"

definition shl_content_security_policy :: "string \<Rightarrow> security_headers_layer \<Rightarrow> security_headers_layer" where
  "shl_content_security_policy csp self = self\<lparr>shl_csp := Some csp\<rparr>"

definition shl_no_content_security_policy :: "security_headers_layer \<Rightarrow> security_headers_layer" where
  "shl_no_content_security_policy self = self\<lparr>shl_csp := None\<rparr>"

definition shl_set_hsts_max_age :: "u64 \<Rightarrow> security_headers_layer \<Rightarrow> security_headers_layer" where
  "shl_set_hsts_max_age secs self = self\<lparr>shl_hsts_max_age := secs\<rparr>"

definition shl_set_frame_options :: "string \<Rightarrow> security_headers_layer \<Rightarrow> security_headers_layer" where
  "shl_set_frame_options v self = self\<lparr>shl_frame_options := v\<rparr>"

definition security_header_texts :: "security_headers_layer \<Rightarrow> (string \<times> string) list" where
  "security_header_texts self =
     [(''x-frame-options'', shl_frame_options self),
      (''x-content-type-options'', ''nosniff''),
      (''x-xss-protection'', ''1; mode=block''),
      (''strict-transport-security'',
         ''max-age='' @ nat_to_string (unat (shl_hsts_max_age self)) @ ''; includeSubDomains''),
      (''referrer-policy'', ''strict-origin-when-cross-origin''),
      (''permissions-policy'', ''geolocation=(), microphone=(), camera=(), payment=()'')]
     @ (case shl_csp self of Some csp \<Rightarrow> [(''content-security-policy'', csp)] | None \<Rightarrow> [])"

text \<open>\<^verbatim>\<open>layer\<close>: values that do not convert are left out.\<close>

definition security_header_list :: "'h http_lib \<Rightarrow> security_headers_layer \<Rightarrow> (string \<times> string) list" where
  "security_header_list H self =
     List.map_filter (\<lambda>(n, s). map_option (Pair n) (hv_from_str H s)) (security_header_texts self)"

definition security_headers_call :: "'h http_lib \<Rightarrow> security_headers_layer \<Rightarrow> ('h, 'w) layer" where
  "security_headers_call H self inner req w =
     then_response (\<lambda>resp. resp\<lparr>res_headers :=
         fold (\<lambda>(n, v) h. or_insert H n v h) (security_header_list H self) (res_headers resp)\<rparr>)
       (inner req w)"

subsection \<open>Request identifiers\<close>

text \<open>\<open>fresh\<close> is \<^verbatim>\<open>Uuid::new_v4().to_string()\<close>: it takes the world and returns an identifier and the new world.\<close>

definition request_id_call :: "'h http_lib \<Rightarrow> ('w \<Rightarrow> string \<times> 'w) \<Rightarrow> ('h, 'w) layer" where
  "request_id_call H fresh inner req w =
     (let (rid, w) = (case Option.bind (hm_get H (req_headers req) ''x-request-id'') (hv_to_str H) of
                        Some s \<Rightarrow> (s, w)
                      | None \<Rightarrow> fresh w);
          header = hv_from_str H rid;
          req = req\<lparr>req_ext := (req_ext req)\<lparr>ext_request_id := Some rid\<rparr>\<rparr>;
          req = (case header of
                   Some v \<Rightarrow> req\<lparr>req_headers := hm_insert H (req_headers req) ''x-request-id'' v\<rparr>
                 | None \<Rightarrow> req)
      in then_response (\<lambda>resp. case header of
             Some v \<Rightarrow> resp\<lparr>res_headers := hm_insert H (res_headers resp) ''x-request-id'' v\<rparr>
           | None \<Rightarrow> resp) (inner req w))"

definition propagate_request_id_call :: "'h http_lib \<Rightarrow> ('h, 'w) layer" where
  "propagate_request_id_call H inner req w =
     (let incoming = hm_get H (req_headers req) ''x-request-id''
      in then_response (\<lambda>resp. case incoming of
             Some v \<Rightarrow> resp\<lparr>res_headers := hm_insert H (res_headers resp) ''x-request-id'' v\<rparr>
           | None \<Rightarrow> resp) (inner req w))"

subsection \<open>Timeouts\<close>

text \<open>A future polled by an executor: \<open>Ready\<close> with its result, or \<open>Pending\<close>.\<close>

datatype 'a poll = Ready 'a | Pending

definition timeout_response :: "'h http_lib \<Rightarrow> nat \<Rightarrow> 'h outcome" where
  "timeout_response H ms =
     builder_unwrap (BFull (''{\"error\":\"Request Timeout\",\"code\":408,\"message\":\"Request exceeded the ''
         @ nat_to_string ms @ ''ms time limit\"}''))
       (rb_header_str H ''content-type'' ''application/json'' (rb_with_status 408 (rb_new H)))"

text \<open>
  One poll of the timeout's future.  \<open>fut\<close> polls the handler; \<open>elapsed\<close> polls the timer.  The handler comes
  first, so its state changes also in the poll that times out; after that it is dropped.
\<close>

definition timeout_poll ::
  "'h http_lib \<Rightarrow> nat \<Rightarrow> ('f \<Rightarrow> 'h outcome poll \<times> 'f) \<Rightarrow> bool \<Rightarrow> 'f \<Rightarrow> 'h outcome poll \<times> 'f" where
  "timeout_poll H ms fut elapsed f =
     (case fut f of
        (Ready r, f') \<Rightarrow> (Ready r, f')
      | (Pending, f') \<Rightarrow> if elapsed then (Ready (timeout_response H ms), f') else (Pending, f'))"

text \<open>The executor polls until the future is ready; \<open>ticks\<close> says at each poll whether the timer has run out.\<close>

fun timeout_run ::
  "'h http_lib \<Rightarrow> nat \<Rightarrow> ('f \<Rightarrow> 'h outcome poll \<times> 'f) \<Rightarrow> bool list \<Rightarrow> 'f \<Rightarrow> 'h outcome poll \<times> 'f" where
  "timeout_run H ms fut [] f = (Pending, f)"
| "timeout_run H ms fut (elapsed # ticks) f =
     (case timeout_poll H ms fut elapsed f of
        (Ready r, f') \<Rightarrow> (Ready r, f')
      | (Pending, f') \<Rightarrow> timeout_run H ms fut ticks f')"

subsection \<open>Catching panics\<close>

text \<open>
  A service whose call and future are told apart: the call itself may panic (\<open>Inl\<close>), or return a future, which
  ends with an outcome.  \<open>catch_unwind\<close> wraps the future that the call returned.
\<close>

type_synonym ('h, 'w) phased_service =
  "'h request \<Rightarrow> 'w \<Rightarrow> (string + ('w \<Rightarrow> 'h outcome \<times> 'w)) \<times> 'w"

definition default_panic_response :: "'h http_lib \<Rightarrow> 'h outcome" where
  "default_panic_response H =
     builder_unwrap (BFull ''{\"error\":\"Internal Server Error\",\"code\":500}'')
       (rb_header_str H ''content-type'' ''application/json'' (rb_with_status 500 (rb_new H)))"

definition catch_panic_call ::
  "'h http_lib \<Rightarrow> ('w \<Rightarrow> 'h outcome \<times> 'w) option \<Rightarrow> ('h, 'w) phased_service \<Rightarrow> ('h, 'w) service" where
  "catch_panic_call H panic_handler inner req w =
     (case inner req w of
        (Inl msg, w') \<Rightarrow> (Panicked msg, w')
      | (Inr fut, w') \<Rightarrow>
          (case fut w' of
             (Done resp, w'') \<Rightarrow> (Done resp, w'')
           | (Panicked msg, w'') \<Rightarrow>
               (case panic_handler of
                  Some handler \<Rightarrow> handler w''
                | None \<Rightarrow> (default_panic_response H, w''))))"

text \<open>A service that does all its work in its future, as handlers and the boxed services of the framework do.\<close>

definition async_service :: "('h, 'w) service \<Rightarrow> ('h, 'w) phased_service" where
  "async_service s req w = (Inr (s req), w)"

subsection \<open>Middleware functions\<close>

text \<open>\<^verbatim>\<open>Next\<close> is the rest of the stack, run at most once since running consumes it.\<close>

type_synonym ('h, 'w) next_service = "('h, 'w) service"

definition next_run :: "('h, 'w) next_service \<Rightarrow> ('h, 'w) service" where
  "next_run nxt req w = nxt req w"

definition middleware_fn_call ::
  "('h, 's, 'w, 'h response, 'v) parts_extractor list
   \<Rightarrow> ('v list \<Rightarrow> 'h request \<Rightarrow> ('h, 'w) next_service \<Rightarrow> 'w \<Rightarrow> 'h outcome \<times> 'w)
   \<Rightarrow> 'h request \<Rightarrow> 's \<Rightarrow> ('h, 'w) next_service \<Rightarrow> 'w \<Rightarrow> 'h outcome \<times> 'w" where
  "middleware_fn_call exs f req st nxt w =
     (let (parts, bd) = into_request_parts req in
      case run_extractors exs parts st w of
        (Inl rejection, _, w') \<Rightarrow> (Done rejection, w')
      | (Inr vs, parts', w') \<Rightarrow> f vs (from_request_parts parts' bd) nxt w')"

definition from_fn_call ::
  "('h request \<Rightarrow> 's \<Rightarrow> ('h, 'w) next_service \<Rightarrow> 'w \<Rightarrow> 'h outcome \<times> 'w) \<Rightarrow> 's \<Rightarrow> ('h, 'w) layer" where
  "from_fn_call f st inner req w = f req st inner w"

subsection \<open>Mapping requests, responses and bodies\<close>

definition map_request_call :: "('h request \<Rightarrow> 'w \<Rightarrow> 'h request \<times> 'w) \<Rightarrow> ('h, 'w) layer" where
  "map_request_call f inner req w = (let (req', w') = f req w in inner req' w')"

definition map_request_with_state_call ::
  "'s \<Rightarrow> ('s \<Rightarrow> 'h request \<Rightarrow> 'w \<Rightarrow> 'h request \<times> 'w) \<Rightarrow> ('h, 'w) layer" where
  "map_request_with_state_call st f inner req w = (let (req', w') = f st req w in inner req' w')"

definition map_response_call :: "('h response \<Rightarrow> 'w \<Rightarrow> 'h response \<times> 'w) \<Rightarrow> ('h, 'w) layer" where
  "map_response_call f inner req w =
     (case inner req w of
        (Done resp, w') \<Rightarrow> (let (resp', w'') = f resp w' in (Done resp', w''))
      | (Panicked m, w') \<Rightarrow> (Panicked m, w'))"

definition map_response_with_state_call ::
  "'s \<Rightarrow> ('s \<Rightarrow> 'h response \<Rightarrow> 'w \<Rightarrow> 'h response \<times> 'w) \<Rightarrow> ('h, 'w) layer" where
  "map_response_with_state_call st f inner req w =
     (case inner req w of
        (Done resp, w') \<Rightarrow> (let (resp', w'') = f st resp w' in (Done resp', w''))
      | (Panicked m, w') \<Rightarrow> (Panicked m, w'))"

text \<open>The bytes of a body, no bytes when reading fails.\<close>

definition bytes_or_empty :: "body \<Rightarrow> string" where
  "bytes_or_empty b = (case to_bytes b of Inl e \<Rightarrow> [] | Inr bs \<Rightarrow> bs)"

text \<open>Refresh a content length that is there; the decimal form of a length always is a header value.\<close>

definition refresh_length :: "'h http_lib \<Rightarrow> nat \<Rightarrow> 'h \<Rightarrow> 'h option" where
  "refresh_length H n h =
     (if hm_contains_key H h ''content-length''
      then map_option (hm_insert H h ''content-length'') (hv_from_str H (nat_to_string n))
      else Some h)"

definition expect_message :: string where
  "expect_message = ''Content-Length from usize is a valid header value''"

definition map_request_body_call :: "'h http_lib \<Rightarrow> (string \<Rightarrow> string) \<Rightarrow> ('h, 'w) layer" where
  "map_request_body_call H f inner req w =
     (let (parts, bd) = into_request_parts req;
          transformed = f (bytes_or_empty bd)
      in case refresh_length H (length transformed) (rp_headers parts) of
           None \<Rightarrow> (Panicked expect_message, w)
         | Some h \<Rightarrow> inner (from_request_parts (parts\<lparr>rp_headers := h\<rparr>) (BFull transformed)) w)"

definition map_response_body_call :: "'h http_lib \<Rightarrow> (string \<Rightarrow> string) \<Rightarrow> ('h, 'w) layer" where
  "map_response_body_call H f inner req w =
     (case inner req w of
        (Panicked m, w') \<Rightarrow> (Panicked m, w')
      | (Done resp, w') \<Rightarrow>
          (let transformed = f (bytes_or_empty (res_body resp))
           in case refresh_length H (length transformed) (res_headers resp) of
                None \<Rightarrow> (Panicked expect_message, w')
              | Some h \<Rightarrow> (Done (resp\<lparr>res_headers := h, res_body := BFull transformed\<rparr>), w')))"

subsection \<open>Tracing\<close>

text \<open>
  \<open>enabled\<close> is the subscriber's filter; a span that is filtered out is \<open>None\<close>.  The layer's output is what it
  records: the span and the event of the response.  The version and the elapsed time, in nanoseconds, of the
  exchange are arguments; \<open>fixed3\<close> prints seconds with three decimals.
\<close>

datatype latency_unit = Millis | Micros | Seconds

definition format_latency :: "(nat \<Rightarrow> string) \<Rightarrow> latency_unit \<Rightarrow> nat \<Rightarrow> string" where
  "format_latency fixed3 unit elapsed =
     (case unit of
        Millis \<Rightarrow> nat_to_string (elapsed div 1000000) @ ''ms''
      | Micros \<Rightarrow> nat_to_string (elapsed div 1000) @ [CHR 0xC2, CHR 0xB5] @ ''s''
      | Seconds \<Rightarrow> fixed3 elapsed @ ''s'')"

datatype trace_level = LError | LWarn | LInfo | LDebug | LTrace

record make_span =
  ms_level :: trace_level
  ms_include_headers :: bool

definition make_span_default :: make_span where
  "make_span_default = \<lparr>ms_level = LInfo, ms_include_headers = False\<rparr>"

definition ms_set_level :: "trace_level \<Rightarrow> make_span \<Rightarrow> make_span" where
  "ms_set_level l self = self\<lparr>ms_level := l\<rparr>"

definition ms_set_include_headers :: "bool \<Rightarrow> make_span \<Rightarrow> make_span" where
  "ms_set_include_headers b self = self\<lparr>ms_include_headers := b\<rparr>"

record trace_span =
  ts_level :: trace_level
  ts_method :: string
  ts_path :: string
  ts_version :: string
  ts_headers :: "string option"

text \<open>\<^verbatim>\<open>HeaderMap::iter\<close>: the pairs of \<^verbatim>\<open>into_iter\<close>, the name repeated for further values.\<close>

fun named_pairs :: "string \<Rightarrow> (string option \<times> string) list \<Rightarrow> (string \<times> string) list" where
  "named_pairs n [] = []"
| "named_pairs n ((Some k, v) # rest) = (k, v) # named_pairs k rest"
| "named_pairs n ((None, v) # rest) = (n, v) # named_pairs n rest"

definition header_dump :: "'h http_lib \<Rightarrow> 'h \<Rightarrow> string" where
  "header_dump H h =
     join_with ''; '' (map (\<lambda>(n, v). n @ ''='' @ (case hv_to_str H v of Some s \<Rightarrow> s | None \<Rightarrow> ''?''))
       (named_pairs [] (hm_into_iter H h)))"

definition make_request_span ::
  "'h http_lib \<Rightarrow> (trace_level \<Rightarrow> bool) \<Rightarrow> make_span \<Rightarrow> string \<Rightarrow> 'h request \<Rightarrow> trace_span option" where
  "make_request_span H enabled self version req =
     (if \<not> enabled (ms_level self) then None
      else Some \<lparr>ts_level = ms_level self, ts_method = method_as_str (req_method req),
             ts_path = uri_path (req_uri req), ts_version = version,
             ts_headers = (if ms_include_headers self then Some (header_dump H (req_headers req)) else None)\<rparr>)"

record trace_layer =
  tl_make_span :: make_span
  tl_latency_unit :: latency_unit
  tl_log_on_failure :: bool

definition trace_layer_default :: trace_layer where
  "trace_layer_default = \<lparr>tl_make_span = make_span_default, tl_latency_unit = Millis, tl_log_on_failure = True\<rparr>"

definition tl_make_span_with :: "make_span \<Rightarrow> trace_layer \<Rightarrow> trace_layer" where
  "tl_make_span_with m self = self\<lparr>tl_make_span := m\<rparr>"

definition tl_set_latency_unit :: "latency_unit \<Rightarrow> trace_layer \<Rightarrow> trace_layer" where
  "tl_set_latency_unit u self = self\<lparr>tl_latency_unit := u\<rparr>"

definition tl_log_failures :: "bool \<Rightarrow> trace_layer \<Rightarrow> trace_layer" where
  "tl_log_failures b self = self\<lparr>tl_log_on_failure := b\<rparr>"

record trace_event =
  te_span :: trace_span
  te_level :: trace_level
  te_status :: nat
  te_latency :: string

definition trace_event_of :: "(nat \<Rightarrow> string) \<Rightarrow> trace_layer \<Rightarrow> nat \<Rightarrow> nat \<Rightarrow> trace_span \<Rightarrow> trace_event" where
  "trace_event_of fixed3 L elapsed status sp =
     \<lparr>te_span = sp,
      te_level = (if 500 \<le> status \<and> status < 600 \<and> tl_log_on_failure L then LError
                  else if 400 \<le> status \<and> status < 500 then LWarn else LInfo),
      te_status = status, te_latency = format_latency fixed3 (tl_latency_unit L) elapsed\<rparr>"

definition trace_call ::
  "'h http_lib \<Rightarrow> (trace_level \<Rightarrow> bool) \<Rightarrow> (nat \<Rightarrow> string) \<Rightarrow> trace_layer \<Rightarrow> string \<Rightarrow> nat
   \<Rightarrow> ('h, 'w) service \<Rightarrow> 'h request \<Rightarrow> 'w \<Rightarrow> ('h outcome \<times> 'w) \<times> trace_event option" where
  "trace_call H enabled fixed3 L version elapsed inner req w =
     (let sp = make_request_span H enabled (tl_make_span L) version req;
          res = inner req w
      in (res, case (fst res, sp) of
                 (Done resp, Some s) \<Rightarrow> Some (trace_event_of fixed3 L elapsed (res_status resp) s)
               | _ \<Rightarrow> None))"

subsection \<open>Lemmas\<close>

context header_map
begin

lemma or_insert_get_all:
  "hm_get_all H (or_insert H n v h) m =
     (if m = n \<and> hm_get_all H h n = [] then [v] else hm_get_all H h m)"
  by (auto simp: or_insert_def contains_key get_all_insert)

lemma or_insert_fold:
  "hm_get_all H (fold (\<lambda>(n, v) h. or_insert H n v h) ps h) m =
     (if hm_get_all H h m \<noteq> [] then hm_get_all H h m
      else case map_of ps m of Some v \<Rightarrow> [v] | None \<Rightarrow> [])"
proof (induction ps arbitrary: h)
  case (Cons p ps)
  then show ?case by (cases p) (simp add: or_insert_get_all split: option.split)
qed simp

lemma length_value: "hv_from_str H (nat_to_string n) = Some (nat_to_string n)"
  by (rule from_str) (rule nat_to_string_visible)

end

lemma security_texts_distinct: "distinct (map fst (security_header_texts self))"
  by (simp add: security_header_texts_def split: option.split)

lemma security_list_map_of:
  "map_of (security_header_list H self) n = Option.bind (map_of (security_header_texts self) n) (hv_from_str H)"
proof -
  have "distinct (map fst ps) \<Longrightarrow>
      map_of (List.map_filter (\<lambda>(n, s). map_option (Pair n) (hv_from_str H s)) ps) n
        = Option.bind (map_of ps n) (hv_from_str H)" for ps
  proof (induction ps)
    case (Cons p ps)
    have "n \<notin> fst ` set ps \<Longrightarrow> map_of (List.map_filter (\<lambda>(n, s). map_option (Pair n) (hv_from_str H s)) ps) n = None"
      by (force simp: map_of_eq_None_iff List.map_filter_def split: option.splits)
    with Cons show ?case
      by (cases p) (auto simp: List.map_filter_simps split: option.splits)
  qed (simp add: List.map_filter_simps)
  then show ?thesis using security_texts_distinct by (simp add: security_header_list_def)
qed

text \<open>The timeout while neither side is ready, and when the timer runs out.\<close>

lemma timeout_run_append:
  "timeout_run H ms fut (xs @ ys) f =
     (case timeout_run H ms fut xs f of
        (Ready r, f') \<Rightarrow> (Ready r, f') | (Pending, f') \<Rightarrow> timeout_run H ms fut ys f')"
  by (induction xs arbitrary: f) (auto split: prod.split poll.split)

lemma timeout_run_elapsed: "\<exists>r f'. timeout_run H ms fut (xs @ True # ys) f = (Ready r, f')"
  by (auto simp: timeout_run_append timeout_poll_def split: prod.split poll.split)

text \<open>The handler alone, polled \<open>n\<close> times while it is pending.\<close>

fun poll_n :: "('f \<Rightarrow> 'a poll \<times> 'f) \<Rightarrow> nat \<Rightarrow> 'f \<Rightarrow> 'a poll \<times> 'f" where
  "poll_n fut 0 f = (Pending, f)"
| "poll_n fut (Suc n) f = (case fut f of (Ready r, f') \<Rightarrow> (Ready r, f') | (Pending, f') \<Rightarrow> poll_n fut n f')"

lemma timeout_run_pending:
  "timeout_run H ms fut (replicate n False) f = poll_n fut n f"
  by (induction n arbitrary: f) (auto simp: timeout_poll_def split: prod.split poll.split)

lemma timeout_run_exact:
  "timeout_run H ms fut (replicate n False @ True # ys) f =
     (case poll_n fut (Suc n) f of
        (Ready r, f') \<Rightarrow> (Ready r, f') | (Pending, f') \<Rightarrow> (Ready (timeout_response H ms), f'))"
  by (induction n arbitrary: f) (auto simp: timeout_poll_def split: prod.split poll.split)

subsection \<open>Properties\<close>

text \<open>The security headers.  Every answer of the inner service gets each header of the suite whose value is a
  header value, unless it already has that header: then its values are kept.  Nothing else of the answer changes,
  and a panic goes through.\<close>

theorem security_headers_exact:
  assumes "header_map H" "inner req w = (Done resp, w')"
  shows "\<exists>resp'. security_headers_call H self inner req w = (Done resp', w')
    \<and> res_status resp' = res_status resp \<and> res_body resp' = res_body resp
    \<and> hm_get_all H (res_headers resp') n =
        (if hm_get_all H (res_headers resp) n \<noteq> [] then hm_get_all H (res_headers resp) n
         else case Option.bind (map_of (security_header_texts self) n) (hv_from_str H) of Some v \<Rightarrow> [v] | None \<Rightarrow> [])"
  using assms
  by (simp add: security_headers_call_def header_map.or_insert_fold security_list_map_of)

theorem security_headers_exact_witness:
  "\<exists>resp'. security_headers_call alist_lib (shl_no_content_security_policy security_headers_default)
      (\<lambda>r w. (Done (sample_response 200 [] ''ok''), w)) (sample_request Get ''/'' []) (0::nat) = (Done resp', 0)
    \<and> hm_get_all alist_lib (res_headers resp') ''x-frame-options'' = [''DENY'']"
  using security_headers_exact [OF alist_header_map, of "\<lambda>r w. (Done (sample_response 200 [] ''ok''), w)"
      "sample_request Get ''/'' []" "0::nat" "sample_response 200 [] ''ok''" 0
      "shl_no_content_security_policy security_headers_default" "''x-frame-options''"]
  by (auto simp: security_header_texts_def shl_no_content_security_policy_def security_headers_default_def
      alist_sel header_visible_def sample_response_def alist_get_all_def)

text \<open>One identifier for a request.  The inner service finds in its extensions the identifier the client sent
  when that is readable, or else a fresh one; a header of that name on the way in and on the way out carries the
  same identifier, and only it.\<close>

theorem request_id_consistent:
  assumes "header_map H" "\<And>w. list_all header_visible (fst (fresh w))"
  shows "\<exists>rid w1. request_id_call H fresh inner req w =
        then_response (\<lambda>resp. resp\<lparr>res_headers := hm_insert H (res_headers resp) ''x-request-id'' rid\<rparr>)
          (inner (req\<lparr>req_ext := (req_ext req)\<lparr>ext_request_id := Some rid\<rparr>,
             req_headers := hm_insert H (req_headers req) ''x-request-id'' rid\<rparr>) w1)
    \<and> (\<forall>h. hm_get_all H (hm_insert H h ''x-request-id'' rid) ''x-request-id'' = [rid])
    \<and> (case Option.bind (hm_get H (req_headers req) ''x-request-id'') (hv_to_str H) of
         Some s \<Rightarrow> rid = s \<and> w1 = w | None \<Rightarrow> (rid, w1) = fresh w)"
proof (cases "Option.bind (hm_get H (req_headers req) ''x-request-id'') (hv_to_str H)")
  case None
  obtain rid w1 where f: "fresh w = (rid, w1)" by (cases "fresh w")
  then have "hv_from_str H rid = Some rid"
    using assms(2) [of w] by (simp add: header_map.from_str [OF assms(1)])
  with None f show ?thesis
    by (simp add: request_id_call_def header_map.get_all_simps [OF assms(1)])
next
  case (Some s)
  then have "list_all header_visible s"
    by (auto simp: bind_eq_Some_conv header_map.to_str [OF assms(1)] split: if_splits)
  then have "hv_from_str H s = Some s" by (rule header_map.from_str [OF assms(1)])
  with Some show ?thesis
    by (simp add: request_id_call_def header_map.get_all_simps [OF assms(1)])
qed

theorem request_id_consistent_witness:
  "\<exists>rid w1. rid = ''abc'' \<and> w1 = (0::nat)
     \<and> request_id_call alist_lib (\<lambda>w. (''id'', Suc w)) counting_service
         (sample_request Get ''/'' [(''x-request-id'', ''abc'')]) 0
       = then_response (\<lambda>resp. resp\<lparr>res_headers := hm_insert alist_lib (res_headers resp) ''x-request-id'' rid\<rparr>)
           (counting_service ((sample_request Get ''/'' [(''x-request-id'', ''abc'')])
             \<lparr>req_ext := no_extensions\<lparr>ext_request_id := Some rid\<rparr>,
              req_headers := hm_insert alist_lib [(''x-request-id'', ''abc'')] ''x-request-id'' rid\<rparr>) w1)"
  using request_id_consistent [OF alist_header_map, of "\<lambda>w. (''id'', Suc w)" counting_service
      "sample_request Get ''/'' [(''x-request-id'', ''abc'')]" 0]
  by (fastforce simp: header_visible_def sample_request_def alist_sel)

text \<open>A request under a timeout is answered.  If the timer has run out at some poll, the timeout's future is
  ready by then: with the handler's own outcome when the handler was ready in one of the polls up to that one, the
  last included, and with 408 otherwise.\<close>

theorem timeout_answers:
  "timeout_run H ms fut (replicate n False @ True # later) f =
     (case poll_n fut (Suc n) f of
        (Ready r, f') \<Rightarrow> (Ready r, f')
      | (Pending, f') \<Rightarrow> (Ready (timeout_response H ms), f'))"
  by (rule timeout_run_exact)

text \<open>Panics of a handler become answers.  Around a service that works in its future, every call ends with a
  response: the service's own, or 500 when it panicked and no handler for panics is set.\<close>

theorem catch_panic_total:
  assumes "header_map H"
  shows "\<exists>resp. fst (catch_panic_call H None (async_service s) req w) = Done resp
    \<and> (case fst (s req w) of Done r \<Rightarrow> resp = r | Panicked m \<Rightarrow> res_status resp = 500)"
proof -
  have "hv_from_str H ''application/json'' = Some ''application/json''"
    by (simp add: header_map.from_str [OF assms] header_visible_def)
  then show ?thesis
    by (cases "s req w"; cases "fst (s req w)")
      (auto simp: catch_panic_call_def async_service_def default_panic_response_def rb_defs)
qed

theorem catch_panic_total_witness:
  "\<exists>resp. fst (catch_panic_call alist_lib None (async_service (\<lambda>r w. (Panicked ''boom'', w)))
     (sample_request Get ''/'' []) (0::nat)) = Done resp \<and> res_status resp = 500"
  using catch_panic_total [OF alist_header_map, of "\<lambda>r w. (Panicked ''boom'', w)" "sample_request Get ''/'' []" "0::nat"]
  by simp

text \<open>A panic in the call itself, before there is a future, is not caught.\<close>

theorem catch_panic_misses_calls:
  "catch_panic_call H ph (\<lambda>req w. (Inl m, w)) req w = (Panicked m, w)"
  by (simp add: catch_panic_call_def)

text \<open>Mapping the body undoes the body limit.  When a body without a declared length is over the limit, the
  handler behind \<open>RequestBodyLimit\<close> and \<open>MapRequestBody\<close> is called, with what the mapping makes of no bytes
  at all, and never learns that the body was cut off.\<close>

theorem map_body_hides_limit:
  assumes "header_map H" "declared_length H req = None" "all_data (frames_of (req_body req))"
    and "limit < length (data_of (frames_of (req_body req)))"
    and "\<not> hm_contains_key H (req_headers req) ''content-length''"
  shows "request_body_limit_call H limit (map_request_body_call H f inner) req w
    = inner (req\<lparr>req_body := BFull (f [])\<rparr>) w"
proof -
  have "to_bytes (limited_body limit (req_body req)) = Inl BodyTooLarge"
    using assms(3,4) limited_frames_error [of limit 0 "frames_of (req_body req)"]
    by (simp add: limited_body_def body_new_def to_bytes_def)
  with assms show ?thesis
    by (cases req) (simp add: request_body_limit_call_def map_request_body_call_def bytes_or_empty_def refresh_length_def
        into_request_parts_def from_request_parts_def)
qed

theorem map_body_hides_limit_witness:
  "request_body_limit_call alist_lib 3 (map_request_body_call alist_lib id counting_service)
     ((sample_request Post ''/'' [])\<lparr>req_body := BBoxed [Data ''ab'', Data ''cd''] None\<rparr>) 0
   = (Done (sample_response 200 [] ''/''), 1)"
  using map_body_hides_limit [OF alist_header_map, of "(sample_request Post ''/'' [])\<lparr>req_body := BBoxed [Data ''ab'', Data ''cd''] None\<rparr>"
      3 id counting_service 0]
  by (simp add: sample_defs declared_length_def alist_sel)

text \<open>Tracing changes nothing: the answer and the world are those of the inner service.  But the headers a span
  records are the same whatever headers were declared sensitive: their values are not redacted.\<close>

theorem trace_ignores_sensitive:
  "fst (trace_call H enabled fixed3 L version elapsed inner req w) = inner req w
   \<and> make_request_span H enabled m version (req\<lparr>req_ext := (req_ext req)\<lparr>ext_sensitive := Some hs\<rparr>\<rparr>)
     = make_request_span H enabled m version req"
  by (simp add: trace_call_def Let_def make_request_span_def)

end
