(* ===== verification/Multipart.thy ===== *)
theory Multipart
  imports Rejections
begin

text \<open>
  Multipart uploads (arvik-extract/src/multipart.rs).

  The parser is the \<^verbatim>\<open>multer\<close> crate: \<open>multer_lib\<close> has its operations on abstract parsers \<open>'m\<close>, fields
  \<open>'f\<close> and errors \<open>'e\<close>.  Temporary files are the \<^verbatim>\<open>tempfile\<close> crate's and the file system's
  (\<open>temp_lib\<close>), with the outside world threaded through.  Byte counters are 64-bit words.
\<close>

subsection \<open>Limits and configuration\<close>

record multipart_constraints =
  mc_max_fields :: nat
  mc_max_field_size :: u64
  mc_max_total_size :: u64

definition constraints_default :: multipart_constraints where
  "constraints_default =
     \<lparr>mc_max_fields = 100, mc_max_field_size = 5 * 1024 * 1024, mc_max_total_size = 50 * 1024 * 1024\<rparr>"

definition mc_set_max_fields :: "nat \<Rightarrow> multipart_constraints \<Rightarrow> multipart_constraints" where
  "mc_set_max_fields n self = self\<lparr>mc_max_fields := n\<rparr>"

definition mc_set_max_field_size :: "u64 \<Rightarrow> multipart_constraints \<Rightarrow> multipart_constraints" where
  "mc_set_max_field_size n self = self\<lparr>mc_max_field_size := n\<rparr>"

definition mc_set_max_total_size :: "u64 \<Rightarrow> multipart_constraints \<Rightarrow> multipart_constraints" where
  "mc_set_max_total_size n self = self\<lparr>mc_max_total_size := n\<rparr>"

record multipart_config =
  mpc_constraints :: multipart_constraints
  mpc_temp_dir :: "string option"

definition multipart_config_default :: multipart_config where
  "multipart_config_default = \<lparr>mpc_constraints = constraints_default, mpc_temp_dir = None\<rparr>"

definition mpc_with_constraints :: "multipart_constraints \<Rightarrow> multipart_config \<Rightarrow> multipart_config" where
  "mpc_with_constraints c self = self\<lparr>mpc_constraints := c\<rparr>"

definition mpc_max_fields :: "nat \<Rightarrow> multipart_config \<Rightarrow> multipart_config" where
  "mpc_max_fields n self = self\<lparr>mpc_constraints := (mpc_constraints self)\<lparr>mc_max_fields := n\<rparr>\<rparr>"

definition mpc_max_field_size :: "u64 \<Rightarrow> multipart_config \<Rightarrow> multipart_config" where
  "mpc_max_field_size n self = self\<lparr>mpc_constraints := (mpc_constraints self)\<lparr>mc_max_field_size := n\<rparr>\<rparr>"

definition mpc_max_total_size :: "u64 \<Rightarrow> multipart_config \<Rightarrow> multipart_config" where
  "mpc_max_total_size n self = self\<lparr>mpc_constraints := (mpc_constraints self)\<lparr>mc_max_total_size := n\<rparr>\<rparr>"

definition mpc_with_temp_dir :: "string \<Rightarrow> multipart_config \<Rightarrow> multipart_config" where
  "mpc_with_temp_dir d self = self\<lparr>mpc_temp_dir := Some d\<rparr>"

subsection \<open>The request\<close>

text \<open>The loop over the parameters of the content type.\<close>

definition param_boundary :: "string \<Rightarrow> string option" where
  "param_boundary param =
     (case split_once CHR ''='' param of
        None \<Rightarrow> None
      | Some (key, v) \<Rightarrow>
          if \<not> eq_ignore_ascii_case (trim key) ''boundary'' then None
          else let v = trim v;
                   v = (case strip_prefix [DQUOTE] v of
                          Some inner \<Rightarrow> if ends_with inner [DQUOTE] then butlast inner else v
                        | None \<Rightarrow> v)
               in if v = [] then None else Some v)"

fun find_boundary :: "string option \<Rightarrow> string list \<Rightarrow> string option" where
  "find_boundary boundary [] = boundary"
| "find_boundary boundary (param # rest) =
     find_boundary (case boundary of None \<Rightarrow> param_boundary param | Some b \<Rightarrow> Some b) rest"

definition extract_boundary :: "string \<Rightarrow> multipart_rejection + string" where
  "extract_boundary content_type =
     (case split_on CHR '';'' content_type of
        [] \<Rightarrow> Inl InvalidMultipartContentType
      | media # segments \<Rightarrow>
          if \<not> eq_ignore_ascii_case (trim media) ''multipart/form-data'' then Inl InvalidMultipartContentType
          else case find_boundary None segments of
                 None \<Rightarrow> Inl MissingBoundary
               | Some b \<Rightarrow> Inr b)"

definition validate_multipart_request ::
  "'h http_lib \<Rightarrow> 'h request \<Rightarrow> multipart_config \<Rightarrow> multipart_rejection + string" where
  "validate_multipart_request H req config =
     (case Option.bind (Option.bind (hm_get H (req_headers req) ''content-length'') (hv_to_str H)) parse_u64 of
        Some n \<Rightarrow>
          if n > unat (mc_max_total_size (mpc_constraints config)) then Inl MultipartPayloadTooLarge
          else (case Option.bind (hm_get H (req_headers req) ''content-type'') (hv_to_str H) of
                  None \<Rightarrow> Inl InvalidMultipartContentType
                | Some ct \<Rightarrow> extract_boundary ct)
      | None \<Rightarrow>
          (case Option.bind (hm_get H (req_headers req) ''content-type'') (hv_to_str H) of
             None \<Rightarrow> Inl InvalidMultipartContentType
           | Some ct \<Rightarrow> extract_boundary ct))"

lemma body_poll_shrinks: "body_poll b = (Some f, b') \<Longrightarrow> length (frames_of b') < length (frames_of b)"
  using body_poll_frames [of b] by simp

text \<open>The body as a stream of byte chunks: trailers are skipped, errors become I/O errors of their text.\<close>

function body_stream_poll :: "(body_error \<Rightarrow> string) \<Rightarrow> body \<Rightarrow> (string + string) option \<times> body" where
  "body_stream_poll show_err b =
     (case body_poll b of
        (Some (Data d), b') \<Rightarrow> (Some (Inr d), b')
      | (Some Trailers, b') \<Rightarrow> body_stream_poll show_err b'
      | (Some (FrameErr e), b') \<Rightarrow> (Some (Inl (show_err e)), b')
      | (None, b') \<Rightarrow> (None, b'))"
  by pat_completeness auto

termination
  by (relation "measure (\<lambda>(_, b). length (frames_of b))") (auto dest: body_poll_shrinks [OF sym])

declare body_stream_poll.simps [simp del]

subsection \<open>The parser\<close>

record multer_limits =
  ml_whole_stream :: u64
  ml_per_field :: u64

definition build_multer_constraints :: "multipart_constraints \<Rightarrow> multer_limits" where
  "build_multer_constraints c = \<lparr>ml_whole_stream = mc_max_total_size c, ml_per_field = mc_max_field_size c\<rparr>"

text \<open>The kinds of multer error the code tells apart.\<close>

record ('m, 'f, 'e) multer_lib =
  mu_new :: "body \<Rightarrow> string \<Rightarrow> multer_limits \<Rightarrow> 'm"
  mu_next_field :: "'m \<Rightarrow> ('e + 'f option) \<times> 'm"
  mu_name :: "'f \<Rightarrow> string option"
  mu_file_name :: "'f \<Rightarrow> string option"
  mu_content_type :: "'f \<Rightarrow> string option"
  mu_chunk :: "'f \<Rightarrow> ('e + string option) \<times> 'f"
  mu_bytes :: "'f \<Rightarrow> 'e + string"
  mu_text :: "'f \<Rightarrow> 'e + string"
  mu_size_exceeded :: "'e \<Rightarrow> bool"
  mu_show :: "'e \<Rightarrow> string"

datatype 'e multipart_error = Parser 'e | TooManyFields nat | Io string

definition is_size_exceeded :: "('m, 'f, 'e) multer_lib \<Rightarrow> 'e multipart_error \<Rightarrow> bool" where
  "is_size_exceeded M err = (case err of Parser e \<Rightarrow> mu_size_exceeded M e | _ \<Rightarrow> False)"

definition is_too_many_fields :: "'e multipart_error \<Rightarrow> bool" where
  "is_too_many_fields err = (case err of TooManyFields _ \<Rightarrow> True | _ \<Rightarrow> False)"

definition is_limit_exceeded :: "('m, 'f, 'e) multer_lib \<Rightarrow> 'e multipart_error \<Rightarrow> bool" where
  "is_limit_exceeded M err \<longleftrightarrow> is_size_exceeded M err \<or> is_too_many_fields err"

definition is_io :: "'e multipart_error \<Rightarrow> bool" where
  "is_io err = (case err of Io _ \<Rightarrow> True | _ \<Rightarrow> False)"

definition multipart_status_code :: "('m, 'f, 'e) multer_lib \<Rightarrow> 'e multipart_error \<Rightarrow> nat" where
  "multipart_status_code M err =
     (case err of
        Parser e \<Rightarrow> if mu_size_exceeded M e then 413 else 400
      | TooManyFields _ \<Rightarrow> 413
      | Io _ \<Rightarrow> 500)"

definition show_multipart_error :: "('m, 'f, 'e) multer_lib \<Rightarrow> 'e multipart_error \<Rightarrow> string" where
  "show_multipart_error M err =
     (case err of
        Parser e \<Rightarrow> ''Multipart error: '' @ mu_show M e
      | TooManyFields limit \<Rightarrow> ''Multipart field count exceeded limit: '' @ nat_to_string limit
      | Io e \<Rightarrow> ''Multipart temporary file error: '' @ e)"

definition multipart_error_response :: "'h http_lib \<Rightarrow> ('m, 'f, 'e) multer_lib \<Rightarrow> 'e multipart_error \<Rightarrow> 'h response" where
  "multipart_error_response H M err =
     rb_body H (BFull (show_multipart_error M err))
       (rb_header_str H ''content-type'' ''text/plain; charset=utf-8''
         (rb_with_status (multipart_status_code M err) (rb_new H)))"

record field_metadata =
  fm_name :: "string option"
  fm_file_name :: "string option"
  fm_content_type :: "string option"

definition metadata_from_field :: "('m, 'f, 'e) multer_lib \<Rightarrow> 'f \<Rightarrow> field_metadata" where
  "metadata_from_field M f =
     \<lparr>fm_name = mu_name M f, fm_file_name = mu_file_name M f, fm_content_type = mu_content_type M f\<rparr>"

record 'f field =
  fd_inner :: 'f
  fd_metadata :: field_metadata
  fd_temp_dir :: "string option"

definition field_new :: "('m, 'f, 'e) multer_lib \<Rightarrow> 'f \<Rightarrow> string option \<Rightarrow> 'f field" where
  "field_new M inner temp_dir =
     \<lparr>fd_inner = inner, fd_metadata = metadata_from_field M inner, fd_temp_dir = temp_dir\<rparr>"

record 'm multipart =
  mp_inner :: 'm
  mp_config :: multipart_config
  mp_fields_read :: nat

definition from_request_with_config ::
  "'h http_lib \<Rightarrow> ('m, 'f, 'e) multer_lib \<Rightarrow> 'h request \<Rightarrow> multipart_config \<Rightarrow> multipart_rejection + 'm multipart" where
  "from_request_with_config H M req config =
     (case validate_multipart_request H req config of
        Inl e \<Rightarrow> Inl e
      | Inr boundary \<Rightarrow>
          Inr \<lparr>mp_inner = mu_new M (req_body req) boundary (build_multer_constraints (mpc_constraints config)),
               mp_config = config, mp_fields_read = 0\<rparr>)"

definition from_request_with_constraints ::
  "'h http_lib \<Rightarrow> ('m, 'f, 'e) multer_lib \<Rightarrow> 'h request \<Rightarrow> multipart_constraints \<Rightarrow> multipart_rejection + 'm multipart" where
  "from_request_with_constraints H M req c =
     from_request_with_config H M req (mpc_with_constraints c multipart_config_default)"

text \<open>The extensions that middleware may set for the extractor, read by \<open>cfg\<close> and \<open>cons\<close>.\<close>

definition multipart_from_request ::
  "'h http_lib \<Rightarrow> ('m, 'f, 'e) multer_lib \<Rightarrow> (extensions \<Rightarrow> multipart_config option)
   \<Rightarrow> (extensions \<Rightarrow> multipart_constraints option) \<Rightarrow> 'h request \<Rightarrow> multipart_rejection + 'm multipart" where
  "multipart_from_request H M cfg cons req =
     (let config = (case cfg (req_ext req) of
                      Some c \<Rightarrow> c
                    | None \<Rightarrow> (case cons (req_ext req) of
                                 Some c \<Rightarrow> mpc_with_constraints c multipart_config_default
                               | None \<Rightarrow> multipart_config_default))
      in from_request_with_config H M req config)"

definition next_field ::
  "('m, 'f, 'e) multer_lib \<Rightarrow> 'm multipart \<Rightarrow> ('e multipart_error + 'f field option) \<times> 'm multipart" where
  "next_field M self =
     (let limit = mc_max_fields (mpc_constraints (mp_config self)) in
      case mu_next_field M (mp_inner self) of
        (Inr (Some f), m') \<Rightarrow>
          if mp_fields_read self \<ge> limit then (Inl (TooManyFields limit), self\<lparr>mp_inner := m'\<rparr>)
          else (Inr (Some (field_new M f (mpc_temp_dir (mp_config self)))),
                self\<lparr>mp_inner := m', mp_fields_read := Suc (mp_fields_read self)\<rparr>)
      | (Inr None, m') \<Rightarrow> (Inr None, self\<lparr>mp_inner := m'\<rparr>)
      | (Inl e, m') \<Rightarrow> (Inl (Parser e), self\<lparr>mp_inner := m'\<rparr>))"

subsection \<open>Fields\<close>

definition field_bytes :: "('m, 'f, 'e) multer_lib \<Rightarrow> 'f field \<Rightarrow> 'e multipart_error + string" where
  "field_bytes M self = (case mu_bytes M (fd_inner self) of Inl e \<Rightarrow> Inl (Parser e) | Inr b \<Rightarrow> Inr b)"

definition field_text :: "('m, 'f, 'e) multer_lib \<Rightarrow> 'f field \<Rightarrow> 'e multipart_error + string" where
  "field_text M self = (case mu_text M (fd_inner self) of Inl e \<Rightarrow> Inl (Parser e) | Inr t \<Rightarrow> Inr t)"

definition field_chunk ::
  "('m, 'f, 'e) multer_lib \<Rightarrow> 'f field \<Rightarrow> ('e multipart_error + string option) \<times> 'f field" where
  "field_chunk M self =
     (case mu_chunk M (fd_inner self) of
        (Inl e, f') \<Rightarrow> (Inl (Parser e), self\<lparr>fd_inner := f'\<rparr>)
      | (Inr c, f') \<Rightarrow> (Inr c, self\<lparr>fd_inner := f'\<rparr>))"

text \<open>\<^verbatim>\<open>ProgressStream\<close>: a chunk with the bytes read so far.\<close>

record 'f progress_stream =
  ps_field :: "'f field"
  ps_bytes_read :: u64

record progress_chunk =
  pc_bytes :: string
  pc_bytes_read :: u64

definition into_progress_stream :: "'f field \<Rightarrow> 'f progress_stream" where
  "into_progress_stream self = \<lparr>ps_field = self, ps_bytes_read = 0\<rparr>"

definition field_stream_poll ::
  "('m, 'f, 'e) multer_lib \<Rightarrow> 'f field \<Rightarrow> ('e multipart_error + string) option \<times> 'f field" where
  "field_stream_poll M self =
     (case mu_chunk M (fd_inner self) of
        (Inr (Some bs), f') \<Rightarrow> (Some (Inr bs), self\<lparr>fd_inner := f'\<rparr>)
      | (Inl e, f') \<Rightarrow> (Some (Inl (Parser e)), self\<lparr>fd_inner := f'\<rparr>)
      | (Inr None, f') \<Rightarrow> (None, self\<lparr>fd_inner := f'\<rparr>))"

definition progress_poll ::
  "('m, 'f, 'e) multer_lib \<Rightarrow> 'f progress_stream
   \<Rightarrow> ('e multipart_error + progress_chunk) option \<times> 'f progress_stream" where
  "progress_poll M self =
     (case field_stream_poll M (ps_field self) of
        (Some (Inr bs), fd) \<Rightarrow>
          (let n = ps_bytes_read self + word_of_nat (length bs)
           in (Some (Inr \<lparr>pc_bytes = bs, pc_bytes_read = n\<rparr>), \<lparr>ps_field = fd, ps_bytes_read = n\<rparr>))
      | (Some (Inl e), fd) \<Rightarrow> (Some (Inl e), self\<lparr>ps_field := fd\<rparr>)
      | (None, fd) \<Rightarrow> (None, self\<lparr>ps_field := fd\<rparr>))"

text \<open>
  Temporary files: \<open>tl_create\<close> makes one in a directory (the system's own for \<open>None\<close>), the file of the given
  prefix; \<open>tl_clone\<close> duplicates the handle; writes go through a buffer that \<open>tl_flush\<close> empties.
\<close>

record ('t, 'w) temp_lib =
  tl_create :: "string option \<Rightarrow> string \<Rightarrow> 'w \<Rightarrow> (string + 't) \<times> 'w"
  tl_clone :: "'t \<Rightarrow> 'w \<Rightarrow> (string + unit) \<times> 'w"
  tl_write :: "'t \<Rightarrow> string \<Rightarrow> 'w \<Rightarrow> (string + unit) \<times> 'w"
  tl_flush :: "'t \<Rightarrow> 'w \<Rightarrow> (string + unit) \<times> 'w"
  tl_persist :: "'t \<Rightarrow> string \<Rightarrow> 'w \<Rightarrow> (string + unit) \<times> 'w"

record 't temp_file =
  tmp_file :: 't
  tmp_metadata :: field_metadata
  tmp_bytes_written :: u64

text \<open>The copy loop; the outer option is \<open>None\<close> when the field never ends.\<close>

partial_function (option) copy_chunks ::
  "('m, 'f, 'e) multer_lib \<Rightarrow> ('t, 'w) temp_lib \<Rightarrow> (u64 \<Rightarrow> 'w \<Rightarrow> 'w) \<Rightarrow> 't \<Rightarrow> u64 \<Rightarrow> 'f field \<Rightarrow> 'w
   \<Rightarrow> (('e multipart_error + u64) \<times> 'w) option" where
  "copy_chunks M L on_progress t written fd w =
     (case field_chunk M fd of
        (Inl e, fd') \<Rightarrow> Some (Inl e, w)
      | (Inr None, fd') \<Rightarrow> Some (Inr written, w)
      | (Inr (Some chunk), fd') \<Rightarrow>
          (case tl_write L t chunk w of
             (Inl e, w') \<Rightarrow> Some (Inl (Io e), w')
           | (Inr _, w') \<Rightarrow>
               copy_chunks M L on_progress t (written + word_of_nat (length chunk)) fd'
                 (on_progress (written + word_of_nat (length chunk)) w')))"

definition save_to_temp_inner ::
  "('m, 'f, 'e) multer_lib \<Rightarrow> ('t, 'w) temp_lib \<Rightarrow> 'f field \<Rightarrow> string option \<Rightarrow> (u64 \<Rightarrow> 'w \<Rightarrow> 'w) \<Rightarrow> 'w
   \<Rightarrow> (('e multipart_error + 't temp_file) \<times> 'w) option" where
  "save_to_temp_inner M L self dir on_progress w =
     (case tl_create L dir ''arvik-upload-'' w of
        (Inl e, w1) \<Rightarrow> Some (Inl (Io e), w1)
      | (Inr t, w1) \<Rightarrow>
          (case tl_clone L t w1 of
             (Inl e, w2) \<Rightarrow> Some (Inl (Io e), w2)
           | (Inr _, w2) \<Rightarrow>
               (case copy_chunks M L on_progress t 0 self w2 of
                  None \<Rightarrow> None
                | Some (Inl e, w3) \<Rightarrow> Some (Inl e, w3)
                | Some (Inr written, w3) \<Rightarrow>
                    (case tl_flush L t w3 of
                       (Inl e, w4) \<Rightarrow> Some (Inl (Io e), w4)
                     | (Inr _, w4) \<Rightarrow>
                         Some (Inr \<lparr>tmp_file = t, tmp_metadata = fd_metadata self, tmp_bytes_written = written\<rparr>, w4)))))"

definition save_to_temp ::
  "('m, 'f, 'e) multer_lib \<Rightarrow> ('t, 'w) temp_lib \<Rightarrow> 'f field \<Rightarrow> 'w
   \<Rightarrow> (('e multipart_error + 't temp_file) \<times> 'w) option" where
  "save_to_temp M L self w = save_to_temp_inner M L self (fd_temp_dir self) (\<lambda>_ w. w) w"

definition save_to_temp_in ::
  "('m, 'f, 'e) multer_lib \<Rightarrow> ('t, 'w) temp_lib \<Rightarrow> 'f field \<Rightarrow> string \<Rightarrow> 'w
   \<Rightarrow> (('e multipart_error + 't temp_file) \<times> 'w) option" where
  "save_to_temp_in M L self dir w = save_to_temp_inner M L self (Some dir) (\<lambda>_ w. w) w"

definition save_to_temp_with_progress ::
  "('m, 'f, 'e) multer_lib \<Rightarrow> ('t, 'w) temp_lib \<Rightarrow> 'f field \<Rightarrow> (u64 \<Rightarrow> 'w \<Rightarrow> 'w) \<Rightarrow> 'w
   \<Rightarrow> (('e multipart_error + 't temp_file) \<times> 'w) option" where
  "save_to_temp_with_progress M L self on_progress w =
     save_to_temp_inner M L self (fd_temp_dir self) on_progress w"

definition save_to_temp_in_with_progress ::
  "('m, 'f, 'e) multer_lib \<Rightarrow> ('t, 'w) temp_lib \<Rightarrow> 'f field \<Rightarrow> string \<Rightarrow> (u64 \<Rightarrow> 'w \<Rightarrow> 'w) \<Rightarrow> 'w
   \<Rightarrow> (('e multipart_error + 't temp_file) \<times> 'w) option" where
  "save_to_temp_in_with_progress M L self dir on_progress w =
     save_to_temp_inner M L self (Some dir) on_progress w"

definition temp_persist ::
  "('t, 'w) temp_lib \<Rightarrow> 't temp_file \<Rightarrow> string \<Rightarrow> 'w \<Rightarrow> ('e multipart_error + unit) \<times> 'w" where
  "temp_persist L self path w =
     (case tl_persist L (tmp_file self) path w of
        (Inl e, w') \<Rightarrow> (Inl (Io e), w')
      | (Inr u, w') \<Rightarrow> (Inr u, w'))"

subsection \<open>Lemmas\<close>

lemma find_boundary_Some [simp]: "find_boundary (Some b) ps = Some b"
  by (induction ps) simp_all

lemma find_boundary_skip:
  "list_all (\<lambda>p. param_boundary p = None) pre \<Longrightarrow> find_boundary None (pre @ ps) = find_boundary None ps"
  by (induction pre) simp_all

lemma trim_self:
  assumes "s \<noteq> []" "\<not> is_ascii_ws (hd s)" "\<not> is_ascii_ws (last s)"
  shows "trim s = s"
proof -
  have "dropWhile is_ascii_ws s = s" using assms by (cases s) auto
  moreover have "dropWhile is_ascii_ws (rev s) = rev s"
    using assms by (cases s rule: rev_cases) auto
  ultimately show ?thesis by (simp add: trim_def)
qed

lemma param_boundary_named:
  "param_boundary ('' boundary='' @ v) =
     (let v = trim v;
          v = (case strip_prefix [DQUOTE] v of
                 Some inner \<Rightarrow> if ends_with inner [DQUOTE] then butlast inner else v | None \<Rightarrow> v)
      in if v = [] then None else Some v)"
proof -
  have "split_once CHR ''='' ('' boundary='' @ v) = Some ('' boundary'', v)"
    using split_once_append [of "CHR ''=''" "'' boundary''" v] by simp
  moreover have "trim '' boundary'' = ''boundary''"
    by (simp add: trim_def is_ascii_ws_def)
  ultimately show ?thesis
    unfolding param_boundary_def by (simp add: eq_ignore_ascii_case_def)
qed

lemma extract_boundary_params:
  assumes "list_all (\<lambda>p. CHR '';'' \<notin> set p) ps"
  shows "extract_boundary (join_with '';'' (''multipart/form-data'' # ps)) =
    (case find_boundary None ps of None \<Rightarrow> Inl MissingBoundary | Some b \<Rightarrow> Inr b)"
proof -
  have "\<forall>p \<in> set (''multipart/form-data'' # ps). CHR '';'' \<notin> set p"
    using assms by (auto simp: list_all_iff)
  then have "split_on CHR '';'' (join_with '';'' (''multipart/form-data'' # ps)) = ''multipart/form-data'' # ps"
    by (intro split_on_join) auto
  moreover have "trim ''multipart/form-data'' = ''multipart/form-data''"
    by (simp add: trim_self is_ascii_ws_def)
  ultimately show ?thesis by (simp add: extract_boundary_def eq_ignore_ascii_case_def)
qed

lemma boundary_spec:
  assumes "b \<noteq> []" "CHR '';'' \<notin> set b" "DQUOTE \<notin> set b"
    and "list_all (\<lambda>p. CHR '';'' \<notin> set p \<and> param_boundary p = None) pre" "list_all (\<lambda>p. CHR '';'' \<notin> set p) post"
    and "p = '' boundary='' @ DQUOTE # b @ [DQUOTE] \<or> p = '' boundary='' @ b \<and> trim b = b"
  shows "extract_boundary (join_with '';'' (''multipart/form-data'' # pre @ p # post)) = Inr b"
proof -
  have q: "trim (DQUOTE # b @ [DQUOTE]) = DQUOTE # b @ [DQUOTE]" by (rule trim_self) (simp_all add: is_ascii_ws_def)
  have s: "strip_prefix [DQUOTE] (DQUOTE # b @ [DQUOTE]) = Some (b @ [DQUOTE])"
    by (simp add: strip_prefix_Some_iff)
  have n: "strip_prefix [DQUOTE] b = None"
    using assms(3) by (auto simp: strip_prefix_None_iff prefix_def)
  have "param_boundary ('' boundary='' @ DQUOTE # b @ [DQUOTE]) = Some b"
    unfolding param_boundary_named q Let_def using assms(1) s by simp
  moreover have "param_boundary ('' boundary='' @ b) = Some b" if "trim b = b"
    unfolding param_boundary_named that Let_def using assms(1) n by simp
  ultimately have "param_boundary p = Some b"
    using assms(6) by (elim disjE conjE) simp_all
  moreover have "CHR '';'' \<notin> set p" using assms(2,6) by auto
  then have "list_all (\<lambda>p. CHR '';'' \<notin> set p) (pre @ p # post)"
    using assms(4,5) by (auto simp: list_all_iff)
  moreover have "list_all (\<lambda>p. param_boundary p = None) pre"
    using assms(4) by (simp add: list_all_iff)
  ultimately show ?thesis
    by (simp add: extract_boundary_params find_boundary_skip)
qed

text \<open>Fields taken by any number of calls, whatever errors come between.\<close>

fun take_fields :: "('m, 'f, 'e) multer_lib \<Rightarrow> nat \<Rightarrow> 'm multipart \<Rightarrow> 'f field list \<times> 'm multipart" where
  "take_fields M 0 self = ([], self)"
| "take_fields M (Suc n) self =
     (case next_field M self of
        (Inr (Some f), self') \<Rightarrow> (let (fs, self'') = take_fields M n self' in (f # fs, self''))
      | (_, self') \<Rightarrow> take_fields M n self')"

lemma next_field_keeps:
  "next_field M self = (r, self') \<Longrightarrow>
     mp_config self' = mp_config self
     \<and> mp_fields_read self' = mp_fields_read self + (case r of Inr (Some _) \<Rightarrow> 1 | _ \<Rightarrow> 0)
     \<and> (\<forall>f. r = Inr (Some f) \<longrightarrow> mp_fields_read self < mc_max_fields (mpc_constraints (mp_config self)))"
  by (auto simp: next_field_def Let_def split: prod.splits sum.splits option.splits if_splits)

lemma take_fields_bound:
  "mp_fields_read self \<le> mc_max_fields (mpc_constraints (mp_config self)) \<Longrightarrow>
   length (fst (take_fields M n self)) + mp_fields_read self \<le> mc_max_fields (mpc_constraints (mp_config self))"
proof (induction n arbitrary: self)
  case (Suc n)
  obtain r self' where r: "next_field M self = (r, self')" by (cases "next_field M self")
  note k = next_field_keeps [OF r]
  show ?case
  proof (cases "\<exists>f. r = Inr (Some f)")
    case True
    with k Suc.prems have "mp_fields_read self' \<le> mc_max_fields (mpc_constraints (mp_config self'))" by auto
    from Suc.IH [OF this] True k r show ?thesis by (auto split: prod.split)
  next
    case False
    with k Suc.prems have "mp_fields_read self' \<le> mc_max_fields (mpc_constraints (mp_config self'))"
      by (cases r) (auto split: option.splits)
    from Suc.IH [OF this] False k r show ?thesis
      by (cases r) (auto split: option.splits)
  qed
qed simp

text \<open>The chunks that a field yields.\<close>

fun yields :: "('m, 'f, 'e) multer_lib \<Rightarrow> 'f \<Rightarrow> string list \<Rightarrow> bool" where
  "yields M f [] = (\<exists>f'. mu_chunk M f = (Inr None, f'))"
| "yields M f (c # cs) = (\<exists>f'. mu_chunk M f = (Inr (Some c), f') \<and> yields M f' cs)"

text \<open>A file system in which a file has the bytes written to it.\<close>

locale temp_store =
  fixes L :: "('t, 'w) temp_lib" and content :: "'w \<Rightarrow> 't \<Rightarrow> string"
  assumes create_empty: "tl_create L d p w = (Inr t, w') \<Longrightarrow> content w' t = []"
    and clone_keeps: "tl_clone L t w = (Inr u, w') \<Longrightarrow> content w' t = content w t"
    and write_appends: "tl_write L t s w = (Inr u, w') \<Longrightarrow> content w' t = content w t @ s"
    and flush_keeps: "tl_flush L t w = (Inr u, w') \<Longrightarrow> content w' t = content w t"
begin

lemma copy_chunks_exact:
  assumes "\<And>n w. content (pr n w) t = content w t" "yields M (fd_inner fd) cs"
  shows "\<exists>r w'. copy_chunks M L pr t n fd w = Some (r, w')
    \<and> (\<forall>n'. r = Inr n' \<longrightarrow> content w' t = content w t @ concat cs \<and> n' = n + word_of_nat (length (concat cs)))"
  using assms(2)
proof (induction cs arbitrary: n fd w)
  case Nil
  then show ?case by (subst copy_chunks.simps) (auto simp: field_chunk_def)
next
  case (Cons c cs)
  then obtain f' where f: "mu_chunk M (fd_inner fd) = (Inr (Some c), f')" "yields M f' cs" by auto
  obtain r w1 where wr: "tl_write L t c w = (r, w1)" by (cases "tl_write L t c w")
  show ?case
  proof (cases r)
    case (Inl e)
    with f wr show ?thesis by (subst copy_chunks.simps) (simp add: field_chunk_def)
  next
    case (Inr u)
    with wr have "content w1 t = content w t @ c" by (simp add: write_appends)
    moreover obtain r' w' where
      "copy_chunks M L pr t (n + word_of_nat (length c)) (fd\<lparr>fd_inner := f'\<rparr>) (pr (n + word_of_nat (length c)) w1)
         = Some (r', w')"
      "\<forall>n'. r' = Inr n' \<longrightarrow> content w' t = content (pr (n + word_of_nat (length c)) w1) t @ concat cs
         \<and> n' = n + word_of_nat (length c) + word_of_nat (length (concat cs))"
      using Cons.IH [of "fd\<lparr>fd_inner := f'\<rparr>" "n + word_of_nat (length c)" "pr (n + word_of_nat (length c)) w1"] f(2)
      by auto
    ultimately show ?thesis
      using f wr Inr by (subst copy_chunks.simps) (auto simp: field_chunk_def assms(1) algebra_simps)
  qed
qed

lemma save_exact:
  assumes "\<And>n w t. content (pr n w) t = content w t" "yields M (fd_inner self) cs"
  shows "\<exists>r w'. save_to_temp_inner M L self dir pr w = Some (r, w')
    \<and> (\<forall>f. r = Inr f \<longrightarrow> content w' (tmp_file f) = concat cs
         \<and> tmp_bytes_written f = word_of_nat (length (concat cs)) \<and> tmp_metadata f = fd_metadata self)"
proof -
  obtain r1 w1 where c: "tl_create L dir ''arvik-upload-'' w = (r1, w1)" by (cases "tl_create L dir ''arvik-upload-'' w")
  show ?thesis
  proof (cases r1)
    case (Inr t)
    with c have e: "content w1 t = []" by (simp add: create_empty)
    obtain r2 w2 where k: "tl_clone L t w1 = (r2, w2)" by (cases "tl_clone L t w1")
    show ?thesis
    proof (cases r2)
      case (Inr u2)
      with k e have e2: "content w2 t = []" by (simp add: clone_keeps)
      obtain r3 w3 where p: "copy_chunks M L pr t 0 self w2 = Some (r3, w3)"
          "\<forall>n'. r3 = Inr n' \<longrightarrow> content w3 t = content w2 t @ concat cs \<and> n' = 0 + word_of_nat (length (concat cs))"
        using copy_chunks_exact [of pr t M self cs 0 w2] assms by blast
      obtain r4 w4 where f: "tl_flush L t w3 = (r4, w4)" by (cases "tl_flush L t w3")
      then have "r4 = Inr u \<Longrightarrow> content w4 t = content w3 t" for u by (simp add: flush_keeps)
      with p f c k \<open>r1 = Inr t\<close> Inr e2 show ?thesis
        by (cases r3; cases r4) (auto simp: save_to_temp_inner_def)
    qed (use c k Inr in \<open>simp add: save_to_temp_inner_def\<close>)
  qed (use c in \<open>simp add: save_to_temp_inner_def\<close>)
qed

end

text \<open>An instance: files are the positions of a list of contents.\<close>

definition list_files :: "(nat, string list) temp_lib" where
  "list_files = \<lparr>
     tl_create = (\<lambda>d p w. (Inr (length w), w @ [[]])),
     tl_clone = (\<lambda>t w. (Inr (), w)),
     tl_write = (\<lambda>t s w. if t < length w then (Inr (), w[t := w ! t @ s]) else (Inl ''bad file'', w)),
     tl_flush = (\<lambda>t w. (Inr (), w)),
     tl_persist = (\<lambda>t p w. (Inr (), w))\<rparr>"

interpretation lf: temp_store list_files "\<lambda>w t. w ! t"
  by unfold_locales (auto simp: list_files_def split: if_splits)

lemmas list_temp_store = lf.temp_store_axioms

subsection \<open>Properties\<close>

text \<open>The boundary is recovered.  From a content type \<open>multipart/form-data\<close> with parameters, the boundary is the
  value of the first boundary parameter that has one: quoted, it is what stands between the quotes, also with blanks;
  unquoted, it is the value.  Parameters after it do not matter.\<close>

theorem boundary_roundtrip:
  assumes "b \<noteq> []" "CHR '';'' \<notin> set b" "DQUOTE \<notin> set b"
    and "list_all (\<lambda>p. CHR '';'' \<notin> set p \<and> param_boundary p = None) pre" "list_all (\<lambda>p. CHR '';'' \<notin> set p) post"
    and "p = '' boundary='' @ DQUOTE # b @ [DQUOTE] \<or> p = '' boundary='' @ b \<and> trim b = b"
  shows "extract_boundary (join_with '';'' (''multipart/form-data'' # pre @ p # post)) = Inr b"
  using assms by (rule boundary_spec)

theorem boundary_roundtrip_witness:
  "extract_boundary (join_with '';'' [''multipart/form-data'', '' boundary='' @ DQUOTE # ''a b'' @ [DQUOTE]]) = Inr ''a b''"
  using boundary_roundtrip [of "''a b''" "[]" "[]"] by simp

text \<open>The number of fields is limited.  However often a handler asks for the next field of an upload it just
  received, and whatever errors come between, it gets at most the configured number of fields; the call that meets one
  more answers an error that maps to 413.\<close>

theorem multipart_field_limit:
  assumes "from_request_with_config H M req config = Inr mp"
  shows "length (fst (take_fields M n mp)) \<le> mc_max_fields (mpc_constraints config)
    \<and> (\<forall>mp' f m'. mp_fields_read mp' = mc_max_fields (mpc_constraints (mp_config mp'))
          \<and> mu_next_field M (mp_inner mp') = (Inr (Some f), m')
        \<longrightarrow> (\<exists>e. fst (next_field M mp') = Inl e \<and> multipart_status_code M e = 413))"
proof
  have "mp_config mp = config" "mp_fields_read mp = 0"
    using assms by (auto simp: from_request_with_config_def split: sum.splits)
  then show "length (fst (take_fields M n mp)) \<le> mc_max_fields (mpc_constraints config)"
    using take_fields_bound [of mp M n] by simp
qed (auto simp: next_field_def multipart_status_code_def)

definition endless_multer :: "(unit, unit, unit) multer_lib" where
  "endless_multer = \<lparr>mu_new = (\<lambda>_ _ _. ()), mu_next_field = (\<lambda>m. (Inr (Some ()), m)), mu_name = (\<lambda>_. None),
     mu_file_name = (\<lambda>_. None), mu_content_type = (\<lambda>_. None), mu_chunk = (\<lambda>f. (Inr None, f)),
     mu_bytes = (\<lambda>_. Inr []), mu_text = (\<lambda>_. Inr []), mu_size_exceeded = (\<lambda>_. False), mu_show = (\<lambda>_. [])\<rparr>"

theorem multipart_field_limit_witness:
  "\<exists>mp. from_request_with_config alist_lib endless_multer
       (sample_request Post ''/'' [(''content-type'', ''multipart/form-data; boundary=xyz'')])
       (mpc_max_fields 2 multipart_config_default) = Inr mp
     \<and> length (fst (take_fields endless_multer 5 mp)) \<le> 2"
proof -
  have "extract_boundary ''multipart/form-data; boundary=xyz'' = Inr ''xyz''"
    using boundary_spec [of "''xyz''" "[]" "[]" "'' boundary=xyz''"] by (simp add: trim_self is_ascii_ws_def)
  then obtain mp where "from_request_with_config alist_lib endless_multer
       (sample_request Post ''/'' [(''content-type'', ''multipart/form-data; boundary=xyz'')])
       (mpc_max_fields 2 multipart_config_default) = Inr mp"
    by (simp add: from_request_with_config_def validate_multipart_request_def sample_request_def alist_sel
        header_visible_def)
  with multipart_field_limit [OF this, of 5] show ?thesis
    by (simp add: mpc_max_fields_def multipart_config_default_def)
qed

text \<open>Saving a field to a temporary file.  When the chunks of the field come to an end, the copy returns, and if
  it succeeds the file has exactly the bytes of the field, in order; the byte count is their number modulo \<open>2 ^ 64\<close>
  and the metadata is that of the field.\<close>

theorem save_to_temp_exact:
  assumes "temp_store L content" "yields M (fd_inner self) cs"
  shows "\<exists>r w'. save_to_temp M L self w = Some (r, w')
    \<and> (\<forall>f. r = Inr f \<longrightarrow> content w' (tmp_file f) = concat cs
         \<and> tmp_bytes_written f = word_of_nat (length (concat cs)) \<and> tmp_metadata f = fd_metadata self)"
  unfolding save_to_temp_def by (rule temp_store.save_exact [OF assms(1) _ assms(2)]) simp

theorem save_to_temp_exact_witness:
  "\<exists>r w'. save_to_temp endless_multer list_files (field_new endless_multer () None) [] = Some (r, w')"
  using save_to_temp_exact [OF list_temp_store, of endless_multer "field_new endless_multer () None" "[]" "[]"]
  by (auto simp: endless_multer_def)

text \<open>A declared length over the total limit is refused with 413 before anything else is looked at, and the parser
  is never started.\<close>

theorem multipart_declared_length:
  assumes "Option.bind (Option.bind (hm_get H (req_headers req) ''content-length'') (hv_to_str H)) parse_u64 = Some n"
    and "unat (mc_max_total_size (mpc_constraints config)) < n"
  shows "from_request_with_config H M req config = Inl MultipartPayloadTooLarge
    \<and> multipart_rejection_status MultipartPayloadTooLarge = 413"
  using assms by (simp add: from_request_with_config_def validate_multipart_request_def)

theorem multipart_declared_length_witness:
  "from_request_with_config alist_lib endless_multer (sample_request Post ''/'' [(''content-length'', ''11'')])
     (mpc_max_total_size 10 multipart_config_default) = Inl MultipartPayloadTooLarge"
proof -
  have "parse_u64 ''11'' = Some 11" by (simp add: parse_u64_def digits_val_def digit_val_def is_ascii_digit_def)
  then show ?thesis
    using multipart_declared_length [of alist_lib "sample_request Post ''/'' [(''content-length'', ''11'')]" 11
        "mpc_max_total_size 10 multipart_config_default" endless_multer]
    by (simp add: sample_request_def alist_sel header_visible_def mpc_max_total_size_def)
qed

end
