(* ===== verification/Server_Config.thy ===== *)
theory Server_Config
  imports Prelude
begin

text \<open>
  Server, runtime and shutdown configuration: arvik-hyper/src/config.rs, runtime.rs and graceful.rs.

  Durations are numbers of nanoseconds; sizes of type \<^verbatim>\<open>usize\<close> are natural numbers, the 32-bit fields are
  words.  hyper's connection builder and tokio's runtime builder are records of the settings the code makes on
  them, over the crates' own defaults.
\<close>

type_synonym u32 = "32 word"

abbreviation secs :: "nat \<Rightarrow> nat" where
  "secs n \<equiv> n * 1000000000"

subsection \<open>Server configuration\<close>

record server_config =
  sc_max_connections :: "nat option"
  sc_tcp_nodelay :: "bool option"
  sc_tcp_keepalive :: "nat option"
  sc_tcp_keepalive_interval :: "nat option"
  sc_tcp_keepalive_retries :: "u32 option"
  sc_reuse_port :: "bool"
  sc_reuse_address :: "bool"
  sc_backlog :: "int option"
  sc_socket_recv_buffer :: "nat option"
  sc_socket_send_buffer :: "nat option"
  sc_accept_workers :: "nat"
  sc_h1_keep_alive :: "bool"
  sc_h1_half_close :: "bool"
  sc_h1_title_case :: "bool"
  sc_h1_preserve_case :: "bool"
  sc_h1_pipeline_flush :: "bool"
  sc_h1_header_timeout :: "nat option"
  sc_h1_max_buf_size :: "nat option"
  sc_handshake_timeout :: "nat option"
  sc_h2_only :: "bool"
  sc_h2_adaptive_window :: "bool"
  sc_h2_stream_window :: "u32 option"
  sc_h2_connection_window :: "u32 option"
  sc_h2_max_streams :: "u32 option"
  sc_h2_ping_interval :: "nat option"
  sc_h2_ping_timeout :: "nat"
  sc_h2_max_frame_size :: "u32 option"
  sc_h2_max_send_buf :: "nat option"
  sc_h2_max_header_list :: "u32 option"

definition server_config_default :: server_config where
  "server_config_default = \<lparr>
     sc_max_connections = None,
     sc_tcp_nodelay = Some True,
     sc_tcp_keepalive = None,
     sc_tcp_keepalive_interval = None,
     sc_tcp_keepalive_retries = None,
     sc_reuse_port = False,
     sc_reuse_address = False,
     sc_backlog = None,
     sc_socket_recv_buffer = None,
     sc_socket_send_buffer = None,
     sc_accept_workers = 1,
     sc_h1_keep_alive = True,
     sc_h1_half_close = False,
     sc_h1_title_case = False,
     sc_h1_preserve_case = False,
     sc_h1_pipeline_flush = False,
     sc_h1_header_timeout = None,
     sc_h1_max_buf_size = None,
     sc_handshake_timeout = Some (secs 10),
     sc_h2_only = False,
     sc_h2_adaptive_window = True,
     sc_h2_stream_window = None,
     sc_h2_connection_window = None,
     sc_h2_max_streams = Some 1000,
     sc_h2_ping_interval = Some (secs 20),
     sc_h2_ping_timeout = secs 10,
     sc_h2_max_frame_size = None,
     sc_h2_max_send_buf = None,
     sc_h2_max_header_list = Some (64 * 1024)\<rparr>"

definition set_max_connections :: "nat \<Rightarrow> server_config \<Rightarrow> server_config" where
  "set_max_connections v self = self\<lparr>sc_max_connections := Some v\<rparr>"

definition set_tcp_nodelay :: "bool \<Rightarrow> server_config \<Rightarrow> server_config" where
  "set_tcp_nodelay v self = self\<lparr>sc_tcp_nodelay := Some v\<rparr>"

definition set_tcp_keepalive :: "nat \<Rightarrow> server_config \<Rightarrow> server_config" where
  "set_tcp_keepalive v self = self\<lparr>sc_tcp_keepalive := Some v\<rparr>"

definition set_tcp_keepalive_interval :: "nat \<Rightarrow> server_config \<Rightarrow> server_config" where
  "set_tcp_keepalive_interval v self = self\<lparr>sc_tcp_keepalive_interval := Some v\<rparr>"

definition set_tcp_keepalive_retries :: "u32 \<Rightarrow> server_config \<Rightarrow> server_config" where
  "set_tcp_keepalive_retries v self = self\<lparr>sc_tcp_keepalive_retries := Some v\<rparr>"

definition set_reuse_port :: "bool \<Rightarrow> server_config \<Rightarrow> server_config" where
  "set_reuse_port v self = self\<lparr>sc_reuse_port := v\<rparr>"

definition set_reuse_address :: "bool \<Rightarrow> server_config \<Rightarrow> server_config" where
  "set_reuse_address v self = self\<lparr>sc_reuse_address := v\<rparr>"

definition set_backlog :: "int \<Rightarrow> server_config \<Rightarrow> server_config" where
  "set_backlog v self = self\<lparr>sc_backlog := Some v\<rparr>"

definition set_socket_recv_buffer :: "nat \<Rightarrow> server_config \<Rightarrow> server_config" where
  "set_socket_recv_buffer v self = self\<lparr>sc_socket_recv_buffer := Some v\<rparr>"

definition set_socket_send_buffer :: "nat \<Rightarrow> server_config \<Rightarrow> server_config" where
  "set_socket_send_buffer v self = self\<lparr>sc_socket_send_buffer := Some v\<rparr>"

definition set_accept_workers :: "nat \<Rightarrow> server_config \<Rightarrow> server_config" where
  "set_accept_workers workers self = self\<lparr>sc_accept_workers := max workers 1\<rparr>"

definition set_h1_keep_alive :: "bool \<Rightarrow> server_config \<Rightarrow> server_config" where
  "set_h1_keep_alive v self = self\<lparr>sc_h1_keep_alive := v\<rparr>"

definition set_h1_half_close :: "bool \<Rightarrow> server_config \<Rightarrow> server_config" where
  "set_h1_half_close v self = self\<lparr>sc_h1_half_close := v\<rparr>"

definition set_h1_title_case :: "bool \<Rightarrow> server_config \<Rightarrow> server_config" where
  "set_h1_title_case v self = self\<lparr>sc_h1_title_case := v\<rparr>"

definition set_h1_preserve_case :: "bool \<Rightarrow> server_config \<Rightarrow> server_config" where
  "set_h1_preserve_case v self = self\<lparr>sc_h1_preserve_case := v\<rparr>"

definition set_h1_pipeline_flush :: "bool \<Rightarrow> server_config \<Rightarrow> server_config" where
  "set_h1_pipeline_flush v self = self\<lparr>sc_h1_pipeline_flush := v\<rparr>"

definition set_h1_header_timeout :: "nat option \<Rightarrow> server_config \<Rightarrow> server_config" where
  "set_h1_header_timeout v self = self\<lparr>sc_h1_header_timeout := v\<rparr>"

definition set_h1_max_buf_size :: "nat \<Rightarrow> server_config \<Rightarrow> server_config" where
  "set_h1_max_buf_size v self = self\<lparr>sc_h1_max_buf_size := Some v\<rparr>"

definition set_handshake_timeout :: "nat option \<Rightarrow> server_config \<Rightarrow> server_config" where
  "set_handshake_timeout v self = self\<lparr>sc_handshake_timeout := v\<rparr>"

definition set_h2_only :: "bool \<Rightarrow> server_config \<Rightarrow> server_config" where
  "set_h2_only v self = self\<lparr>sc_h2_only := v\<rparr>"

definition set_h2_adaptive_window :: "bool \<Rightarrow> server_config \<Rightarrow> server_config" where
  "set_h2_adaptive_window v self = self\<lparr>sc_h2_adaptive_window := v\<rparr>"

definition set_h2_stream_window :: "u32 \<Rightarrow> server_config \<Rightarrow> server_config" where
  "set_h2_stream_window v self = self\<lparr>sc_h2_stream_window := Some v\<rparr>"

definition set_h2_connection_window :: "u32 \<Rightarrow> server_config \<Rightarrow> server_config" where
  "set_h2_connection_window v self = self\<lparr>sc_h2_connection_window := Some v\<rparr>"

definition set_h2_max_streams :: "u32 \<Rightarrow> server_config \<Rightarrow> server_config" where
  "set_h2_max_streams v self = self\<lparr>sc_h2_max_streams := Some v\<rparr>"

definition set_h2_ping_interval :: "nat \<Rightarrow> server_config \<Rightarrow> server_config" where
  "set_h2_ping_interval v self = self\<lparr>sc_h2_ping_interval := Some v\<rparr>"

definition set_h2_ping_timeout :: "nat \<Rightarrow> server_config \<Rightarrow> server_config" where
  "set_h2_ping_timeout v self = self\<lparr>sc_h2_ping_timeout := v\<rparr>"

definition set_h2_max_frame_size :: "u32 \<Rightarrow> server_config \<Rightarrow> server_config" where
  "set_h2_max_frame_size v self = self\<lparr>sc_h2_max_frame_size := Some v\<rparr>"

definition set_h2_max_send_buf :: "nat \<Rightarrow> server_config \<Rightarrow> server_config" where
  "set_h2_max_send_buf v self = self\<lparr>sc_h2_max_send_buf := Some v\<rparr>"

definition set_h2_max_header_list :: "u32 \<Rightarrow> server_config \<Rightarrow> server_config" where
  "set_h2_max_header_list v self = self\<lparr>sc_h2_max_header_list := Some v\<rparr>"
definition set_unlimited_connections :: "server_config \<Rightarrow> server_config" where
  "set_unlimited_connections self = self\<lparr>sc_max_connections := None\<rparr>"

definition set_accept_workers_per_cpu :: "nat option \<Rightarrow> server_config \<Rightarrow> server_config" where
  "set_accept_workers_per_cpu parallelism self =
     set_accept_workers (case parallelism of Some n \<Rightarrow> n | None \<Rightarrow> 1) self"

definition set_h2_unlimited_streams :: "server_config \<Rightarrow> server_config" where
  "set_h2_unlimited_streams self = self\<lparr>sc_h2_max_streams := None\<rparr>"

definition set_h2_no_ping :: "server_config \<Rightarrow> server_config" where
  "set_h2_no_ping self = self\<lparr>sc_h2_ping_interval := None\<rparr>"

definition http2_low_latency :: server_config where
  "http2_low_latency =
     set_tcp_nodelay True (set_h2_ping_timeout (secs 5) (set_h2_ping_interval (secs 15)
       (set_h2_max_send_buf (256 * 1024) (set_h2_max_streams 256 (set_h2_adaptive_window True server_config_default)))))"

definition http2_high_throughput :: server_config where
  "http2_high_throughput =
     set_tcp_nodelay True (set_h2_ping_timeout (secs 10) (set_h2_ping_interval (secs 20)
       (set_h2_max_send_buf 1048576 (set_h2_connection_window 8388608 (set_h2_stream_window 1048576
         (set_h2_max_streams 2000 (set_h2_adaptive_window True server_config_default)))))))"

definition needs_tuned_listener :: "server_config \<Rightarrow> bool" where
  "needs_tuned_listener self \<longleftrightarrow>
     sc_reuse_port self \<or> sc_reuse_address self \<or> sc_backlog self \<noteq> None \<or> sc_socket_recv_buffer self \<noteq> None
     \<or> sc_socket_send_buffer self \<noteq> None \<or> sc_accept_workers self > 1"

text \<open>hyper's builder; a field the code does not set keeps the value of the crate's \<open>new\<close>.\<close>

record conn_builder =
  cb_h1_keep_alive :: bool
  cb_h1_half_close :: bool
  cb_h1_title_case :: bool
  cb_h1_preserve_case :: bool
  cb_h1_pipeline_flush :: bool
  cb_h1_header_timeout :: "nat option"
  cb_h1_max_buf_size :: "nat option"
  cb_h1_timer :: bool
  cb_h2_timer :: bool
  cb_h2_adaptive_window :: bool
  cb_h2_stream_window :: "u32 option"
  cb_h2_connection_window :: "u32 option"
  cb_h2_max_streams :: "u32 option"
  cb_h2_ping_interval :: "nat option"
  cb_h2_ping_timeout :: nat
  cb_h2_max_frame_size :: "u32 option"
  cb_h2_max_send_buf :: "nat option"
  cb_h2_max_header_list :: "u32 option"
  cb_h2_only :: bool

definition auto_builder :: "conn_builder \<Rightarrow> server_config \<Rightarrow> conn_builder" where
  "auto_builder builder self =
     (let b = builder\<lparr>cb_h1_keep_alive := sc_h1_keep_alive self, cb_h1_half_close := sc_h1_half_close self,
            cb_h1_title_case := sc_h1_title_case self, cb_h1_preserve_case := sc_h1_preserve_case self,
            cb_h1_pipeline_flush := sc_h1_pipeline_flush self\<rparr>;
          b = (case sc_h1_header_timeout self of Some t \<Rightarrow> b\<lparr>cb_h1_header_timeout := Some t\<rparr> | None \<Rightarrow> b);
          b = (case sc_h1_max_buf_size self of Some n \<Rightarrow> b\<lparr>cb_h1_max_buf_size := Some n\<rparr> | None \<Rightarrow> b);
          b = b\<lparr>cb_h1_timer := True, cb_h2_timer := True, cb_h2_adaptive_window := sc_h2_adaptive_window self,
            cb_h2_stream_window := sc_h2_stream_window self, cb_h2_connection_window := sc_h2_connection_window self,
            cb_h2_max_streams := sc_h2_max_streams self, cb_h2_ping_interval := sc_h2_ping_interval self,
            cb_h2_ping_timeout := sc_h2_ping_timeout self, cb_h2_max_frame_size := sc_h2_max_frame_size self\<rparr>;
          b = (case sc_h2_max_send_buf self of Some n \<Rightarrow> b\<lparr>cb_h2_max_send_buf := Some n\<rparr> | None \<Rightarrow> b);
          b = (case sc_h2_max_header_list self of Some n \<Rightarrow> b\<lparr>cb_h2_max_header_list := Some n\<rparr> | None \<Rightarrow> b)
      in if sc_h2_only self then b\<lparr>cb_h2_only := True\<rparr> else b)"

subsection \<open>Runtime configuration\<close>

record runtime_config =
  rc_worker_threads :: "nat option"
  rc_max_blocking_threads :: "nat option"
  rc_thread_name :: "string option"
  rc_event_interval :: "nat option"
  rc_global_queue_interval :: "nat option"
  rc_max_io_events :: "nat option"

definition runtime_config_new :: runtime_config where
  "runtime_config_new = \<lparr>rc_worker_threads = None, rc_max_blocking_threads = None, rc_thread_name = None,
     rc_event_interval = None, rc_global_queue_interval = None, rc_max_io_events = None\<rparr>"

definition set_worker_threads :: "nat \<Rightarrow> runtime_config \<Rightarrow> runtime_config" where
  "set_worker_threads n self = self\<lparr>rc_worker_threads := Some (max n 1)\<rparr>"

definition set_max_blocking_threads :: "nat \<Rightarrow> runtime_config \<Rightarrow> runtime_config" where
  "set_max_blocking_threads n self = self\<lparr>rc_max_blocking_threads := Some (max n 1)\<rparr>"

definition set_thread_name :: "string \<Rightarrow> runtime_config \<Rightarrow> runtime_config" where
  "set_thread_name s self = self\<lparr>rc_thread_name := Some s\<rparr>"

definition set_event_interval :: "nat \<Rightarrow> runtime_config \<Rightarrow> runtime_config" where
  "set_event_interval n self = self\<lparr>rc_event_interval := Some (max n 1)\<rparr>"

definition set_global_queue_interval :: "nat \<Rightarrow> runtime_config \<Rightarrow> runtime_config" where
  "set_global_queue_interval n self = self\<lparr>rc_global_queue_interval := Some (max n 1)\<rparr>"

definition set_max_io_events :: "nat \<Rightarrow> runtime_config \<Rightarrow> runtime_config" where
  "set_max_io_events n self = self\<lparr>rc_max_io_events := Some (max n 1)\<rparr>"

text \<open>tokio's builder, all of its own checks being that these numbers are positive.\<close>

record runtime_builder =
  rb_worker_threads :: nat
  rb_max_blocking_threads :: nat
  rb_thread_name :: string
  rb_event_interval :: nat
  rb_global_queue_interval :: nat
  rb_max_io_events :: nat
  rb_enabled :: bool

definition runtime_build :: "runtime_builder \<Rightarrow> runtime_config \<Rightarrow> runtime_builder" where
  "runtime_build defaults self =
     (let b = defaults\<lparr>rb_enabled := True\<rparr>;
          b = (case rc_worker_threads self of Some n \<Rightarrow> b\<lparr>rb_worker_threads := n\<rparr> | None \<Rightarrow> b);
          b = (case rc_max_blocking_threads self of Some n \<Rightarrow> b\<lparr>rb_max_blocking_threads := n\<rparr> | None \<Rightarrow> b);
          b = (case rc_thread_name self of Some s \<Rightarrow> b\<lparr>rb_thread_name := s\<rparr> | None \<Rightarrow> b);
          b = (case rc_event_interval self of Some n \<Rightarrow> b\<lparr>rb_event_interval := n\<rparr> | None \<Rightarrow> b);
          b = (case rc_global_queue_interval self of Some n \<Rightarrow> b\<lparr>rb_global_queue_interval := n\<rparr> | None \<Rightarrow> b);
          b = (case rc_max_io_events self of Some n \<Rightarrow> b\<lparr>rb_max_io_events := n\<rparr> | None \<Rightarrow> b)
      in b)"

subsection \<open>Shutdown configuration\<close>

text \<open>Socket addresses are an IP address, as text, and a port.  Hooks are functions on the outside world, run in tasks
  of their own.\<close>

record sock_addr =
  sa_ip :: string
  sa_port :: nat

record connection_info =
  ci_local :: sock_addr
  ci_peer :: sock_addr

record 'w shutdown_config =
  sd_drain_timeout :: nat
  sd_on_connected :: "(connection_info \<Rightarrow> 'w \<Rightarrow> 'w) option"
  sd_on_disconnected :: "(connection_info \<Rightarrow> 'w \<Rightarrow> 'w) option"

definition shutdown_config_default :: "'w shutdown_config" where
  "shutdown_config_default =
     \<lparr>sd_drain_timeout = secs 30, sd_on_connected = None, sd_on_disconnected = None\<rparr>"

definition sd_set_drain_timeout :: "nat \<Rightarrow> 'w shutdown_config \<Rightarrow> 'w shutdown_config" where
  "sd_set_drain_timeout t self = self\<lparr>sd_drain_timeout := t\<rparr>"

definition sd_set_on_connected ::
  "(connection_info \<Rightarrow> 'w \<Rightarrow> 'w) \<Rightarrow> 'w shutdown_config \<Rightarrow> 'w shutdown_config" where
  "sd_set_on_connected hook self = self\<lparr>sd_on_connected := Some hook\<rparr>"

definition sd_set_on_disconnected ::
  "(connection_info \<Rightarrow> 'w \<Rightarrow> 'w) \<Rightarrow> 'w shutdown_config \<Rightarrow> 'w shutdown_config" where
  "sd_set_on_disconnected hook self = self\<lparr>sd_on_disconnected := Some hook\<rparr>"

definition call_connected :: "'w shutdown_config \<Rightarrow> connection_info \<Rightarrow> 'w \<Rightarrow> 'w" where
  "call_connected self info w = (case sd_on_connected self of Some hook \<Rightarrow> hook info w | None \<Rightarrow> w)"

definition call_disconnected :: "'w shutdown_config \<Rightarrow> connection_info \<Rightarrow> 'w \<Rightarrow> 'w" where
  "call_disconnected self info w = (case sd_on_disconnected self of Some hook \<Rightarrow> hook info w | None \<Rightarrow> w)"

subsection \<open>Properties\<close>

text \<open>The settings that reach tokio's builder are never zero when the defaults are not: tokio panics on zero.\<close>

definition runtime_positive :: "runtime_builder \<Rightarrow> bool" where
  "runtime_positive b \<longleftrightarrow> rb_worker_threads b > 0 \<and> rb_max_blocking_threads b > 0 \<and> rb_event_interval b > 0
     \<and> rb_global_queue_interval b > 0 \<and> rb_max_io_events b > 0"

definition runtime_config_ok :: "runtime_config \<Rightarrow> bool" where
  "runtime_config_ok c \<longleftrightarrow>
     0 \<notin> \<Union> (set_option ` {rc_worker_threads c, rc_max_blocking_threads c, rc_event_interval c,
                            rc_global_queue_interval c, rc_max_io_events c})"

inductive runtime_config_built :: "runtime_config \<Rightarrow> bool" where
  new: "runtime_config_built runtime_config_new"
| worker_threads: "runtime_config_built c \<Longrightarrow> runtime_config_built (set_worker_threads n c)"
| max_blocking: "runtime_config_built c \<Longrightarrow> runtime_config_built (set_max_blocking_threads n c)"
| thread_name: "runtime_config_built c \<Longrightarrow> runtime_config_built (set_thread_name s c)"
| event_interval: "runtime_config_built c \<Longrightarrow> runtime_config_built (set_event_interval n c)"
| global_queue: "runtime_config_built c \<Longrightarrow> runtime_config_built (set_global_queue_interval n c)"
| max_io: "runtime_config_built c \<Longrightarrow> runtime_config_built (set_max_io_events n c)"

lemma runtime_config_built_ok: "runtime_config_built c \<Longrightarrow> runtime_config_ok c"
  by (induction rule: runtime_config_built.induct)
    (auto simp: runtime_config_ok_def runtime_config_new_def set_worker_threads_def set_max_blocking_threads_def
      set_thread_name_def set_event_interval_def set_global_queue_interval_def set_max_io_events_def)

text \<open>Whatever numbers an application gives, zeros included, a runtime configuration built through the setters
  never hands tokio a zero, on which it would panic.\<close>

theorem runtime_build_positive:
  assumes "runtime_config_built c" "runtime_positive defaults"
  shows "runtime_positive (runtime_build defaults c)"
  using runtime_config_built_ok [OF assms(1)] assms(2)
  by (auto simp: runtime_config_ok_def runtime_positive_def runtime_build_def Let_def split: option.splits)

theorem runtime_build_positive_witness:
  "runtime_positive (runtime_build
     \<lparr>rb_worker_threads = 8, rb_max_blocking_threads = 512, rb_thread_name = ''tokio'', rb_event_interval = 61,
      rb_global_queue_interval = 31, rb_max_io_events = 1024, rb_enabled = False\<rparr>
     (set_worker_threads 0 runtime_config_new))"
  by (rule runtime_build_positive)
    (auto simp: runtime_positive_def intro: runtime_config_built.intros)

end
