(* ===== verification/Server.thy ===== *)
theory Server
  imports "HOL-Library.Multiset" Server_Config Router Rate_Limit Middleware
begin

text \<open>
  The HTTP server: arvik-hyper/src/server.rs, and the entry points of serve.rs.

  The operating system's sockets, tokio's tasks and hyper's connections are not part of the repository.  A socket
  operation is an event the code issues (\<open>sock_op\<close>, \<open>stream_op\<close>) whose failure is a parameter.  The accept loop with
  the connection tasks it spawned is a state machine: \<open>server_state\<close> is what the loop and its tasks share, and one
  event is an arm of the loop's \<^verbatim>\<open>select!\<close>, an arm of \<^verbatim>\<open>drain_connections\<close>, or a step of a worker or connection task.
  The scheduler chooses the events, so every interleaving of the tasks is a run of the machine; the order of the arms
  in the \<^verbatim>\<open>biased\<close> select only leaves out some of them.
\<close>

subsection \<open>Errors of the accept loop\<close>

datatype error_kind =
    ConnectionAborted | WouldBlock | Interrupted | PermissionDenied | OutOfMemory | InvalidInput | Unsupported
  | OtherKind string

record io_error =
  ie_kind :: error_kind
  ie_os :: "int option"
  ie_msg :: string

definition is_fatal_accept_error :: "io_error \<Rightarrow> bool" where
  "is_fatal_accept_error err \<longleftrightarrow>
     ie_kind err = PermissionDenied \<or> ie_os err \<in> {Some 9, Some 22}"

text \<open>The number of \<^verbatim>\<open>ENOBUFS\<close> is that of Linux.\<close>

definition is_resource_exhaustion :: "io_error \<Rightarrow> bool" where
  "is_resource_exhaustion err \<longleftrightarrow>
     ie_kind err = OutOfMemory \<or> ie_os err \<in> {Some 24, Some 23, Some 12, Some 105}"

text \<open>The answer, and the nanoseconds slept before it.\<close>

definition handle_accept_result :: "io_error + 'c \<Rightarrow> (io_error + 'c option) \<times> nat" where
  "handle_accept_result result =
     (case result of
        Inr pair \<Rightarrow> (Inr (Some pair), 0)
      | Inl err \<Rightarrow>
          if ie_kind err \<in> {ConnectionAborted, WouldBlock, Interrupted} then (Inr None, 0)
          else if is_fatal_accept_error err then (Inl err, 0)
          else if is_resource_exhaustion err then (Inr None, 100000000)
          else (Inr None, 0))"

subsection \<open>Sockets\<close>

datatype sock_op =
    SockNew sock_addr | SetNonblocking bool | SetReuseAddress bool | SetReusePort bool
  | SetRecvBuffer nat | SetSendBuffer nat | SockBind sock_addr | SockListen int | FromStd

fun run_ops :: "('op \<Rightarrow> 'e option) \<Rightarrow> 'op list \<Rightarrow> 'e + 'op list" where
  "run_ops fails [] = Inr []"
| "run_ops fails (x # xs) =
     (case fails x of
        Some e \<Rightarrow> Inl e
      | None \<Rightarrow> (case run_ops fails xs of Inl e \<Rightarrow> Inl e | Inr ys \<Rightarrow> Inr (x # ys)))"

definition set_reuse_port_op :: "sock_op list" where
  "set_reuse_port_op = [SetReusePort True]"

definition bind_socket_ops :: "sock_addr \<Rightarrow> server_config \<Rightarrow> sock_op list" where
  "bind_socket_ops addr config =
     [SockNew addr, SetNonblocking True]
     @ (if sc_reuse_address config then [SetReuseAddress True] else [])
     @ (if sc_reuse_port config then set_reuse_port_op else [])
     @ (case sc_socket_recv_buffer config of Some n \<Rightarrow> [SetRecvBuffer n] | None \<Rightarrow> [])
     @ (case sc_socket_send_buffer config of Some n \<Rightarrow> [SetSendBuffer n] | None \<Rightarrow> [])
     @ [SockBind addr, SockListen (case sc_backlog config of Some n \<Rightarrow> n | None \<Rightarrow> 1024), FromStd]"

text \<open>A listener is the address it is bound to with the options it was given.\<close>

record listener =
  ls_addr :: sock_addr
  ls_ops :: "sock_op list"

record net_os =
  os_tcp_bind :: "string \<Rightarrow> io_error + listener"
  os_lookup_host :: "string \<Rightarrow> io_error + sock_addr list"
  os_sock_op :: "sock_op \<Rightarrow> io_error option"
  os_local_addr :: "listener \<Rightarrow> io_error + sock_addr"

definition bind_socket :: "net_os \<Rightarrow> sock_addr \<Rightarrow> server_config \<Rightarrow> io_error + listener" where
  "bind_socket N addr config =
     (case run_ops (os_sock_op N) (bind_socket_ops addr config) of
        Inl e \<Rightarrow> Inl e | Inr ops \<Rightarrow> Inr \<lparr>ls_addr = addr, ls_ops = ops\<rparr>)"

definition invalid_input :: "string \<Rightarrow> io_error" where
  "invalid_input m = \<lparr>ie_kind = InvalidInput, ie_os = None, ie_msg = m\<rparr>"

fun push_sockets :: "net_os \<Rightarrow> sock_addr \<Rightarrow> server_config \<Rightarrow> nat \<Rightarrow> io_error + listener list" where
  "push_sockets N addr config 0 = Inr []"
| "push_sockets N addr config (Suc n) =
     (case bind_socket N addr config of
        Inl e \<Rightarrow> Inl e
      | Inr l \<Rightarrow> (case push_sockets N addr config n of Inl e \<Rightarrow> Inl e | Inr ls \<Rightarrow> Inr (l # ls)))"

definition bind_listeners :: "net_os \<Rightarrow> string \<Rightarrow> server_config \<Rightarrow> io_error + listener list" where
  "bind_listeners N addr config =
     (if sc_accept_workers config > 1 \<and> \<not> sc_reuse_port config then
        Inl (invalid_input ''accept_workers greater than 1 requires reuse_port(true)'')
      else if \<not> needs_tuned_listener config then
        (case os_tcp_bind N addr of Inl e \<Rightarrow> Inl e | Inr l \<Rightarrow> Inr [l])
      else
        (case os_lookup_host N addr of
           Inl e \<Rightarrow> Inl e
         | Inr [] \<Rightarrow> Inl (invalid_input ''address resolved to no sockets'')
         | Inr (resolved # _) \<Rightarrow>
             if sc_accept_workers config > 1 \<and> sa_port resolved = 0 then
               Inl (invalid_input ''accept_workers greater than 1 requires an explicit non-zero port'')
             else push_sockets N resolved config (sc_accept_workers config)))"

record server =
  sv_listeners :: "listener list"
  sv_addr :: sock_addr
  sv_config :: server_config

text \<open>\<^verbatim>\<open>None\<close> is the panic of the \<^verbatim>\<open>expect\<close> on an empty list of listeners.\<close>

definition bind_with_config :: "net_os \<Rightarrow> string \<Rightarrow> server_config \<Rightarrow> (io_error + server) option" where
  "bind_with_config N addr config =
     (case bind_listeners N addr config of
        Inl e \<Rightarrow> Some (Inl e)
      | Inr [] \<Rightarrow> None
      | Inr (l # ls) \<Rightarrow>
          (case os_local_addr N l of
             Inl e \<Rightarrow> Some (Inl e)
           | Inr a \<Rightarrow> Some (Inr \<lparr>sv_listeners = l # ls, sv_addr = a, sv_config = config\<rparr>)))"

definition server_bind :: "net_os \<Rightarrow> string \<Rightarrow> (io_error + server) option" where
  "server_bind N addr = bind_with_config N addr server_config_default"

datatype stream_op = SetNodelay bool | SetTcpKeepalive "nat option" "nat option" "u32 option"

definition stream_options :: "server_config \<Rightarrow> stream_op list" where
  "stream_options config =
     (case sc_tcp_nodelay config of Some b \<Rightarrow> [SetNodelay b] | None \<Rightarrow> [])
     @ (if sc_tcp_keepalive config \<noteq> None \<or> sc_tcp_keepalive_interval config \<noteq> None
           \<or> sc_tcp_keepalive_retries config \<noteq> None
        then [SetTcpKeepalive (sc_tcp_keepalive config) (sc_tcp_keepalive_interval config)
                (sc_tcp_keepalive_retries config)]
        else [])"

definition apply_stream_options :: "(stream_op \<Rightarrow> io_error option) \<Rightarrow> server_config \<Rightarrow> io_error + stream_op list" where
  "apply_stream_options fails config = run_ops fails (stream_options config)"

subsection \<open>Admission\<close>

text \<open>
  The compare-exchange loop of \<^verbatim>\<open>try_admit_connection\<close>.  Guards of other connections change the counter meanwhile, so
  each attempt comes with the value the counter has then, and whether the weak exchange fails spuriously.  The result
  is the decision and the counter after it; \<open>None\<close> is a loop that is still going when the attempts run out.
\<close>

fun admit_loop :: "nat \<Rightarrow> nat \<Rightarrow> (bool \<times> nat) list \<Rightarrow> (bool \<times> nat) option" where
  "admit_loop mx current [] = (if current \<ge> mx then Some (False, current) else None)"
| "admit_loop mx current ((spurious, actual) # rest) =
     (if current \<ge> mx then Some (False, current)
      else if actual = current \<and> \<not> spurious then Some (True, actual + 1)
      else admit_loop mx actual rest)"

definition try_admit_connection :: "server_config \<Rightarrow> nat \<Rightarrow> (bool \<times> nat) list \<Rightarrow> (bool \<times> nat) option" where
  "try_admit_connection config active attempts =
     (case sc_max_connections config of
        Some mx \<Rightarrow> admit_loop mx active attempts
      | None \<Rightarrow> Some (True, active + 1))"

definition over_capacity_body :: string where
  "over_capacity_body = [CHR ''{'', CHR 0x22] @ ''error'' @ [CHR 0x22, CHR '':'', CHR 0x22] @ ''Service Unavailable''
     @ [CHR 0x22, CHR '','', CHR 0x22] @ ''code'' @ [CHR 0x22, CHR '':''] @ ''503'' @ [CHR ''}'']"

definition crlf :: string where
  "crlf = [CHR 0x0D, CHR 0x0A]"

definition over_capacity_answer :: string where
  "over_capacity_answer =
     ''HTTP/1.1 503 Service Unavailable'' @ crlf @ ''Content-Type: application/json'' @ crlf
     @ ''         Content-Length: '' @ nat_to_string (length over_capacity_body) @ crlf
     @ ''Connection: close'' @ crlf @ crlf @ over_capacity_body"

subsection \<open>The accept loop and the connection tasks\<close>

text \<open>
  The three accept loops differ in what the task they spawn does with the stream (\<open>conn_kind\<close>).  A task holds its
  \<open>ConnectionGuard\<close> only once it has been polled: the guard is made by the first line of the asynchronous block.
\<close>

datatype conn_kind = PlainConn | TlsConn | NativeTlsConn

record conn_task =
  ct_id :: nat
  ct_kind :: conn_kind
  ct_info :: connection_info
  ct_polled :: bool

datatype hook_call = Connected connection_info | Disconnected connection_info

datatype phase = Accepting | Draining | Returned "io_error option"

text \<open>
  \<open>ss_accepted\<close> is the channel the accept workers send into, \<open>ss_tasks\<close> and \<open>ss_finished\<close> are the \<^verbatim>\<open>JoinSet\<close>: the tasks
  still running and the finished ones nobody joined yet.  \<open>ss_hooks\<close> are the calls of \<open>call_connected\<close> and
  \<open>call_disconnected\<close> so far, \<open>ss_rejected\<close> the bytes written to the streams that were not admitted, \<open>ss_unpolled\<close> the
  connections of the tasks that were cancelled before their first poll.  \<open>ss_active\<close> is a natural number; the
  decrement of the source would wrap below zero, which the invariant excludes, as each guard was counted.
\<close>

record 'c server_state =
  ss_phase :: phase
  ss_accepted :: "(io_error + 'c \<times> sock_addr) list"
  ss_active :: nat
  ss_tasks :: "conn_task list"
  ss_finished :: "nat list"
  ss_spawned :: nat
  ss_shutdown_sent :: bool
  ss_hooks :: "hook_call list"
  ss_rejected :: "('c \<times> string) list"
  ss_unpolled :: "connection_info list"

definition server_start :: "'c server_state" where
  "server_start = \<lparr>ss_phase = Accepting, ss_accepted = [], ss_active = 0, ss_tasks = [], ss_finished = [],
     ss_spawned = 0, ss_shutdown_sent = False, ss_hooks = [], ss_rejected = [], ss_unpolled = []\<rparr>"

text \<open>An accept worker delivers a result; the channel holds 1024.\<close>

definition worker_send :: "(io_error + 'c \<times> sock_addr) \<Rightarrow> 'c server_state \<Rightarrow> 'c server_state option" where
  "worker_send r st =
     (if ss_phase st = Accepting \<and> length (ss_accepted st) < 1024
      then Some (st\<lparr>ss_accepted := ss_accepted st @ [r]\<rparr>) else None)"

text \<open>Dropping the guard.\<close>

definition guard_drop :: "connection_info \<Rightarrow> 'c server_state \<Rightarrow> 'c server_state" where
  "guard_drop info st = st\<lparr>ss_active := ss_active st - 1, ss_hooks := ss_hooks st @ [Disconnected info]\<rparr>"

text \<open>A cancelled task is dropped where it stands: with its guard if it was ever polled, without one otherwise.\<close>

definition task_drop :: "conn_task \<Rightarrow> 'c server_state \<Rightarrow> 'c server_state" where
  "task_drop t st =
     (if ct_polled t then guard_drop (ct_info t) st
      else st\<lparr>ss_unpolled := ss_unpolled st @ [ct_info t]\<rparr>)"

definition abort_all :: "'c server_state \<Rightarrow> 'c server_state" where
  "abort_all st = (fold task_drop (ss_tasks st) st)\<lparr>ss_tasks := [], ss_finished := []\<rparr>"

text \<open>The admitted connection: the hook is called and the task is spawned.\<close>

definition spawn_conn :: "conn_kind \<Rightarrow> connection_info \<Rightarrow> 'c server_state \<Rightarrow> 'c server_state" where
  "spawn_conn kind info st =
     st\<lparr>ss_hooks := ss_hooks st @ [Connected info], ss_spawned := ss_spawned st + 1,
        ss_tasks := ss_tasks st @ [\<lparr>ct_id = ss_spawned st, ct_kind = kind, ct_info = info, ct_polled = False\<rparr>]\<rparr>"

definition reject_over_capacity :: "'c \<Rightarrow> 'c server_state \<Rightarrow> 'c server_state" where
  "reject_over_capacity stream st = st\<lparr>ss_rejected := ss_rejected st @ [(stream, over_capacity_answer)]\<rparr>"

text \<open>
  The arm \<^verbatim>\<open>accepted.recv()\<close>.  A fatal error returns from the loop, which drops the \<^verbatim>\<open>JoinSet\<close> and cancels every task;
  the cancelled tasks are gone at once here, where the runtime drops each at its next chance.  The channel is never
  closed while the server accepts, since the accept workers keep their senders until they are stopped, so the arm's
  \<^verbatim>\<open>else break\<close> has no step.
\<close>

definition accept_recv ::
  "conn_kind \<Rightarrow> ('c \<Rightarrow> stream_op \<Rightarrow> io_error option) \<Rightarrow> server_config \<Rightarrow> sock_addr
     \<Rightarrow> 'c server_state \<Rightarrow> 'c server_state option" where
  "accept_recv kind fails config addr st =
     (if ss_phase st \<noteq> Accepting then None
      else (case ss_accepted st of
              [] \<Rightarrow> None
            | r # rest \<Rightarrow>
                let st = st\<lparr>ss_accepted := rest\<rparr>
                in (case fst (handle_accept_result r) of
                      Inl e \<Rightarrow> Some ((abort_all st)\<lparr>ss_phase := Returned (Some e)\<rparr>)
                    | Inr None \<Rightarrow> Some st
                    | Inr (Some (stream, peer)) \<Rightarrow>
                        (case apply_stream_options (fails stream) config of
                           Inl e \<Rightarrow> Some st
                         | Inr _ \<Rightarrow>
                             let info = \<lparr>ci_local = addr, ci_peer = peer\<rparr>
                             in (case try_admit_connection config (ss_active st) [(False, ss_active st)] of
                                   Some (True, n) \<Rightarrow> Some (spawn_conn kind info (st\<lparr>ss_active := n\<rparr>))
                                 | Some (False, _) \<Rightarrow> Some (reject_over_capacity stream st)
                                 | None \<Rightarrow> None)))))"

text \<open>The other arms of the loop: the shutdown signal, and joining a finished task.\<close>

definition accept_signal :: "'c server_state \<Rightarrow> 'c server_state option" where
  "accept_signal st =
     (if ss_phase st = Accepting then Some (st\<lparr>ss_shutdown_sent := True, ss_phase := Draining\<rparr>) else None)"

definition join_one :: "'c server_state \<Rightarrow> 'c server_state option" where
  "join_one st =
     (if ss_phase st \<in> {Accepting, Draining} \<and> ss_finished st \<noteq> []
      then Some (st\<lparr>ss_finished := tl (ss_finished st)\<rparr>) else None)"

text \<open>\<^verbatim>\<open>drain_connections\<close>: nothing left to join, or the timer has run out.\<close>

definition drain_empty :: "'c server_state \<Rightarrow> 'c server_state option" where
  "drain_empty st =
     (if ss_phase st = Draining \<and> ss_tasks st = [] \<and> ss_finished st = []
      then Some (st\<lparr>ss_phase := Returned None\<rparr>) else None)"

definition drain_elapsed :: "'c server_state \<Rightarrow> 'c server_state option" where
  "drain_elapsed st =
     (if ss_phase st = Draining then Some ((abort_all st)\<lparr>ss_phase := Returned None\<rparr>) else None)"

text \<open>A task is polled for the first time, and a polled task ends: it returns, or panics, and drops its guard.\<close>

definition task_poll :: "nat \<Rightarrow> 'c server_state \<Rightarrow> 'c server_state option" where
  "task_poll i st =
     (if i < length (ss_tasks st)
      then Some (st\<lparr>ss_tasks := (ss_tasks st)[i := (ss_tasks st ! i)\<lparr>ct_polled := True\<rparr>]\<rparr>) else None)"

definition task_end :: "nat \<Rightarrow> 'c server_state \<Rightarrow> 'c server_state option" where
  "task_end i st =
     (if i < length (ss_tasks st) \<and> ct_polled (ss_tasks st ! i)
      then Some ((guard_drop (ct_info (ss_tasks st ! i)) st)
              \<lparr>ss_tasks := take i (ss_tasks st) @ drop (Suc i) (ss_tasks st),
               ss_finished := ss_finished st @ [ct_id (ss_tasks st ! i)]\<rparr>)
      else None)"

datatype 'c srv_event =
    WorkerSend "io_error + 'c \<times> sock_addr" | Signal | JoinNext | Recv | TaskPoll nat | TaskEnd nat
  | DrainEmpty | DrainElapsed

fun accept_event ::
  "conn_kind \<Rightarrow> ('c \<Rightarrow> stream_op \<Rightarrow> io_error option) \<Rightarrow> server_config \<Rightarrow> sock_addr
     \<Rightarrow> 'c srv_event \<Rightarrow> 'c server_state \<Rightarrow> 'c server_state option" where
  "accept_event kind fails config addr (WorkerSend r) st = worker_send r st"
| "accept_event kind fails config addr Signal st = accept_signal st"
| "accept_event kind fails config addr JoinNext st = join_one st"
| "accept_event kind fails config addr Recv st = accept_recv kind fails config addr st"
| "accept_event kind fails config addr (TaskPoll i) st = task_poll i st"
| "accept_event kind fails config addr (TaskEnd i) st = task_end i st"
| "accept_event kind fails config addr DrainEmpty st = drain_empty st"
| "accept_event kind fails config addr DrainElapsed st = drain_elapsed st"

fun accept_events ::
  "conn_kind \<Rightarrow> ('c \<Rightarrow> stream_op \<Rightarrow> io_error option) \<Rightarrow> server_config \<Rightarrow> sock_addr
     \<Rightarrow> 'c srv_event list \<Rightarrow> 'c server_state \<Rightarrow> 'c server_state option" where
  "accept_events kind fails config addr [] st = Some st"
| "accept_events kind fails config addr (e # es) st =
     Option.bind (accept_event kind fails config addr e st) (accept_events kind fails config addr es)"

inductive srv_reach ::
  "conn_kind \<Rightarrow> ('c \<Rightarrow> stream_op \<Rightarrow> io_error option) \<Rightarrow> server_config \<Rightarrow> sock_addr
     \<Rightarrow> 'c server_state \<Rightarrow> bool"
  for kind fails config addr where
  start: "srv_reach kind fails config addr server_start"
| step: "srv_reach kind fails config addr st \<Longrightarrow> accept_event kind fails config addr e st = Some st'
     \<Longrightarrow> srv_reach kind fails config addr st'"

definition accept_plain ::
  "('c \<Rightarrow> stream_op \<Rightarrow> io_error option) \<Rightarrow> server \<Rightarrow> 'c srv_event list \<Rightarrow> 'c server_state option" where
  "accept_plain fails srv es = accept_events PlainConn fails (sv_config srv) (sv_addr srv) es server_start"

definition accept_tls ::
  "('c \<Rightarrow> stream_op \<Rightarrow> io_error option) \<Rightarrow> server \<Rightarrow> 'c srv_event list \<Rightarrow> 'c server_state option" where
  "accept_tls fails srv es = accept_events TlsConn fails (sv_config srv) (sv_addr srv) es server_start"

definition accept_native_tls ::
  "('c \<Rightarrow> stream_op \<Rightarrow> io_error option) \<Rightarrow> server \<Rightarrow> 'c srv_event list \<Rightarrow> 'c server_state option" where
  "accept_native_tls fails srv es = accept_events NativeTlsConn fails (sv_config srv) (sv_addr srv) es server_start"

subsection \<open>A TLS connection task in time\<close>

text \<open>
  What the task of \<^verbatim>\<open>accept_tls\<close> does with its stream.  A handshake ends after some time with an error or a
  stream, and \<^verbatim>\<open>run_connection\<close> serves the stream for some time; \<open>None\<close> is one that never ends.  The asynchronous block
  called \<^verbatim>\<open>handshake\<close> in the source runs both, and the timeout is around that block.
\<close>

definition tls_block :: "(('e + unit) \<times> nat) option \<Rightarrow> nat option \<Rightarrow> (('e + unit) \<times> nat) option" where
  "tls_block accept serving =
     (case accept of
        None \<Rightarrow> None
      | Some (Inl e, t) \<Rightarrow> Some (Inl e, t)
      | Some (Inr _, t) \<Rightarrow> map_option (\<lambda>s. (Inr (), t + s)) serving)"

datatype 'e conn_end = Finished "'e + unit" nat | TimedOut nat | Forever

definition tls_task :: "nat option \<Rightarrow> (('e + unit) \<times> nat) option \<Rightarrow> nat option \<Rightarrow> 'e conn_end" where
  "tls_task limit accept serving =
     (case limit of
        Some l \<Rightarrow>
          (case tls_block accept serving of
             Some (r, t) \<Rightarrow> if t \<le> l then Finished r t else TimedOut l
           | None \<Rightarrow> TimedOut l)
      | None \<Rightarrow>
          (case tls_block accept serving of Some (r, t) \<Rightarrow> Finished r t | None \<Rightarrow> Forever))"

text \<open>The task of \<^verbatim>\<open>accept_native_tls\<close> is the same block around another handshake.\<close>

definition native_tls_task :: "nat option \<Rightarrow> (('e + unit) \<times> nat) option \<Rightarrow> nat option \<Rightarrow> 'e conn_end" where
  "native_tls_task limit accept serving =
     (case limit of
        Some l \<Rightarrow>
          (case tls_block accept serving of
             Some (r, t) \<Rightarrow> if t \<le> l then Finished r t else TimedOut l
           | None \<Rightarrow> TimedOut l)
      | None \<Rightarrow>
          (case tls_block accept serving of Some (r, t) \<Rightarrow> Finished r t | None \<Rightarrow> Forever))"

subsection \<open>Serving one connection\<close>

text \<open>hyper's request, before the framework's extensions: the body is the frames that come in.\<close>

record 'h hyper_request =
  hy_method :: http_method
  hy_uri :: uri
  hy_headers :: 'h
  hy_frames :: "frame list"
  hy_size_hint :: "nat option"

definition from_hyper :: "'h hyper_request \<Rightarrow> 'h request" where
  "from_hyper req =
     \<lparr>req_method = hy_method req, req_uri = hy_uri req, req_headers = hy_headers req, req_ext = no_extensions,
      req_body = BBoxed (hy_frames req) (hy_size_hint req)\<rparr>"

definition hyper_service :: "('h, 'w) service \<Rightarrow> 'h hyper_request \<Rightarrow> 'w \<Rightarrow> 'h outcome \<times> 'w" where
  "hyper_service service req w = service (from_hyper req) w"

text \<open>hyper's connection: built from a builder, a stream and the service, polled, and told to shut down.\<close>

record ('i, 's, 'k) conn_lib =
  hc_serve :: "conn_builder \<Rightarrow> 'i \<Rightarrow> 's \<Rightarrow> 'k"
  hc_serve_upgrades :: "conn_builder \<Rightarrow> 'i \<Rightarrow> 's \<Rightarrow> 'k"
  hc_poll :: "'k \<Rightarrow> string option poll \<times> 'k"
  hc_graceful :: "'k \<Rightarrow> 'k"

fun conn_await :: "('i, 's, 'k) conn_lib \<Rightarrow> bool list \<Rightarrow> 'k \<Rightarrow> string option poll \<times> 'k" where
  "conn_await C [] k = (Pending, k)"
| "conn_await C (_ # wakes) k =
     (case hc_poll C k of (Ready r, k') \<Rightarrow> (Ready r, k') | (Pending, k') \<Rightarrow> conn_await C wakes k')"

text \<open>The select over the connection and the shutdown channel; one wake-up says whether the channel has changed.\<close>

fun conn_select :: "('i, 's, 'k) conn_lib \<Rightarrow> bool list \<Rightarrow> 'k \<Rightarrow> string option poll \<times> 'k" where
  "conn_select C [] k = (Pending, k)"
| "conn_select C (changed # wakes) k =
     (case hc_poll C k of
        (Ready r, k') \<Rightarrow> (Ready r, k')
      | (Pending, k') \<Rightarrow>
          if changed then conn_await C (changed # wakes) (hc_graceful C k') else conn_select C wakes k')"

definition run_connection ::
  "('i, 'h hyper_request \<Rightarrow> 'w \<Rightarrow> 'h outcome \<times> 'w, 'k) conn_lib \<Rightarrow> conn_builder \<Rightarrow> 'i \<Rightarrow> ('h, 'w) service
     \<Rightarrow> server_config \<Rightarrow> bool list \<Rightarrow> string option poll \<times> 'k" where
  "run_connection C new_builder stream service config wakes =
     (let builder = auto_builder new_builder config;
          conn = (if sc_h2_only config then hc_serve C builder stream (hyper_service service)
                  else hc_serve_upgrades C builder stream (hyper_service service))
      in conn_select C wakes conn)"

subsection \<open>Services\<close>

definition bare_handler_service :: "('h, 'w, unit) handler \<Rightarrow> ('h, 'w) service" where
  "bare_handler_service handler req w = handler req () w"

definition bare_method_service :: "'h http_lib \<Rightarrow> ('h, 'w, unit) method_router \<Rightarrow> ('h, 'w) service" where
  "bare_method_service H router req w = fst (mr_call H router req () w)"

subsection \<open>The methods of \<^verbatim>\<open>Server\<close>\<close>

text \<open>
  What a serving method does is which loop it enters, with which service, signal and configuration (\<open>launch\<close>).  A
  signal \<open>None\<close> is \<^verbatim>\<open>pending()\<close>, which never comes.
\<close>

datatype 'c transport = PlainTcp | RustlsTcp 'c | NativeTlsTcp 'c

record ('h, 'w, 'c, 'f, 'x) launch =
  la_server :: server
  la_service :: "('h, 'w) service"
  la_transport :: "'c transport"
  la_signal :: "'f option"
  la_shutdown :: "'x shutdown_config"

definition srv_serve_service_graceful ::
  "server \<Rightarrow> ('h, 'w) service \<Rightarrow> 'f option \<Rightarrow> 'x shutdown_config \<Rightarrow> ('h, 'w, 'c, 'f, 'x) launch" where
  "srv_serve_service_graceful self service signal sd =
     \<lparr>la_server = self, la_service = service, la_transport = PlainTcp, la_signal = signal, la_shutdown = sd\<rparr>"

definition srv_serve_service ::
  "server \<Rightarrow> ('h, 'w) service \<Rightarrow> ('h, 'w, 'c, 'f, 'x) launch" where
  "srv_serve_service self service = srv_serve_service_graceful self service None shutdown_config_default"

definition srv_serve_app ::
  "'h http_lib \<Rightarrow> 't trie_lib \<Rightarrow> server \<Rightarrow> ('t, 'h, 'w, unit) router \<Rightarrow> ('h, 'w, 'c, 'f, 'x) launch" where
  "srv_serve_app H T self router = srv_serve_service self (router_into_service H T router)"

definition srv_serve_app_graceful ::
  "'h http_lib \<Rightarrow> 't trie_lib \<Rightarrow> server \<Rightarrow> ('t, 'h, 'w, unit) router
     \<Rightarrow> 'f option \<Rightarrow> 'x shutdown_config \<Rightarrow> ('h, 'w, 'c, 'f, 'x) launch" where
  "srv_serve_app_graceful H T self router signal sd =
     srv_serve_service_graceful self (router_into_service H T router) signal sd"

definition srv_serve ::
  "server \<Rightarrow> ('h, 'w, unit) handler \<Rightarrow> ('h, 'w, 'c, 'f, 'x) launch" where
  "srv_serve self handler = srv_serve_service self (bare_handler_service handler)"

definition srv_serve_graceful ::
  "server \<Rightarrow> ('h, 'w, unit) handler \<Rightarrow> 'f option \<Rightarrow> 'x shutdown_config \<Rightarrow> ('h, 'w, 'c, 'f, 'x) launch" where
  "srv_serve_graceful self handler signal sd =
     srv_serve_service_graceful self (bare_handler_service handler) signal sd"

definition srv_serve_method_router ::
  "'h http_lib \<Rightarrow> server \<Rightarrow> ('h, 'w, unit) method_router \<Rightarrow> ('h, 'w, 'c, 'f, 'x) launch" where
  "srv_serve_method_router H self router = srv_serve_service self (bare_method_service H router)"

definition srv_serve_method_router_graceful ::
  "'h http_lib \<Rightarrow> server \<Rightarrow> ('h, 'w, unit) method_router
     \<Rightarrow> 'f option \<Rightarrow> 'x shutdown_config \<Rightarrow> ('h, 'w, 'c, 'f, 'x) launch" where
  "srv_serve_method_router_graceful H self router signal sd =
     srv_serve_service_graceful self (bare_method_service H router) signal sd"

definition srv_serve_tls_service_graceful ::
  "server \<Rightarrow> ('h, 'w) service \<Rightarrow> 'c \<Rightarrow> 'f option \<Rightarrow> 'x shutdown_config
     \<Rightarrow> ('h, 'w, 'c, 'f, 'x) launch" where
  "srv_serve_tls_service_graceful self service tls signal sd =
     \<lparr>la_server = self, la_service = service, la_transport = RustlsTcp tls, la_signal = signal, la_shutdown = sd\<rparr>"

definition srv_serve_tls_service ::
  "server \<Rightarrow> ('h, 'w) service \<Rightarrow> 'c \<Rightarrow> ('h, 'w, 'c, 'f, 'x) launch" where
  "srv_serve_tls_service self service tls =
     srv_serve_tls_service_graceful self service tls None shutdown_config_default"

definition srv_serve_tls_app ::
  "'h http_lib \<Rightarrow> 't trie_lib \<Rightarrow> server \<Rightarrow> ('t, 'h, 'w, unit) router \<Rightarrow> 'c
     \<Rightarrow> ('h, 'w, 'c, 'f, 'x) launch" where
  "srv_serve_tls_app H T self router tls = srv_serve_tls_service self (router_into_service H T router) tls"

definition srv_serve_tls_app_graceful ::
  "'h http_lib \<Rightarrow> 't trie_lib \<Rightarrow> server \<Rightarrow> ('t, 'h, 'w, unit) router \<Rightarrow> 'c
     \<Rightarrow> 'f option \<Rightarrow> 'x shutdown_config \<Rightarrow> ('h, 'w, 'c, 'f, 'x) launch" where
  "srv_serve_tls_app_graceful H T self router tls signal sd =
     srv_serve_tls_service_graceful self (router_into_service H T router) tls signal sd"

definition srv_serve_native_tls_service_graceful ::
  "server \<Rightarrow> ('h, 'w) service \<Rightarrow> 'c \<Rightarrow> 'f option \<Rightarrow> 'x shutdown_config
     \<Rightarrow> ('h, 'w, 'c, 'f, 'x) launch" where
  "srv_serve_native_tls_service_graceful self service tls signal sd =
     \<lparr>la_server = self, la_service = service, la_transport = NativeTlsTcp tls, la_signal = signal, la_shutdown = sd\<rparr>"

definition srv_serve_native_tls_service ::
  "server \<Rightarrow> ('h, 'w) service \<Rightarrow> 'c \<Rightarrow> ('h, 'w, 'c, 'f, 'x) launch" where
  "srv_serve_native_tls_service self service tls =
     srv_serve_native_tls_service_graceful self service tls None shutdown_config_default"

definition srv_serve_native_tls_app ::
  "'h http_lib \<Rightarrow> 't trie_lib \<Rightarrow> server \<Rightarrow> ('t, 'h, 'w, unit) router \<Rightarrow> 'c
     \<Rightarrow> ('h, 'w, 'c, 'f, 'x) launch" where
  "srv_serve_native_tls_app H T self router tls = srv_serve_native_tls_service self (router_into_service H T router) tls"

definition srv_serve_native_tls_app_graceful ::
  "'h http_lib \<Rightarrow> 't trie_lib \<Rightarrow> server \<Rightarrow> ('t, 'h, 'w, unit) router \<Rightarrow> 'c
     \<Rightarrow> 'f option \<Rightarrow> 'x shutdown_config \<Rightarrow> ('h, 'w, 'c, 'f, 'x) launch" where
  "srv_serve_native_tls_app_graceful H T self router tls signal sd =
     srv_serve_native_tls_service_graceful self (router_into_service H T router) tls signal sd"

subsection \<open>The serve functions\<close>

definition and_then :: "(io_error + server) option \<Rightarrow> (server \<Rightarrow> 'l) \<Rightarrow> (io_error + 'l) option" where
  "and_then r k =
     (case r of None \<Rightarrow> None | Some (Inl e) \<Rightarrow> Some (Inl e) | Some (Inr s) \<Rightarrow> Some (Inr (k s)))"

definition serve_handler ::
  "net_os \<Rightarrow> string \<Rightarrow> ('h, 'w, unit) handler \<Rightarrow> (io_error + ('h, 'w, 'c, 'f, 'x) launch) option" where
  "serve_handler N addr handler =
     and_then (server_bind N addr) (\<lambda>s. srv_serve s handler)"

definition serve_handler_with_config ::
  "net_os \<Rightarrow> string \<Rightarrow> ('h, 'w, unit) handler \<Rightarrow> server_config \<Rightarrow> (io_error + ('h, 'w, 'c, 'f, 'x) launch) option" where
  "serve_handler_with_config N addr handler config =
     and_then (bind_with_config N addr config) (\<lambda>s. srv_serve s handler)"

definition serve_handler_with_config_and_graceful_shutdown ::
  "net_os \<Rightarrow> string \<Rightarrow> ('h, 'w, unit) handler \<Rightarrow> server_config \<Rightarrow> 'x shutdown_config \<Rightarrow> 'f option
     \<Rightarrow> (io_error + ('h, 'w, 'c, 'f, 'x) launch) option" where
  "serve_handler_with_config_and_graceful_shutdown N addr handler config sd signal =
     and_then (bind_with_config N addr config) (\<lambda>s. srv_serve_graceful s handler signal sd)"

definition serve_handler_with_graceful_shutdown ::
  "net_os \<Rightarrow> string \<Rightarrow> ('h, 'w, unit) handler \<Rightarrow> 'f option
     \<Rightarrow> (io_error + ('h, 'w, 'c, 'f, 'x) launch) option" where
  "serve_handler_with_graceful_shutdown N addr handler signal =
     serve_handler_with_config_and_graceful_shutdown N addr handler server_config_default
       shutdown_config_default signal"

definition serve_router ::
  "'h http_lib \<Rightarrow> net_os \<Rightarrow> string \<Rightarrow> ('h, 'w, unit) method_router
     \<Rightarrow> (io_error + ('h, 'w, 'c, 'f, 'x) launch) option" where
  "serve_router H N addr router =
     and_then (server_bind N addr) (\<lambda>s. srv_serve_method_router H s router)"

definition serve_router_with_config ::
  "'h http_lib \<Rightarrow> net_os \<Rightarrow> string \<Rightarrow> ('h, 'w, unit) method_router \<Rightarrow> server_config
     \<Rightarrow> (io_error + ('h, 'w, 'c, 'f, 'x) launch) option" where
  "serve_router_with_config H N addr router config =
     and_then (bind_with_config N addr config) (\<lambda>s. srv_serve_method_router H s router)"

definition serve_router_with_config_and_graceful_shutdown ::
  "'h http_lib \<Rightarrow> net_os \<Rightarrow> string \<Rightarrow> ('h, 'w, unit) method_router \<Rightarrow> server_config \<Rightarrow> 'x shutdown_config \<Rightarrow> 'f option
     \<Rightarrow> (io_error + ('h, 'w, 'c, 'f, 'x) launch) option" where
  "serve_router_with_config_and_graceful_shutdown H N addr router config sd signal =
     and_then (bind_with_config N addr config) (\<lambda>s. srv_serve_method_router_graceful H s router signal sd)"

definition serve_router_with_graceful_shutdown ::
  "'h http_lib \<Rightarrow> net_os \<Rightarrow> string \<Rightarrow> ('h, 'w, unit) method_router \<Rightarrow> 'f option
     \<Rightarrow> (io_error + ('h, 'w, 'c, 'f, 'x) launch) option" where
  "serve_router_with_graceful_shutdown H N addr router signal =
     serve_router_with_config_and_graceful_shutdown H N addr router server_config_default
       shutdown_config_default signal"

definition serve_app ::
  "'h http_lib \<Rightarrow> 't trie_lib \<Rightarrow> net_os \<Rightarrow> string \<Rightarrow> ('t, 'h, 'w, unit) router
     \<Rightarrow> (io_error + ('h, 'w, 'c, 'f, 'x) launch) option" where
  "serve_app H T N addr router =
     and_then (server_bind N addr) (\<lambda>s. srv_serve_app H T s router)"

definition serve_with_config ::
  "'h http_lib \<Rightarrow> 't trie_lib \<Rightarrow> net_os \<Rightarrow> ('t, 'h, 'w, unit) router \<Rightarrow> string \<Rightarrow> server_config
     \<Rightarrow> (io_error + ('h, 'w, 'c, 'f, 'x) launch) option" where
  "serve_with_config H T N router addr config =
     and_then (bind_with_config N addr config) (\<lambda>s. srv_serve_app H T s router)"

definition serve_with_config_and_graceful_shutdown ::
  "'h http_lib \<Rightarrow> 't trie_lib \<Rightarrow> net_os \<Rightarrow> ('t, 'h, 'w, unit) router \<Rightarrow> string \<Rightarrow> server_config \<Rightarrow> 'x shutdown_config \<Rightarrow> 'f option
     \<Rightarrow> (io_error + ('h, 'w, 'c, 'f, 'x) launch) option" where
  "serve_with_config_and_graceful_shutdown H T N router addr config sd signal =
     and_then (bind_with_config N addr config) (\<lambda>s. srv_serve_app_graceful H T s router signal sd)"

definition serve_with_graceful_shutdown ::
  "'h http_lib \<Rightarrow> 't trie_lib \<Rightarrow> net_os \<Rightarrow> ('t, 'h, 'w, unit) router \<Rightarrow> string \<Rightarrow> 'f option
     \<Rightarrow> (io_error + ('h, 'w, 'c, 'f, 'x) launch) option" where
  "serve_with_graceful_shutdown H T N router addr signal =
     serve_with_config_and_graceful_shutdown H T N router addr server_config_default
       shutdown_config_default signal"

definition serve_service ::
  "net_os \<Rightarrow> string \<Rightarrow> ('h, 'w) service \<Rightarrow> (io_error + ('h, 'w, 'c, 'f, 'x) launch) option" where
  "serve_service N addr service =
     and_then (server_bind N addr) (\<lambda>s. srv_serve_service s service)"

definition serve_service_with_config ::
  "net_os \<Rightarrow> string \<Rightarrow> ('h, 'w) service \<Rightarrow> server_config \<Rightarrow> (io_error + ('h, 'w, 'c, 'f, 'x) launch) option" where
  "serve_service_with_config N addr service config =
     and_then (bind_with_config N addr config) (\<lambda>s. srv_serve_service s service)"

definition serve_service_with_config_and_graceful_shutdown ::
  "net_os \<Rightarrow> string \<Rightarrow> ('h, 'w) service \<Rightarrow> server_config \<Rightarrow> 'x shutdown_config \<Rightarrow> 'f option
     \<Rightarrow> (io_error + ('h, 'w, 'c, 'f, 'x) launch) option" where
  "serve_service_with_config_and_graceful_shutdown N addr service config sd signal =
     and_then (bind_with_config N addr config) (\<lambda>s. srv_serve_service_graceful s service signal sd)"

definition serve_service_with_graceful_shutdown ::
  "net_os \<Rightarrow> string \<Rightarrow> ('h, 'w) service \<Rightarrow> 'f option
     \<Rightarrow> (io_error + ('h, 'w, 'c, 'f, 'x) launch) option" where
  "serve_service_with_graceful_shutdown N addr service signal =
     serve_service_with_config_and_graceful_shutdown N addr service server_config_default
       shutdown_config_default signal"

definition serve_tls_with_config ::
  "'h http_lib \<Rightarrow> 't trie_lib \<Rightarrow> net_os \<Rightarrow> ('t, 'h, 'w, unit) router \<Rightarrow> string \<Rightarrow> 'c \<Rightarrow> server_config
     \<Rightarrow> (io_error + ('h, 'w, 'c, 'f, 'x) launch) option" where
  "serve_tls_with_config H T N router addr tls config =
     and_then (bind_with_config N addr config) (\<lambda>s. srv_serve_tls_app H T s router tls)"

definition serve_tls ::
  "'h http_lib \<Rightarrow> 't trie_lib \<Rightarrow> net_os \<Rightarrow> ('t, 'h, 'w, unit) router \<Rightarrow> string \<Rightarrow> 'c
     \<Rightarrow> (io_error + ('h, 'w, 'c, 'f, 'x) launch) option" where
  "serve_tls H T N router addr tls =
     serve_tls_with_config H T N router addr tls server_config_default"

definition serve_tls_with_config_and_graceful_shutdown ::
  "'h http_lib \<Rightarrow> 't trie_lib \<Rightarrow> net_os \<Rightarrow> ('t, 'h, 'w, unit) router \<Rightarrow> string \<Rightarrow> 'c \<Rightarrow> server_config \<Rightarrow> 'x shutdown_config \<Rightarrow> 'f option
     \<Rightarrow> (io_error + ('h, 'w, 'c, 'f, 'x) launch) option" where
  "serve_tls_with_config_and_graceful_shutdown H T N router addr tls config sd signal =
     and_then (bind_with_config N addr config) (\<lambda>s. srv_serve_tls_app_graceful H T s router tls signal sd)"

definition serve_tls_with_graceful_shutdown ::
  "'h http_lib \<Rightarrow> 't trie_lib \<Rightarrow> net_os \<Rightarrow> ('t, 'h, 'w, unit) router \<Rightarrow> string \<Rightarrow> 'c \<Rightarrow> 'f option
     \<Rightarrow> (io_error + ('h, 'w, 'c, 'f, 'x) launch) option" where
  "serve_tls_with_graceful_shutdown H T N router addr tls signal =
     serve_tls_with_config_and_graceful_shutdown H T N router addr tls server_config_default
       shutdown_config_default signal"

definition serve_native_tls_with_config ::
  "'h http_lib \<Rightarrow> 't trie_lib \<Rightarrow> net_os \<Rightarrow> ('t, 'h, 'w, unit) router \<Rightarrow> string \<Rightarrow> 'c \<Rightarrow> server_config
     \<Rightarrow> (io_error + ('h, 'w, 'c, 'f, 'x) launch) option" where
  "serve_native_tls_with_config H T N router addr tls config =
     and_then (bind_with_config N addr config) (\<lambda>s. srv_serve_native_tls_app H T s router tls)"

definition serve_native_tls ::
  "'h http_lib \<Rightarrow> 't trie_lib \<Rightarrow> net_os \<Rightarrow> ('t, 'h, 'w, unit) router \<Rightarrow> string \<Rightarrow> 'c
     \<Rightarrow> (io_error + ('h, 'w, 'c, 'f, 'x) launch) option" where
  "serve_native_tls H T N router addr tls =
     serve_native_tls_with_config H T N router addr tls server_config_default"

definition serve_native_tls_with_config_and_graceful_shutdown ::
  "'h http_lib \<Rightarrow> 't trie_lib \<Rightarrow> net_os \<Rightarrow> ('t, 'h, 'w, unit) router \<Rightarrow> string \<Rightarrow> 'c \<Rightarrow> server_config \<Rightarrow> 'x shutdown_config \<Rightarrow> 'f option
     \<Rightarrow> (io_error + ('h, 'w, 'c, 'f, 'x) launch) option" where
  "serve_native_tls_with_config_and_graceful_shutdown H T N router addr tls config sd signal =
     and_then (bind_with_config N addr config) (\<lambda>s. srv_serve_native_tls_app_graceful H T s router tls signal sd)"

definition serve_native_tls_with_graceful_shutdown ::
  "'h http_lib \<Rightarrow> 't trie_lib \<Rightarrow> net_os \<Rightarrow> ('t, 'h, 'w, unit) router \<Rightarrow> string \<Rightarrow> 'c \<Rightarrow> 'f option
     \<Rightarrow> (io_error + ('h, 'w, 'c, 'f, 'x) launch) option" where
  "serve_native_tls_with_graceful_shutdown H T N router addr tls signal =
     serve_native_tls_with_config_and_graceful_shutdown H T N router addr tls server_config_default
       shutdown_config_default signal"

definition serve_h2c_with_config ::
  "'h http_lib \<Rightarrow> 't trie_lib \<Rightarrow> net_os \<Rightarrow> ('t, 'h, 'w, unit) router \<Rightarrow> string \<Rightarrow> server_config
     \<Rightarrow> (io_error + ('h, 'w, 'c, 'f, 'x) launch) option" where
  "serve_h2c_with_config H T N router addr config =
     and_then (bind_with_config N addr (set_h2_only True config)) (\<lambda>s. srv_serve_app H T s router)"

definition serve_h2c ::
  "'h http_lib \<Rightarrow> 't trie_lib \<Rightarrow> net_os \<Rightarrow> ('t, 'h, 'w, unit) router \<Rightarrow> string
     \<Rightarrow> (io_error + ('h, 'w, 'c, 'f, 'x) launch) option" where
  "serve_h2c H T N router addr =
     serve_h2c_with_config H T N router addr server_config_default"

definition serve_h2c_with_config_and_graceful_shutdown ::
  "'h http_lib \<Rightarrow> 't trie_lib \<Rightarrow> net_os \<Rightarrow> ('t, 'h, 'w, unit) router \<Rightarrow> string \<Rightarrow> server_config \<Rightarrow> 'x shutdown_config \<Rightarrow> 'f option
     \<Rightarrow> (io_error + ('h, 'w, 'c, 'f, 'x) launch) option" where
  "serve_h2c_with_config_and_graceful_shutdown H T N router addr config sd signal =
     and_then (bind_with_config N addr (set_h2_only True config))
       (\<lambda>s. srv_serve_app_graceful H T s router signal sd)"

definition serve_h2c_with_graceful_shutdown ::
  "'h http_lib \<Rightarrow> 't trie_lib \<Rightarrow> net_os \<Rightarrow> ('t, 'h, 'w, unit) router \<Rightarrow> string \<Rightarrow> 'f option
     \<Rightarrow> (io_error + ('h, 'w, 'c, 'f, 'x) launch) option" where
  "serve_h2c_with_graceful_shutdown H T N router addr signal =
     serve_h2c_with_config_and_graceful_shutdown H T N router addr server_config_default
       shutdown_config_default signal"

subsection \<open>Admission terminates and is atomic\<close>

text \<open>An attempt that is neither spurious nor overtaken ends the loop; the value it saw decides.\<close>

lemma admit_loop_sound:
  "admit_loop mx current attempts = Some (ok, n)
     \<Longrightarrow> if ok then \<exists>a. n = a + 1 \<and> a < mx \<and> (False, a) \<in> set attempts
         else mx \<le> n \<and> (n = current \<or> n \<in> snd ` set attempts)"
  by (induction mx current attempts rule: admit_loop.induct)
    (auto split: if_splits)

lemma admit_loop_returns: "admit_loop mx current (attempts @ [(s, a), (False, a)]) \<noteq> None"
  by (induction mx current attempts rule: admit_loop.induct) auto

text \<open>The compare-exchange loop admits a connection only by an exchange that found the counter below the limit and
  left it at most at the limit, however the other connections move the counter meanwhile; it refuses only after it
  read a value at or above the limit; and it has an answer as soon as one attempt is left alone.\<close>

theorem try_admit_connection_atomic:
  assumes "sc_max_connections config = Some mx"
  shows "(case try_admit_connection config active attempts of
       Some (True, n) \<Rightarrow> n \<le> mx \<and> (\<exists>a. n = a + 1 \<and> (False, a) \<in> set attempts)
     | Some (False, n) \<Rightarrow> mx \<le> n \<and> (n = active \<or> n \<in> snd ` set attempts)
     | None \<Rightarrow> True)
    \<and> try_admit_connection config active (attempts @ [(s, a), (False, a)]) \<noteq> None"
  using assms admit_loop_sound [of mx active attempts True] admit_loop_sound [of mx active attempts False]
    admit_loop_returns [of mx active attempts s a]
  by (auto simp: try_admit_connection_def split: option.splits bool.splits)

theorem try_admit_connection_atomic_witness:
  "try_admit_connection (set_max_connections 2 server_config_default) 1 [(True, 1), (False, 0), (False, 0)] = Some (True, 1)
     \<and> (False, 0 :: nat) \<in> set [(True, 1), (False, 0), (False, 0)]"
proof -
  have c: "sc_max_connections (set_max_connections 2 server_config_default) = Some 2"
    by (simp add: set_max_connections_def)
  have r: "try_admit_connection (set_max_connections 2 server_config_default) 1 [(True, 1), (False, 0), (False, 0)]
      = Some (True, 1)"
    by (simp add: try_admit_connection_def set_max_connections_def)
  from try_admit_connection_atomic [OF c, where active = 1 and attempts = "[(True, 1), (False, 0), (False, 0)]"] r show ?thesis by simp
qed

text \<open>Alone, the loop is the test against the limit.\<close>

lemma try_admit_alone:
  "try_admit_connection config n [(False, n)] =
     Some (case sc_max_connections config of
             Some mx \<Rightarrow> if n \<ge> mx then (False, n) else (True, n + 1)
           | None \<Rightarrow> (True, n + 1))"
  by (simp add: try_admit_connection_def split: option.split)

subsection \<open>The invariant of the accept loop\<close>

fun connects :: "hook_call list \<Rightarrow> connection_info multiset" where
  "connects [] = {#}"
| "connects (Connected i # hs) = add_mset i (connects hs)"
| "connects (Disconnected i # hs) = connects hs"

fun disconnects :: "hook_call list \<Rightarrow> connection_info multiset" where
  "disconnects [] = {#}"
| "disconnects (Connected i # hs) = disconnects hs"
| "disconnects (Disconnected i # hs) = add_mset i (disconnects hs)"

lemma connects_append [simp]: "connects (xs @ ys) = connects xs + connects ys"
  by (induction xs rule: connects.induct) auto

lemma disconnects_append [simp]: "disconnects (xs @ ys) = disconnects xs + disconnects ys"
  by (induction xs rule: disconnects.induct) auto

definition task_infos :: "conn_task list \<Rightarrow> connection_info multiset" where
  "task_infos ts = image_mset ct_info (mset ts)"

lemma task_infos_simps [simp]:
  "task_infos [] = {#}"
  "task_infos (t # ts) = add_mset (ct_info t) (task_infos ts)"
  "task_infos (xs @ ys) = task_infos xs + task_infos ys"
  by (simp_all add: task_infos_def)

lemma task_infos_poll [simp]:
  "i < length ts \<Longrightarrow> task_infos (ts[i := (ts ! i)\<lparr>ct_polled := b\<rparr>]) = task_infos ts"
  by (induction ts arbitrary: i) (auto split: nat.split)

lemma task_infos_remove:
  "i < length ts \<Longrightarrow> task_infos ts = add_mset (ct_info (ts ! i)) (task_infos (take i ts @ drop (Suc i) ts))"
  by (induction ts arbitrary: i) (auto simp: take_Cons drop_Cons split: nat.split)

definition within_limit :: "server_config \<Rightarrow> nat \<Rightarrow> bool" where
  "within_limit config n \<longleftrightarrow> (case sc_max_connections config of Some mx \<Rightarrow> n \<le> mx | None \<Rightarrow> True)"

lemma within_limit_mono: "within_limit config n \<Longrightarrow> m \<le> n \<Longrightarrow> within_limit config m"
  by (auto simp: within_limit_def split: option.splits)

definition srv_inv :: "server_config \<Rightarrow> 'c server_state \<Rightarrow> bool" where
  "srv_inv config st \<longleftrightarrow>
     ss_active st = length (ss_tasks st) + length (ss_unpolled st)
     \<and> within_limit config (ss_active st)
     \<and> connects (ss_hooks st) = disconnects (ss_hooks st) + task_infos (ss_tasks st) + mset (ss_unpolled st)
     \<and> (case ss_phase st of Returned _ \<Rightarrow> ss_tasks st = [] | _ \<Rightarrow> ss_unpolled st = [])
     \<and> ss_shutdown_sent st = (ss_phase st = Draining \<or> ss_phase st = Returned None)"

lemma fold_task_drop:
  "fold task_drop ts st =
     st\<lparr>ss_active := ss_active st - length (filter ct_polled ts),
        ss_hooks := ss_hooks st @ map (Disconnected \<circ> ct_info) (filter ct_polled ts),
        ss_unpolled := ss_unpolled st @ map ct_info (filter (\<lambda>t. \<not> ct_polled t) ts)\<rparr>"
  by (induction ts arbitrary: st) (auto simp: task_drop_def guard_drop_def)

lemma connects_aborted [simp]: "connects (map (Disconnected \<circ> f) ts) = {#}"
  by (induction ts) auto

lemma disconnects_aborted [simp]: "disconnects (map (Disconnected \<circ> ct_info) ts) = task_infos ts"
  by (induction ts) auto

lemma task_infos_split:
  "task_infos ts = task_infos (filter ct_polled ts) + mset (map ct_info (filter (\<lambda>t. \<not> ct_polled t) ts))"
  by (induction ts) auto

lemma length_filter_split: "length (filter p xs) + length (filter (\<lambda>x. \<not> p x) xs) = length xs"
  by (induction xs) auto

text \<open>Cancelling every task keeps the books, whatever phase follows.\<close>

lemma abort_all_inv:
  assumes "srv_inv config st" "ss_unpolled st = []" "ss_shutdown_sent st = (r = None)"
  shows "srv_inv config ((abort_all st)\<lparr>ss_phase := Returned r\<rparr>)"
proof -
  have "length (ss_tasks st) - length (filter ct_polled (ss_tasks st))
      = length (filter (\<lambda>t. \<not> ct_polled t) (ss_tasks st))"
    using length_filter_split [of ct_polled "ss_tasks st"] by linarith
  then show ?thesis
    using assms task_infos_split [of "ss_tasks st"]
    by (auto simp: srv_inv_def abort_all_def fold_task_drop elim!: within_limit_mono)
qed

lemma worker_send_inv: "srv_inv config st \<Longrightarrow> worker_send r st = Some st' \<Longrightarrow> srv_inv config st'"
  by (auto simp: srv_inv_def worker_send_def split: if_splits)

lemma accept_signal_inv: "srv_inv config st \<Longrightarrow> accept_signal st = Some st' \<Longrightarrow> srv_inv config st'"
  by (auto simp: srv_inv_def accept_signal_def split: if_splits)

lemma join_one_inv: "srv_inv config st \<Longrightarrow> join_one st = Some st' \<Longrightarrow> srv_inv config st'"
  by (auto simp: srv_inv_def join_one_def split: if_splits)

lemma drain_empty_inv: "srv_inv config st \<Longrightarrow> drain_empty st = Some st' \<Longrightarrow> srv_inv config st'"
  by (auto simp: srv_inv_def drain_empty_def split: if_splits)

lemma drain_elapsed_inv:
  assumes "srv_inv config st" "drain_elapsed st = Some st'"
  shows "srv_inv config st'"
  using assms abort_all_inv [OF assms(1), of None]
  by (auto simp: drain_elapsed_def srv_inv_def [of config st] split: if_splits)

lemma task_poll_inv: "srv_inv config st \<Longrightarrow> task_poll i st = Some st' \<Longrightarrow> srv_inv config st'"
  by (auto simp: srv_inv_def task_poll_def split: if_splits phase.splits)

lemma task_end_inv:
  assumes "srv_inv config st" "task_end i st = Some st'"
  shows "srv_inv config st'"
proof -
  have i: "i < length (ss_tasks st)" using assms(2) by (simp add: task_end_def split: if_splits)
  show ?thesis
    using assms task_infos_remove [OF i]
    by (auto simp: srv_inv_def task_end_def guard_drop_def elim!: within_limit_mono split: if_splits phase.splits)
qed

lemma accept_recv_inv:
  assumes "srv_inv config st" "accept_recv kind fails config addr st = Some st'"
  shows "srv_inv config st'"
proof -
  obtain r rest where ph: "ss_phase st = Accepting" and q: "ss_accepted st = r # rest"
    using assms(2) by (auto simp: accept_recv_def split: if_splits list.splits)
  let ?s = "st\<lparr>ss_accepted := rest\<rparr>"
  have s: "srv_inv config ?s" "ss_unpolled ?s = []" "\<not> ss_shutdown_sent ?s" "ss_phase ?s = Accepting"
    using assms(1) ph by (auto simp: srv_inv_def)
  show ?thesis
  proof (cases "fst (handle_accept_result r)")
    case (Inl e)
    then have "st' = (abort_all ?s)\<lparr>ss_phase := Returned (Some e)\<rparr>"
      using assms(2) ph q by (simp add: accept_recv_def)
    with abort_all_inv [OF s(1,2), of "Some e"] s(3) show ?thesis by simp
  next
    case (Inr c)
    show ?thesis
      using assms(2) s unfolding accept_recv_def
      by (auto simp: ph q Inr Let_def try_admit_alone srv_inv_def within_limit_def spawn_conn_def reject_over_capacity_def
          split: option.splits sum.splits prod.splits if_splits)
  qed
qed

lemmas srv_event_invs = worker_send_inv accept_signal_inv join_one_inv accept_recv_inv task_poll_inv task_end_inv
  drain_empty_inv drain_elapsed_inv

lemma accept_event_inv:
  "srv_inv config st \<Longrightarrow> accept_event kind fails config addr e st = Some st' \<Longrightarrow> srv_inv config st'"
  by (cases e) (auto intro: srv_event_invs)

lemma srv_reach_inv: "srv_reach kind fails config addr st \<Longrightarrow> srv_inv config st"
proof (induction rule: srv_reach.induct)
  case start
  show ?case by (simp add: srv_inv_def server_start_def within_limit_def split: option.split)
next
  case (step st e st')
  then show ?case by (blast intro: accept_event_inv)
qed

lemma accept_events_reach:
  "srv_reach kind fails config addr st \<Longrightarrow> accept_events kind fails config addr es st = Some st'
     \<Longrightarrow> srv_reach kind fails config addr st'"
  by (induction es arbitrary: st) (auto simp: bind_eq_Some_conv intro: srv_reach.step)

subsection \<open>Properties of the accept loop\<close>

text \<open>The admission counter, the tasks and the limit.\<close>

text \<open>C8: In every state the accept loop and its connection tasks can reach, under every interleaving, at most
  \<open>max_connections\<close> connection tasks exist, and while the server runs or drains the admission counter is exactly
  their number: no finished, panicked or rejected connection keeps a slot.\<close>

theorem connections_bounded:
  assumes "srv_reach kind fails config addr st"
  shows "(\<forall>mx. sc_max_connections config = Some mx \<longrightarrow> length (ss_tasks st) \<le> mx)
    \<and> (ss_phase st \<in> {Accepting, Draining} \<longrightarrow> ss_active st = length (ss_tasks st))"
  using srv_reach_inv [OF assms] by (auto simp: srv_inv_def within_limit_def)

definition loopback :: "nat \<Rightarrow> sock_addr" where
  "loopback p = \<lparr>sa_ip = ''127.0.0.1'', sa_port = p\<rparr>"

definition one_slot :: server_config where
  "one_slot = set_max_connections 1 server_config_default"

lemmas server_eval = worker_send_def accept_recv_def handle_accept_result_def apply_stream_options_def
  stream_options_def try_admit_connection_def one_slot_def set_max_connections_def server_config_default_def
  spawn_conn_def server_start_def task_poll_def task_end_def guard_drop_def reject_over_capacity_def
  accept_signal_def drain_elapsed_def drain_empty_def join_one_def abort_all_def task_drop_def Let_def

lemma two_clients_run:
  "\<exists>st. accept_events PlainConn (\<lambda>_ _. None) one_slot (loopback 80)
      [WorkerSend (Inr (''a'', loopback 1)), WorkerSend (Inr (''b'', loopback 2)), Recv, TaskPoll 0, Recv]
      server_start = Some st
    \<and> map ct_info (ss_tasks st) = [\<lparr>ci_local = loopback 80, ci_peer = loopback 1\<rparr>]
    \<and> ss_rejected st = [(''b'', over_capacity_answer)] \<and> ss_phase st = Accepting"
  by (simp add: server_eval)

theorem connections_bounded_witness:
  "\<exists>st. accept_events PlainConn (\<lambda>_ _. None) one_slot (loopback 80)
      [WorkerSend (Inr (''a'', loopback 1)), WorkerSend (Inr (''b'', loopback 2)), Recv, TaskPoll 0, Recv]
      server_start = Some st \<and> length (ss_tasks st) \<le> 1 \<and> ss_active st = length (ss_tasks st)"
proof -
  obtain st where run: "accept_events PlainConn (\<lambda>_ _. None) one_slot (loopback 80)
      [WorkerSend (Inr (''a'', loopback 1)), WorkerSend (Inr (''b'', loopback 2)), Recv, TaskPoll 0, Recv]
      server_start = Some st" and ph: "ss_phase st = Accepting"
    using two_clients_run by blast
  have r: "srv_reach PlainConn (\<lambda>_ _. None) one_slot (loopback 80) st"
    by (rule accept_events_reach [OF srv_reach.start run])
  have m: "sc_max_connections one_slot = Some 1" by (simp add: one_slot_def set_max_connections_def)
  from connections_bounded [OF r] m run ph show ?thesis by auto
qed



text \<open>A connection can be reported as connected and never as disconnected: the guard that reports the end is
  made inside the task, so a task cancelled before its first poll, by a drain time of zero or by a fatal accept error
  right after the connection was accepted, has none, and the hook \<open>on_disconnected\<close> is not called.\<close>

theorem unpolled_connection_not_reported:
  "\<exists>st. accept_events PlainConn (\<lambda>_ _. None) server_config_default (loopback 80)
      [WorkerSend (Inr (''a'', loopback 1)),
       WorkerSend (Inl \<lparr>ie_kind = OtherKind ''EBADF'', ie_os = Some 9, ie_msg = []\<rparr>), Recv, Recv]
      server_start = Some st
    \<and> (\<exists>e. ss_phase st = Returned (Some e)) \<and> ss_tasks st = []
    \<and> ss_hooks st = [Connected \<lparr>ci_local = loopback 80, ci_peer = loopback 1\<rparr>]"
  by (simp add: server_eval is_fatal_accept_error_def)

text \<open>Draining ends only by returning.\<close>

lemma accept_event_draining:
  assumes "accept_event kind fails config addr e st = Some st'" "ss_phase st = Draining"
  shows "ss_phase st' \<in> {Draining, Returned None}"
    and "e = DrainElapsed \<Longrightarrow> ss_phase st' = Returned None"
  using assms
  by (cases e; auto simp: worker_send_def accept_signal_def join_one_def accept_recv_def task_poll_def task_end_def
      guard_drop_def drain_empty_def drain_elapsed_def split: if_splits)+

lemma accept_event_returned:
  assumes "accept_event kind fails config addr e st = Some st'" "ss_phase st = Returned r"
  shows "ss_phase st' = Returned r"
  using assms
  by (cases e) (auto simp: worker_send_def accept_signal_def join_one_def accept_recv_def task_poll_def task_end_def
      guard_drop_def drain_empty_def drain_elapsed_def split: if_splits)

lemma accept_events_returned:
  "accept_events kind fails config addr es st = Some st' \<Longrightarrow> ss_phase st = Returned r
     \<Longrightarrow> ss_phase st' = Returned r"
  by (induction es arbitrary: st) (auto simp: bind_eq_Some_conv dest: accept_event_returned)

lemma accept_events_draining:
  "accept_events kind fails config addr es st = Some st' \<Longrightarrow> ss_phase st = Draining \<Longrightarrow> DrainElapsed \<in> set es
     \<Longrightarrow> ss_phase st' = Returned None"
proof (induction es arbitrary: st)
  case (Cons e es)
  then obtain st1 where e: "accept_event kind fails config addr e st = Some st1"
    and es: "accept_events kind fails config addr es st1 = Some st'"
    by (auto simp: bind_eq_Some_conv)
  from accept_event_draining [OF e Cons.prems(2)] Cons.prems(3) Cons.IH [OF es] accept_events_returned [OF es]
  show ?case by (cases "ss_phase st1") auto
qed simp

text \<open>C10: Graceful shutdown returns.  Once the signal has come, the expiry of the drain timer is possible in every
  state and, whatever else the tasks do before and after, leaves the server returned without an error, without a
  running connection task, and with every connection task told to shut down.\<close>

theorem shutdown_returns:
  assumes "srv_reach kind fails config addr st" "ss_phase st = Draining"
  shows "accept_event kind fails config addr DrainElapsed st \<noteq> None
    \<and> (\<forall>es st'. accept_events kind fails config addr es st = Some st' \<longrightarrow> DrainElapsed \<in> set es
          \<longrightarrow> ss_phase st' = Returned None \<and> ss_tasks st' = [] \<and> ss_shutdown_sent st')"
proof (intro conjI allI impI)
  show "accept_event kind fails config addr DrainElapsed st \<noteq> None"
    using assms(2) by (simp add: drain_elapsed_def)
next
  fix es st'
  assume run: "accept_events kind fails config addr es st = Some st'" and el: "DrainElapsed \<in> set es"
  have "ss_phase st' = Returned None" by (rule accept_events_draining [OF run assms(2) el])
  with srv_reach_inv [OF accept_events_reach [OF assms(1) run]]
  show "ss_phase st' = Returned None" "ss_tasks st' = []" "ss_shutdown_sent st'" by (simp_all add: srv_inv_def)
qed

theorem shutdown_returns_witness:
  "\<exists>st st'. accept_events PlainConn (\<lambda>_ _. None) server_config_default (loopback 80)
      [WorkerSend (Inr (''a'', loopback 1)), Recv, Signal] server_start = Some st
    \<and> accept_events PlainConn (\<lambda>_ _. None) server_config_default (loopback 80) [TaskPoll 0, DrainElapsed] st = Some st'
    \<and> ss_phase st' = Returned None \<and> ss_tasks st' = []"
proof -
  obtain st st' where run: "accept_events PlainConn (\<lambda>_ _. None) server_config_default (loopback 80)
      [WorkerSend (Inr (''a'', loopback 1)), Recv, Signal] server_start = Some st" "ss_phase st = Draining"
    and run': "accept_events PlainConn (\<lambda>_ _. None) server_config_default (loopback 80) [TaskPoll 0, DrainElapsed] st
        = Some st'"
    by (simp add: server_eval)
  have r: "srv_reach PlainConn (\<lambda>_ _. None) server_config_default (loopback 80) st"
    by (rule accept_events_reach [OF srv_reach.start run(1)])
  have "ss_phase st' = Returned None \<and> ss_tasks st' = []"
    using shutdown_returns [OF r run(2)] run' by (metis list.set_intros(1) list.set_intros(2))
  with run(1) run' show ?thesis by blast
qed

subsection \<open>Accept errors\<close>

text \<open>A failed accept stops the server exactly when the listener is broken: a permission error, a bad descriptor or
  an invalid argument, unless the error is of a transient kind.  Every other error is dropped from the queue and
  changes nothing else; a fatal one makes the loop return it and cancels every connection task at once, with no
  drain.\<close>

theorem accept_error_outcome:
  assumes "ss_phase st = Accepting" "ss_accepted st = Inl err # rest"
  shows "accept_recv kind fails config addr st =
    (if is_fatal_accept_error err \<and> ie_kind err \<notin> {ConnectionAborted, WouldBlock, Interrupted}
     then Some ((abort_all (st\<lparr>ss_accepted := rest\<rparr>))\<lparr>ss_phase := Returned (Some err)\<rparr>)
     else Some (st\<lparr>ss_accepted := rest\<rparr>))"
  using assms by (simp add: accept_recv_def handle_accept_result_def)

theorem accept_error_outcome_witness:
  "let st = (server_start :: string server_state)\<lparr>ss_accepted :=
       [Inl \<lparr>ie_kind = OtherKind ''EMFILE'', ie_os = Some 24, ie_msg = []\<rparr>]\<rparr>
   in accept_recv PlainConn (\<lambda>_ _. None) server_config_default (loopback 80) st = Some server_start"
  using accept_error_outcome [of "(server_start :: string server_state)\<lparr>ss_accepted :=
      [Inl \<lparr>ie_kind = OtherKind ''EMFILE'', ie_os = Some 24, ie_msg = []\<rparr>]\<rparr>"
      "\<lparr>ie_kind = OtherKind ''EMFILE'', ie_os = Some 24, ie_msg = []\<rparr>" "[]" PlainConn "\<lambda>_ _. None"
      server_config_default "loopback 80"]
  by (simp add: Let_def server_start_def is_fatal_accept_error_def)

subsection \<open>Binding\<close>

lemma run_ops_id: "run_ops fails ops = Inr ys \<Longrightarrow> ys = ops"
  by (induction ops arbitrary: ys) (auto split: option.splits sum.splits)

lemma push_sockets_ok:
  "push_sockets N addr config n = Inr ls
     \<Longrightarrow> length ls = n \<and> (\<forall>l \<in> set ls. ls_addr l = addr \<and> ls_ops l = bind_socket_ops addr config)"
  by (induction n arbitrary: ls) (auto simp: bind_socket_def dest!: run_ops_id split: sum.splits)

lemma reuse_port_before_bind:
  "sc_reuse_port config \<Longrightarrow> \<exists>pre mid post. bind_socket_ops addr config = pre @ SetReusePort True # mid @ SockBind addr # post"
  unfolding bind_socket_ops_def set_reuse_port_op_def
  by (rule exI [of _ "[SockNew addr, SetNonblocking True]
       @ (if sc_reuse_address config then [SetReuseAddress True] else [])"],
      rule exI [of _ "(case sc_socket_recv_buffer config of Some n \<Rightarrow> [SetRecvBuffer n] | None \<Rightarrow> [])
       @ (case sc_socket_send_buffer config of Some n \<Rightarrow> [SetSendBuffer n] | None \<Rightarrow> [])"]) simp

text \<open>Several accept workers get one socket each on the same address: binding fails unless the configuration shares
  the port and the address names a port, and otherwise gives exactly \<open>accept_workers\<close> listeners, on each of which the
  port was made shareable before it was bound.\<close>

theorem bind_listeners_workers:
  assumes "bind_listeners N addr config = Inr ls" "sc_accept_workers config > 1"
  shows "length ls = sc_accept_workers config
    \<and> (\<exists>a. sa_port a \<noteq> 0 \<and> (\<forall>l \<in> set ls. ls_addr l = a \<and>
           (\<exists>pre mid post. ls_ops l = pre @ SetReusePort True # mid @ SockBind a # post)))"
proof
  have rp: "sc_reuse_port config" using assms by (auto simp: bind_listeners_def split: if_splits)
  obtain a where a: "sa_port a \<noteq> 0" "push_sockets N a config (sc_accept_workers config) = Inr ls"
    using assms by (auto simp: bind_listeners_def needs_tuned_listener_def split: if_splits sum.splits list.splits)
  note ok = push_sockets_ok [OF a(2)]
  then show "length ls = sc_accept_workers config" by simp
  show "\<exists>a. sa_port a \<noteq> 0 \<and> (\<forall>l \<in> set ls. ls_addr l = a \<and>
           (\<exists>pre mid post. ls_ops l = pre @ SetReusePort True # mid @ SockBind a # post))"
    using ok a(1) reuse_port_before_bind [OF rp, of a] by (intro exI [of _ a]) auto
qed

definition sample_os :: net_os where
  "sample_os = \<lparr>os_tcp_bind = \<lambda>a. Inr \<lparr>ls_addr = loopback 80, ls_ops = []\<rparr>,
     os_lookup_host = \<lambda>a. Inr [loopback 80], os_sock_op = \<lambda>x. None, os_local_addr = \<lambda>l. Inr (ls_addr l)\<rparr>"

theorem bind_listeners_workers_witness:
  "\<exists>ls. bind_listeners sample_os ''127.0.0.1:80'' (set_reuse_port True (set_accept_workers 3 server_config_default))
      = Inr ls \<and> length ls = 3"
proof -
  let ?c = "set_reuse_port True (set_accept_workers 3 server_config_default)"
  obtain ls where "bind_listeners sample_os ''127.0.0.1:80'' ?c = Inr ls"
    by (simp add: bind_listeners_def sample_os_def needs_tuned_listener_def set_reuse_port_def set_accept_workers_def
        server_config_default_def loopback_def bind_socket_def bind_socket_ops_def set_reuse_port_op_def
        numeral_3_eq_3)
  from bind_listeners_workers [OF this] this show ?thesis
    by (auto simp: set_reuse_port_def set_accept_workers_def)
qed

subsection \<open>TLS connections\<close>

text \<open>With a handshake timeout, ten seconds unless the application sets another, every TLS connection is cut at the
  timeout: however quick the handshake was, a connection still being served when the timeout has passed since it
  was accepted is dropped, with its requests in flight, because the timed block also serves the connection.\<close>

theorem tls_connection_cut:
  assumes "accept = Some (Inr (), t)" "serving = None \<or> (\<exists>s. serving = Some s \<and> l < t + s)"
  shows "tls_task (Some l) accept serving = TimedOut l \<and> native_tls_task (Some l) accept serving = TimedOut l"
  using assms by (auto simp: tls_task_def native_tls_task_def tls_block_def)

theorem tls_connection_cut_witness:
  "tls_task (sc_handshake_timeout server_config_default) (Some (Inr () :: string + unit, 5000000)) (Some (secs 11))
     = TimedOut (secs 10)"
  using tls_connection_cut [of "Some (Inr () :: string + unit, 5000000)" 5000000 "Some (secs 11)" "secs 10"]
  by (simp add: server_config_default_def)

subsection \<open>The answer over capacity\<close>

fun head_lines :: "string \<Rightarrow> string \<Rightarrow> string list" where
  "head_lines acc (c # d # s) =
     (if c = CHR 0x0D \<and> d = CHR 0x0A then if acc = [] then [] else rev acc # head_lines [] s
      else head_lines (c # acc) (d # s))"
| "head_lines acc s = [rev acc @ s]"

text \<open>The response written over capacity has no Content-Length field: the line that should carry it starts with
  blanks, which makes it a continuation of the Content-Type line before it.\<close>

theorem over_capacity_no_content_length:
  "head_lines [] over_capacity_answer =
     [''HTTP/1.1 503 Service Unavailable'', ''Content-Type: application/json'',
      ''         Content-Length: 42'', ''Connection: close'']"
proof -
  have "nat_to_string (length over_capacity_body) = ''42''" by code_simp
  then show ?thesis unfolding over_capacity_answer_def by (simp del: length_Cons add: over_capacity_body_def crlf_def)
qed

subsection \<open>Served requests\<close>

text \<open>Rate limiting by address does not tell served clients apart: the peer's address never reaches the request, so
  for every request of every connection the address key is the same \<open>''unknown''\<close>, the decision is the same one
  whoever asks, and one client can use up the tokens of all.\<close>

theorem served_clients_share_bucket:
  assumes "rl_extractor rl = IpAddress"
  shows "extract_key H parse_ip (rl_extractor rl) (from_hyper req) (rl_proxy_trust rl) = ''unknown''
    \<and> (\<exists>d store'. \<forall>r :: 'h hyper_request.
           hyper_service (\<lambda>q w. fst (rate_limit_call H parse_ip rl inner now q store w)) r w =
             (case d of Some retry \<Rightarrow> (too_many_requests H (rl_capacity rl) (ceil_as_u64 retry), w)
              | None \<Rightarrow> inner (from_hyper r) w)
           \<and> snd (rate_limit_call H parse_ip rl inner now (from_hyper r) store w) = store')"
proof

  have key: "extract_key H parse_ip (rl_extractor rl) (from_hyper r) (rl_proxy_trust rl) = ''unknown''" for r
    using assms by (simp add: extract_key_def extract_ip_def from_hyper_def no_extensions_def)
  then show "extract_key H parse_ip (rl_extractor rl) (from_hyper req) (rl_proxy_trust rl) = ''unknown''" .
  obtain d s where d: "store_try_consume store ''unknown'' (rl_capacity rl) (rl_window rl) now = (d, s)"
    by (cases "store_try_consume store ''unknown'' (rl_capacity rl) (rl_window rl) now")
  show "\<exists>d store'. \<forall>r :: 'h hyper_request.
           hyper_service (\<lambda>q w. fst (rate_limit_call H parse_ip rl inner now q store w)) r w =
             (case d of Some retry \<Rightarrow> (too_many_requests H (rl_capacity rl) (ceil_as_u64 retry), w)
              | None \<Rightarrow> inner (from_hyper r) w)
           \<and> snd (rate_limit_call H parse_ip rl inner now (from_hyper r) store w) = store'"
    by (intro exI [of _ d] exI [of _ s]) (simp add: hyper_service_def rate_limit_call_def key d)
qed

theorem served_clients_share_bucket_witness:
  "extract_key alist_lib Some IpAddress
     (from_hyper \<lparr>hy_method = Get, hy_uri = \<lparr>uri_origin = [], uri_path = ''/'', uri_query = None\<rparr>,
        hy_headers = [], hy_frames = [], hy_size_hint = Some 0\<rparr>) Never = ''unknown''"
proof -
  let ?rl = "\<lparr>rl_capacity = 1, rl_window = 1, rl_extractor = IpAddress, rl_proxy_trust = Never\<rparr>"
  have "rl_extractor ?rl = IpAddress" by simp
  from served_clients_share_bucket [OF this, THEN conjunct1, of alist_lib Some] show ?thesis by simp
qed

subsection \<open>Serving and shutting down one connection\<close>

fun poll_times :: "('i, 's, 'k) conn_lib \<Rightarrow> nat \<Rightarrow> 'k \<Rightarrow> string option poll \<times> 'k" where
  "poll_times C 0 k = (Pending, k)"
| "poll_times C (Suc n) k =
     (case hc_poll C k of (Ready r, k') \<Rightarrow> (Ready r, k') | (Pending, k') \<Rightarrow> poll_times C n k')"

lemma conn_await_polls: "conn_await C wakes k = poll_times C (length wakes) k"
  by (induction C wakes k rule: conn_await.induct) (auto split: prod.split poll.split)

lemma conn_select_signal:
  "conn_select C (replicate n False @ True # later) k =
     (case poll_times C (Suc n) k of
        (Ready r, k') \<Rightarrow> (Ready r, k')
      | (Pending, k') \<Rightarrow> poll_times C (Suc (length later)) (hc_graceful C k'))"
  by (induction n arbitrary: k) (auto simp: conn_await_polls split: prod.split poll.split)

text \<open>A connection is told to shut down once, at the first wake-up at which it is still going and the shutdown has
  been signalled; before that it is served undisturbed, and afterwards it is only polled to its end.\<close>

theorem run_connection_graceful:
  "run_connection C builder stream service config (replicate n False @ True # later) =
     (let conn = (if sc_h2_only config then hc_serve C else hc_serve_upgrades C)
                   (auto_builder builder config) stream (hyper_service service)
      in case poll_times C (Suc n) conn of
           (Ready r, k) \<Rightarrow> (Ready r, k)
         | (Pending, k) \<Rightarrow> poll_times C (Suc (length later)) (hc_graceful C k))"
  unfolding run_connection_def Let_def conn_select_signal by simp

text \<open>The prior-knowledge HTTP/2 entry points serve the router's service on the given address with the caller's
  configuration, except that the connections speak HTTP/2 only, whatever that configuration says.\<close>

theorem serve_h2c_only:
  assumes "serve_h2c_with_config_and_graceful_shutdown H T N router addr config sd signal = Some (Inr l)"
  shows "sc_h2_only (sv_config (la_server l))" "sv_config (la_server l) = set_h2_only True config"
    and "la_service l = router_into_service H T router"
    and "la_signal l = signal" "la_shutdown l = sd" "la_transport l = PlainTcp"
  using assms
  by (auto simp: serve_h2c_with_config_and_graceful_shutdown_def and_then_def bind_with_config_def set_h2_only_def
      srv_serve_app_graceful_def srv_serve_service_graceful_def split: option.splits sum.splits list.splits)

end
