(* ===== verification/Config.thy ===== *)
theory Config
  imports "HOL-Library.AList" Server Path_De Static_Files
begin

text \<open>
  File and environment configuration: arvik-config/src/lib.rs.

  \<open>json_value\<close> is serde_json's value tree; an object is an association list with one entry per key.  Reading files,
  the TOML and JSON parsers, the process environment and the derived serde implementations are parameters.  The locale
  \<open>config_serde\<close> states what the code relies on of the derived implementations: a configuration decodes to itself,
  and a value that decodes gives a configuration that agrees with it on every leaf.  \<open>derive_to_value\<close> and
  \<open>derive_from_value\<close> are the implementations the attributes of the sections ask for (every field optional with the
  section's default, unknown fields refused), on objects.  Machine integers are words of their width.
\<close>

datatype json_value =
    JNull | JBool bool | JNum int | JFloat string | JStr string
  | JArr "json_value list" | JObj "(string \<times> json_value) list"

datatype config_error =
    ConfigIo string string | ConfigToml string string | ConfigJson string string | UnsupportedExtension string
  | ConfigEnv string string | ConfigDecode string | ConfigValidation string | ConfigAddress string | ConfigWatch string

subsection \<open>The sections\<close>

datatype tls_backend = Rustls | NativeTls

record server_section =
  cs_host :: string
  cs_port :: u16
  cs_workers :: "u64 option"
  cs_backlog :: "u32 option"
  cs_max_connections :: "u64 option"
  cs_body_limit :: "u64 option"
  cs_tcp_nodelay :: "bool option"
  cs_tcp_keepalive_secs :: "u64 option"
  cs_tcp_keepalive_interval_secs :: "u64 option"
  cs_tcp_keepalive_retries :: "u32 option"
  cs_reuse_port :: bool
  cs_reuse_address :: bool
  cs_socket_recv_buffer_size :: "u64 option"
  cs_socket_send_buffer_size :: "u64 option"
  cs_accept_workers :: "u64 option"

record http1_section =
  c1_keep_alive :: bool
  c1_half_close :: bool
  c1_title_case_headers :: bool
  c1_preserve_header_case :: bool
  c1_pipeline_flush :: bool

record http2_section =
  c2_only :: bool
  c2_adaptive_window :: bool
  c2_initial_stream_window_size :: "u32 option"
  c2_initial_connection_window_size :: "u32 option"
  c2_max_concurrent_streams :: "u32 option"
  c2_keep_alive_interval_secs :: "u64 option"
  c2_keep_alive_timeout_secs :: u64
  c2_max_frame_size :: "u32 option"
  c2_max_send_buf_size :: "u64 option"
  c2_max_header_list_size :: "u32 option"

record tls_section =
  ct_backend :: tls_backend
  ct_cert_path :: "string option"
  ct_key_path :: "string option"
  ct_pkcs12_path :: "string option"
  ct_pkcs12_password :: "string option"

record shutdown_section =
  cd_drain_timeout_secs :: u64

record arvik_config =
  ac_server :: server_section
  ac_http1 :: http1_section
  ac_http2 :: http2_section
  ac_tls :: "tls_section option"
  ac_shutdown :: shutdown_section

definition server_section_default :: server_section where
  "server_section_default = \<lparr>
     cs_host = ''127.0.0.1'', cs_port = 8080, cs_workers = None, cs_backlog = None, cs_max_connections =
     None, cs_body_limit = None, cs_tcp_nodelay = None, cs_tcp_keepalive_secs = None,
     cs_tcp_keepalive_interval_secs = None, cs_tcp_keepalive_retries = None, cs_reuse_port = False,
     cs_reuse_address = False, cs_socket_recv_buffer_size = None, cs_socket_send_buffer_size = None,
     cs_accept_workers = None\<rparr>"

definition http1_section_default :: http1_section where
  "http1_section_default = \<lparr>
     c1_keep_alive = True, c1_half_close = False, c1_title_case_headers = False, c1_preserve_header_case
     = False, c1_pipeline_flush = False\<rparr>"

definition http2_section_default :: http2_section where
  "http2_section_default = \<lparr>
     c2_only = False, c2_adaptive_window = True, c2_initial_stream_window_size = None,
     c2_initial_connection_window_size = None, c2_max_concurrent_streams = Some 1000,
     c2_keep_alive_interval_secs = Some 20, c2_keep_alive_timeout_secs = 10, c2_max_frame_size = None,
     c2_max_send_buf_size = None, c2_max_header_list_size = Some (64 * 1024)\<rparr>"

definition tls_section_default :: tls_section where
  "tls_section_default = \<lparr>
     ct_backend = Rustls, ct_cert_path = None, ct_key_path = None, ct_pkcs12_path = None,
     ct_pkcs12_password = None\<rparr>"

definition shutdown_section_default :: shutdown_section where
  "shutdown_section_default = \<lparr>
     cd_drain_timeout_secs = 30\<rparr>"

definition arvik_config_default :: arvik_config where
  "arvik_config_default = \<lparr>ac_server = server_section_default, ac_http1 = http1_section_default,
     ac_http2 = http2_section_default, ac_tls = None, ac_shutdown = shutdown_section_default\<rparr>"

subsection \<open>Conversions\<close>

definition bind_addr_string :: "arvik_config \<Rightarrow> string" where
  "bind_addr_string self =
     (let host = cs_host (ac_server self); port = nat_to_string (unat (cs_port (ac_server self)))
      in if CHR '':'' \<in> set host \<and> \<not> prefix ''['' host \<and> \<not> suffix '']'' host
         then ''['' @ host @ '']:'' @ port else host @ '':'' @ port)"

definition bind_addr :: "(string \<Rightarrow> sock_addr option) \<Rightarrow> arvik_config \<Rightarrow> config_error + sock_addr" where
  "bind_addr parse_addr self =
     (let addr = bind_addr_string self
      in case parse_addr addr of Some a \<Rightarrow> Inr a | None \<Rightarrow> Inl (ConfigAddress addr))"

text \<open>\<^verbatim>\<open>backlog as i32\<close> reinterprets the 32 bits.\<close>

definition opt_set :: "'a option \<Rightarrow> ('a \<Rightarrow> 'c \<Rightarrow> 'c) \<Rightarrow> 'c \<Rightarrow> 'c" where
  "opt_set v f c = (case v of Some x \<Rightarrow> f x c | None \<Rightarrow> c)"

definition to_server_config :: "arvik_config \<Rightarrow> server_config" where
  "to_server_config self =
     (let s = ac_server self; h1 = ac_http1 self; h2 = ac_http2 self;
          c = set_h2_ping_timeout (secs (unat (c2_keep_alive_timeout_secs h2)))
                (set_h2_adaptive_window (c2_adaptive_window h2) (set_h2_only (c2_only h2)
                (set_h1_pipeline_flush (c1_pipeline_flush h1) (set_h1_preserve_case (c1_preserve_header_case h1)
                (set_h1_title_case (c1_title_case_headers h1) (set_h1_half_close (c1_half_close h1)
                (set_h1_keep_alive (c1_keep_alive h1) server_config_default)))))));
          c = opt_set (cs_max_connections s) (\<lambda>n. set_max_connections (unat n)) c;
          c = opt_set (cs_tcp_nodelay s) set_tcp_nodelay c;
          c = opt_set (cs_tcp_keepalive_secs s) (\<lambda>n. set_tcp_keepalive (secs (unat n))) c;
          c = opt_set (cs_tcp_keepalive_interval_secs s) (\<lambda>n. set_tcp_keepalive_interval (secs (unat n))) c;
          c = opt_set (cs_tcp_keepalive_retries s) set_tcp_keepalive_retries c;
          c = (if cs_reuse_port s then set_reuse_port True else id) c;
          c = (if cs_reuse_address s then set_reuse_address True else id) c;
          c = opt_set (cs_backlog s) (\<lambda>n. set_backlog (sint n)) c;
          c = opt_set (cs_socket_recv_buffer_size s) (\<lambda>n. set_socket_recv_buffer (unat n)) c;
          c = opt_set (cs_socket_send_buffer_size s) (\<lambda>n. set_socket_send_buffer (unat n)) c;
          c = opt_set (cs_accept_workers s) (\<lambda>n. set_accept_workers (unat n)) c;
          c = opt_set (c2_initial_stream_window_size h2) set_h2_stream_window c;
          c = opt_set (c2_initial_connection_window_size h2) set_h2_connection_window c;
          c = (case c2_max_concurrent_streams h2 of Some n \<Rightarrow> set_h2_max_streams n | None \<Rightarrow> set_h2_unlimited_streams) c;
          c = (case c2_keep_alive_interval_secs h2 of
                 Some n \<Rightarrow> set_h2_ping_interval (secs (unat n)) | None \<Rightarrow> set_h2_no_ping) c;
          c = opt_set (c2_max_frame_size h2) set_h2_max_frame_size c;
          c = opt_set (c2_max_send_buf_size h2) (\<lambda>n. set_h2_max_send_buf (unat n)) c;
          c = opt_set (c2_max_header_list_size h2) set_h2_max_header_list c
      in c)"

definition to_shutdown_config :: "arvik_config \<Rightarrow> 'w shutdown_config" where
  "to_shutdown_config self =
     sd_set_drain_timeout (secs (unat (cd_drain_timeout_secs (ac_shutdown self)))) shutdown_config_default"

subsection \<open>Validation\<close>

text \<open>The checks in their order: a condition that must hold and the message of the error otherwise.\<close>

fun first_error :: "(bool \<times> string) list \<Rightarrow> config_error + unit" where
  "first_error [] = Inr ()"
| "first_error ((ok, message) # rest) = (if ok then first_error rest else Inl (ConfigValidation message))"

definition validate_nonzero :: "'a::zero option \<Rightarrow> string \<Rightarrow> bool \<times> string" where
  "validate_nonzero v name = (v \<noteq> Some 0, name @ '' must be greater than 0'')"

definition H2_MAX_WINDOW :: nat where "H2_MAX_WINDOW = 2 ^ 31 - 1"

definition validate_window :: "string \<Rightarrow> u32 option \<Rightarrow> bool \<times> string" where
  "validate_window field v =
     (case v of
        Some sz \<Rightarrow> (unat sz \<le> H2_MAX_WINDOW,
          field @ '' must be at most '' @ nat_to_string H2_MAX_WINDOW @ '' (h2 protocol maximum), got ''
            @ nat_to_string (unat sz))
      | None \<Rightarrow> (True, []))"

definition tls_checks :: "tls_section \<Rightarrow> (bool \<times> string) list" where
  "tls_checks self =
     (case ct_backend self of
        Rustls \<Rightarrow> [(ct_cert_path self \<noteq> None \<and> ct_key_path self \<noteq> None,
           ''tls.cert_path and tls.key_path are required for rustls'')]
      | NativeTls \<Rightarrow> [(ct_pkcs12_path self \<noteq> None, ''tls.pkcs12_path is required for native-tls'')])"

definition validation_checks :: "arvik_config \<Rightarrow> (bool \<times> string) list" where
  "validation_checks self =
     (let s = ac_server self; h2 = ac_http2 self in
      [(cs_port s \<noteq> 0, ''server.port must be between 1 and 65535''),
       validate_nonzero (cs_workers s) ''server.workers'',
       validate_nonzero (cs_backlog s) ''server.backlog'',
       validate_nonzero (cs_max_connections s) ''server.max_connections'',
       validate_nonzero (cs_body_limit s) ''server.body_limit'',
       validate_nonzero (cs_tcp_keepalive_secs s) ''server.tcp_keepalive_secs'',
       validate_nonzero (cs_tcp_keepalive_interval_secs s) ''server.tcp_keepalive_interval_secs'',
       validate_nonzero (cs_tcp_keepalive_retries s) ''server.tcp_keepalive_retries'',
       validate_nonzero (cs_socket_recv_buffer_size s) ''server.socket_recv_buffer_size'',
       validate_nonzero (cs_socket_send_buffer_size s) ''server.socket_send_buffer_size'',
       validate_nonzero (cs_accept_workers s) ''server.accept_workers'',
       (\<not> (unat (case cs_accept_workers s of Some n \<Rightarrow> n | None \<Rightarrow> 1) > 1 \<and> \<not> cs_reuse_port s),
        ''server.accept_workers greater than 1 requires server.reuse_port = true''),
       (case cs_backlog s of Some b \<Rightarrow> unat b \<le> 2 ^ 31 - 1 | None \<Rightarrow> True, ''server.backlog must fit into i32''),
       validate_nonzero (c2_initial_stream_window_size h2) ''http2.initial_stream_window_size'',
       validate_nonzero (c2_initial_connection_window_size h2) ''http2.initial_connection_window_size'',
       validate_window ''http2.initial_stream_window_size'' (c2_initial_stream_window_size h2),
       validate_window ''http2.initial_connection_window_size'' (c2_initial_connection_window_size h2),
       validate_nonzero (c2_max_concurrent_streams h2) ''http2.max_concurrent_streams'',
       validate_nonzero (c2_max_send_buf_size h2) ''http2.max_send_buf_size'',
       validate_nonzero (c2_max_header_list_size h2) ''http2.max_header_list_size'',
       (c2_keep_alive_interval_secs h2 \<noteq> Some 0, ''http2.keep_alive_interval_secs must be greater than 0 or omitted''),
       (c2_keep_alive_timeout_secs h2 \<noteq> 0, ''http2.keep_alive_timeout_secs must be greater than 0''),
       (case c2_max_frame_size h2 of Some n \<Rightarrow> 16384 \<le> unat n \<and> unat n \<le> 16777215 | None \<Rightarrow> True,
        ''http2.max_frame_size must be between 16384 and 16777215''),
       (cd_drain_timeout_secs (ac_shutdown self) \<noteq> 0, ''shutdown.drain_timeout_secs must be greater than 0'')]
      @ (case ac_tls self of Some tls \<Rightarrow> tls_checks tls | None \<Rightarrow> []))"

definition validate :: "arvik_config \<Rightarrow> config_error + unit" where
  "validate self = first_error (validation_checks self)"

subsection \<open>Value trees\<close>

fun get_path :: "json_value \<Rightarrow> string list \<Rightarrow> json_value option" where
  "get_path v [] = Some v"
| "get_path (JObj m) (k # ks) = Option.bind (map_of m k) (\<lambda>v. get_path v ks)"
| "get_path v (k # ks) = None"

fun merge_values :: "json_value \<Rightarrow> json_value \<Rightarrow> json_value"
  and merge_object :: "(string \<times> json_value) list \<Rightarrow> (string \<times> json_value) list \<Rightarrow> (string \<times> json_value) list" where
  "merge_values (JObj base) (JObj overlay) = JObj (merge_object base overlay)"
| "merge_values base overlay = overlay"
| "merge_object base [] = base"
| "merge_object base ((k, v) # overlay) =
     merge_object (AList.update k (merge_values (case map_of base k of Some b \<Rightarrow> b | None \<Rightarrow> JNull) v) base) overlay"

fun obj_entries :: "json_value \<Rightarrow> (string \<times> json_value) list" where
  "obj_entries (JObj m) = m"
| "obj_entries v = []"

text \<open>\<^verbatim>\<open>set_path\<close> is called with the constant paths of the environment table, never with an empty one.\<close>

fun set_path :: "json_value \<Rightarrow> string list \<Rightarrow> json_value \<Rightarrow> json_value" where
  "set_path current [] x = x"
| "set_path current [k] x = JObj (AList.update k x (obj_entries current))"
| "set_path current (k # k' # ks) x =
     (let m = obj_entries current
      in JObj (AList.update k (set_path (case map_of m k of Some v \<Rightarrow> v | None \<Rightarrow> JObj []) (k' # ks) x) m))"

subsection \<open>The environment\<close>

definition parse_bool :: "string \<Rightarrow> string \<Rightarrow> config_error + bool" where
  "parse_bool var v =
     (let l = to_ascii_lowercase v in
      if l \<in> {''true'', ''1'', ''yes'', ''on''} then Inr True
      else if l \<in> {''false'', ''0'', ''no'', ''off''} then Inr False
      else Inl (ConfigEnv var ''expected boolean value''))"

definition known_section :: "string \<Rightarrow> bool" where
  "known_section suf \<longleftrightarrow>
     to_ascii_lowercase (hd (split_on (CHR ''_'') suf)) \<in> {''server'', ''http1'', ''http2'', ''shutdown'', ''tls''}"

text \<open>What an override holds: a string, a boolean, or a number of a machine type, which the message names.\<close>

datatype env_kind = EnvString | EnvBool | EnvNum int_ty string

definition env_table :: "(string \<times> string list \<times> env_kind) list" where
  "env_table =
     [(''SERVER_HOST'', [''server'', ''host''], EnvString),
      (''SERVER_PORT'', [''server'', ''port''], EnvNum U16 ''u16''),
      (''SERVER_WORKERS'', [''server'', ''workers''], EnvNum U64 ''usize''),
      (''SERVER_BACKLOG'', [''server'', ''backlog''], EnvNum U32 ''u32''),
      (''SERVER_MAX_CONNECTIONS'', [''server'', ''max_connections''], EnvNum U64 ''usize''),
      (''SERVER_BODY_LIMIT'', [''server'', ''body_limit''], EnvNum U64 ''usize''),
      (''SERVER_TCP_NODELAY'', [''server'', ''tcp_nodelay''], EnvBool),
      (''SERVER_TCP_KEEPALIVE_SECS'', [''server'', ''tcp_keepalive_secs''], EnvNum U64 ''u64''),
      (''SERVER_TCP_KEEPALIVE_INTERVAL_SECS'', [''server'', ''tcp_keepalive_interval_secs''], EnvNum U64 ''u64''),
      (''SERVER_TCP_KEEPALIVE_RETRIES'', [''server'', ''tcp_keepalive_retries''], EnvNum U32 ''u32''),
      (''SERVER_REUSE_PORT'', [''server'', ''reuse_port''], EnvBool),
      (''SERVER_REUSE_ADDRESS'', [''server'', ''reuse_address''], EnvBool),
      (''SERVER_SOCKET_RECV_BUFFER_SIZE'', [''server'', ''socket_recv_buffer_size''], EnvNum U64 ''usize''),
      (''SERVER_SOCKET_SEND_BUFFER_SIZE'', [''server'', ''socket_send_buffer_size''], EnvNum U64 ''usize''),
      (''SERVER_ACCEPT_WORKERS'', [''server'', ''accept_workers''], EnvNum U64 ''usize''),
      (''HTTP1_KEEP_ALIVE'', [''http1'', ''keep_alive''], EnvBool),
      (''HTTP1_HALF_CLOSE'', [''http1'', ''half_close''], EnvBool),
      (''HTTP1_TITLE_CASE_HEADERS'', [''http1'', ''title_case_headers''], EnvBool),
      (''HTTP1_PRESERVE_HEADER_CASE'', [''http1'', ''preserve_header_case''], EnvBool),
      (''HTTP1_PIPELINE_FLUSH'', [''http1'', ''pipeline_flush''], EnvBool),
      (''HTTP2_ONLY'', [''http2'', ''only''], EnvBool),
      (''HTTP2_ADAPTIVE_WINDOW'', [''http2'', ''adaptive_window''], EnvBool),
      (''HTTP2_INITIAL_STREAM_WINDOW_SIZE'', [''http2'', ''initial_stream_window_size''], EnvNum U32 ''u32''),
      (''HTTP2_INITIAL_CONNECTION_WINDOW_SIZE'', [''http2'', ''initial_connection_window_size''], EnvNum U32 ''u32''),
      (''HTTP2_MAX_CONCURRENT_STREAMS'', [''http2'', ''max_concurrent_streams''], EnvNum U32 ''u32''),
      (''HTTP2_KEEP_ALIVE_INTERVAL_SECS'', [''http2'', ''keep_alive_interval_secs''], EnvNum U64 ''u64''),
      (''HTTP2_KEEP_ALIVE_TIMEOUT_SECS'', [''http2'', ''keep_alive_timeout_secs''], EnvNum U64 ''u64''),
      (''HTTP2_MAX_FRAME_SIZE'', [''http2'', ''max_frame_size''], EnvNum U32 ''u32''),
      (''HTTP2_MAX_SEND_BUF_SIZE'', [''http2'', ''max_send_buf_size''], EnvNum U64 ''usize''),
      (''HTTP2_MAX_HEADER_LIST_SIZE'', [''http2'', ''max_header_list_size''], EnvNum U32 ''u32''),
      (''TLS_BACKEND'', [''tls'', ''backend''], EnvString),
      (''TLS_CERT_PATH'', [''tls'', ''cert_path''], EnvString),
      (''TLS_KEY_PATH'', [''tls'', ''key_path''], EnvString),
      (''TLS_PKCS12_PATH'', [''tls'', ''pkcs12_path''], EnvString),
      (''TLS_PKCS12_PASSWORD'', [''tls'', ''pkcs12_password''], EnvString),
      (''SHUTDOWN_DRAIN_TIMEOUT_SECS'', [''shutdown'', ''drain_timeout_secs''], EnvNum U64 ''u64'')]"

definition parse_env_value :: "env_kind \<Rightarrow> string \<Rightarrow> string \<Rightarrow> config_error + json_value" where
  "parse_env_value kind var v =
     (case kind of
        EnvString \<Rightarrow> Inr (JStr v)
      | EnvBool \<Rightarrow> (case parse_bool var v of Inl e \<Rightarrow> Inl e | Inr b \<Rightarrow> Inr (JBool b))
      | EnvNum t name \<Rightarrow>
          (case parse_int t v of Some n \<Rightarrow> Inr (JNum n) | None \<Rightarrow> Inl (ConfigEnv var (''expected '' @ name))))"

definition parse_env_override ::
  "string \<Rightarrow> string \<Rightarrow> string \<Rightarrow> config_error + (string list \<times> json_value) option" where
  "parse_env_override suf var v =
     (case map_of env_table suf of
        None \<Rightarrow> Inr None
      | Some (path, kind) \<Rightarrow>
          (case parse_env_value kind var v of Inl e \<Rightarrow> Inl e | Inr x \<Rightarrow> Inr (Some (path, x))))"

text \<open>
  The environment is the list of its variables; \<open>None\<close> stands for text that is not UTF-8.  The loop collects the
  unknown variables of known sections.
\<close>

fun env_loop ::
  "string \<Rightarrow> (string option \<times> string option) list \<Rightarrow> json_value \<Rightarrow> string list
     \<Rightarrow> config_error + json_value \<times> string list" where
  "env_loop pre [] root_value unknown = Inr (root_value, unknown)"
| "env_loop pre ((Some var, Some v) # env) root_value unknown =
     (case strip_prefix pre var of
        None \<Rightarrow> env_loop pre env root_value unknown
      | Some suf \<Rightarrow>
          (case parse_env_override suf var v of
             Inl e \<Rightarrow> Inl e
           | Inr (Some (path, x)) \<Rightarrow> env_loop pre env (set_path root_value path x) unknown
           | Inr None \<Rightarrow> env_loop pre env root_value (if known_section suf then unknown @ [var] else unknown)))"
| "env_loop pre (_ # env) root_value unknown = env_loop pre env root_value unknown"

definition env_prefix_of :: "string \<Rightarrow> string" where
  "env_prefix_of p = trim_end_matches (CHR ''_'') p @ ''_''"

definition apply_env ::
  "(string option \<times> string option) list \<Rightarrow> json_value \<Rightarrow> string \<Rightarrow> config_error + json_value" where
  "apply_env env root_value p =
     (let pre = env_prefix_of p in
      case env_loop pre env root_value [] of
        Inl e \<Rightarrow> Inl e
      | Inr (v, unknown) \<Rightarrow>
          if unknown = [] then Inr v
          else Inl (ConfigValidation
                 (''unknown configuration environment variable(s): '' @ join_with '', '' unknown
                  @ ''. Expected names              prefixed with `'' @ pre @ ''` (e.g. '' @ pre
                  @ ''SERVER_PORT); check for typos.'')))"

subsection \<open>Loading\<close>

record config_io =
  io_read :: "string \<Rightarrow> string + string"
  io_toml :: "string \<Rightarrow> string + json_value"
  io_json :: "string \<Rightarrow> string + json_value"
  io_env :: "(string option \<times> string option) list"

definition load_file :: "config_io \<Rightarrow> string \<Rightarrow> config_error + json_value" where
  "load_file W path =
     (case io_read W path of
        Inl e \<Rightarrow> Inl (ConfigIo path e)
      | Inr contents \<Rightarrow>
          (if path_extension path = Some ''toml'' then
             (case io_toml W contents of Inl e \<Rightarrow> Inl (ConfigToml path e) | Inr v \<Rightarrow> Inr v)
           else if path_extension path = Some ''json'' then
             (case io_json W contents of Inl e \<Rightarrow> Inl (ConfigJson path e) | Inr v \<Rightarrow> Inr v)
           else Inl (UnsupportedExtension path)))"

fun merge_files :: "config_io \<Rightarrow> string list \<Rightarrow> json_value \<Rightarrow> config_error + json_value" where
  "merge_files W [] merged = Inr merged"
| "merge_files W (file # files) merged =
     (case load_file W file of
        Inl e \<Rightarrow> Inl e
      | Inr v \<Rightarrow> merge_files W files (merge_values merged v))"

record config_builder =
  bd_files :: "string list"
  bd_env_prefix :: string
  bd_defaults :: arvik_config

definition config_builder_default :: config_builder where
  "config_builder_default = \<lparr>bd_files = [], bd_env_prefix = ''ARVIK'', bd_defaults = arvik_config_default\<rparr>"

definition bd_file :: "string \<Rightarrow> config_builder \<Rightarrow> config_builder" where
  "bd_file path self = self\<lparr>bd_files := bd_files self @ [path]\<rparr>"

definition bd_set_env_prefix :: "string \<Rightarrow> config_builder \<Rightarrow> config_builder" where
  "bd_set_env_prefix p self = self\<lparr>bd_env_prefix := p\<rparr>"

definition bd_set_defaults :: "arvik_config \<Rightarrow> config_builder \<Rightarrow> config_builder" where
  "bd_set_defaults c self = self\<lparr>bd_defaults := c\<rparr>"

definition build_inner ::
  "(arvik_config \<Rightarrow> json_value) \<Rightarrow> (json_value \<Rightarrow> string + arvik_config) \<Rightarrow> config_io \<Rightarrow> config_builder
     \<Rightarrow> config_error + arvik_config" where
  "build_inner to_value from_value W self =
     (case merge_files W (bd_files self) (to_value (bd_defaults self)) of
        Inl e \<Rightarrow> Inl e
      | Inr merged \<Rightarrow>
          (case apply_env (io_env W) merged (bd_env_prefix self) of
             Inl e \<Rightarrow> Inl e
           | Inr merged \<Rightarrow>
               (case from_value merged of
                  Inl e \<Rightarrow> Inl (ConfigDecode e)
                | Inr config \<Rightarrow> (case validate config of Inl e \<Rightarrow> Inl e | Inr _ \<Rightarrow> Inr config))))"

subsection \<open>The derived implementations\<close>

definition enc_str :: "string \<Rightarrow> json_value" where "enc_str s = JStr s"

definition enc_word :: "'a::len word \<Rightarrow> json_value" where "enc_word w = JNum (uint w)"

definition enc_opt :: "('a \<Rightarrow> json_value) \<Rightarrow> 'a option \<Rightarrow> json_value" where
  "enc_opt f v = (case v of Some x \<Rightarrow> f x | None \<Rightarrow> JNull)"

fun enc_backend :: "tls_backend \<Rightarrow> json_value" where
  "enc_backend Rustls = JStr ''rustls''"
| "enc_backend NativeTls = JStr ''native-tls''"

definition dec_str :: "json_value \<Rightarrow> string option" where
  "dec_str v = (case v of JStr s \<Rightarrow> Some s | _ \<Rightarrow> None)"

definition dec_bool :: "json_value \<Rightarrow> bool option" where
  "dec_bool v = (case v of JBool b \<Rightarrow> Some b | _ \<Rightarrow> None)"

definition dec_word :: "json_value \<Rightarrow> 'a::len word option" where
  "dec_word v = (case v of
     JNum n \<Rightarrow> if 0 \<le> n \<and> n < 2 ^ LENGTH('a) then Some (word_of_int n) else None | _ \<Rightarrow> None)"

definition dec_opt :: "(json_value \<Rightarrow> 'a option) \<Rightarrow> json_value \<Rightarrow> 'a option option" where
  "dec_opt f v = (case v of JNull \<Rightarrow> Some None | _ \<Rightarrow> map_option Some (f v))"

definition dec_backend :: "json_value \<Rightarrow> tls_backend option" where
  "dec_backend v =
     (if v = JStr ''rustls'' then Some Rustls else if v = JStr ''native-tls'' then Some NativeTls else None)"

definition dec_field :: "(string \<times> json_value) list \<Rightarrow> string \<Rightarrow> (json_value \<Rightarrow> 'a option) \<Rightarrow> 'a \<Rightarrow> 'a option" where
  "dec_field m k f dflt = (case map_of m k of Some v \<Rightarrow> f v | None \<Rightarrow> Some dflt)"

definition dec_obj :: "string list \<Rightarrow> ((string \<times> json_value) list \<Rightarrow> 'a option) \<Rightarrow> json_value \<Rightarrow> 'a option" where
  "dec_obj known f v =
     (case v of JObj m \<Rightarrow> if list_all (\<lambda>(k, _). k \<in> set known) m then f m else None | _ \<Rightarrow> None)"

definition enc_server_section :: "server_section \<Rightarrow> (string \<times> json_value) list" where
  "enc_server_section s =
     [(''host'', enc_str (cs_host s)),
      (''port'', enc_word (cs_port s)),
      (''workers'', enc_opt enc_word (cs_workers s)),
      (''backlog'', enc_opt enc_word (cs_backlog s)),
      (''max_connections'', enc_opt enc_word (cs_max_connections s)),
      (''body_limit'', enc_opt enc_word (cs_body_limit s)),
      (''tcp_nodelay'', enc_opt JBool (cs_tcp_nodelay s)),
      (''tcp_keepalive_secs'', enc_opt enc_word (cs_tcp_keepalive_secs s)),
      (''tcp_keepalive_interval_secs'', enc_opt enc_word (cs_tcp_keepalive_interval_secs s)),
      (''tcp_keepalive_retries'', enc_opt enc_word (cs_tcp_keepalive_retries s)),
      (''reuse_port'', JBool (cs_reuse_port s)),
      (''reuse_address'', JBool (cs_reuse_address s)),
      (''socket_recv_buffer_size'', enc_opt enc_word (cs_socket_recv_buffer_size s)),
      (''socket_send_buffer_size'', enc_opt enc_word (cs_socket_send_buffer_size s)),
      (''accept_workers'', enc_opt enc_word (cs_accept_workers s))]"

definition server_section_fields :: "string list" where
  "server_section_fields =
    [''host'', ''port'', ''workers'', ''backlog'', ''max_connections'', ''body_limit'', ''tcp_nodelay'',
     ''tcp_keepalive_secs'', ''tcp_keepalive_interval_secs'', ''tcp_keepalive_retries'', ''reuse_port'',
     ''reuse_address'', ''socket_recv_buffer_size'', ''socket_send_buffer_size'', ''accept_workers'']"

definition dec_server_section :: "(string \<times> json_value) list \<Rightarrow> server_section option" where
  "dec_server_section m =
     Option.bind (dec_field m ''host'' dec_str (cs_host server_section_default)) (\<lambda>x0.
     Option.bind (dec_field m ''port'' dec_word (cs_port server_section_default)) (\<lambda>x1.
     Option.bind (dec_field m ''workers'' (dec_opt dec_word) (cs_workers server_section_default)) (\<lambda>x2.
     Option.bind (dec_field m ''backlog'' (dec_opt dec_word) (cs_backlog server_section_default)) (\<lambda>x3.
     Option.bind (dec_field m ''max_connections'' (dec_opt dec_word) (cs_max_connections server_section_default)) (\<lambda>x4.
     Option.bind (dec_field m ''body_limit'' (dec_opt dec_word) (cs_body_limit server_section_default)) (\<lambda>x5.
     Option.bind (dec_field m ''tcp_nodelay'' (dec_opt dec_bool) (cs_tcp_nodelay server_section_default)) (\<lambda>x6.
     Option.bind (dec_field m ''tcp_keepalive_secs'' (dec_opt dec_word) (cs_tcp_keepalive_secs server_section_default)) (\<lambda>x7.
     Option.bind (dec_field m ''tcp_keepalive_interval_secs'' (dec_opt dec_word) (cs_tcp_keepalive_interval_secs server_section_default)) (\<lambda>x8.
     Option.bind (dec_field m ''tcp_keepalive_retries'' (dec_opt dec_word) (cs_tcp_keepalive_retries server_section_default)) (\<lambda>x9.
     Option.bind (dec_field m ''reuse_port'' dec_bool (cs_reuse_port server_section_default)) (\<lambda>x10.
     Option.bind (dec_field m ''reuse_address'' dec_bool (cs_reuse_address server_section_default)) (\<lambda>x11.
     Option.bind (dec_field m ''socket_recv_buffer_size'' (dec_opt dec_word) (cs_socket_recv_buffer_size server_section_default)) (\<lambda>x12.
     Option.bind (dec_field m ''socket_send_buffer_size'' (dec_opt dec_word) (cs_socket_send_buffer_size server_section_default)) (\<lambda>x13.
     Option.bind (dec_field m ''accept_workers'' (dec_opt dec_word) (cs_accept_workers server_section_default)) (\<lambda>x14.
     Some \<lparr>cs_host = x0, cs_port = x1, cs_workers = x2, cs_backlog = x3, cs_max_connections = x4, cs_body_limit
       = x5, cs_tcp_nodelay = x6, cs_tcp_keepalive_secs = x7, cs_tcp_keepalive_interval_secs = x8,
       cs_tcp_keepalive_retries = x9, cs_reuse_port = x10, cs_reuse_address = x11,
       cs_socket_recv_buffer_size = x12, cs_socket_send_buffer_size = x13, cs_accept_workers = x14\<rparr>)))))))))))))))"

definition enc_http1_section :: "http1_section \<Rightarrow> (string \<times> json_value) list" where
  "enc_http1_section s =
     [(''keep_alive'', JBool (c1_keep_alive s)),
      (''half_close'', JBool (c1_half_close s)),
      (''title_case_headers'', JBool (c1_title_case_headers s)),
      (''preserve_header_case'', JBool (c1_preserve_header_case s)),
      (''pipeline_flush'', JBool (c1_pipeline_flush s))]"

definition http1_section_fields :: "string list" where
  "http1_section_fields =
    [''keep_alive'', ''half_close'', ''title_case_headers'', ''preserve_header_case'', ''pipeline_flush'']"

definition dec_http1_section :: "(string \<times> json_value) list \<Rightarrow> http1_section option" where
  "dec_http1_section m =
     Option.bind (dec_field m ''keep_alive'' dec_bool (c1_keep_alive http1_section_default)) (\<lambda>x0.
     Option.bind (dec_field m ''half_close'' dec_bool (c1_half_close http1_section_default)) (\<lambda>x1.
     Option.bind (dec_field m ''title_case_headers'' dec_bool (c1_title_case_headers http1_section_default)) (\<lambda>x2.
     Option.bind (dec_field m ''preserve_header_case'' dec_bool (c1_preserve_header_case http1_section_default)) (\<lambda>x3.
     Option.bind (dec_field m ''pipeline_flush'' dec_bool (c1_pipeline_flush http1_section_default)) (\<lambda>x4.
     Some \<lparr>c1_keep_alive = x0, c1_half_close = x1, c1_title_case_headers = x2, c1_preserve_header_case = x3,
       c1_pipeline_flush = x4\<rparr>)))))"

definition enc_http2_section :: "http2_section \<Rightarrow> (string \<times> json_value) list" where
  "enc_http2_section s =
     [(''only'', JBool (c2_only s)),
      (''adaptive_window'', JBool (c2_adaptive_window s)),
      (''initial_stream_window_size'', enc_opt enc_word (c2_initial_stream_window_size s)),
      (''initial_connection_window_size'', enc_opt enc_word (c2_initial_connection_window_size s)),
      (''max_concurrent_streams'', enc_opt enc_word (c2_max_concurrent_streams s)),
      (''keep_alive_interval_secs'', enc_opt enc_word (c2_keep_alive_interval_secs s)),
      (''keep_alive_timeout_secs'', enc_word (c2_keep_alive_timeout_secs s)),
      (''max_frame_size'', enc_opt enc_word (c2_max_frame_size s)),
      (''max_send_buf_size'', enc_opt enc_word (c2_max_send_buf_size s)),
      (''max_header_list_size'', enc_opt enc_word (c2_max_header_list_size s))]"

definition http2_section_fields :: "string list" where
  "http2_section_fields =
    [''only'', ''adaptive_window'', ''initial_stream_window_size'', ''initial_connection_window_size'',
     ''max_concurrent_streams'', ''keep_alive_interval_secs'', ''keep_alive_timeout_secs'',
     ''max_frame_size'', ''max_send_buf_size'', ''max_header_list_size'']"

definition dec_http2_section :: "(string \<times> json_value) list \<Rightarrow> http2_section option" where
  "dec_http2_section m =
     Option.bind (dec_field m ''only'' dec_bool (c2_only http2_section_default)) (\<lambda>x0.
     Option.bind (dec_field m ''adaptive_window'' dec_bool (c2_adaptive_window http2_section_default)) (\<lambda>x1.
     Option.bind (dec_field m ''initial_stream_window_size'' (dec_opt dec_word) (c2_initial_stream_window_size http2_section_default)) (\<lambda>x2.
     Option.bind (dec_field m ''initial_connection_window_size'' (dec_opt dec_word) (c2_initial_connection_window_size http2_section_default)) (\<lambda>x3.
     Option.bind (dec_field m ''max_concurrent_streams'' (dec_opt dec_word) (c2_max_concurrent_streams http2_section_default)) (\<lambda>x4.
     Option.bind (dec_field m ''keep_alive_interval_secs'' (dec_opt dec_word) (c2_keep_alive_interval_secs http2_section_default)) (\<lambda>x5.
     Option.bind (dec_field m ''keep_alive_timeout_secs'' dec_word (c2_keep_alive_timeout_secs http2_section_default)) (\<lambda>x6.
     Option.bind (dec_field m ''max_frame_size'' (dec_opt dec_word) (c2_max_frame_size http2_section_default)) (\<lambda>x7.
     Option.bind (dec_field m ''max_send_buf_size'' (dec_opt dec_word) (c2_max_send_buf_size http2_section_default)) (\<lambda>x8.
     Option.bind (dec_field m ''max_header_list_size'' (dec_opt dec_word) (c2_max_header_list_size http2_section_default)) (\<lambda>x9.
     Some \<lparr>c2_only = x0, c2_adaptive_window = x1, c2_initial_stream_window_size = x2,
       c2_initial_connection_window_size = x3, c2_max_concurrent_streams = x4, c2_keep_alive_interval_secs
       = x5, c2_keep_alive_timeout_secs = x6, c2_max_frame_size = x7, c2_max_send_buf_size = x8,
       c2_max_header_list_size = x9\<rparr>))))))))))"

definition enc_tls_section :: "tls_section \<Rightarrow> (string \<times> json_value) list" where
  "enc_tls_section s =
     [(''backend'', enc_backend (ct_backend s)),
      (''cert_path'', enc_opt enc_str (ct_cert_path s)),
      (''key_path'', enc_opt enc_str (ct_key_path s)),
      (''pkcs12_path'', enc_opt enc_str (ct_pkcs12_path s)),
      (''pkcs12_password'', enc_opt enc_str (ct_pkcs12_password s))]"

definition tls_section_fields :: "string list" where
  "tls_section_fields =
    [''backend'', ''cert_path'', ''key_path'', ''pkcs12_path'', ''pkcs12_password'']"

definition dec_tls_section :: "(string \<times> json_value) list \<Rightarrow> tls_section option" where
  "dec_tls_section m =
     Option.bind (dec_field m ''backend'' dec_backend (ct_backend tls_section_default)) (\<lambda>x0.
     Option.bind (dec_field m ''cert_path'' (dec_opt dec_str) (ct_cert_path tls_section_default)) (\<lambda>x1.
     Option.bind (dec_field m ''key_path'' (dec_opt dec_str) (ct_key_path tls_section_default)) (\<lambda>x2.
     Option.bind (dec_field m ''pkcs12_path'' (dec_opt dec_str) (ct_pkcs12_path tls_section_default)) (\<lambda>x3.
     Option.bind (dec_field m ''pkcs12_password'' (dec_opt dec_str) (ct_pkcs12_password tls_section_default)) (\<lambda>x4.
     Some \<lparr>ct_backend = x0, ct_cert_path = x1, ct_key_path = x2, ct_pkcs12_path = x3, ct_pkcs12_password = x4\<rparr>)))))"

definition enc_shutdown_section :: "shutdown_section \<Rightarrow> (string \<times> json_value) list" where
  "enc_shutdown_section s =
     [(''drain_timeout_secs'', enc_word (cd_drain_timeout_secs s))]"

definition shutdown_section_fields :: "string list" where
  "shutdown_section_fields =
    [''drain_timeout_secs'']"

definition dec_shutdown_section :: "(string \<times> json_value) list \<Rightarrow> shutdown_section option" where
  "dec_shutdown_section m =
     Option.bind (dec_field m ''drain_timeout_secs'' dec_word (cd_drain_timeout_secs shutdown_section_default)) (\<lambda>x0.
     Some \<lparr>cd_drain_timeout_secs = x0\<rparr>)"

definition derive_to_value :: "arvik_config \<Rightarrow> json_value" where
  "derive_to_value c = JObj
     [(''server'', JObj (enc_server_section (ac_server c))), (''http1'', JObj (enc_http1_section (ac_http1 c))),
      (''http2'', JObj (enc_http2_section (ac_http2 c))),
      (''tls'', enc_opt (\<lambda>t. JObj (enc_tls_section t)) (ac_tls c)),
      (''shutdown'', JObj (enc_shutdown_section (ac_shutdown c)))]"

definition dec_config :: "(string \<times> json_value) list \<Rightarrow> arvik_config option" where
  "dec_config m =
     Option.bind (dec_field m ''server'' (dec_obj server_section_fields dec_server_section) server_section_default) (\<lambda>s.
     Option.bind (dec_field m ''http1'' (dec_obj http1_section_fields dec_http1_section) http1_section_default) (\<lambda>h1.
     Option.bind (dec_field m ''http2'' (dec_obj http2_section_fields dec_http2_section) http2_section_default) (\<lambda>h2.
     Option.bind (dec_field m ''tls'' (dec_opt (dec_obj tls_section_fields dec_tls_section)) None) (\<lambda>t.
     Option.bind (dec_field m ''shutdown'' (dec_obj shutdown_section_fields dec_shutdown_section)
                    shutdown_section_default) (\<lambda>d.
     Some \<lparr>ac_server = s, ac_http1 = h1, ac_http2 = h2, ac_tls = t, ac_shutdown = d\<rparr>)))))"

definition derive_from_value :: "json_value \<Rightarrow> string + arvik_config" where
  "derive_from_value v =
     (case dec_obj [''server'', ''http1'', ''http2'', ''tls'', ''shutdown''] dec_config v of
        Some c \<Rightarrow> Inr c | None \<Rightarrow> Inl ''invalid value'')"

subsection \<open>Hot reload\<close>

text \<open>
  \<open>ConfigWatcher\<close>: the last configuration and the results waiting for the application.  The task takes one event of
  the file watcher, sleeps, takes the events that arrived meanwhile (\<open>pending\<close>), and builds the configuration from
  the files and the environment as they are then.  A poisoned lock is not modelled: nothing panics while holding it.
\<close>

record config_watcher =
  cw_current :: arvik_config
  cw_updates :: "(config_error + arvik_config) list"

definition watcher_new ::
  "(arvik_config \<Rightarrow> json_value) \<Rightarrow> (json_value \<Rightarrow> string + arvik_config) \<Rightarrow> config_io \<Rightarrow> config_builder
     \<Rightarrow> config_error + config_watcher" where
  "watcher_new to_value from_value W b =
     (case build_inner to_value from_value W b of
        Inl e \<Rightarrow> Inl e | Inr c \<Rightarrow> Inr \<lparr>cw_current = c, cw_updates = []\<rparr>)"

fun watch_errors :: "(string + unit) list \<Rightarrow> (config_error + arvik_config) list" where
  "watch_errors [] = []"
| "watch_errors (Inl e # es) = Inl (ConfigWatch e) # watch_errors es"
| "watch_errors (Inr _ # es) = watch_errors es"

definition watcher_event ::
  "(arvik_config \<Rightarrow> json_value) \<Rightarrow> (json_value \<Rightarrow> string + arvik_config) \<Rightarrow> config_builder \<Rightarrow> config_io
     \<Rightarrow> string + unit \<Rightarrow> (string + unit) list \<Rightarrow> config_watcher \<Rightarrow> config_watcher" where
  "watcher_event to_value from_value b W event pending w =
     (case event of
        Inl e \<Rightarrow> w\<lparr>cw_updates := cw_updates w @ [Inl (ConfigWatch e)]\<rparr>
      | Inr _ \<Rightarrow>
          (let w = w\<lparr>cw_updates := cw_updates w @ watch_errors pending\<rparr>;
               r = build_inner to_value from_value W b
           in (case r of Inr c \<Rightarrow> w\<lparr>cw_current := c\<rparr> | Inl _ \<Rightarrow> w)\<lparr>cw_updates := cw_updates w @ [r]\<rparr>))"

text \<open>\<^verbatim>\<open>next\<close> takes the oldest result; \<^verbatim>\<open>None\<close> waits, as the task never ends while the watcher lives.\<close>

definition watcher_next :: "config_watcher \<Rightarrow> ((config_error + arvik_config) \<times> config_watcher) option" where
  "watcher_next w =
     (case cw_updates w of [] \<Rightarrow> None | r # rs \<Rightarrow> Some (r, w\<lparr>cw_updates := rs\<rparr>))"

inductive watcher_reach ::
  "(arvik_config \<Rightarrow> json_value) \<Rightarrow> (json_value \<Rightarrow> string + arvik_config) \<Rightarrow> config_builder \<Rightarrow> config_watcher \<Rightarrow> bool"
  for to_value from_value b where
  new: "watcher_new to_value from_value W b = Inr w \<Longrightarrow> watcher_reach to_value from_value b w"
| event: "watcher_reach to_value from_value b w
     \<Longrightarrow> watcher_reach to_value from_value b (watcher_event to_value from_value b W e pending w)"
| taken: "watcher_reach to_value from_value b w \<Longrightarrow> watcher_next w = Some (r, w')
     \<Longrightarrow> watcher_reach to_value from_value b w'"

subsection \<open>Value trees: reading back\<close>

fun is_scalar :: "json_value \<Rightarrow> bool" where
  "is_scalar (JObj m) = False"
| "is_scalar (JArr vs) = False"
| "is_scalar v = True"

text \<open>One entry per key, as in serde_json's map, at the two levels the configuration has.\<close>

fun obj_distinct :: "nat \<Rightarrow> json_value \<Rightarrow> bool" where
  "obj_distinct (Suc n) (JObj m) \<longleftrightarrow> distinct (map fst m) \<and> list_all (\<lambda>(_, v). obj_distinct n v) m"
| "obj_distinct n v = True"

lemma get_path_Cons: "get_path v (k # ks) = Option.bind (map_of (obj_entries v) k) (\<lambda>x. get_path x ks)"
  by (cases v) auto

lemma obj_entries_JObj [simp]: "get_path (JObj m) (k # ks) = Option.bind (map_of m k) (\<lambda>x. get_path x ks)"
  by simp

lemma set_path_same: "p \<noteq> [] \<Longrightarrow> get_path (set_path v p x) p = Some x"
  by (induction v p x rule: set_path.induct) (auto simp: Let_def update_conv')

lemma set_path_other:
  "length p = length q \<Longrightarrow> p \<noteq> q \<Longrightarrow> get_path (set_path v p x) q = get_path v q"
proof (induction v p x arbitrary: q rule: set_path.induct)
  case (2 current k x)
  then obtain k1 where "q = [k1]" "k1 \<noteq> k" by (cases q) auto
  then show ?case by (simp add: update_conv' get_path_Cons [of current])
next
  case (3 current k k' ks x)
  then obtain k1 q' where q: "q = k1 # q'" "length q' = Suc (length ks)" by (cases q) auto
  show ?case
  proof (cases "k1 = k")
    case False
    then show ?thesis using q by (simp add: Let_def update_conv' get_path_Cons [of current])
  next
    case True
    let ?e = "case map_of (obj_entries current) k of Some v \<Rightarrow> v | None \<Rightarrow> JObj []"
    have "get_path (set_path ?e (k' # ks) x) q' = get_path ?e q'"
      using 3 q True by (intro 3(1)) auto
    moreover have "get_path ?e q' = Option.bind (map_of (obj_entries current) k) (\<lambda>v. get_path v q')"
      using q(2) by (cases q') (auto split: option.split)
    ultimately show ?thesis
      using q True by (simp add: Let_def update_conv' get_path_Cons [of current])
  qed
qed simp

lemma merge_object_lookup:
  "distinct (map fst ov) \<Longrightarrow> map_of (merge_object base ov) k =
     (case map_of ov k of
        None \<Rightarrow> map_of base k
      | Some v \<Rightarrow> Some (merge_values (case map_of base k of Some b \<Rightarrow> b | None \<Rightarrow> JNull) v))"
proof (induction ov arbitrary: base)
  case (Cons kv ov)
  obtain k1 v where kv: "kv = (k1, v)" by (cases kv)
  have "map_of ov k1 = None" using Cons.prems kv by (simp add: map_of_eq_None_iff)
  with Cons show ?case by (auto simp: kv update_conv' split: option.split)
qed simp

lemma merge_values_scalar: "is_scalar v \<Longrightarrow> merge_values b v = v"
  by (cases b; cases v) auto

text \<open>A leaf of the overlay is a leaf of the merged value.\<close>

lemma merge_leaf:
  assumes "obj_distinct 2 ov" "get_path ov [s, f] = Some x" "is_scalar x"
  shows "get_path (merge_values base ov) [s, f] = Some x"
proof -
  obtain m n where ov: "ov = JObj m" "map_of m s = Some (JObj n)" "map_of n f = Some x"
  proof -
    obtain m y where y: "ov = JObj m" "map_of m s = Some y" "get_path y [f] = Some x"
      using assms(2) by (cases ov) (auto simp: bind_eq_Some_conv)
    then obtain n where n: "y = JObj n" by (cases y) auto
    with y have "map_of n f = Some x" by (simp add: bind_eq_Some_conv)
    with y n show ?thesis by (intro that) simp_all
  qed
  have dm: "distinct (map fst m)" and dn: "distinct (map fst n)"
    using assms(1) map_of_SomeD [OF ov(2)] by (auto simp: ov(1) numeral_2_eq_2 list_all_iff)
  have inner: "get_path (merge_values b (JObj n)) [f] = Some x" for b
    using ov(3) assms(3) by (cases b) (auto simp: merge_object_lookup [OF dn] merge_values_scalar split: option.split)
  show ?thesis
  proof (cases base)
    case (JObj bm)
    then show ?thesis using inner by (simp add: ov(1,2) merge_object_lookup [OF dm])
  qed (use ov in simp_all)
qed

subsection \<open>The environment overrides\<close>

lemma env_table_paths:
  "list_all (\<lambda>(s, p, k). length p = 2) env_table" "distinct (map (\<lambda>(s, p, k). p) env_table)"
  by code_simp+

lemma env_path_length: "map_of env_table suf = Some (p, k) \<Longrightarrow> length p = 2"
  using env_table_paths(1) map_of_SomeD by (fastforce simp: list_all_iff)

lemma env_path_inj:
  assumes "map_of env_table a = Some (p, k)" "map_of env_table b = Some (p, k')"
  shows "a = b"
proof -
  have "(a, p, k) = (b, p, k')"
    using env_table_paths(2) map_of_SomeD [OF assms(1)] map_of_SomeD [OF assms(2)]
    unfolding distinct_map inj_on_def by fastforce
  then show ?thesis by simp
qed

text \<open>One variable of the environment: it sets a path, is unknown, or does not concern the configuration.\<close>

lemma env_loop_step:
  assumes "env_loop pre (e # env) v u = Inr r"
  obtains (sets) suf p k raw x where "e = (Some (pre @ suf), Some raw)" "map_of env_table suf = Some (p, k)"
      "parse_env_value k (pre @ suf) raw = Inr x" "env_loop pre env (set_path v p x) u = Inr r"
  | (unknown) suf raw where "e = (Some (pre @ suf), Some raw)" "map_of env_table suf = None"
      "env_loop pre env v (if known_section suf then u @ [pre @ suf] else u) = Inr r"
  | (other) "\<And>suf raw. e \<noteq> (Some (pre @ suf), Some raw)" "env_loop pre env v u = Inr r"
proof (cases "\<exists>suf raw. e = (Some (pre @ suf), Some raw)")
  case True
  then obtain suf raw where e: "e = (Some (pre @ suf), Some raw)" by blast
  show thesis
  proof (cases "map_of env_table suf")
    case None
    with e assms show thesis by (intro unknown [of suf raw]) (auto simp: parse_env_override_def)
  next
    case (Some pk)
    obtain p k where pk: "pk = (p, k)" by (cases pk)
    with e assms Some obtain x where "parse_env_value k (pre @ suf) raw = Inr x"
      "env_loop pre env (set_path v p x) u = Inr r"
      by (auto simp: parse_env_override_def split: sum.splits)
    with e Some pk show thesis by (intro sets [of suf raw p k x]) auto
  qed
next
  case False
  have "env_loop pre env v u = Inr r"
  proof (cases "\<exists>var val. e = (Some var, Some val)")
    case True
    then obtain var val where e: "e = (Some var, Some val)" by blast
    with False have "strip_prefix pre var = None"
      by (cases "strip_prefix pre var") (auto simp: strip_prefix_Some_iff)
    with assms e show ?thesis by simp
  next
    case False
    with assms show ?thesis by (cases "fst e"; cases "snd e"; cases e) auto
  qed
  with False show thesis by (intro other) auto
qed

text \<open>Variables that are not the one of a path leave what the path holds.\<close>

lemma env_loop_keeps:
  assumes "env_loop pre env v u = Inr (v', u')" "map_of env_table suf = Some (p, k)"
    and "\<And>r. (Some (pre @ suf), Some r) \<notin> set env"
  shows "get_path v' p = get_path v p"
  using assms(1,3)
proof (induction env arbitrary: v u)
  case (Cons e env)
  from Cons.prems(1) show ?case
  proof (cases rule: env_loop_step)
    case (sets suf1 p1 k1 raw x)
    then have "suf1 \<noteq> suf" using Cons.prems(2) by auto
    then have "p1 \<noteq> p" "length p1 = length p"
      using sets(2) assms(2) env_path_inj env_path_length by metis+
    with set_path_other Cons.IH [OF sets(4)] Cons.prems(2) show ?thesis by auto
  next
    case (unknown suf1 raw)
    with Cons.IH [OF unknown(3)] Cons.prems(2) show ?thesis by auto
  next
    case other
    with Cons.IH [OF other(2)] Cons.prems(2) show ?thesis by auto
  qed
qed simp

lemma env_loop_sets:
  assumes "env_loop pre env v u = Inr (v', u')" "map_of env_table suf = Some (p, k)"
    and "(Some (pre @ suf), Some raw) \<in> set env"
    and "\<And>r. (Some (pre @ suf), Some r) \<in> set env \<Longrightarrow> r = raw"
  shows "\<exists>x. parse_env_value k (pre @ suf) raw = Inr x \<and> get_path v' p = Some x"
  using assms(1,3,4)
proof (induction env arbitrary: v u)
  case (Cons e env)
  show ?case
  proof (cases "(Some (pre @ suf), Some raw) \<in> set env")
    case True
    note IH = Cons.IH [OF _ True Cons.prems(3)]
    from Cons.prems(1) show ?thesis
    proof (cases rule: env_loop_step)
      case (sets suf1 p1 k1 raw1 x)
      show ?thesis by (rule IH [OF sets(4)]) simp_all
    next
      case (unknown suf1 raw1)
      show ?thesis by (rule IH [OF unknown(3)]) simp_all
    next
      case other
      show ?thesis by (rule IH [OF other(2)]) simp_all
    qed
  next
    case False
    then have e: "e = (Some (pre @ suf), Some raw)" using Cons.prems(2) by auto
    from Cons.prems(1) show ?thesis
    proof (cases rule: env_loop_step)
      case (sets suf1 p1 k1 raw1 x)
      then have eqs: "p1 = p" "k1 = k" "raw1 = raw" "suf1 = suf" using e assms(2) by auto
      have no: "(Some (pre @ suf), Some r) \<notin> set env" for r
        using False Cons.prems(3) [of r] by auto
      have "p \<noteq> []" using env_path_length [OF assms(2)] by auto
      then have "get_path v' p = Some x"
        using env_loop_keeps [OF sets(4) assms(2) no] set_path_same by (simp add: eqs)
      with sets(3) show ?thesis by (simp add: eqs)
    qed (use e assms(2) in auto)
  qed
qed simp

lemma env_loop_unknown_mono: "env_loop pre env v u = Inr (v', u') \<Longrightarrow> set u \<subseteq> set u'"
proof (induction env arbitrary: v u)
  case (Cons e env)
  from Cons.prems show ?case by (cases rule: env_loop_step) (use Cons.IH in \<open>force split: if_splits\<close>)+
qed simp

lemma env_loop_unknown:
  assumes "env_loop pre env v u = Inr (v', u')" "(Some (pre @ suf), Some raw) \<in> set env"
    and "map_of env_table suf = None" "known_section suf"
  shows "pre @ suf \<in> set u'"
  using assms(1,2)
proof (induction env arbitrary: v u)
  case (Cons e env)
  from Cons.prems(1) show ?case
  proof (cases rule: env_loop_step)
    case (unknown suf1 raw1)
    then show ?thesis
      using Cons.IH [OF unknown(3)] Cons.prems(2) env_loop_unknown_mono [OF unknown(3)] assms(4)
      by (auto split: if_splits)
  qed (use Cons.IH Cons.prems(2) assms(3) in auto)
qed simp

subsection \<open>The interface of the derived implementations\<close>

locale config_serde =
  fixes to_value :: "arvik_config \<Rightarrow> json_value" and from_value :: "json_value \<Rightarrow> string + arvik_config"
  assumes roundtrip: "from_value (to_value c) = Inr c"
    and decodes_leaf: "from_value v = Inr c \<Longrightarrow> get_path v [s, f] = Some x \<Longrightarrow> is_scalar x
          \<Longrightarrow> get_path (to_value c) [s, f] = Some x"
begin

lemma build_override:
  assumes "build_inner to_value from_value W b = Inr c"
    and "map_of env_table suf = Some ([s, f], k)"
    and "(Some (env_prefix_of (bd_env_prefix b) @ suf), Some raw) \<in> set (io_env W)"
    and "\<And>r. (Some (env_prefix_of (bd_env_prefix b) @ suf), r) \<in> set (io_env W) \<Longrightarrow> r = Some raw"
  shows "\<exists>x. parse_env_value k (env_prefix_of (bd_env_prefix b) @ suf) raw = Inr x
           \<and> get_path (to_value c) [s, f] = Some x"
proof -
  let ?pre = "env_prefix_of (bd_env_prefix b)"
  obtain m v u where run: "env_loop ?pre (io_env W) m [] = Inr (v, u)" and c: "from_value v = Inr c"
    using assms(1) by (auto simp: build_inner_def apply_env_def Let_def split: sum.splits if_splits)
  obtain x where x: "parse_env_value k (?pre @ suf) raw = Inr x" "get_path v [s, f] = Some x"
    using env_loop_sets [OF run assms(2,3)] assms(4) by blast
  moreover have "is_scalar x"
    using x(1) by (auto simp: parse_env_value_def split: env_kind.splits sum.splits option.splits)
  ultimately show ?thesis using decodes_leaf [OF c] by blast
qed

lemma build_last_file:
  assumes "build_inner to_value from_value W b = Inr c" "bd_files b = fs @ [file]"
    and "load_file W file = Inr ov" "obj_distinct 2 ov" "get_path ov [s, f] = Some x" "is_scalar x"
    and "map_of env_table suf = Some ([s, f], k)"
    and "\<And>r. (Some (env_prefix_of (bd_env_prefix b) @ suf), Some r) \<notin> set (io_env W)"
  shows "get_path (to_value c) [s, f] = Some x"
proof -
  let ?pre = "env_prefix_of (bd_env_prefix b)"
  obtain m v u where m: "merge_files W (bd_files b) (to_value (bd_defaults b)) = Inr m"
    and run: "env_loop ?pre (io_env W) m [] = Inr (v, u)" and c: "from_value v = Inr c"
    using assms(1) by (auto simp: build_inner_def apply_env_def Let_def split: sum.splits if_splits)
  have "\<exists>m0. m = merge_values m0 ov"
  proof -
    have "merge_files W (fs @ [file]) d = Inr m \<Longrightarrow> \<exists>m0. m = merge_values m0 ov" for d
      by (induction fs arbitrary: d) (auto simp: assms(3) split: sum.splits)
    then show ?thesis using m assms(2) by simp
  qed
  then have "get_path m [s, f] = Some x" using merge_leaf [OF assms(4-6)] by blast
  then have "get_path v [s, f] = Some x" using env_loop_keeps [OF run assms(7,8)] by simp
  then show ?thesis by (rule decodes_leaf [OF c _ assms(6)])
qed

end

text \<open>The derived implementations.\<close>

lemma dec_enc [simp]:
  "dec_str (enc_str s) = Some s" "dec_bool (JBool b) = Some b" "dec_backend (enc_backend t) = Some t"
  by (simp_all add: dec_str_def enc_str_def dec_bool_def dec_backend_def) (cases t; simp add: dec_backend_def)

lemma dec_enc_word [simp]: "dec_word (enc_word (w :: 'a::len word)) = Some w"
  using uint_lt2p [of w] by (simp add: dec_word_def enc_word_def)

lemma enc_not_null [simp]:
  "enc_str s \<noteq> JNull" "enc_word w \<noteq> JNull" "JBool b \<noteq> JNull" "enc_backend t \<noteq> JNull"
  by (simp_all add: enc_str_def enc_word_def) (cases t; simp)

lemma dec_enc_opt [simp]:
  assumes "\<And>x. f (g x) = Some x" "\<And>x. g x \<noteq> JNull"
  shows "dec_opt f (enc_opt g v) = Some v"
proof (cases v)
  case (Some x)
  then show ?thesis using assms [of x] by (cases "g x") (auto simp: dec_opt_def enc_opt_def)
qed (simp add: dec_opt_def enc_opt_def)

lemma enc_dec:
  "dec_str v = Some s \<Longrightarrow> enc_str s = v" "dec_bool v = Some b \<Longrightarrow> JBool b = v"
  "dec_backend v = Some t \<Longrightarrow> enc_backend t = v"
  by (auto simp: dec_str_def enc_str_def dec_bool_def dec_backend_def split: json_value.splits if_splits)

lemma enc_dec_word: "dec_word v = Some (w :: 'a::len word) \<Longrightarrow> enc_word w = v"
  by (auto simp: dec_word_def enc_word_def take_bit_int_eq_self word_of_int_inverse uint_word_of_int
      split: json_value.splits if_splits)

lemma enc_dec_opt: "dec_opt f v = Some y \<Longrightarrow> (\<And>x z. f x = Some z \<Longrightarrow> g z = x) \<Longrightarrow> enc_opt g y = v"
  by (cases v) (auto simp: dec_opt_def enc_opt_def)

lemma field_back:
  "dec_field m k f d = Some y \<Longrightarrow> map_of m k = Some x \<Longrightarrow> (\<And>v z. f v = Some z \<Longrightarrow> g z = v) \<Longrightarrow> g y = x"
  by (simp add: dec_field_def)

text \<open>An encoded section agrees with the object it was decoded from.\<close>

definition agrees :: "(string \<times> json_value) list \<Rightarrow> (string \<times> json_value) list \<Rightarrow> bool" where
  "agrees m es \<longleftrightarrow> (\<forall>k v x. (k, v) \<in> set es \<longrightarrow> map_of m k = Some x \<longrightarrow> v = x)"

lemma agrees_simps [simp]:
  "agrees m []"
  "agrees m ((k, v) # es) \<longleftrightarrow> (\<forall>x. map_of m k = Some x \<longrightarrow> v = x) \<and> agrees m es"
  by (auto simp: agrees_def)

lemma agrees_lookup: "agrees m es \<Longrightarrow> (k, v) \<in> set es \<Longrightarrow> map_of m k = Some x \<Longrightarrow> map_of es k = Some x"
  by (induction es) auto

lemmas field_backs = field_back [OF _ _ enc_dec(1)] field_back [OF _ _ enc_dec(2)] field_back [OF _ _ enc_dec(3)]
  field_back [OF _ _ enc_dec_word] field_back [OF _ _ enc_dec_opt [OF _ enc_dec(1)]]
  field_back [OF _ _ enc_dec_opt [OF _ enc_dec(2)]] field_back [OF _ _ enc_dec_opt [OF _ enc_dec_word]]

lemma server_section_dec_enc: "dec_server_section (enc_server_section s) = Some s"
  by (simp add: dec_server_section_def enc_server_section_def dec_field_def)

lemma server_section_known: "list_all (\<lambda>(k, _). k \<in> set server_section_fields) (enc_server_section s)"
  by (simp add: server_section_fields_def enc_server_section_def)

lemma server_section_keys: "map fst (enc_server_section s) = server_section_fields"
  by (simp add: server_section_fields_def enc_server_section_def)

lemma server_section_enc_dec: "dec_server_section m = Some s \<Longrightarrow> agrees m (enc_server_section s)"
  unfolding dec_server_section_def bind_eq_Some_conv
  by (elim exE conjE, simp only: enc_server_section_def option.inject, drule sym, simp only: agrees_simps server_section.simps,
      intro conjI allI impI TrueI; erule (1) field_backs)

lemma http1_section_dec_enc: "dec_http1_section (enc_http1_section s) = Some s"
  by (simp add: dec_http1_section_def enc_http1_section_def dec_field_def)

lemma http1_section_known: "list_all (\<lambda>(k, _). k \<in> set http1_section_fields) (enc_http1_section s)"
  by (simp add: http1_section_fields_def enc_http1_section_def)

lemma http1_section_keys: "map fst (enc_http1_section s) = http1_section_fields"
  by (simp add: http1_section_fields_def enc_http1_section_def)

lemma http1_section_enc_dec: "dec_http1_section m = Some s \<Longrightarrow> agrees m (enc_http1_section s)"
  unfolding dec_http1_section_def bind_eq_Some_conv
  by (elim exE conjE, simp only: enc_http1_section_def option.inject, drule sym, simp only: agrees_simps http1_section.simps,
      intro conjI allI impI TrueI; erule (1) field_backs)

lemma http2_section_dec_enc: "dec_http2_section (enc_http2_section s) = Some s"
  by (simp add: dec_http2_section_def enc_http2_section_def dec_field_def)

lemma http2_section_known: "list_all (\<lambda>(k, _). k \<in> set http2_section_fields) (enc_http2_section s)"
  by (simp add: http2_section_fields_def enc_http2_section_def)

lemma http2_section_keys: "map fst (enc_http2_section s) = http2_section_fields"
  by (simp add: http2_section_fields_def enc_http2_section_def)

lemma http2_section_enc_dec: "dec_http2_section m = Some s \<Longrightarrow> agrees m (enc_http2_section s)"
  unfolding dec_http2_section_def bind_eq_Some_conv
  by (elim exE conjE, simp only: enc_http2_section_def option.inject, drule sym, simp only: agrees_simps http2_section.simps,
      intro conjI allI impI TrueI; erule (1) field_backs)

lemma tls_section_dec_enc: "dec_tls_section (enc_tls_section s) = Some s"
  by (simp add: dec_tls_section_def enc_tls_section_def dec_field_def)

lemma tls_section_known: "list_all (\<lambda>(k, _). k \<in> set tls_section_fields) (enc_tls_section s)"
  by (simp add: tls_section_fields_def enc_tls_section_def)

lemma tls_section_keys: "map fst (enc_tls_section s) = tls_section_fields"
  by (simp add: tls_section_fields_def enc_tls_section_def)

lemma tls_section_enc_dec: "dec_tls_section m = Some s \<Longrightarrow> agrees m (enc_tls_section s)"
  unfolding dec_tls_section_def bind_eq_Some_conv
  by (elim exE conjE, simp only: enc_tls_section_def option.inject, drule sym, simp only: agrees_simps tls_section.simps,
      intro conjI allI impI TrueI; erule (1) field_backs)

lemma shutdown_section_dec_enc: "dec_shutdown_section (enc_shutdown_section s) = Some s"
  by (simp add: dec_shutdown_section_def enc_shutdown_section_def dec_field_def)

lemma shutdown_section_known: "list_all (\<lambda>(k, _). k \<in> set shutdown_section_fields) (enc_shutdown_section s)"
  by (simp add: shutdown_section_fields_def enc_shutdown_section_def)

lemma shutdown_section_keys: "map fst (enc_shutdown_section s) = shutdown_section_fields"
  by (simp add: shutdown_section_fields_def enc_shutdown_section_def)

lemma shutdown_section_enc_dec: "dec_shutdown_section m = Some s \<Longrightarrow> agrees m (enc_shutdown_section s)"
  unfolding dec_shutdown_section_def bind_eq_Some_conv
  by (elim exE conjE, simp only: enc_shutdown_section_def option.inject, drule sym, simp only: agrees_simps shutdown_section.simps,
      intro conjI allI impI TrueI; erule (1) field_backs)

lemmas section_dec_encs = server_section_dec_enc http1_section_dec_enc http2_section_dec_enc tls_section_dec_enc
  shutdown_section_dec_enc

lemmas section_knowns = server_section_known http1_section_known http2_section_known tls_section_known
  shutdown_section_known

lemma derive_roundtrip: "derive_from_value (derive_to_value c) = Inr c"
  by (cases "ac_tls c")
    (simp_all add: derive_from_value_def derive_to_value_def dec_obj_def dec_config_def dec_field_def section_dec_encs
      section_knowns enc_opt_def dec_opt_def)

text \<open>One section of a decoded configuration.\<close>

lemma dec_section_leaf:
  assumes "dec_field m sec (dec_obj known dec) dflt = Some a"
    and "map_of m sec = Some v" "get_path v [f] = Some x"
    and "\<And>n. dec n = Some a \<Longrightarrow> agrees n (enc a)" "map fst (enc a) = known"
  shows "map_of (enc a) f = Some x"
proof -
  obtain n where v: "v = JObj n" and n: "list_all (\<lambda>(k, _). k \<in> set known) n" "dec n = Some a"
    using assms(1,2) by (auto simp: dec_field_def dec_obj_def split: json_value.splits if_splits)
  then have fx: "map_of n f = Some x" using assms(3) by (simp add: bind_eq_Some_conv)
  then have "f \<in> set (map fst (enc a))"
    using n(1) map_of_SomeD [OF fx] assms(5) by (auto simp: list_all_iff)
  then obtain y where "(f, y) \<in> set (enc a)" by auto
  then show ?thesis by (rule agrees_lookup [OF assms(4) [OF n(2)] _ fx])
qed

lemma dec_tls_field:
  assumes "dec_field m sec (dec_opt g) None = Some t" "map_of m sec = Some v" "get_path v [f] = Some x"
  shows "\<exists>a. t = Some a \<and> dec_field m sec g tls_section_default = Some a"
  using assms by (cases v) (auto simp: dec_field_def dec_opt_def)

lemma derive_decodes_leaf:
  assumes "derive_from_value v = Inr c" "get_path v [s, f] = Some x"
  shows "get_path (derive_to_value c) [s, f] = Some x"
proof -
  obtain m y where v: "v = JObj m" and y: "map_of m s = Some y" "get_path y [f] = Some x"
    using assms(2) by (cases v) (auto simp: bind_eq_Some_conv)
  have known: "list_all (\<lambda>(k, _). k \<in> set [''server'', ''http1'', ''http2'', ''tls'', ''shutdown'']) m"
    and dec: "dec_config m = Some c"
    using assms(1) by (auto simp: v derive_from_value_def dec_obj_def split: option.splits if_splits)
  have "s \<in> {''server'', ''http1'', ''http2'', ''tls'', ''shutdown''}"
    using known map_of_SomeD [OF y(1)] by (auto simp: list_all_iff)
  moreover
  obtain a h1 h2 t d where fs:
      "dec_field m ''server'' (dec_obj server_section_fields dec_server_section) server_section_default = Some a"
      "dec_field m ''http1'' (dec_obj http1_section_fields dec_http1_section) http1_section_default = Some h1"
      "dec_field m ''http2'' (dec_obj http2_section_fields dec_http2_section) http2_section_default = Some h2"
      "dec_field m ''tls'' (dec_opt (dec_obj tls_section_fields dec_tls_section)) None = Some t"
      "dec_field m ''shutdown'' (dec_obj shutdown_section_fields dec_shutdown_section) shutdown_section_default = Some d"
    and c: "c = \<lparr>ac_server = a, ac_http1 = h1, ac_http2 = h2, ac_tls = t, ac_shutdown = d\<rparr>"
    using dec by (auto simp: dec_config_def bind_eq_Some_conv)
  ultimately show ?thesis
  proof (elim insertE emptyE)
    assume s: "s = ''server''"
    show ?thesis
      using dec_section_leaf [where enc = enc_server_section, OF fs(1) y [unfolded s] server_section_enc_dec server_section_keys]
      by (simp add: s c derive_to_value_def)
  next
    assume s: "s = ''http1''"
    show ?thesis
      using dec_section_leaf [where enc = enc_http1_section, OF fs(2) y [unfolded s] http1_section_enc_dec http1_section_keys]
      by (simp add: s c derive_to_value_def)
  next
    assume s: "s = ''http2''"
    show ?thesis
      using dec_section_leaf [where enc = enc_http2_section, OF fs(3) y [unfolded s] http2_section_enc_dec http2_section_keys]
      by (simp add: s c derive_to_value_def)
  next
    assume s: "s = ''tls''"
    obtain ts where ts: "t = Some ts"
      "dec_field m ''tls'' (dec_obj tls_section_fields dec_tls_section) tls_section_default = Some ts"
      using dec_tls_field [OF fs(4) y [unfolded s]] by blast
    show ?thesis
      using dec_section_leaf [where enc = enc_tls_section, OF ts(2) y [unfolded s] tls_section_enc_dec tls_section_keys]
      by (simp add: s c ts(1) derive_to_value_def enc_opt_def)
  next
    assume s: "s = ''shutdown''"
    show ?thesis
      using dec_section_leaf [where enc = enc_shutdown_section, OF fs(5) y [unfolded s] shutdown_section_enc_dec shutdown_section_keys]
      by (simp add: s c derive_to_value_def)
  qed
qed

interpretation derived: config_serde derive_to_value derive_from_value
  by unfold_locales (auto simp: derive_roundtrip simp del: get_path.simps intro: derive_decodes_leaf)

subsection \<open>Properties\<close>

text \<open>C28: The environment wins over the files and the defaults.  When a configuration is loaded, every override variable
  of the table that is set was well-formed and the configuration holds exactly its value, whatever the files said;
  and where the variable is not set, the configuration holds what the last file says.\<close>

theorem config_precedence:
  assumes "build_inner derive_to_value derive_from_value W b = Inr c" "map_of env_table suf = Some ([s, f], k)"
    and "var = env_prefix_of (bd_env_prefix b) @ suf"
    and "\<And>r r'. (Some var, r) \<in> set (io_env W) \<Longrightarrow> (Some var, r') \<in> set (io_env W) \<Longrightarrow> r = r'"
  shows "(\<forall>raw. (Some var, Some raw) \<in> set (io_env W) \<longrightarrow>
        (\<exists>x. parse_env_value k var raw = Inr x \<and> get_path (derive_to_value c) [s, f] = Some x))
    \<and> (\<forall>fs path ov x. Some var \<notin> fst ` set (io_env W) \<and> bd_files b = fs @ [path] \<and> load_file W path = Inr ov
        \<and> obj_distinct 2 ov \<and> get_path ov [s, f] = Some x \<and> is_scalar x
        \<longrightarrow> get_path (derive_to_value c) [s, f] = Some x)"
proof (intro conjI allI impI)
  fix raw assume set: "(Some var, Some raw) \<in> set (io_env W)"
  show "\<exists>x. parse_env_value k var raw = Inr x \<and> get_path (derive_to_value c) [s, f] = Some x"
    using derived.build_override [OF assms(1,2), of raw] set assms(4) unfolding assms(3) by blast
next
  fix fs path ov x
  assume *: "Some var \<notin> fst ` set (io_env W) \<and> bd_files b = fs @ [path] \<and> load_file W path = Inr ov
      \<and> obj_distinct 2 ov \<and> get_path ov [s, f] = Some x \<and> is_scalar x"
  then have "(Some (env_prefix_of (bd_env_prefix b) @ suf), Some r) \<notin> set (io_env W)" for r
    unfolding assms(3) by force
  with * show "get_path (derive_to_value c) [s, f] = Some x"
    using derived.build_last_file [OF assms(1) _ _ _ _ _ assms(2)] by blast
qed

definition sample_config_io :: config_io where
  "sample_config_io = \<lparr>io_read = \<lambda>p. Inr [], io_toml = \<lambda>s. Inl [],
     io_json = \<lambda>s. Inr (JObj [(''server'', JObj [(''port'', JNum 3000), (''max_connections'', JNum 128)])]),
     io_env = [(Some ''ARVIK_SERVER_PORT'', Some ''9090''), (Some ''HOME'', None)]\<rparr>"

lemma sample_load:
  "build_inner derive_to_value derive_from_value sample_config_io
     (bd_file ''etc/arvik.json'' config_builder_default) = Inr (arvik_config_default
       \<lparr>ac_server := server_section_default\<lparr>cs_port := 9090, cs_max_connections := Some 128\<rparr>\<rparr>)"
  by code_simp

theorem config_precedence_witness:
  "\<exists>c. build_inner derive_to_value derive_from_value sample_config_io
         (bd_file ''etc/arvik.json'' config_builder_default) = Inr c
     \<and> get_path (derive_to_value c) [''server'', ''port''] = Some (JNum 9090)
     \<and> get_path (derive_to_value c) [''server'', ''max_connections''] = Some (JNum 128)"
proof -
  let ?b = "bd_file ''etc/arvik.json'' config_builder_default"
  let ?ov = "JObj [(''server'', JObj [(''port'', JNum 3000), (''max_connections'', JNum 128)])]"
  obtain c where c: "build_inner derive_to_value derive_from_value sample_config_io ?b = Inr c"
    using sample_load by blast
  have pre: "env_prefix_of (bd_env_prefix ?b) = ''ARVIK_''" by code_simp
  have port: "map_of env_table ''SERVER_PORT'' = Some ([''server'', ''port''], EnvNum U16 ''u16'')" by code_simp
  have mx: "map_of env_table ''SERVER_MAX_CONNECTIONS'' = Some ([''server'', ''max_connections''], EnvNum U64 ''usize'')"
    by code_simp
  have env: "io_env sample_config_io = [(Some ''ARVIK_SERVER_PORT'', Some ''9090''), (Some ''HOME'', None)]"
    by (simp add: sample_config_io_def)
  have val: "parse_env_value (EnvNum U16 ''u16'') ''ARVIK_SERVER_PORT'' ''9090'' = Inr (JNum 9090)" by code_simp
  have loaded: "load_file sample_config_io ''etc/arvik.json'' = Inr ?ov" by code_simp
  have od: "obj_distinct 2 ?ov" by (simp add: numeral_2_eq_2)
  have "get_path (derive_to_value c) [''server'', ''port''] = Some (JNum 9090)"
    using config_precedence [OF c port, of "''ARVIK_SERVER_PORT''", THEN conjunct1] val by (simp add: pre env)
  moreover have "get_path (derive_to_value c) [''server'', ''max_connections''] = Some (JNum 128)"
  proof -
    have var: "''ARVIK_SERVER_MAX_CONNECTIONS'' = env_prefix_of (bd_env_prefix ?b) @ ''SERVER_MAX_CONNECTIONS''"
      by (simp add: pre)
    have "bd_files ?b = [] @ [''etc/arvik.json'']" by (simp add: bd_file_def config_builder_default_def)
    moreover have "Some ''ARVIK_SERVER_MAX_CONNECTIONS'' \<notin> fst ` set (io_env sample_config_io)" by (simp add: env)
    moreover have "get_path ?ov [''server'', ''max_connections''] = Some (JNum 128)" "is_scalar (JNum 128)" by simp_all
    ultimately show ?thesis
      using config_precedence [OF c mx var, THEN conjunct2] loaded od by (simp only: env) force
  qed
  ultimately show ?thesis using c by blast
qed

text \<open>A misspelt override is not ignored: when a variable has the prefix and names a section of the configuration
  but no field of it, loading fails.\<close>

theorem config_typo_rejected:
  assumes "(Some (env_prefix_of (bd_env_prefix b) @ suf), Some raw) \<in> set (io_env W)"
    and "map_of env_table suf = None" "known_section suf"
  shows "\<exists>e. build_inner derive_to_value derive_from_value W b = Inl e"
proof (rule ccontr)
  assume "\<nexists>e. build_inner derive_to_value derive_from_value W b = Inl e"
  then obtain m v where "env_loop (env_prefix_of (bd_env_prefix b)) (io_env W) m [] = Inr (v, [])"
    by (cases "build_inner derive_to_value derive_from_value W b")
      (auto simp: build_inner_def apply_env_def Let_def split: sum.splits if_splits)
  from env_loop_unknown [OF this assms] show False by simp
qed

theorem config_typo_rejected_witness:
  "\<exists>e. build_inner derive_to_value derive_from_value
     (sample_config_io\<lparr>io_env := [(Some ''ARVIK_SERVER_MAXCONNECTIONS'', Some ''50'')]\<rparr>) config_builder_default = Inl e"
proof -
  have "env_prefix_of (bd_env_prefix config_builder_default) = ''ARVIK_''" by code_simp
  moreover have "map_of env_table ''SERVER_MAXCONNECTIONS'' = None" "known_section ''SERVER_MAXCONNECTIONS''"
    by code_simp+
  ultimately show ?thesis
    using config_typo_rejected [of config_builder_default "''SERVER_MAXCONNECTIONS''" "''50''"] by simp
qed

text \<open>What the checks say, and what the conversion passes on.\<close>

lemma first_error_ok: "first_error checks = Inr u \<longleftrightarrow> list_all fst checks"
  by (induction checks rule: first_error.induct) auto

lemmas config_setters = set_h2_ping_timeout_def set_h2_adaptive_window_def set_h2_only_def set_h1_pipeline_flush_def
  set_h1_preserve_case_def set_h1_title_case_def set_h1_half_close_def set_h1_keep_alive_def set_max_connections_def
  set_tcp_nodelay_def set_tcp_keepalive_def set_tcp_keepalive_interval_def set_tcp_keepalive_retries_def
  set_reuse_port_def set_reuse_address_def set_backlog_def set_socket_recv_buffer_def set_socket_send_buffer_def
  set_accept_workers_def set_h2_stream_window_def set_h2_connection_window_def set_h2_max_streams_def
  set_h2_unlimited_streams_def set_h2_ping_interval_def set_h2_no_ping_def set_h2_max_frame_size_def
  set_h2_max_send_buf_def set_h2_max_header_list_def

text \<open>Each conditional setting is an update of its field.\<close>

lemma config_updates:
  "opt_set v0 (\<lambda>n. set_max_connections (unat n)) c =
     sc_max_connections_update (\<lambda>old. case v0 of Some n \<Rightarrow> Some (unat n) | None \<Rightarrow> old) c"
  "opt_set v1 set_tcp_nodelay c =
     sc_tcp_nodelay_update (\<lambda>old. case v1 of Some n \<Rightarrow> Some n | None \<Rightarrow> old) c"
  "opt_set v2 (\<lambda>n. set_tcp_keepalive (secs (unat n))) c =
     sc_tcp_keepalive_update (\<lambda>old. case v2 of Some n \<Rightarrow> Some (secs (unat n)) | None \<Rightarrow> old) c"
  "opt_set v3 (\<lambda>n. set_tcp_keepalive_interval (secs (unat n))) c =
     sc_tcp_keepalive_interval_update (\<lambda>old. case v3 of Some n \<Rightarrow> Some (secs (unat n)) | None \<Rightarrow> old) c"
  "opt_set v4 set_tcp_keepalive_retries c =
     sc_tcp_keepalive_retries_update (\<lambda>old. case v4 of Some n \<Rightarrow> Some n | None \<Rightarrow> old) c"
  "opt_set v5 (\<lambda>n. set_backlog (sint n)) c =
     sc_backlog_update (\<lambda>old. case v5 of Some n \<Rightarrow> Some (sint n) | None \<Rightarrow> old) c"
  "opt_set v6 (\<lambda>n. set_socket_recv_buffer (unat n)) c =
     sc_socket_recv_buffer_update (\<lambda>old. case v6 of Some n \<Rightarrow> Some (unat n) | None \<Rightarrow> old) c"
  "opt_set v7 (\<lambda>n. set_socket_send_buffer (unat n)) c =
     sc_socket_send_buffer_update (\<lambda>old. case v7 of Some n \<Rightarrow> Some (unat n) | None \<Rightarrow> old) c"
  "opt_set v8 (\<lambda>n. set_accept_workers (unat n)) c =
     sc_accept_workers_update (\<lambda>old. case v8 of Some n \<Rightarrow> max (unat n) 1 | None \<Rightarrow> old) c"
  "opt_set v9 set_h2_stream_window c =
     sc_h2_stream_window_update (\<lambda>old. case v9 of Some n \<Rightarrow> Some n | None \<Rightarrow> old) c"
  "opt_set v10 set_h2_connection_window c =
     sc_h2_connection_window_update (\<lambda>old. case v10 of Some n \<Rightarrow> Some n | None \<Rightarrow> old) c"
  "opt_set v11 set_h2_max_frame_size c =
     sc_h2_max_frame_size_update (\<lambda>old. case v11 of Some n \<Rightarrow> Some n | None \<Rightarrow> old) c"
  "opt_set v12 (\<lambda>n. set_h2_max_send_buf (unat n)) c =
     sc_h2_max_send_buf_update (\<lambda>old. case v12 of Some n \<Rightarrow> Some (unat n) | None \<Rightarrow> old) c"
  "opt_set v13 set_h2_max_header_list c =
     sc_h2_max_header_list_update (\<lambda>old. case v13 of Some n \<Rightarrow> Some n | None \<Rightarrow> old) c"
  "(if b then set_reuse_port True else id) c = sc_reuse_port_update (\<lambda>old. b \<or> old) c"
  "(if b then set_reuse_address True else id) c = sc_reuse_address_update (\<lambda>old. b \<or> old) c"
  "(case w of Some n \<Rightarrow> set_h2_max_streams n | None \<Rightarrow> set_h2_unlimited_streams) c =
     sc_h2_max_streams_update (\<lambda>_. w) c"
  "(case w1 of Some n \<Rightarrow> set_h2_ping_interval (secs (unat n)) | None \<Rightarrow> set_h2_no_ping) c =
     sc_h2_ping_interval_update (\<lambda>_. map_option (\<lambda>n. secs (unat n)) w1) c"
  by (cases c; simp add: opt_set_def config_setters split: option.split)+

lemma converted_fields:
  "sc_backlog (to_server_config c) = map_option sint (cs_backlog (ac_server c))"
  "sc_max_connections (to_server_config c) = map_option unat (cs_max_connections (ac_server c))"
  "sc_reuse_port (to_server_config c) = cs_reuse_port (ac_server c)"
  "sc_accept_workers (to_server_config c) =
     (case cs_accept_workers (ac_server c) of Some n \<Rightarrow> max (unat n) 1 | None \<Rightarrow> 1)"
  "sc_h2_stream_window (to_server_config c) = c2_initial_stream_window_size (ac_http2 c)"
  "sc_h2_connection_window (to_server_config c) = c2_initial_connection_window_size (ac_http2 c)"
  "sc_tcp_keepalive (to_server_config c) = map_option (\<lambda>n. secs (unat n)) (cs_tcp_keepalive_secs (ac_server c))"
  "sc_tcp_keepalive_interval (to_server_config c) =
     map_option (\<lambda>n. secs (unat n)) (cs_tcp_keepalive_interval_secs (ac_server c))"
  "sc_tcp_keepalive_retries (to_server_config c) = cs_tcp_keepalive_retries (ac_server c)"
  "sc_socket_recv_buffer (to_server_config c) = map_option unat (cs_socket_recv_buffer_size (ac_server c))"
  "sc_socket_send_buffer (to_server_config c) = map_option unat (cs_socket_send_buffer_size (ac_server c))"
  "sc_h2_max_streams (to_server_config c) = c2_max_concurrent_streams (ac_http2 c)"
  "sc_h2_ping_interval (to_server_config c) = map_option (\<lambda>n. secs (unat n)) (c2_keep_alive_interval_secs (ac_http2 c))"
  "sc_h2_ping_timeout (to_server_config c) = secs (unat (c2_keep_alive_timeout_secs (ac_http2 c)))"
  "sc_h2_max_frame_size (to_server_config c) = c2_max_frame_size (ac_http2 c)"
  "sc_h2_max_send_buf (to_server_config c) = map_option unat (c2_max_send_buf_size (ac_http2 c))"
  "sc_h2_max_header_list (to_server_config c) =
     (case c2_max_header_list_size (ac_http2 c) of Some n \<Rightarrow> Some n | None \<Rightarrow> Some (64 * 1024))"
  unfolding to_server_config_def Let_def config_updates
  by (simp_all add: config_setters server_config_default_def map_option_case split: option.split)

lemma int_below_31: "n \<le> 2 ^ 31 - 1 \<Longrightarrow> int n < 2 ^ 31"
  by simp

lemma unat_pos_iff: "0 < unat (x :: 'a::len word) \<longleftrightarrow> x \<noteq> 0"
  by (simp add: unat_gt_0)

lemma some_zero_sym: "Some 0 = v \<longleftrightarrow> v = Some 0"
  by auto

lemma validate_conds:
  assumes "validate c = Inr ()"
  shows "list_all fst (validation_checks c)"
  using assms by (simp add: validate_def first_error_ok)

lemmas check_conds = validation_checks_def Let_def validate_nonzero_def validate_window_def H2_MAX_WINDOW_def

text \<open>What was configured.\<close>

lemma validated_sections:
  assumes "validate c = Inr ()"
  shows "Some 0 \<notin> {cs_workers (ac_server c), cs_max_connections (ac_server c), cs_body_limit (ac_server c),
      cs_tcp_keepalive_secs (ac_server c), cs_tcp_keepalive_interval_secs (ac_server c),
      cs_socket_recv_buffer_size (ac_server c), cs_socket_send_buffer_size (ac_server c), cs_accept_workers (ac_server c),
      c2_keep_alive_interval_secs (ac_http2 c), c2_max_send_buf_size (ac_http2 c)}"
    and "Some 0 \<notin> {cs_backlog (ac_server c), cs_tcp_keepalive_retries (ac_server c),
      c2_initial_stream_window_size (ac_http2 c), c2_initial_connection_window_size (ac_http2 c),
      c2_max_concurrent_streams (ac_http2 c), c2_max_header_list_size (ac_http2 c)}"
    and "cs_port (ac_server c) \<noteq> 0" "c2_keep_alive_timeout_secs (ac_http2 c) \<noteq> 0"
      "cd_drain_timeout_secs (ac_shutdown c) \<noteq> 0"
  using validate_conds [OF assms, unfolded check_conds] by (simp_all add: some_zero_sym)

lemma validated_sizes:
  assumes "validate c = Inr ()"
  shows "cs_backlog (ac_server c) = Some b \<Longrightarrow> unat b \<le> 2 ^ 31 - 1"
    and "c2_initial_stream_window_size (ac_http2 c) = Some w \<Longrightarrow> unat w \<le> 2 ^ 31 - 1"
    and "c2_initial_connection_window_size (ac_http2 c) = Some w \<Longrightarrow> unat w \<le> 2 ^ 31 - 1"
    and "c2_max_frame_size (ac_http2 c) = Some n \<Longrightarrow> 16384 \<le> unat n \<and> unat n \<le> 16777215"
    and "cs_accept_workers (ac_server c) = Some k \<Longrightarrow> unat k > 1 \<Longrightarrow> cs_reuse_port (ac_server c)"
  using validate_conds [OF assms, unfolded check_conds] by auto

lemma validated_tls:
  assumes "validate c = Inr ()" "ac_tls c = Some t"
  shows "case ct_backend t of Rustls \<Rightarrow> ct_cert_path t \<noteq> None \<and> ct_key_path t \<noteq> None | NativeTls \<Rightarrow> ct_pkcs12_path t \<noteq> None"
  using validate_conds [OF assms(1)] assms(2)
  by (cases "ct_backend t") (auto simp: validation_checks_def Let_def tls_checks_def)

lemma backlog_cast:
  assumes "unat (n :: u32) \<le> 2 ^ 31 - 1" "n \<noteq> 0"
  shows "sint n = int (unat n)" "0 < sint n" "sint n < 2 ^ 31"
proof -
  have un: "int (unat n) = uint n" by (rule uint_nat [symmetric])
  have "uint n < 2 ^ 31" by (rule int_below_31 [OF assms(1), unfolded un])
  moreover have "0 < unat n" using assms(2) unat_pos_iff by blast
  moreover from calculation have "0 < uint n" using un by linarith
  moreover from calculation have "sint n = uint n" by (simp add: sint_uint signed_take_bit_int_eq_self)
  ultimately show "sint n = int (unat n)" "0 < sint n" "sint n < 2 ^ 31" using un \<open>uint n < 2 ^ 31\<close> by linarith+
qed

text \<open>C29: A configuration that passes validation is fit for the server it configures.  No limit, size or time that
  was set is zero: workers, connections, body limit, keep-alive times and retries, socket buffers, accept
  workers, backlog, the HTTP/2 windows, streams, buffers, header list and pings.  What
  the conversion hands to the server is not zero either; the backlog survives the narrowing cast, the
  windows and the frame size are within what HTTP/2 allows, several accept workers share the port.  The
  port is not zero and the drain and ping time-outs are not empty, and a TLS section names the files its backend
  needs.\<close>

theorem validated_config_safe:
  assumes "validate c = Inr ()"
  shows "Some 0 \<notin> {cs_workers (ac_server c), cs_max_connections (ac_server c), cs_body_limit (ac_server c),
      cs_tcp_keepalive_secs (ac_server c), cs_tcp_keepalive_interval_secs (ac_server c),
      cs_socket_recv_buffer_size (ac_server c), cs_socket_send_buffer_size (ac_server c), cs_accept_workers (ac_server c),
      c2_keep_alive_interval_secs (ac_http2 c), c2_max_send_buf_size (ac_http2 c)}
    \<and> Some 0 \<notin> {cs_backlog (ac_server c), cs_tcp_keepalive_retries (ac_server c),
      c2_initial_stream_window_size (ac_http2 c), c2_initial_connection_window_size (ac_http2 c),
      c2_max_concurrent_streams (ac_http2 c), c2_max_header_list_size (ac_http2 c)}
    \<and> Some 0 \<notin> {sc_max_connections (to_server_config c), sc_tcp_keepalive (to_server_config c),
      sc_tcp_keepalive_interval (to_server_config c), sc_socket_recv_buffer (to_server_config c),
      sc_socket_send_buffer (to_server_config c), sc_h2_ping_interval (to_server_config c),
      sc_h2_max_send_buf (to_server_config c)}
    \<and> Some 0 \<notin> {sc_tcp_keepalive_retries (to_server_config c), sc_h2_max_streams (to_server_config c),
      sc_h2_max_header_list (to_server_config c)}
    \<and> (\<forall>b. sc_backlog (to_server_config c) = Some b
        \<longrightarrow> (\<exists>n. cs_backlog (ac_server c) = Some n \<and> b = int (unat n) \<and> 0 < b \<and> b < 2 ^ 31))
    \<and> (sc_accept_workers (to_server_config c) > 1 \<longrightarrow> sc_reuse_port (to_server_config c))
    \<and> (\<forall>w. Some w \<in> {sc_h2_stream_window (to_server_config c), sc_h2_connection_window (to_server_config c)}
        \<longrightarrow> 0 < unat w \<and> unat w < 2 ^ 31)
    \<and> (\<forall>n. sc_h2_max_frame_size (to_server_config c) = Some n \<longrightarrow> 2 ^ 14 \<le> unat n \<and> unat n < 2 ^ 24)
    \<and> cs_port (ac_server c) \<noteq> 0 \<and> 0 < sd_drain_timeout (to_shutdown_config c)
    \<and> 0 < sc_h2_ping_timeout (to_server_config c)
    \<and> (\<forall>t. ac_tls c = Some t \<longrightarrow>
        (case ct_backend t of Rustls \<Rightarrow> ct_cert_path t \<noteq> None \<and> ct_key_path t \<noteq> None
         | NativeTls \<Rightarrow> ct_pkcs12_path t \<noteq> None))"
proof (intro conjI allI impI)
  note ok = validated_sections [OF assms] and sizes = validated_sizes [OF assms]
  show "Some 0 \<notin> {sc_max_connections (to_server_config c), sc_tcp_keepalive (to_server_config c),
      sc_tcp_keepalive_interval (to_server_config c), sc_socket_recv_buffer (to_server_config c),
      sc_socket_send_buffer (to_server_config c), sc_h2_ping_interval (to_server_config c),
      sc_h2_max_send_buf (to_server_config c)}"
    using ok(1) by (auto simp: converted_fields some_zero_sym unat_pos_iff)
  show "Some 0 \<notin> {sc_tcp_keepalive_retries (to_server_config c), sc_h2_max_streams (to_server_config c),
      sc_h2_max_header_list (to_server_config c)}"
    using ok(2) by (auto simp: converted_fields split: option.splits)
  show "\<exists>n. cs_backlog (ac_server c) = Some n \<and> b = int (unat n) \<and> 0 < b \<and> b < 2 ^ 31"
    if bk: "sc_backlog (to_server_config c) = Some b" for b
  proof -
    obtain n where n: "cs_backlog (ac_server c) = Some n" "b = sint n" using bk by (auto simp: converted_fields)
    with ok(2) backlog_cast [OF sizes(1) [OF n(1)]] show ?thesis by auto
  qed
  show "sc_reuse_port (to_server_config c)" if "sc_accept_workers (to_server_config c) > 1"
    using that sizes(5) by (auto simp: converted_fields split: option.splits)
  have window: "0 < unat w \<and> unat w < 2 ^ 31"
    if "Some w \<in> {sc_h2_stream_window (to_server_config c), sc_h2_connection_window (to_server_config c)}" for w
    using that ok(2) sizes(2,3) [of w] unat_pos_iff [of w] by (auto simp: converted_fields)
  then show "0 < unat w" "unat w < 2 ^ 31"
    if "Some w \<in> {sc_h2_stream_window (to_server_config c), sc_h2_connection_window (to_server_config c)}" for w
    using that by blast+
  show "2 ^ 14 \<le> unat n" "unat n < 2 ^ 24" if "sc_h2_max_frame_size (to_server_config c) = Some n" for n
    using that sizes(4) [of n] by (simp_all add: converted_fields)
  show "0 < sd_drain_timeout (to_shutdown_config c)"
    using ok(5) by (simp add: to_shutdown_config_def sd_set_drain_timeout_def unat_pos_iff)
  show "0 < sc_h2_ping_timeout (to_server_config c)" using ok(4) by (simp add: converted_fields unat_pos_iff)
qed (use validated_sections [OF assms] validated_tls [OF assms] in blast)+

theorem validated_config_safe_witness:
  "let c = arvik_config_default\<lparr>ac_server := server_section_default\<lparr>cs_backlog := Some 4096\<rparr>\<rparr>
   in sc_backlog (to_server_config c) = Some 4096 \<and> (0::int) < 4096 \<and> cs_body_limit (ac_server c) \<noteq> Some 0"
proof -
  let ?c = "arvik_config_default\<lparr>ac_server := server_section_default\<lparr>cs_backlog := Some 4096\<rparr>\<rparr>"
  have v: "validate ?c = Inr ()"
    by (simp add: validate_def first_error_ok validation_checks_def Let_def validate_nonzero_def validate_window_def
        arvik_config_default_def server_section_default_def http2_section_default_def shutdown_section_default_def)
  have b: "sc_backlog (to_server_config ?c) = Some (sint (4096 :: u32))" by (simp add: converted_fields)
  have "sint (4096 :: u32) = 4096" by simp
  with conjunct1 [OF validated_config_safe [OF v]] b show ?thesis by (simp add: Let_def some_zero_sym)
qed

text \<open>What a watcher publishes.\<close>

lemma build_valid: "build_inner tv fv W b = Inr c \<Longrightarrow> validate c = Inr ()"
  by (auto simp: build_inner_def split: sum.splits)

lemma watch_errors_Inl: "r \<in> set (watch_errors es) \<Longrightarrow> \<exists>e. r = Inl e"
  by (induction es rule: watch_errors.induct) auto

definition watcher_ok :: "config_watcher \<Rightarrow> bool" where
  "watcher_ok w \<longleftrightarrow> validate (cw_current w) = Inr () \<and> (\<forall>c. Inr c \<in> set (cw_updates w) \<longrightarrow> validate c = Inr ())"

lemma watcher_reach_ok: "watcher_reach tv fv b w \<Longrightarrow> watcher_ok w"
proof (induction rule: watcher_reach.induct)
  case (new W w)
  then show ?case by (auto simp: watcher_ok_def watcher_new_def build_valid split: sum.splits)
next
  case (event w W e pending)
  then show ?case
    by (auto simp: watcher_ok_def watcher_event_def Let_def dest: build_valid watch_errors_Inl split: sum.splits)
next
  case (taken w r w')
  then show ?case by (auto simp: watcher_ok_def watcher_next_def split: list.splits)
qed

text \<open>However the files change, the configuration a watcher holds and every configuration it delivers have passed
  validation; a reload that fails is delivered as an error and leaves the current configuration as it was.\<close>

theorem watcher_current_valid:
  assumes "watcher_reach to_value from_value b w"
  shows "validate (cw_current w) = Inr () \<and> (\<forall>c. Inr c \<in> set (cw_updates w) \<longrightarrow> validate c = Inr ())
    \<and> (\<forall>W err pending. build_inner to_value from_value W b = Inl err
        \<longrightarrow> cw_current (watcher_event to_value from_value b W (Inr ()) pending w) = cw_current w
          \<and> last (cw_updates (watcher_event to_value from_value b W (Inr ()) pending w)) = Inl err)"
  using watcher_reach_ok [OF assms] by (auto simp: watcher_ok_def watcher_event_def Let_def)

theorem watcher_current_valid_witness:
  "\<exists>w. watcher_new derive_to_value derive_from_value sample_config_io
         (bd_file ''etc/arvik.json'' config_builder_default) = Inr w \<and> validate (cw_current w) = Inr ()"
proof -
  obtain w where w: "watcher_new derive_to_value derive_from_value sample_config_io
      (bd_file ''etc/arvik.json'' config_builder_default) = Inr w"
    by (simp add: watcher_new_def sample_load)
  from watcher_current_valid [OF watcher_reach.new [OF w]] w show ?thesis by blast
qed

end
