(* ===== verification/Observe.thy ===== *)
theory Observe
  imports Middleware Bodies
begin

text \<open>
  Metrics and probes: arvik-observe/src/metrics.rs and health.rs.

  The Prometheus crate's counters, gauges and histograms are finite records of what was counted: a count per label
  list, a gauge per label list and the list of observations with their labels.  The text encoding of a registry, clocks
  and serde are parameters.  How often a handler polled the request body before it answered, and how long it took,
  are arguments of the call (\<open>polls\<close>, \<open>elapsed\<close>): every value is possible.  A health check is the result it gives and
  the nanoseconds it takes, or \<open>None\<close> when it never ends.
\<close>

subsection \<open>Registry and labels\<close>

definition PENDING_ROUTE :: string where "PENDING_ROUTE = ''__pending''"
definition UNKNOWN_ROUTE :: string where "UNKNOWN_ROUTE = ''__unknown''"

record metrics =
  mt_requests_total :: "string list \<Rightarrow> nat"
  mt_request_duration :: "(string list \<times> nat) list"
  mt_in_flight :: "string list \<Rightarrow> int"
  mt_response_body_size :: "(string list \<times> nat) list"
  mt_request_body_size :: "(string list \<times> nat) list"

definition metrics_new :: metrics where
  "metrics_new = \<lparr>mt_requests_total = \<lambda>_. 0, mt_request_duration = [], mt_in_flight = \<lambda>_. 0,
     mt_response_body_size = [], mt_request_body_size = []\<rparr>"

record static_labels =
  sl_service :: string
  sl_version :: string
  sl_environment :: string

definition static_labels_default :: static_labels where
  "static_labels_default = \<lparr>sl_service = ''unknown'', sl_version = ''unknown'', sl_environment = ''unknown''\<rparr>"

definition label_values :: "static_labels \<Rightarrow> string \<Rightarrow> string \<Rightarrow> string \<Rightarrow> string list" where
  "label_values self m route status = [m, route, status, sl_service self, sl_version self, sl_environment self]"

record metrics_layer =
  ml_labels :: static_labels
  ml_record_body_sizes :: bool

definition metrics_layer_new :: metrics_layer where
  "metrics_layer_new = \<lparr>ml_labels = static_labels_default, ml_record_body_sizes = True\<rparr>"

definition ml_service_name :: "string \<Rightarrow> metrics_layer \<Rightarrow> metrics_layer" where
  "ml_service_name v self = self\<lparr>ml_labels := (ml_labels self)\<lparr>sl_service := v\<rparr>\<rparr>"

definition ml_version :: "string \<Rightarrow> metrics_layer \<Rightarrow> metrics_layer" where
  "ml_version v self = self\<lparr>ml_labels := (ml_labels self)\<lparr>sl_version := v\<rparr>\<rparr>"

definition ml_environment :: "string \<Rightarrow> metrics_layer \<Rightarrow> metrics_layer" where
  "ml_environment v self = self\<lparr>ml_labels := (ml_labels self)\<lparr>sl_environment := v\<rparr>\<rparr>"

definition ml_set_record_body_sizes :: "bool \<Rightarrow> metrics_layer \<Rightarrow> metrics_layer" where
  "ml_set_record_body_sizes b self = self\<lparr>ml_record_body_sizes := b\<rparr>"

definition matched_route :: "extensions \<Rightarrow> string" where
  "matched_route ext = (case ext_matched_path ext of Some p \<Rightarrow> p | None \<Rightarrow> UNKNOWN_ROUTE)"

subsection \<open>Counting bodies\<close>

text \<open>\<open>cb_observed\<close> are the calls of the observer; \<open>cb_observer\<close> says whether there is one.\<close>

record counting_body =
  cb_inner :: body
  cb_bytes :: nat
  cb_observer :: bool
  cb_finished :: bool
  cb_observed :: "nat list"

definition counting_new :: "body \<Rightarrow> bool \<Rightarrow> counting_body" where
  "counting_new inner observer = \<lparr>cb_inner = inner, cb_bytes = 0, cb_observer = observer, cb_finished = False,
     cb_observed = []\<rparr>"

definition counting_finish :: "counting_body \<Rightarrow> counting_body" where
  "counting_finish self =
     (if cb_finished self then self
      else self\<lparr>cb_finished := True,
             cb_observed := cb_observed self @ (if cb_observer self then [cb_bytes self] else [])\<rparr>)"

definition counting_poll :: "counting_body \<Rightarrow> frame option \<times> counting_body" where
  "counting_poll self =
     (let (f, b) = body_poll (cb_inner self); self = self\<lparr>cb_inner := b\<rparr>
      in (f, case f of
               Some (Data d) \<Rightarrow> self\<lparr>cb_bytes := cb_bytes self + length d\<rparr>
             | Some Trailers \<Rightarrow> self
             | Some (FrameErr e) \<Rightarrow> counting_finish self
             | None \<Rightarrow> counting_finish self))"

text \<open>The body after \<open>n\<close> polls, and what its observer has been told once it is dropped then.\<close>

fun counting_after :: "nat \<Rightarrow> counting_body \<Rightarrow> counting_body" where
  "counting_after 0 self = self"
| "counting_after (Suc n) self = counting_after n (snd (counting_poll self))"

definition counting_drop :: "counting_body \<Rightarrow> counting_body" where
  "counting_drop self = counting_finish self"

text \<open>Seen from outside a counting body yields the frames of the inner one and passes on its size hint.\<close>

definition counted_body :: "body \<Rightarrow> body" where
  "counted_body inner = body_new (frames_of inner) (size_hint_upper inner)"

text \<open>The exact size a body reports; for a boxed one the argument says what it reports.\<close>

fun size_hint_exact :: "(frame list \<Rightarrow> nat option \<Rightarrow> nat option) \<Rightarrow> body \<Rightarrow> nat option" where
  "size_hint_exact boxed (BBoxed fs u) = boxed fs u"
| "size_hint_exact boxed b = size_hint_upper b"

subsection \<open>The metrics service\<close>

definition gauge_add :: "string list \<Rightarrow> int \<Rightarrow> metrics \<Rightarrow> metrics" where
  "gauge_add ls d m = m\<lparr>mt_in_flight := (mt_in_flight m)(ls := mt_in_flight m ls + d)\<rparr>"

text \<open>
  The call answers the outcome, the world, the registry, and for a streamed response the labels under which the
  counting body in it will report its size.  A panic of the handler drops the guard of the gauge.
\<close>

definition metrics_call ::
  "(frame list \<Rightarrow> nat option \<Rightarrow> nat option) \<Rightarrow> metrics_layer \<Rightarrow> ('h, 'w) service \<Rightarrow> nat \<Rightarrow> nat
     \<Rightarrow> 'h request \<Rightarrow> metrics \<Rightarrow> 'w \<Rightarrow> ('h outcome \<times> 'w) \<times> metrics \<times> string list option" where
  "metrics_call boxed self inner polls elapsed req m w =
     (let body = req_body req;
          req' = (if ml_record_body_sizes self then request_map_body req counted_body else req);
          pending = label_values (ml_labels self) (method_as_str (req_method req)) PENDING_ROUTE ''pending'';
          m = gauge_add pending 1 m;
          (out, w') = inner req' w
      in (case out of
            Panicked p \<Rightarrow> ((Panicked p, w'), gauge_add pending (- 1) m, None)
          | Done resp \<Rightarrow>
              (let vals = label_values (ml_labels self) (method_as_str (req_method req))
                            (matched_route (res_ext resp)) (nat_to_string (res_status resp));
                   m = m\<lparr>mt_requests_total := (mt_requests_total m)(vals := mt_requests_total m vals + 1),
                         mt_request_duration := mt_request_duration m @ [(vals, elapsed)]\<rparr>
               in if \<not> ml_record_body_sizes self then ((Done resp, w'), gauge_add pending (- 1) m, None)
                  else
                    (let m = m\<lparr>mt_request_body_size := mt_request_body_size m
                            @ [(vals, cb_bytes (counting_after polls (counting_new body False)))]\<rparr>
                     in case size_hint_exact boxed (res_body resp) of
                          Some n \<Rightarrow> ((Done resp, w'), gauge_add pending (- 1)
                              (m\<lparr>mt_response_body_size := mt_response_body_size m @ [(vals, n)]\<rparr>), None)
                        | None \<Rightarrow> ((Done (resp\<lparr>res_body := counted_body (res_body resp)\<rparr>), w'),
                              gauge_add pending (- 1) m, Some vals)))))"

text \<open>The observer of a streamed response: its body is polled \<open>n\<close> times and dropped.\<close>

definition metrics_stream :: "string list \<Rightarrow> body \<Rightarrow> nat \<Rightarrow> metrics \<Rightarrow> metrics" where
  "metrics_stream vals b n m =
     m\<lparr>mt_response_body_size := mt_response_body_size m
         @ map (\<lambda>k. (vals, k)) (cb_observed (counting_drop (counting_after n (counting_new b True))))\<rparr>"

text \<open>The scrape handler; \<^verbatim>\<open>None\<close> is a panic of the encoder in its blocking task.\<close>

definition metrics_content_type :: string where
  "metrics_content_type = ''text/plain; version=0.0.4; charset=utf-8''"

definition metrics_handler ::
  "'h http_lib \<Rightarrow> (metrics \<Rightarrow> string option) \<Rightarrow> metrics \<Rightarrow> 'h response" where
  "metrics_handler H encode m =
     rb_body H (body_from_bytes (case encode m of Some s \<Rightarrow> s | None \<Rightarrow> []))
       (rb_header_str H ''content-type'' metrics_content_type (rb_new H))"

subsection \<open>Probes\<close>

record health_result =
  hr_healthy :: bool
  hr_message :: "string option"

definition health_ok :: health_result where
  "health_ok = \<lparr>hr_healthy = True, hr_message = None\<rparr>"

definition health_unhealthy :: "string \<Rightarrow> health_result" where
  "health_unhealthy m = \<lparr>hr_healthy = False, hr_message = Some m\<rparr>"

definition health_of_bool :: "bool \<Rightarrow> health_result" where
  "health_of_bool b = (if b then health_ok else health_unhealthy ''check returned false'')"

definition health_of_result :: "'e + 'a \<Rightarrow> health_result" where
  "health_of_result r = (case r of Inr _ \<Rightarrow> health_ok | Inl err \<Rightarrow> health_unhealthy ''check failed'')"

record check_report =
  kr_name :: string
  kr_status :: string
  kr_latency_ms :: nat
  kr_message :: "string option"

record probe_response =
  pr_status :: string
  pr_uptime :: nat
  pr_checks :: "check_report list"

type_synonym health_check = "string \<times> (nat \<Rightarrow> (health_result \<times> nat) option)"

record health_registry =
  he_started_at :: nat
  he_checks :: "health_check list"
  he_check_timeout :: nat
  he_startup_complete :: bool
  he_cache_ttl :: nat
  he_cache :: "(nat \<times> check_report list) option"

definition health_new :: "nat \<Rightarrow> health_registry" where
  "health_new now = \<lparr>he_started_at = now, he_checks = [], he_check_timeout = 2 * 10 ^ 9, he_startup_complete = True,
     he_cache_ttl = 10 ^ 9, he_cache = None\<rparr>"

definition he_with_check_timeout :: "nat \<Rightarrow> health_registry \<Rightarrow> health_registry" where
  "he_with_check_timeout t self = self\<lparr>he_check_timeout := t\<rparr>"

definition he_starting :: "health_registry \<Rightarrow> health_registry" where
  "he_starting self = self\<lparr>he_startup_complete := False\<rparr>"

definition he_mark_starting :: "health_registry \<Rightarrow> health_registry" where
  "he_mark_starting self = self\<lparr>he_startup_complete := False\<rparr>"

definition he_set_startup_complete :: "health_registry \<Rightarrow> health_registry" where
  "he_set_startup_complete self = self\<lparr>he_startup_complete := True\<rparr>"

definition he_add_check :: "string \<Rightarrow> (nat \<Rightarrow> (health_result \<times> nat) option) \<Rightarrow> health_registry \<Rightarrow> health_registry" where
  "he_add_check name run self = self\<lparr>he_checks := he_checks self @ [(name, run)]\<rparr>"

definition he_set_cache_ttl :: "nat \<Rightarrow> health_registry \<Rightarrow> health_registry" where
  "he_set_cache_ttl ttl self = self\<lparr>he_cache_ttl := ttl\<rparr>"

definition uptime_seconds :: "health_registry \<Rightarrow> nat \<Rightarrow> nat" where
  "uptime_seconds self now = (now - he_started_at self) div 10 ^ 9"

definition probe_json ::
  "'h http_lib \<Rightarrow> (probe_response \<Rightarrow> string option) \<Rightarrow> nat \<Rightarrow> probe_response \<Rightarrow> 'h response" where
  "probe_json H ser status p = rb_json H ser p (rb_with_status status (rb_new H))"

definition plain_probe :: "health_registry \<Rightarrow> nat \<Rightarrow> string \<Rightarrow> probe_response" where
  "plain_probe self now status = \<lparr>pr_status = status, pr_uptime = uptime_seconds self now, pr_checks = []\<rparr>"

definition health_response ::
  "'h http_lib \<Rightarrow> (probe_response \<Rightarrow> string option) \<Rightarrow> health_registry \<Rightarrow> nat \<Rightarrow> 'h response" where
  "health_response H ser self now = probe_json H ser 200 (plain_probe self now ''ok'')"

definition liveness_response ::
  "'h http_lib \<Rightarrow> (probe_response \<Rightarrow> string option) \<Rightarrow> health_registry \<Rightarrow> nat \<Rightarrow> 'h response" where
  "liveness_response H ser self now = probe_json H ser 200 (plain_probe self now ''ok'')"

definition startup_response ::
  "'h http_lib \<Rightarrow> (probe_response \<Rightarrow> string option) \<Rightarrow> health_registry \<Rightarrow> nat \<Rightarrow> 'h response" where
  "startup_response H ser self now =
     probe_json H ser (if he_startup_complete self then 200 else 503)
       (plain_probe self now (if he_startup_complete self then ''ok'' else ''starting''))"

text \<open>One check under the timeout; the second component is the time it took.\<close>

definition run_check :: "nat \<Rightarrow> nat \<Rightarrow> health_check \<Rightarrow> check_report \<times> nat" where
  "run_check timeout now c =
     (case snd c now of
        Some (r, t) \<Rightarrow>
          if t \<le> timeout then
            (\<lparr>kr_name = fst c, kr_status = (if hr_healthy r then ''ok'' else ''unhealthy''),
              kr_latency_ms = t div 10 ^ 6, kr_message = hr_message r\<rparr>, t)
          else
            (\<lparr>kr_name = fst c, kr_status = ''timeout'', kr_latency_ms = timeout div 10 ^ 6,
              kr_message = Some (''check timed out after '' @ nat_to_string (timeout div 10 ^ 6) @ ''ms'')\<rparr>, timeout)
      | None \<Rightarrow>
          (\<lparr>kr_name = fst c, kr_status = ''timeout'', kr_latency_ms = timeout div 10 ^ 6,
            kr_message = Some (''check timed out after '' @ nat_to_string (timeout div 10 ^ 6) @ ''ms'')\<rparr>, timeout))"

text \<open>All checks run concurrently: the reports in the order of registration, and the time of the slowest.\<close>

definition run_checks :: "health_registry \<Rightarrow> nat \<Rightarrow> check_report list \<times> nat" where
  "run_checks self now =
     (let rs = map (run_check (he_check_timeout self) now) (he_checks self)
      in (map fst rs, fold max (map snd rs) 0))"

definition readiness_checks :: "health_registry \<Rightarrow> nat \<Rightarrow> check_report list \<times> health_registry \<times> nat" where
  "readiness_checks self now =
     (let fresh = (\<lambda>store.
            let (checks, t) = run_checks self now
            in (checks, if store then self\<lparr>he_cache := Some (now + t, checks)\<rparr> else self, now + t))
      in if he_cache_ttl self = 0 then fresh False
         else (case he_cache self of
                 Some (stored, checks) \<Rightarrow> if now - stored < he_cache_ttl self then (checks, self, now) else fresh True
               | None \<Rightarrow> fresh True))"

definition readiness_response ::
  "'h http_lib \<Rightarrow> (probe_response \<Rightarrow> string option) \<Rightarrow> health_registry \<Rightarrow> nat
     \<Rightarrow> 'h response \<times> health_registry" where
  "readiness_response H ser self now =
     (let (checks, self', later) = readiness_checks self now;
          healthy = list_all (\<lambda>c. kr_status c = ''ok'') checks
      in (probe_json H ser (if healthy then 200 else 503)
            \<lparr>pr_status = (if healthy then ''ok'' else ''degraded''), pr_uptime = uptime_seconds self' later,
             pr_checks = checks\<rparr>, self'))"

subsection \<open>Properties\<close>

text \<open>The bytes of the frames a body yields up to its first error.\<close>

fun good_bytes :: "frame list \<Rightarrow> nat" where
  "good_bytes [] = 0"
| "good_bytes (Data d # fs) = length d + good_bytes fs"
| "good_bytes (Trailers # fs) = good_bytes fs"
| "good_bytes (FrameErr e # fs) = 0"

lemma counting_finish_done: "cb_finished self \<Longrightarrow> counting_finish self = self"
  by (simp add: counting_finish_def)

lemma counting_poll_finished:
  "cb_finished self \<Longrightarrow> cb_finished (snd (counting_poll self))
     \<and> cb_observed (snd (counting_poll self)) = cb_observed self"
  by (auto simp: counting_poll_def counting_finish_def Let_def split: prod.split option.split frame.split)

lemma counting_after_finished:
  "cb_finished self \<Longrightarrow> cb_observed (counting_drop (counting_after n self)) = cb_observed self"
proof (induction n arbitrary: self)
  case 0
  then show ?case by (simp add: counting_drop_def counting_finish_done)
next
  case (Suc n)
  then show ?case using counting_poll_finished [OF Suc.prems] by simp
qed

lemma counting_observed_gen:
  assumes "\<not> cb_finished self" "cb_observer self"
  shows "cb_observed (counting_drop (counting_after n self)) =
    cb_observed self @ [cb_bytes self + good_bytes (take n (frames_of (cb_inner self)))]"
  using assms
proof (induction n arbitrary: self)
  case 0
  then show ?case by (simp add: counting_drop_def counting_finish_def)
next
  case (Suc n)
  obtain f b where p: "body_poll (cb_inner self) = (f, b)" by (cases "body_poll (cb_inner self)")
  note fr = body_poll_frames [of "cb_inner self", unfolded p]
  show ?case
  proof (cases f)
    case None
    then show ?thesis
      using Suc.prems fr p counting_after_finished [of "snd (counting_poll self)" n]
      by (simp add: counting_poll_def counting_finish_def)
  next
    case (Some fm)
    show ?thesis
    proof (cases fm)
      case (Data d)
      then show ?thesis
        using Suc.prems Suc.IH [of "snd (counting_poll self)"] fr p Some by (simp add: counting_poll_def)
    next
      case Trailers
      then show ?thesis
        using Suc.prems Suc.IH [of "snd (counting_poll self)"] fr p Some by (simp add: counting_poll_def)
    next
      case (FrameErr e)
      then show ?thesis
        using Suc.prems fr p Some counting_after_finished [of "snd (counting_poll self)" n]
        by (simp add: counting_poll_def counting_finish_def)
    qed
  qed
qed

text \<open>A streamed response is measured exactly once, however the server reads it: read to its end, cut by an error or
  abandoned after any number of polls, its size is recorded once, with the labels of its request, and is the number of
  data bytes that were delivered before the first error.\<close>

theorem metrics_stream_once:
  "mt_response_body_size (metrics_stream vals b n m) =
     mt_response_body_size m @ [(vals, good_bytes (take n (frames_of b)))]"
  by (simp add: metrics_stream_def counting_observed_gen [of "counting_new b True", simplified counting_new_def
        counting_body.simps] counting_new_def)

lemma gauge_add_back: "gauge_add ls (- 1) (gauge_add ls 1 m) = m"
  by (simp add: gauge_add_def)

lemma gauge_add_fields [simp]:
  "mt_requests_total (gauge_add ls d m) = mt_requests_total m"
  "mt_request_duration (gauge_add ls d m) = mt_request_duration m"
  "mt_response_body_size (gauge_add ls d m) = mt_response_body_size m"
  "mt_request_body_size (gauge_add ls d m) = mt_request_body_size m"
  by (simp_all add: gauge_add_def)


text \<open>The layer is transparent to the client: status, headers and extensions are the handler's, and so are the
  frames of the body, streamed or not.\<close>

theorem metrics_call_transparent:
  assumes "inner (if ml_record_body_sizes self then request_map_body req counted_body else req) w = (Done resp, w')"
  shows "\<exists>resp' m' s. metrics_call boxed self inner polls elapsed req m w = ((Done resp', w'), m', s)
    \<and> res_status resp' = res_status resp \<and> res_headers resp' = res_headers resp \<and> res_ext resp' = res_ext resp
    \<and> frames_of (res_body resp') = frames_of (res_body resp)
    \<and> size_hint_upper (res_body resp') = size_hint_upper (res_body resp)"
  using assms by (auto simp: metrics_call_def Let_def counted_body_def body_new_def split: option.split)

theorem metrics_call_transparent_witness:
  "\<exists>resp' m' s. metrics_call (\<lambda>_ _. None) metrics_layer_new counting_service 1 5 (sample_request Get ''/'' [])
      metrics_new 0 = ((Done resp', Suc 0), m', s)"
  using metrics_call_transparent [of counting_service metrics_layer_new "sample_request Get ''/'' []" 0 _ "Suc 0"
      "\<lambda>_ _. None" 1 5 metrics_new]
  by (auto simp: counting_service_def)

lemma readiness_checks_cases:
  "(\<exists>stored checks. he_cache self = Some (stored, checks) \<and> now - stored < he_cache_ttl self
      \<and> readiness_checks self now = (checks, self, now))
   \<or> (\<exists>t. readiness_checks self now =
        (map (\<lambda>c. fst (run_check (he_check_timeout self) now c)) (he_checks self),
         if he_cache_ttl self = 0 then self
         else self\<lparr>he_cache := Some (now + t, map (\<lambda>c. fst (run_check (he_check_timeout self) now c)) (he_checks self))\<rparr>,
         now + t))"
  by (auto simp: readiness_checks_def run_checks_def Let_def split: option.split prod.split)

context header_map
begin

lemma probe_json_status:
  "ser p \<noteq> None \<Longrightarrow> res_status (probe_json H ser st p) = st"
  by (auto simp: probe_json_def rb_json_def rb_defs from_str header_visible_def split: option.split)

end

text \<open>Readiness is what the checks say.  The probe answers 200 exactly when every check it reports is passing and 503
  otherwise; the reports are those of a run of all registered checks now, each cut off at the timeout, or the ones
  kept from a run less than the cache time ago, and only a run changes what is kept.\<close>

theorem readiness_exact:
  assumes "header_map H" "\<And>p. ser p \<noteq> None"
    and "readiness_response H ser self now = (resp, self')"
  shows "\<exists>checks. res_status resp = (if list_all (\<lambda>c. kr_status c = ''ok'') checks then 200 else 503)
    \<and> ((\<exists>stored. he_cache self = Some (stored, checks) \<and> now - stored < he_cache_ttl self \<and> self' = self)
       \<or> (checks = map (\<lambda>c. fst (run_check (he_check_timeout self) now c)) (he_checks self)
          \<and> (\<exists>t. self' = (if he_cache_ttl self = 0 then self else self\<lparr>he_cache := Some (now + t, checks)\<rparr>))))"
proof -
  obtain checks s1 later where c: "readiness_checks self now = (checks, s1, later)"
    by (cases "readiness_checks self now")
  have st: "res_status resp = (if list_all (\<lambda>c. kr_status c = ''ok'') checks then 200 else 503)" and s1: "self' = s1"
    using assms(3) header_map.probe_json_status [where ser = ser, OF assms(1,2)]
    by (auto simp: readiness_response_def c Let_def split: if_splits)
  from readiness_checks_cases [of self now] show ?thesis
    unfolding c s1 using st by (intro exI [of _ checks]) auto
qed

definition failing_probe :: health_registry where
  "failing_probe = he_add_check ''db'' (\<lambda>_. None) (he_add_check ''cache'' (\<lambda>_. Some (health_ok, 1)) (health_new 0))"

theorem readiness_exact_witness:
  "res_status (fst (readiness_response alist_lib (\<lambda>p. Some (pr_status p)) failing_probe 5)) = 503"
proof -
  obtain resp self' where r: "readiness_response alist_lib (\<lambda>p. Some (pr_status p)) failing_probe 5 = (resp, self')"
    by (cases "readiness_response alist_lib (\<lambda>p. Some (pr_status p)) failing_probe 5")
  from readiness_exact [OF alist_header_map _ r] have "res_status resp = 503"
    by (auto simp: failing_probe_def he_add_check_def health_new_def run_check_def health_ok_def)
  with r show ?thesis by simp
qed

end
