(* ===== verification/Otel.thy ===== *)
theory Otel
  imports Observe Static_Files
begin

text \<open>
  OpenTelemetry tracing: arvik-observe/src/trace.rs.

  The propagation formats and their parsers, the layer that opens a span for each request, the exporter
  configuration, its installation and the guard that shuts it down.  The opentelemetry, opentelemetry-otlp and
  tracing-subscriber crates are parameters: \<open>otel_api\<close> holds the parsers of identifiers the propagators call,
  \<open>tracing_sdk\<close> the process-wide operations (building an exporter, claiming the global subscriber, shutting a
  provider down or dropping its last handle), with their documented laws as locales.  A span is the record of the
  fields the code gives it; \<open>None\<close> is \<^verbatim>\<open>Span::none()\<close>.
\<close>

subsection \<open>Trace contexts\<close>

datatype propagation = TraceContext | B3 | Jaeger

definition propagation_all :: "propagation list" where
  "propagation_all = [TraceContext, B3, Jaeger]"

record 's span_context =
  sc_trace_id :: nat
  sc_span_id :: nat
  sc_sampled :: bool
  sc_remote :: bool
  sc_state :: 's

record 's otel_api =
  oa_trace_id :: "string \<Rightarrow> nat option" \<comment> \<open>\<^verbatim>\<open>TraceId::from_hex\<close>\<close>
  oa_span_id :: "string \<Rightarrow> nat option" \<comment> \<open>\<^verbatim>\<open>SpanId::from_hex\<close>\<close>
  oa_state :: "string \<Rightarrow> 's option" \<comment> \<open>\<^verbatim>\<open>TraceState::from_str\<close>\<close>
  oa_state_default :: 's
  oa_is_valid :: "'s span_context \<Rightarrow> bool"

text \<open>\<^verbatim>\<open>u8::from_str_radix(s, 16)\<close> of the standard library: an optional plus sign, at least one digit of
  either case, and a value that fits.\<close>

definition radix16_digit :: "char \<Rightarrow> nat" where
  "radix16_digit c = (if is_ascii_digit c then of_char c - 48
     else if 97 \<le> (of_char c :: nat) then of_char c - 87 else of_char c - 55)"

definition radix16_val :: "string \<Rightarrow> nat" where
  "radix16_val s = foldl (\<lambda>n c. 16 * n + radix16_digit c) 0 s"

definition u8_from_hex :: "string \<Rightarrow> u8 option" where
  "u8_from_hex s =
     (let ds = (case s of c # cs \<Rightarrow> if c = CHR ''+'' then cs else s | [] \<Rightarrow> s)
      in if ds = [] \<or> \<not> list_all is_ascii_hexdigit ds \<or> 256 \<le> radix16_val ds then None
         else Some (of_nat (radix16_val ds)))"

definition flag_sampled :: "string \<Rightarrow> bool" where
  "flag_sampled s \<longleftrightarrow> (case u8_from_hex s of Some flags \<Rightarrow> flags AND 1 = 1 | None \<Rightarrow> False)"

definition otel_header :: "'h http_lib \<Rightarrow> 'h \<Rightarrow> string \<Rightarrow> string option" where
  "otel_header H headers name = Option.bind (hm_get H headers name) (hv_to_str H)"

definition make_remote_context :: "'s otel_api \<Rightarrow> string \<Rightarrow> string \<Rightarrow> bool \<Rightarrow> 's \<Rightarrow> 's span_context option" where
  "make_remote_context A trace_id span_id sampled state =
     Option.bind (oa_trace_id A trace_id) (\<lambda>tid.
     Option.bind (oa_span_id A span_id) (\<lambda>sid.
       let context = \<lparr>sc_trace_id = tid, sc_span_id = sid, sc_sampled = sampled, sc_remote = True,
             sc_state = state\<rparr>
       in if oa_is_valid A context then Some context else None))"

definition traceparent_context :: "'s otel_api \<Rightarrow> string \<Rightarrow> string option \<Rightarrow> 's span_context option" where
  "traceparent_context A traceparent tracestate =
     (case split_on CHR ''-'' traceparent of
        version # trace_id # span_id # flags # _ \<Rightarrow>
          if length version \<noteq> 2 \<or> length trace_id \<noteq> 32 \<or> length span_id \<noteq> 16 \<or> length flags \<noteq> 2 then None
          else make_remote_context A trace_id span_id (flag_sampled flags)
                 (case Option.bind tracestate (oa_state A) of Some t \<Rightarrow> t | None \<Rightarrow> oa_state_default A)
      | _ \<Rightarrow> None)"

definition extract_trace_context :: "'h http_lib \<Rightarrow> 's otel_api \<Rightarrow> 'h \<Rightarrow> 's span_context option" where
  "extract_trace_context H A headers =
     Option.bind (otel_header H headers ''traceparent'')
       (\<lambda>v. traceparent_context A v (otel_header H headers ''tracestate''))"

definition b3_single :: "'s otel_api \<Rightarrow> string \<Rightarrow> 's span_context option" where
  "b3_single A single =
     (case split_on CHR ''-'' single of
        trace_id # span_id # rest \<Rightarrow>
          make_remote_context A trace_id span_id
            (case rest of flag # _ \<Rightarrow> flag = ''1'' \<or> eq_ignore_ascii_case flag ''d'' | [] \<Rightarrow> False)
            (oa_state_default A)
      | _ \<Rightarrow> None)"

definition extract_b3 :: "'h http_lib \<Rightarrow> 's otel_api \<Rightarrow> 'h \<Rightarrow> 's span_context option" where
  "extract_b3 H A headers =
     (case (case otel_header H headers ''b3'' of
              Some v \<Rightarrow> if CHR ''-'' \<in> set v then Some v else None | None \<Rightarrow> None) of
        Some single \<Rightarrow> b3_single A single
      | None \<Rightarrow>
          Option.bind (otel_header H headers ''x-b3-traceid'') (\<lambda>trace_id.
          Option.bind (otel_header H headers ''x-b3-spanid'') (\<lambda>span_id.
            make_remote_context A trace_id span_id
              (otel_header H headers ''x-b3-flags'' = Some ''1''
               \<or> (case otel_header H headers ''x-b3-sampled'' of
                    Some v \<Rightarrow> v = ''1'' \<or> eq_ignore_ascii_case v ''true'' | None \<Rightarrow> False))
              (oa_state_default A))))"

definition jaeger_context :: "'s otel_api \<Rightarrow> string \<Rightarrow> 's span_context option" where
  "jaeger_context A v =
     (case split_on CHR '':'' v of
        trace_id # span_id # _ # rest \<Rightarrow>
          make_remote_context A trace_id span_id
            (flag_sampled (case rest of flags # _ \<Rightarrow> flags | [] \<Rightarrow> ''0'')) (oa_state_default A)
      | _ \<Rightarrow> None)"

definition extract_jaeger :: "'h http_lib \<Rightarrow> 's otel_api \<Rightarrow> 'h \<Rightarrow> 's span_context option" where
  "extract_jaeger H A headers = Option.bind (otel_header H headers ''uber-trace-id'') (jaeger_context A)"

fun extract_with :: "'h http_lib \<Rightarrow> 's otel_api \<Rightarrow> propagation \<Rightarrow> 'h \<Rightarrow> 's span_context option" where
  "extract_with H A TraceContext headers = extract_trace_context H A headers"
| "extract_with H A B3 headers = extract_b3 H A headers"
| "extract_with H A Jaeger headers = extract_jaeger H A headers"

fun extract_parent :: "'h http_lib \<Rightarrow> 's otel_api \<Rightarrow> 'h \<Rightarrow> propagation list \<Rightarrow> 's span_context option" where
  "extract_parent H A headers [] = None"
| "extract_parent H A headers (p # ps) =
     (case extract_with H A p headers of Some c \<Rightarrow> Some c | None \<Rightarrow> extract_parent H A headers ps)"

subsection \<open>The layer\<close>

record otel_layer =
  ol_service_name :: string
  ol_propagators :: "propagation list"

definition otel_layer_new :: "string \<Rightarrow> otel_layer" where
  "otel_layer_new name = \<lparr>ol_service_name = name, ol_propagators = propagation_all\<rparr>"

definition ol_set_propagators :: "propagation list \<Rightarrow> otel_layer \<Rightarrow> otel_layer" where
  "ol_set_propagators ps self = self\<lparr>ol_propagators := ps\<rparr>"

datatype span_status = SpanUnset | SpanOk | SpanError string

record 's otel_span =
  os_service :: string
  os_method :: string
  os_url :: string
  os_user_agent :: string
  os_parent :: "'s span_context option"
  os_status_code :: "nat option"
  os_route :: "string option"
  os_status :: span_status

definition make_http_span :: "string \<Rightarrow> string \<Rightarrow> string \<Rightarrow> string \<Rightarrow> 's otel_span" where
  "make_http_span service m url user_agent =
     \<lparr>os_service = service, os_method = m, os_url = url, os_user_agent = user_agent, os_parent = None,
      os_status_code = None, os_route = None, os_status = SpanUnset\<rparr>"

definition open_otel_span ::
  "'h http_lib \<Rightarrow> 's otel_api \<Rightarrow> bool \<Rightarrow> otel_layer \<Rightarrow> 'h request \<Rightarrow> 's otel_span option" where
  "open_otel_span H A enabled self req =
     (if \<not> enabled then None
      else
        (let user_agent = (case otel_header H (req_headers req) ''user-agent'' of Some s \<Rightarrow> s | None \<Rightarrow> []);
             sp = make_http_span (ol_service_name self) (method_as_str (req_method req))
                    (uri_path (req_uri req)) user_agent
         in Some (case extract_parent H A (req_headers req) (ol_propagators self) of
                    Some c \<Rightarrow> sp\<lparr>os_parent := Some c\<rparr> | None \<Rightarrow> sp)))"

definition finish_otel_span :: "'h response \<Rightarrow> 's otel_span \<Rightarrow> 's otel_span" where
  "finish_otel_span resp sp = sp\<lparr>os_status_code := Some (res_status resp),
     os_route := Some (case ext_matched_path (res_ext resp) of Some m \<Rightarrow> m | None \<Rightarrow> ''__unknown''),
     os_status := (if 500 \<le> res_status resp \<and> res_status resp < 600
                   then SpanError (''HTTP '' @ nat_to_string (res_status resp)) else SpanOk)\<rparr>"

definition otel_call ::
  "'h http_lib \<Rightarrow> 's otel_api \<Rightarrow> bool \<Rightarrow> otel_layer \<Rightarrow> ('h, 'w) service \<Rightarrow> 'h request \<Rightarrow> 'w
     \<Rightarrow> ('h outcome \<times> 'w) \<times> 's otel_span option" where
  "otel_call H A enabled self inner req w =
     (let sp = open_otel_span H A enabled self req;
          (out, w') = inner req w
      in (case out of
            Done resp \<Rightarrow> ((Done resp, w'), map_option (finish_otel_span resp) sp)
          | Panicked p \<Rightarrow> ((Panicked p, w'), sp)))"

subsection \<open>Exporters and the process\<close>

datatype exporter = Stdout | OtlpGrpc "string option" | OtlpHttp "string option"

record otel_config =
  oc_service_name :: string
  oc_exporter :: exporter
  oc_resource_attrs :: "(string \<times> string) list"

definition otel_config_new :: "string \<Rightarrow> otel_config" where
  "otel_config_new name = \<lparr>oc_service_name = name, oc_exporter = Stdout, oc_resource_attrs = []\<rparr>"

definition oc_stdout :: "otel_config \<Rightarrow> otel_config" where
  "oc_stdout self = self\<lparr>oc_exporter := Stdout\<rparr>"

definition oc_stdout_json :: "otel_config \<Rightarrow> otel_config" where
  "oc_stdout_json self = oc_stdout self"

definition oc_otlp_grpc :: "string \<Rightarrow> otel_config \<Rightarrow> otel_config" where
  "oc_otlp_grpc endpoint self =
     self\<lparr>oc_exporter := OtlpGrpc (if endpoint \<noteq> [] then Some endpoint else None)\<rparr>"

definition oc_otlp_http :: "string \<Rightarrow> otel_config \<Rightarrow> otel_config" where
  "oc_otlp_http endpoint self =
     self\<lparr>oc_exporter := OtlpHttp (if endpoint \<noteq> [] then Some endpoint else None)\<rparr>"

definition oc_resource_attr :: "string \<Rightarrow> string \<Rightarrow> otel_config \<Rightarrow> otel_config" where
  "oc_resource_attr k v self = self\<lparr>oc_resource_attrs := oc_resource_attrs self @ [(k, v)]\<rparr>"

datatype otel_error = ExporterErr string | SubscriberErr string | ShutdownErr string

text \<open>A tracer provider: its identity, the service name and attributes of its resource, and what it exports to.\<close>

record provider =
  pv_id :: nat
  pv_service :: string
  pv_attrs :: "(string \<times> string) list"
  pv_exporter :: exporter

datatype log_format = LogAuto | LogJson | LogPretty

text \<open>What a subscriber is composed of: an optional filter, an optional log layer with its settings, and the
  service name of an optional OpenTelemetry layer.\<close>

record log_output =
  lo_format :: log_format
  lo_target :: bool
  lo_thread_ids :: bool

record subscriber =
  sb_filter :: "string option"
  sb_fmt :: "log_output option"
  sb_tracer :: "string option"

text \<open>The process: the global subscriber, the published tracer provider (\<open>None\<close> for an empty one), the
  providers whose exporters run, and the identity the next one gets.\<close>

record process =
  pr_subscriber :: "subscriber option"
  pr_provider :: "provider option"
  pr_running :: "nat set"
  pr_fresh :: nat

record tracing_sdk =
  sd_exporter :: "exporter \<Rightarrow> string + unit" \<comment> \<open>building the exporter\<close>
  sd_try_init :: "subscriber \<Rightarrow> subscriber option \<Rightarrow> (string + unit) \<times> subscriber option"
  sd_shutdown :: "nat \<Rightarrow> nat set \<Rightarrow> (string + unit) \<times> nat set"
  sd_drop_last :: "nat \<Rightarrow> nat set \<Rightarrow> nat set" \<comment> \<open>the last handle of a provider is dropped\<close>
  sd_filter :: "string \<Rightarrow> string + string" \<comment> \<open>\<^verbatim>\<open>EnvFilter::try_new\<close>\<close>

definition build_provider :: "tracing_sdk \<Rightarrow> otel_config \<Rightarrow> process \<Rightarrow> (otel_error + provider) \<times> process" where
  "build_provider K self st =
     (let pv = \<lparr>pv_id = pr_fresh st, pv_service = oc_service_name self, pv_attrs = oc_resource_attrs self,
                pv_exporter = oc_exporter self\<rparr>;
          st' = st\<lparr>pr_running := insert (pr_fresh st) (pr_running st), pr_fresh := Suc (pr_fresh st)\<rparr>
      in (case oc_exporter self of
            Stdout \<Rightarrow> (Inr pv, st')
          | e \<Rightarrow> (case sd_exporter K e of Inl msg \<Rightarrow> (Inl (ExporterErr msg), st) | Inr _ \<Rightarrow> (Inr pv, st'))))"

text \<open>The end of \<^verbatim>\<open>install\<close> and \<^verbatim>\<open>init_with_otel\<close>: claim the global subscriber and publish the provider; when
  the claim fails, shut the provider down and publish an empty one.\<close>

definition claim_subscriber ::
  "tracing_sdk \<Rightarrow> subscriber \<Rightarrow> provider \<Rightarrow> process \<Rightarrow> (otel_error + provider option) \<times> process" where
  "claim_subscriber K sub pv st =
     (case sd_try_init K sub (pr_subscriber st) of
        (Inl msg, s) \<Rightarrow>
          (let st = st\<lparr>pr_subscriber := s\<rparr>;
               st = st\<lparr>pr_running := snd (sd_shutdown K (pv_id pv) (pr_running st))\<rparr>
           in (Inl (SubscriberErr msg), st\<lparr>pr_provider := None\<rparr>))
      | (Inr _, s) \<Rightarrow> (Inr (Some pv), st\<lparr>pr_subscriber := s, pr_provider := Some pv\<rparr>))"

definition otel_install :: "tracing_sdk \<Rightarrow> otel_config \<Rightarrow> process \<Rightarrow> (otel_error + provider option) \<times> process" where
  "otel_install K self st =
     (case build_provider K self st of
        (Inl e, st) \<Rightarrow> (Inl e, st)
      | (Inr pv, st) \<Rightarrow>
          claim_subscriber K \<lparr>sb_filter = None, sb_fmt = None, sb_tracer = Some (oc_service_name self)\<rparr> pv st)"

text \<open>The guard is the provider it holds, if it still holds one.  Shutting down consumes the guard: it takes the
  provider, and the drop that follows on every return finds none.\<close>

definition otel_guard_drop :: "tracing_sdk \<Rightarrow> provider option \<Rightarrow> process \<Rightarrow> process" where
  "otel_guard_drop K self st =
     (case self of
        Some pv \<Rightarrow> st\<lparr>pr_running := snd (sd_shutdown K (pv_id pv) (pr_running st))\<rparr>
      | None \<Rightarrow> st)"

definition otel_guard_shutdown :: "tracing_sdk \<Rightarrow> provider option \<Rightarrow> process \<Rightarrow> (otel_error + unit) \<times> process" where
  "otel_guard_shutdown K self st =
     (case self of
        Some pv \<Rightarrow>
          (case sd_shutdown K (pv_id pv) (pr_running st) of
             (Inl msg, r) \<Rightarrow> (Inl (ShutdownErr msg), otel_guard_drop K None (st\<lparr>pr_running := r\<rparr>))
           | (Inr _, r) \<Rightarrow> (Inr (), otel_guard_drop K None (st\<lparr>pr_running := r\<rparr>)))
      | None \<Rightarrow> (Inr (), otel_guard_drop K None st))"

subsection \<open>Laws of the crates\<close>

text \<open>The text form of an identifier: \<open>k\<close> lower-case hexadecimal digits.\<close>

fun hex_of :: "nat \<Rightarrow> nat \<Rightarrow> string" where
  "hex_of 0 n = []"
| "hex_of (Suc k) n = hex_of k (n div 16) @ [hex_char (n mod 16)]"

text \<open>A parser answers no context, or a remote one with identifiers that are not zero.\<close>

definition proper_context :: "'s span_context option \<Rightarrow> bool" where
  "proper_context r \<longleftrightarrow> (case r of Some c \<Rightarrow> sc_trace_id c \<noteq> 0 \<and> sc_span_id c \<noteq> 0 \<and> sc_remote c | None \<Rightarrow> True)"

lemma proper_None [simp]: "proper_context None"
  by (simp add: proper_context_def)

lemma proper_bind: "(\<And>x. proper_context (f x)) \<Longrightarrow> proper_context (Option.bind r f)"
  by (cases r) simp_all

locale otel_ids =
  fixes A :: "'s otel_api"
  assumes trace_id: "n < 16 ^ 32 \<Longrightarrow> oa_trace_id A (hex_of 32 n) = Some n"
    and span_id: "n < 16 ^ 16 \<Longrightarrow> oa_span_id A (hex_of 16 n) = Some n"
    and is_valid: "oa_is_valid A c \<longleftrightarrow> sc_trace_id c \<noteq> 0 \<and> sc_span_id c \<noteq> 0"
begin

lemma make_remote_valid:
  assumes "0 < t" "t < 16 ^ 32" "0 < s" "s < 16 ^ 16"
  shows "make_remote_context A (hex_of 32 t) (hex_of 16 s) b st =
    Some \<lparr>sc_trace_id = t, sc_span_id = s, sc_sampled = b, sc_remote = True, sc_state = st\<rparr>"
  using assms by (simp add: make_remote_context_def trace_id span_id is_valid)

lemma proper_make_remote: "proper_context (make_remote_context A ts ss b st)"
  unfolding make_remote_context_def Let_def
  by (intro proper_bind) (simp add: proper_context_def is_valid)

lemma proper_extract_with: "proper_context (extract_with H A p h)"
  by (cases p)
     (simp_all add: extract_trace_context_def traceparent_context_def extract_b3_def b3_single_def
       extract_jaeger_def jaeger_context_def proper_bind proper_make_remote
       split: list.split option.split)

lemma proper_extract_parent: "proper_context (extract_parent H A h ps)"
proof (induction ps)
  case (Cons p ps)
  then show ?case using proper_extract_with [of H p h] by (auto split: option.split)
qed simp

end

locale tracing_process =
  fixes K :: tracing_sdk
  assumes try_init_free: "sd_try_init K sub None = (Inr (), Some sub)"
    and try_init_taken: "\<exists>msg. sd_try_init K sub (Some t) = (Inl msg, Some t)"
    and shutdown_stops: "snd (sd_shutdown K p r) = r - {p}"
    and drop_last_stops: "sd_drop_last K p r = r - {p}"
begin

text \<open>Claiming the subscriber for a provider that was just built.\<close>

lemma claim_free:
  "pr_subscriber st = None \<Longrightarrow> claim_subscriber K sub pv st
     = (Inr (Some pv), st\<lparr>pr_subscriber := Some sub, pr_provider := Some pv\<rparr>)"
  by (simp add: claim_subscriber_def try_init_free)

lemma claim_taken:
  assumes "pr_subscriber st = Some t"
  shows "\<exists>msg. claim_subscriber K sub pv st
     = (Inl (SubscriberErr msg), st\<lparr>pr_running := pr_running st - {pv_id pv}, pr_provider := None\<rparr>)"
proof -
  obtain msg where "sd_try_init K sub (Some t) = (Inl msg, Some t)" using try_init_taken by blast
  then show ?thesis by (intro exI [of _ msg]) (simp add: claim_subscriber_def assms shutdown_stops)
qed

text \<open>A guard stops exactly its provider's exporter, whether it is shut down or dropped.\<close>

lemma guard_stops:
  "otel_guard_drop K g st = st\<lparr>pr_running := pr_running st - pv_id ` set_option g\<rparr>"
  "snd (otel_guard_shutdown K g st) = otel_guard_drop K g st"
  by (cases g; cases "sd_shutdown K (pv_id (the g)) (pr_running st)";
      auto simp: otel_guard_drop_def otel_guard_shutdown_def shutdown_stops
        dest: arg_cong [of _ _ snd] split: sum.splits)+

end

subsection \<open>Lemmas\<close>

lemma length_hex_of [simp]: "length (hex_of k n) = k"
  by (induction k arbitrary: n) simp_all

lemma hex_char_hexdigit: "d < 16 \<Longrightarrow> is_ascii_hexdigit (hex_char d) \<and> radix16_digit (hex_char d) = d"
  by (auto simp: is_ascii_hexdigit_def is_ascii_digit_def radix16_digit_def hex_char_def)

lemma hex_of_digits: "list_all is_ascii_hexdigit (hex_of k n)"
  by (induction k arbitrary: n) (simp_all add: hex_char_hexdigit)

lemma radix16_val_hex_of: "radix16_val (hex_of k n) = n mod 16 ^ k"
proof (induction k arbitrary: n)
  case (Suc k)
  have "radix16_val (hex_of (Suc k) n) = 16 * (n div 16 mod 16 ^ k) + n mod 16"
    using Suc by (simp add: radix16_val_def hex_char_hexdigit)
  then show ?case by (simp add: mod_mult2_eq)
qed (simp add: radix16_val_def)

lemma hexdigit_neq: "is_ascii_hexdigit c \<Longrightarrow> c \<noteq> CHR ''-'' \<and> c \<noteq> CHR ''+'' \<and> c \<noteq> CHR '':''"
  by (auto simp: is_ascii_hexdigit_def is_ascii_digit_def)

lemma hex_of_no_sep: "CHR ''-'' \<notin> set (hex_of k n)" "CHR '':'' \<notin> set (hex_of k n)"
  using hex_of_digits [of k n] hexdigit_neq by (auto simp: list_all_iff)

lemma u8_from_hex_of: "n < 256 \<Longrightarrow> u8_from_hex (hex_of 2 n) = Some (of_nat n)"
proof -
  assume n: "n < 256"
  obtain c cs where h: "hex_of 2 n = c # cs" by (cases "hex_of 2 n") (auto dest: arg_cong [of _ _ length])
  with hex_of_digits [of 2 n] have "c \<noteq> CHR ''+''" using hexdigit_neq by simp
  with h n hex_of_digits [of 2 n] radix16_val_hex_of [of 2 n] show ?thesis
    by (simp add: u8_from_hex_def Let_def)
qed

lemma flag_sampled_hex_of: "n < 256 \<Longrightarrow> flag_sampled (hex_of 2 n) \<longleftrightarrow> odd n"
proof -
  assume "n < 256"
  moreover have "(of_nat n AND 1 = (1 :: u8)) \<longleftrightarrow> odd n"
  proof -
    have "unat (of_nat n AND 1 :: u8) = n mod 2"
      using \<open>n < 256\<close> by (simp add: and_one_eq unat_mod_distrib unat_of_nat)
    then show ?thesis by (simp add: word_unat_eq_iff odd_iff_mod_2_eq_one)
  qed
  ultimately show ?thesis by (simp add: flag_sampled_def u8_from_hex_of)
qed

text \<open>An instance of the laws on the identifiers: numbers of 128 and 64 bits read in radix 16.\<close>

definition radix_id :: "nat \<Rightarrow> string \<Rightarrow> nat option" where
  "radix_id k s = (if s \<noteq> [] \<and> length s \<le> k \<and> list_all is_ascii_hexdigit s then Some (radix16_val s) else None)"

definition radix_api :: "string otel_api" where
  "radix_api = \<lparr>oa_trace_id = radix_id 32, oa_span_id = radix_id 16, oa_state = Some, oa_state_default = [],
     oa_is_valid = (\<lambda>c. sc_trace_id c \<noteq> 0 \<and> sc_span_id c \<noteq> 0)\<rparr>"

lemma radix_id_hex_of: "n < 16 ^ k \<Longrightarrow> 0 < k \<Longrightarrow> radix_id k (hex_of k n) = Some n"
  using length_hex_of [of k n] by (auto simp: radix_id_def hex_of_digits radix16_val_hex_of simp del: length_hex_of)

interpretation radix: otel_ids radix_api
  by unfold_locales (simp_all add: radix_api_def radix_id_hex_of)

lemmas radix_otel_ids = radix.otel_ids_axioms

text \<open>And of the process-wide operations: exporters always build, a taken subscriber is refused.\<close>

definition sample_sdk :: tracing_sdk where
  "sample_sdk = \<lparr>sd_exporter = (\<lambda>_. Inr ()),
     sd_try_init = (\<lambda>s cur. case cur of None \<Rightarrow> (Inr (), Some s) | Some t \<Rightarrow> (Inl ''already set'', Some t)),
     sd_shutdown = (\<lambda>p r. (Inr (), r - {p})), sd_drop_last = (\<lambda>p r. r - {p}), sd_filter = Inr\<rparr>"

interpretation sample_process: tracing_process sample_sdk
  by unfold_locales (simp_all add: sample_sdk_def)

lemmas sample_tracing_process = sample_process.tracing_process_axioms

lemma open_otel_span_fields:
  assumes "otel_ids A"
  shows "(open_otel_span H A enabled self req = None) = (\<not> enabled)"
    and "open_otel_span H A enabled self req = Some s
      \<Longrightarrow> os_status_code s = None \<and> os_status s = SpanUnset \<and> proper_context (os_parent s)"
  using otel_ids.proper_extract_parent [OF assms, of H "req_headers req" "ol_propagators self"]
  by (auto simp: open_otel_span_def Let_def make_http_span_def split: option.splits if_splits)

text \<open>Building a provider fails and changes nothing, or starts one fresh exporter.\<close>

lemma build_provider_cases:
  obtains (failed) e where "build_provider K c st = (Inl e, st)"
  | (built) pv st1 where "build_provider K c st = (Inr pv, st1)" "pv_id pv = pr_fresh st"
      "pv_service pv = oc_service_name c" "pr_running st1 = insert (pr_fresh st) (pr_running st)"
      "pr_fresh st1 = Suc (pr_fresh st)" "pr_subscriber st1 = pr_subscriber st"
  by (cases "oc_exporter c"; cases "sd_exporter K (oc_exporter c)") (auto simp: build_provider_def)

subsection \<open>Properties\<close>

text \<open>The header a W3C-conformant client sends.\<close>

definition traceparent_text :: "nat \<Rightarrow> nat \<Rightarrow> nat \<Rightarrow> string" where
  "traceparent_text t s flags = ''00-'' @ hex_of 32 t @ ''-'' @ hex_of 16 s @ ''-'' @ hex_of 2 flags"

lemma split_traceparent:
  "split_on CHR ''-'' (traceparent_text t s f) = [''00'', hex_of 32 t, hex_of 16 s, hex_of 2 f]"
  using split_on_append_sep [of "CHR ''-''" "''00''"]
  by (simp add: traceparent_text_def split_on_append_sep hex_of_no_sep)

text \<open>C40: The W3C trace context is read back.  A client that sends in \<^verbatim>\<open>traceparent\<close> the version \<open>00\<close>, a trace
  identifier and a span identifier that are not zero, and any flags, becomes the parent of the request's span: the
  layer with the default formats opens a span whose remote parent has exactly these identifiers, is sampled exactly
  when the lowest flag bit is set, and carries the \<^verbatim>\<open>tracestate\<close> header when that parses and the default state
  otherwise; the span shows the path of the request but not its query.\<close>

theorem traceparent_roundtrip:
  assumes "header_map H" "otel_ids A"
    and "0 < t" "t < 16 ^ 32" "0 < s" "s < 16 ^ 16" "f < 256"
    and "hm_get H (req_headers req) ''traceparent'' = Some (traceparent_text t s f)"
  shows "\<exists>sp. open_otel_span H A True (otel_layer_new name) req = Some sp
    \<and> os_parent sp = Some \<lparr>sc_trace_id = t, sc_span_id = s, sc_sampled = odd f, sc_remote = True,
        sc_state = (case Option.bind (otel_header H (req_headers req) ''tracestate'') (oa_state A) of
                      Some st \<Rightarrow> st | None \<Rightarrow> oa_state_default A)\<rparr>
    \<and> os_url sp = uri_path (req_uri req) \<and> os_status_code sp = None"
proof -
  have "list_all header_visible (hex_of k n)" for k n
    using hex_of_digits [of k n]
    by (auto simp: list_all_iff is_ascii_hexdigit_def is_ascii_digit_def header_visible_def)
  then have "otel_header H (req_headers req) ''traceparent'' = Some (traceparent_text t s f)"
    using assms(8)
    by (simp add: otel_header_def header_map.to_str [OF assms(1)] traceparent_text_def header_visible_def)
  then have "extract_parent H A (req_headers req) propagation_all
     = Some \<lparr>sc_trace_id = t, sc_span_id = s, sc_sampled = odd f, sc_remote = True,
        sc_state = (case Option.bind (otel_header H (req_headers req) ''tracestate'') (oa_state A) of
                      Some st \<Rightarrow> st | None \<Rightarrow> oa_state_default A)\<rparr>"
    using assms(3-7)
    by (simp add: propagation_all_def extract_trace_context_def traceparent_context_def split_traceparent
      flag_sampled_hex_of otel_ids.make_remote_valid [OF assms(2)])
  then show ?thesis
    by (simp add: open_otel_span_def otel_layer_new_def make_http_span_def)
qed

theorem traceparent_roundtrip_witness:
  "\<exists>sp. open_otel_span alist_lib radix_api True (otel_layer_new ''svc'')
       (sample_request Get ''/a'' [(''traceparent'', traceparent_text 10 11 3)]) = Some sp
    \<and> os_parent sp = Some \<lparr>sc_trace_id = 10, sc_span_id = 11, sc_sampled = True, sc_remote = True, sc_state = []\<rparr>"
  using traceparent_roundtrip [OF alist_header_map radix_otel_ids, of 10 11 3
      "sample_request Get ''/a'' [(''traceparent'', traceparent_text 10 11 3)]" "''svc''"]
  by (auto simp: sample_request_def alist_sel otel_header_def radix_api_def)

text \<open>Tracing does not change what a request is answered.  The layer hands the request it got to the
  service and returns the service's own outcome and effects; its span is marked as failed exactly for a 5xx answer,
  and its parent, when it has one, is a remote context with identifiers that are not zero.\<close>

theorem otel_call_transparent:
  assumes "otel_ids A" "otel_call H A enabled self inner req w = (res, sp)"
  shows "res = inner req w
    \<and> (sp = None) = (\<not> enabled)
    \<and> (case (fst res, sp) of
         (Done resp, Some s) \<Rightarrow> os_status_code s = Some (res_status resp)
            \<and> ((\<exists>m. os_status s = SpanError m) = (500 \<le> res_status resp \<and> res_status resp < 600))
       | (Panicked m, Some s) \<Rightarrow> os_status_code s = None \<and> os_status s = SpanUnset
       | _ \<Rightarrow> True)
    \<and> (case sp of Some s \<Rightarrow> proper_context (os_parent s) | None \<Rightarrow> True)"
proof -
  obtain out w' where i: "inner req w = (out, w')" by (cases "inner req w")
  obtain sp0 where sp0: "sp0 = open_otel_span H A enabled self req" by blast
  have res: "res = (out, w')" "sp = (case out of Done resp \<Rightarrow> map_option (finish_otel_span resp) sp0 | Panicked p \<Rightarrow> sp0)"
    using assms(2) by (simp_all add: otel_call_def Let_def i sp0 split: outcome.splits)
  have "(sp0 = None) = (\<not> enabled)" "sp0 = Some s \<Longrightarrow> os_status_code s = None \<and> os_status s = SpanUnset
      \<and> proper_context (os_parent s)" for s
    unfolding sp0 by (rule open_otel_span_fields [OF assms(1)], rule open_otel_span_fields(2) [OF assms(1)])
  then show ?thesis unfolding i res
    by (cases out; cases sp0) (simp_all add: finish_otel_span_def)
qed

theorem otel_call_transparent_witness:
  "fst (otel_call alist_lib radix_api True (otel_layer_new ''svc'') counting_service
     (sample_request Get ''/a'' []) (0 :: nat)) = counting_service (sample_request Get ''/a'' []) 0"
  using otel_call_transparent [OF radix_otel_ids prod.collapse [symmetric],
      of alist_lib True "otel_layer_new ''svc''" counting_service "sample_request Get ''/a'' []" 0]
  by simp

text \<open>Installing OpenTelemetry twice.  A first installation publishes its provider.  A second one is refused, and
  stops the provider it had built, so that no exporter is leaked; but it also replaces the published provider, the
  first one's, by an empty one, although that exporter goes on running.\<close>

theorem second_install_unpublishes:
  assumes "tracing_process K" "pr_subscriber st = None" "\<And>e. sd_exporter K e = Inr ()"
    and "\<forall>i \<in> pr_running st. i < pr_fresh st"
    and "otel_install K a st = (r1, st1)" "otel_install K b st1 = (r2, st2)"
  shows "\<exists>pv msg. r1 = Inr (Some pv) \<and> pr_provider st1 = Some pv \<and> pv_service pv = oc_service_name a
    \<and> r2 = Inl (SubscriberErr msg)
    \<and> pr_subscriber st2 = pr_subscriber st1 \<and> pr_running st2 = pr_running st1 \<and> pv_id pv \<in> pr_running st2
    \<and> pr_provider st2 = None"
proof -
  have build: "build_provider K c s = (Inr \<lparr>pv_id = pr_fresh s, pv_service = oc_service_name c,
      pv_attrs = oc_resource_attrs c, pv_exporter = oc_exporter c\<rparr>,
      s\<lparr>pr_running := insert (pr_fresh s) (pr_running s), pr_fresh := Suc (pr_fresh s)\<rparr>)" for c s
    by (cases "oc_exporter c") (simp_all add: build_provider_def assms(3))
  have st1: "r1 = Inr (Some \<lparr>pv_id = pr_fresh st, pv_service = oc_service_name a,
      pv_attrs = oc_resource_attrs a, pv_exporter = oc_exporter a\<rparr>)"
      "pr_running st1 = insert (pr_fresh st) (pr_running st)" "pr_fresh st1 = Suc (pr_fresh st)"
      "pr_subscriber st1 \<noteq> None" "pr_provider st1 = Some \<lparr>pv_id = pr_fresh st, pv_service = oc_service_name a,
      pv_attrs = oc_resource_attrs a, pv_exporter = oc_exporter a\<rparr>"
    using assms(2,5) by (auto simp: otel_install_def build tracing_process.claim_free [OF assms(1)])
  then obtain t where t: "pr_subscriber st1 = Some t" by blast
  have fresh: "pr_fresh st1 \<notin> pr_running st1"
    using assms(4) st1(2,3) by (auto dest!: bspec)
  obtain msg where "r2 = Inl (SubscriberErr msg)" "pr_subscriber st2 = pr_subscriber st1"
      "pr_running st2 = insert (pr_fresh st1) (pr_running st1) - {pr_fresh st1}" "pr_provider st2 = None"
    using assms(6) t
      tracing_process.claim_taken [OF assms(1), of
        "st1\<lparr>pr_running := insert (pr_fresh st1) (pr_running st1), pr_fresh := Suc (pr_fresh st1)\<rparr>" t
        "\<lparr>sb_filter = None, sb_fmt = None, sb_tracer = Some (oc_service_name b)\<rparr>"
        "\<lparr>pv_id = pr_fresh st1, pv_service = oc_service_name b, pv_attrs = oc_resource_attrs b,
          pv_exporter = oc_exporter b\<rparr>"]
    by (auto simp: otel_install_def build)
  with st1 fresh show ?thesis by auto
qed

definition idle_process :: process where
  "idle_process = \<lparr>pr_subscriber = None, pr_provider = None, pr_running = {}, pr_fresh = 0\<rparr>"

theorem second_install_unpublishes_witness:
  "pr_provider (snd (otel_install sample_sdk (otel_config_new ''b'')
      (snd (otel_install sample_sdk (otel_config_new ''a'') idle_process)))) = None"
  using second_install_unpublishes [OF sample_tracing_process _ _ _ prod.collapse [symmetric] prod.collapse [symmetric],
      of idle_process "otel_config_new ''a''" "otel_config_new ''b''"]
  by (auto simp: idle_process_def sample_sdk_def)

end
