(* ===== verification/Logging.thy ===== *)
theory Logging
  imports Otel
begin

text \<open>
  Structured logging: arvik-observe/src/logging.rs.

  The logger builder and its installation, alone or with OpenTelemetry as one subscriber, and the layer that gives
  every request an identifier, masks the sensitive headers and hands one event per answer to tracing.  The
  environment is a function argument, as in the code's own \<^verbatim>\<open>*_with\<close> functions; the process and the tracing
  crates are those of theory Otel.  A span is the record of its fields, \<open>None\<close> for \<^verbatim>\<open>Span::none()\<close>; the event is
  the value the macro is called with.  \<open>None\<close> as the result of an initialization is the \<^verbatim>\<open>unreachable!\<close> panic.
\<close>

subsection \<open>Output format\<close>

definition production_like :: "string option \<Rightarrow> bool" where
  "production_like v \<longleftrightarrow> (case v of
     Some value \<Rightarrow> to_ascii_lowercase value = ''production'' \<or> to_ascii_lowercase value = ''prod''
   | None \<Rightarrow> False)"

fun first_production :: "(string \<Rightarrow> string option) \<Rightarrow> string list \<Rightarrow> log_format" where
  "first_production env [] = LogPretty"
| "first_production env (key # keys) =
     (if production_like (env key) then LogJson else first_production env keys)"

definition resolve_with :: "(string \<Rightarrow> string option) \<Rightarrow> log_format \<Rightarrow> log_format" where
  "resolve_with env self =
     (if self \<noteq> LogAuto then self
      else first_production env [''ARVIK_ENV'', ''APP_ENV'', ''RUST_ENV'', ''ENV''])"

subsection \<open>The logger\<close>

record logger_builder =
  lb_format :: log_format
  lb_env_filter :: "string option"
  lb_with_target :: bool
  lb_with_thread_ids :: bool

definition logger_builder_default :: logger_builder where
  "logger_builder_default = \<lparr>lb_format = LogAuto, lb_env_filter = None, lb_with_target = True,
     lb_with_thread_ids = False\<rparr>"

definition lb_set_format :: "log_format \<Rightarrow> logger_builder \<Rightarrow> logger_builder" where
  "lb_set_format f self = self\<lparr>lb_format := f\<rparr>"

definition lb_set_env_filter :: "string \<Rightarrow> logger_builder \<Rightarrow> logger_builder" where
  "lb_set_env_filter d self = self\<lparr>lb_env_filter := Some d\<rparr>"

definition lb_set_with_target :: "bool \<Rightarrow> logger_builder \<Rightarrow> logger_builder" where
  "lb_set_with_target b self = self\<lparr>lb_with_target := b\<rparr>"

definition lb_set_with_thread_ids :: "bool \<Rightarrow> logger_builder \<Rightarrow> logger_builder" where
  "lb_set_with_thread_ids b self = self\<lparr>lb_with_thread_ids := b\<rparr>"

definition env_filter_directive_with :: "(string \<Rightarrow> string option) \<Rightarrow> logger_builder \<Rightarrow> string" where
  "env_filter_directive_with env self =
     (case lb_env_filter self of
        Some d \<Rightarrow> d
      | None \<Rightarrow> (case env ''RUST_LOG'' of Some d \<Rightarrow> d | None \<Rightarrow> ''info''))"

datatype logger_error = LogFilterErr string | LogInitErr string | LogOtelErr otel_error

definition log_output_of :: "logger_builder \<Rightarrow> log_format \<Rightarrow> log_output" where
  "log_output_of self f = \<lparr>lo_format = f, lo_target = lb_with_target self, lo_thread_ids = lb_with_thread_ids self\<rparr>"

definition logger_init ::
  "tracing_sdk \<Rightarrow> (string \<Rightarrow> string option) \<Rightarrow> logger_builder \<Rightarrow> process
     \<Rightarrow> ((logger_error + unit) \<times> process) option" where
  "logger_init K env self st =
     (let f = resolve_with env (lb_format self)
      in case sd_filter K (env_filter_directive_with env self) of
           Inl e \<Rightarrow> Some (Inl (LogFilterErr e), st)
         | Inr flt \<Rightarrow>
             (if f = LogAuto then None
              else (case sd_try_init K \<lparr>sb_filter = Some flt, sb_fmt = Some (log_output_of self f), sb_tracer = None\<rparr>
                           (pr_subscriber st) of
                      (Inl e, s) \<Rightarrow> Some (Inl (LogInitErr e), st\<lparr>pr_subscriber := s\<rparr>)
                    | (Inr _, s) \<Rightarrow> Some (Inr (), st\<lparr>pr_subscriber := s\<rparr>))))"

definition arvik_logger_init ::
  "tracing_sdk \<Rightarrow> (string \<Rightarrow> string option) \<Rightarrow> process \<Rightarrow> ((logger_error + unit) \<times> process) option" where
  "arvik_logger_init K env st = logger_init K env logger_builder_default st"

definition init_with_otel ::
  "tracing_sdk \<Rightarrow> (string \<Rightarrow> string option) \<Rightarrow> logger_builder \<Rightarrow> otel_config \<Rightarrow> process
     \<Rightarrow> ((logger_error + provider option) \<times> process) option" where
  "init_with_otel K env self otel st =
     (case build_provider K otel st of
        (Inl e, st) \<Rightarrow> Some (Inl (LogOtelErr e), st)
      | (Inr pv, st) \<Rightarrow>
          (let f = resolve_with env (lb_format self)
           in case sd_filter K (env_filter_directive_with env self) of
                Inl e \<Rightarrow> Some (Inl (LogFilterErr e),
                           st\<lparr>pr_running := sd_drop_last K (pv_id pv) (pr_running st)\<rparr>)
              | Inr flt \<Rightarrow>
                  (if f = LogAuto then None
                   else (case claim_subscriber K \<lparr>sb_filter = Some flt, sb_fmt = Some (log_output_of self f),
                                sb_tracer = Some (oc_service_name otel)\<rparr> pv st of
                           (Inl e, st) \<Rightarrow> Some (Inl (LogOtelErr e), st)
                         | (Inr g, st) \<Rightarrow> Some (Inr g, st)))))"

subsection \<open>The logging layer\<close>

record slog_layer =
  sl_include_headers :: bool
  sl_sensitive :: "string list"
  sl_request_id_header :: string

definition default_sensitive_headers :: "string list" where
  "default_sensitive_headers =
     [''authorization'', ''cookie'', ''set-cookie'', ''x-api-key'', ''proxy-authorization'']"

definition slog_new :: slog_layer where
  "slog_new = \<lparr>sl_include_headers = False, sl_sensitive = default_sensitive_headers,
     sl_request_id_header = ''x-request-id''\<rparr>"

definition slog_include_headers :: "bool \<Rightarrow> slog_layer \<Rightarrow> slog_layer" where
  "slog_include_headers b self = self\<lparr>sl_include_headers := b\<rparr>"

definition slog_sensitive_headers :: "string list \<Rightarrow> slog_layer \<Rightarrow> slog_layer" where
  "slog_sensitive_headers hs self = self\<lparr>sl_sensitive := hs\<rparr>"

definition slog_request_id_header :: "string \<Rightarrow> slog_layer \<Rightarrow> slog_layer" where
  "slog_request_id_header h self = self\<lparr>sl_request_id_header := h\<rparr>"

definition MAX_REQUEST_ID_LEN :: nat where "MAX_REQUEST_ID_LEN = 128"

definition is_valid_request_id :: "string \<Rightarrow> bool" where
  "is_valid_request_id i \<longleftrightarrow> i \<noteq> [] \<and> length i \<le> MAX_REQUEST_ID_LEN
     \<and> list_all (\<lambda>b. 0x21 \<le> (of_char b :: nat) \<and> (of_char b :: nat) \<le> 0x7e) i"

definition keep_valid :: "string option \<Rightarrow> string option" where
  "keep_valid r = (case r of Some i \<Rightarrow> if is_valid_request_id i then Some i else None | None \<Rightarrow> None)"

text \<open>\<open>fresh\<close> is \<^verbatim>\<open>Uuid::new_v4().to_string()\<close>.\<close>

definition slog_request_id ::
  "'h http_lib \<Rightarrow> ('w \<Rightarrow> string \<times> 'w) \<Rightarrow> 'h request \<Rightarrow> string \<Rightarrow> 'w \<Rightarrow> string \<times> 'w" where
  "slog_request_id H fresh req header w =
     (case keep_valid (Option.bind (hm_get H (req_headers req) header) (hv_to_str H)) of
        Some i \<Rightarrow> (i, w)
      | None \<Rightarrow> (case keep_valid (ext_request_id (req_ext req)) of Some i \<Rightarrow> (i, w) | None \<Rightarrow> fresh w))"

definition masked_value :: "'h http_lib \<Rightarrow> string list \<Rightarrow> string \<Rightarrow> string \<Rightarrow> string" where
  "masked_value H sensitive name v =
     (if name \<in> set sensitive then ''[redacted]''
      else (case hv_to_str H v of Some s \<Rightarrow> s | None \<Rightarrow> ''[non-utf8]''))"

text \<open>The result is a \<^verbatim>\<open>BTreeMap\<close>: a further value of the same header replaces the one before.\<close>

definition masked_headers :: "'h http_lib \<Rightarrow> 'h \<Rightarrow> string list \<Rightarrow> string \<Rightarrow> string option" where
  "masked_headers H headers sensitive =
     fold (\<lambda>(name, v) values. values(name := Some (masked_value H sensitive name v)))
       (named_pairs [] (hm_into_iter H headers)) (\<lambda>_. None)"

record log_span =
  lsp_method :: string
  lsp_uri :: string
  lsp_request_id :: string
  lsp_headers :: "(string \<Rightarrow> string option) option"
  lsp_route :: "string option"
  lsp_status :: "nat option"
  lsp_latency :: "nat option"

definition request_span :: "string \<Rightarrow> string \<Rightarrow> string \<Rightarrow> (string \<Rightarrow> string option) option \<Rightarrow> log_span" where
  "request_span m u i headers = \<lparr>lsp_method = m, lsp_uri = u, lsp_request_id = i, lsp_headers = headers,
     lsp_route = None, lsp_status = None, lsp_latency = None\<rparr>"

record log_event =
  le_level :: trace_level
  le_span :: "log_span option"
  le_status :: nat
  le_route :: string
  le_latency :: nat

definition completion_level :: "nat \<Rightarrow> trace_level" where
  "completion_level status =
     (if 500 \<le> status \<and> status < 600 then LError
      else if 400 \<le> status \<and> status < 500 then LWarn else LInfo)"

definition completion_event :: "log_span option \<Rightarrow> nat \<Rightarrow> 'h response \<Rightarrow> log_event" where
  "completion_event sp elapsed resp =
     (let route = (if sp = None then []
                   else (case ext_matched_path (res_ext resp) of Some m \<Rightarrow> m | None \<Rightarrow> ''__unknown''));
          sp = map_option (\<lambda>s. s\<lparr>lsp_status := Some (res_status resp), lsp_route := Some route,
                 lsp_latency := Some elapsed\<rparr>) sp
      in \<lparr>le_level = completion_level (res_status resp), le_span = sp, le_status = res_status resp,
          le_route = route, le_latency = elapsed\<rparr>)"

text \<open>What the request becomes on its way in: the identifier in its extensions and in its header.\<close>

definition with_request_id :: "'h http_lib \<Rightarrow> string \<Rightarrow> string \<Rightarrow> 'h request \<Rightarrow> 'h request" where
  "with_request_id H header i req =
     (let req = req\<lparr>req_ext := (req_ext req)\<lparr>ext_request_id := Some i\<rparr>\<rparr>
      in case hv_from_str H i of
           Some v \<Rightarrow> req\<lparr>req_headers := hm_insert H (req_headers req) header v\<rparr>
         | None \<Rightarrow> req)"

definition structured_call ::
  "'h http_lib \<Rightarrow> ('w \<Rightarrow> string \<times> 'w) \<Rightarrow> (uri \<Rightarrow> string) \<Rightarrow> bool \<Rightarrow> slog_layer \<Rightarrow> ('h, 'w) service \<Rightarrow> nat
     \<Rightarrow> 'h request \<Rightarrow> 'w \<Rightarrow> ('h outcome \<times> 'w) \<times> log_event option" where
  "structured_call H fresh show_uri enabled self inner elapsed req w =
     (let (i, w) = slog_request_id H fresh req (sl_request_id_header self) w;
          req' = with_request_id H (sl_request_id_header self) i req;
          sp = (if enabled
                then Some (request_span (method_as_str (req_method req)) (show_uri (req_uri req)) i
                  (if sl_include_headers self then Some (masked_headers H (req_headers req') (sl_sensitive self))
                   else None))
                else None);
          (out, w) = inner req' w
      in (case out of
            Panicked p \<Rightarrow> ((Panicked p, w), None)
          | Done resp \<Rightarrow>
              ((Done (case hv_from_str H i of
                  Some v \<Rightarrow> resp\<lparr>res_headers := hm_insert H (res_headers resp) (sl_request_id_header self) v\<rparr>
                | None \<Rightarrow> resp), w),
               Some (completion_event sp elapsed resp))))"

subsection \<open>Lemmas\<close>

lemma first_production_cases:
  "first_production env keys = (if \<exists>k \<in> set keys. production_like (env k) then LogJson else LogPretty)"
  by (induction keys) simp_all

lemma resolve_with_not_auto: "resolve_with env f \<noteq> LogAuto"
  by (simp add: resolve_with_def first_production_cases)

lemma valid_request_id_visible: "is_valid_request_id i \<Longrightarrow> list_all header_visible i"
  by (auto simp: is_valid_request_id_def header_visible_def list_all_iff)

lemma keep_valid_Some: "keep_valid r = Some i \<longleftrightarrow> r = Some i \<and> is_valid_request_id i"
  by (auto simp: keep_valid_def split: option.splits)

lemma slog_request_id_valid:
  "is_valid_request_id (fst (fresh w)) \<Longrightarrow> is_valid_request_id (fst (slog_request_id H fresh req n w))"
  by (auto simp: slog_request_id_def keep_valid_Some split: option.splits)

lemma named_pairs_group:
  "vs \<noteq> [] \<Longrightarrow> named_pairs k (iter_group n vs @ rest) = map (Pair n) vs @ named_pairs n rest"
proof (cases vs)
  case (Cons v vs')
  have "named_pairs n (map (Pair None) us @ rest) = map (Pair n) us @ named_pairs n rest" for us
    by (induction us) simp_all
  with Cons show ?thesis by simp
qed simp

lemma named_pairs_groups:
  "\<forall>n \<in> set ns. vals n \<noteq> [] \<Longrightarrow>
   named_pairs k (concat (map (\<lambda>n. iter_group n (vals n)) ns)) = concat (map (\<lambda>n. map (Pair n) (vals n)) ns)"
  by (induction ns arbitrary: k) (simp_all add: named_pairs_group)

lemma fold_update_group:
  "vs \<noteq> [] \<Longrightarrow> fold (\<lambda>(n, v) m. m(n := Some (g n v))) (map (Pair n) vs) M = M(n := Some (g n (last vs)))"
  by (induction vs arbitrary: M) (auto simp: fun_eq_iff)

lemma fold_update_groups:
  "distinct ns \<Longrightarrow> \<forall>n \<in> set ns. vals n \<noteq> [] \<Longrightarrow>
   fold (\<lambda>(n, v) m. m(n := Some (g n v))) (concat (map (\<lambda>n. map (Pair n) (vals n)) ns)) M =
     (\<lambda>n. if n \<in> set ns then Some (g n (last (vals n))) else M n)"
proof (induction ns arbitrary: M)
  case (Cons n ns)
  let ?put = "\<lambda>(n, v) m. m(n := Some (g n v))"
  have "fold ?put (map (Pair n) (vals n)) M = M(n := Some (g n (last (vals n))))"
    using Cons.prems by (intro fold_update_group) simp
  then have "fold ?put (concat (map (\<lambda>n. map (Pair n) (vals n)) (n # ns))) M
     = fold ?put (concat (map (\<lambda>n. map (Pair n) (vals n)) ns)) (M(n := Some (g n (last (vals n)))))"
    by (simp only: list.map concat.simps fold_append o_apply)
  also have "\<dots> = (\<lambda>k. if k \<in> set ns then Some (g k (last (vals k))) else (M(n := Some (g n (last (vals n))))) k)"
    using Cons.prems by (intro Cons.IH) simp_all
  also have "\<dots> = (\<lambda>k. if k \<in> set (n # ns) then Some (g k (last (vals k))) else M k)"
    using Cons.prems(1) by (intro ext) auto
  finally show ?case .
qed simp

context header_map
begin

text \<open>The masked map: the last value of every header, or the mask.\<close>

lemma masked_headers_eq:
  "masked_headers H h S = (\<lambda>n. case hm_get_all H h n of [] \<Rightarrow> None
     | vs \<Rightarrow> Some (masked_value H S n (last vs)))"
proof -
  obtain ns where ns: "distinct ns" "set ns = {n. hm_get_all H h n \<noteq> []}"
      "hm_into_iter H h = concat (map (\<lambda>n. iter_group n (hm_get_all H h n)) ns)"
    using into_iter [of h] by blast
  then have "named_pairs [] (hm_into_iter H h) = concat (map (\<lambda>n. map (Pair n) (hm_get_all H h n)) ns)"
    using named_pairs_groups [of ns "hm_get_all H h" "[]"] by simp
  then have "masked_headers H h S = (\<lambda>n. if n \<in> set ns then Some (masked_value H S n (last (hm_get_all H h n))) else None)"
    using fold_update_groups [OF ns(1), of "hm_get_all H h" "masked_value H S"] ns(2)
    by (simp add: masked_headers_def)
  with ns(2) show ?thesis by (auto simp: fun_eq_iff split: list.split)
qed

lemma masked_headers_cong:
  assumes "\<And>n. n \<notin> set S \<Longrightarrow> hm_get_all H h n = hm_get_all H h' n"
    and "\<And>n. n \<in> set S \<Longrightarrow> (hm_get_all H h n = []) = (hm_get_all H h' n = [])"
  shows "masked_headers H h S = masked_headers H h' S"
proof
  fix n
  show "masked_headers H h S n = masked_headers H h' S n"
    using assms [of n]
    by (cases "n \<in> set S"; cases "hm_get_all H h n"; cases "hm_get_all H h' n")
       (simp_all add: masked_headers_eq masked_value_def)
qed

lemma with_request_id_eq:
  "is_valid_request_id i \<Longrightarrow> with_request_id H n i req =
     req\<lparr>req_ext := (req_ext req)\<lparr>ext_request_id := Some i\<rparr>, req_headers := hm_insert H (req_headers req) n i\<rparr>"
  by (simp add: with_request_id_def from_str valid_request_id_visible)

lemma structured_call_eq:
  assumes "slog_request_id H fresh req (sl_request_id_header self) w = (i, w1)" "is_valid_request_id i"
  shows "structured_call H fresh show_uri enabled self inner elapsed req w =
    (let req' = req\<lparr>req_ext := (req_ext req)\<lparr>ext_request_id := Some i\<rparr>,
                    req_headers := hm_insert H (req_headers req) (sl_request_id_header self) i\<rparr>;
         sp = (if enabled then Some (request_span (method_as_str (req_method req)) (show_uri (req_uri req)) i
                 (if sl_include_headers self then Some (masked_headers H (req_headers req') (sl_sensitive self)) else None))
               else None)
     in (then_response (\<lambda>resp. resp\<lparr>res_headers := hm_insert H (res_headers resp) (sl_request_id_header self) i\<rparr>)
           (inner req' w1),
         case fst (inner req' w1) of Done resp \<Rightarrow> Some (completion_event sp elapsed resp) | Panicked _ \<Rightarrow> None))"
  using assms
  by (simp add: structured_call_def Let_def with_request_id_eq from_str valid_request_id_visible then_response_def
    split: prod.split outcome.split)

end

subsection \<open>Properties\<close>



text \<open>Two outcomes that log the same: the same status and matched route, or a panic on both sides.\<close>

definition logs_alike :: "'h outcome \<Rightarrow> 'h outcome \<Rightarrow> bool" where
  "logs_alike o1 o2 \<longleftrightarrow> (case (o1, o2) of
     (Done a, Done b) \<Rightarrow> res_status a = res_status b \<and> ext_matched_path (res_ext a) = ext_matched_path (res_ext b)
   | (Panicked _, Panicked _) \<Rightarrow> True
   | _ \<Rightarrow> False)"

text \<open>C30: Sensitive header values do not reach the log.  Take two requests that differ only in the values of the
  headers declared sensitive, each present in both or in none, the identifier header not among them.  If the
  service answers requests that differ in headers alone with the same status and matched route, or panics on
  both, then the events handed to tracing are equal, the header maps of the spans included.\<close>

theorem sensitive_headers_not_logged:
  assumes "header_map H" "\<And>w. is_valid_request_id (fst (fresh w))"
    and "\<And>n. n \<notin> set (sl_sensitive self) \<Longrightarrow> hm_get_all H (req_headers req) n = hm_get_all H h' n"
    and "\<And>n. n \<in> set (sl_sensitive self) \<Longrightarrow> (hm_get_all H (req_headers req) n = []) = (hm_get_all H h' n = [])"
    and "sl_request_id_header self \<notin> set (sl_sensitive self)"
    and "\<And>r h w. logs_alike (fst (inner r w)) (fst (inner (r\<lparr>req_headers := h\<rparr>) w))"
  shows "snd (structured_call H fresh show_uri enabled self inner elapsed req w) =
    snd (structured_call H fresh show_uri enabled self inner elapsed (req\<lparr>req_headers := h'\<rparr>) w)"
proof -
  let ?n = "sl_request_id_header self"
  let ?in = "\<lambda>i hh. req\<lparr>req_ext := (req_ext req)\<lparr>ext_request_id := Some i\<rparr>, req_headers := hm_insert H hh ?n i\<rparr>"
  obtain i w1 where i: "slog_request_id H fresh req ?n w = (i, w1)" by fastforce
  have i': "slog_request_id H fresh (req\<lparr>req_headers := h'\<rparr>) ?n w = (i, w1)"
    using i assms(3) [OF assms(5)]
    by (simp add: slog_request_id_def header_map.get_first [OF assms(1)] cong: option.case_cong)
  have v: "is_valid_request_id i"
    using slog_request_id_valid [of fresh w H req ?n] assms(2) i by simp
  have masks: "masked_headers H (hm_insert H (req_headers req) ?n i) (sl_sensitive self)
     = masked_headers H (hm_insert H h' ?n i) (sl_sensitive self)"
    by (rule header_map.masked_headers_cong [OF assms(1)])
       (use assms(3,4) in \<open>auto simp: header_map.get_all_insert [OF assms(1)]\<close>)
  have "logs_alike (fst (inner (?in i (req_headers req)) w1)) (fst (inner (?in i h') w1))"
    using assms(6) [of "?in i (req_headers req)" w1 "hm_insert H h' ?n i"] by simp
  then show ?thesis
    unfolding header_map.structured_call_eq [OF assms(1) i v] header_map.structured_call_eq [OF assms(1) i' v]
    by (cases "fst (inner (?in i (req_headers req)) w1)"; cases "fst (inner (?in i h') w1)")
       (simp_all add: logs_alike_def completion_event_def Let_def masks)
qed

theorem sensitive_headers_not_logged_witness:
  "snd (structured_call alist_lib (\<lambda>w. (''fresh'', Suc w)) uri_path True (slog_include_headers True slog_new)
      counting_service 5 (sample_request Get ''/'' [(''authorization'', ''secret'')]) (0 :: nat)) =
   snd (structured_call alist_lib (\<lambda>w. (''fresh'', Suc w)) uri_path True (slog_include_headers True slog_new)
      counting_service 5 ((sample_request Get ''/'' [(''authorization'', ''secret'')])
        \<lparr>req_headers := [(''authorization'', ''other'')]\<rparr>) 0)"
  by (rule sensitive_headers_not_logged [OF alist_header_map])
     (auto simp: is_valid_request_id_def MAX_REQUEST_ID_LEN_def sample_request_def alist_sel alist_get_all_def
       slog_new_def slog_include_headers_def default_sensitive_headers_def logs_alike_def counting_service_def
       sample_response_def)



end
