(* ===== verification/Tls.thy ===== *)
theory Tls
  imports Prelude
begin

text \<open>
  TLS configuration and certificate reload: arvik-tls/src/lib.rs.

  A \<^verbatim>\<open>RustlsConfig\<close> is a cell, shared by its clones, that holds the active server configuration; every operation
  takes the cell's content and returns the new one.  The PEM and X.509 parsers, rustls' validation of a chain with its
  key, the certificate generator and native-tls are the parameter \<open>tls_lib\<close>; the file system is a function from paths
  to contents.  The file watcher is a step relation: files change and raise events, the watcher's callback queues a
  notification for the relevant ones, and the reload task wakes, sleeps, drains the queue, and reads the certificate
  and then the key; every interleaving is possible, a change between the two reads too.
\<close>

subsection \<open>Configurations\<close>

datatype tls_error =
    TlsIo string
  | TlsPem string
  | TlsConfigErr string
  | CertificateGeneration string
  | TlsNotify string
  | NativeTlsErr string

text \<open>\<open>tl_validity\<close>: \<open>None\<close> when the leaf does not parse; the seconds to expiration of a currently valid one.\<close>

record tls_lib =
  tl_certs :: "string \<Rightarrow> string + string list"
  tl_private_key :: "string \<Rightarrow> string + string option"
  tl_single_cert :: "string list \<Rightarrow> string \<Rightarrow> string + unit"
  tl_validity :: "string \<Rightarrow> int option option"
  tl_self_signed :: "string list \<Rightarrow> string + (string \<times> string)"

definition ALPN_HTTP2 :: string where "ALPN_HTTP2 = ''h2''"
definition ALPN_HTTP11 :: string where "ALPN_HTTP11 = ''http/1.1''"
definition EXPIRY_WARN_DAYS :: nat where "EXPIRY_WARN_DAYS = 30"

record tls_config =
  tc_certs :: "string list"
  tc_key :: string
  tc_alpn :: "string list"

definition parse_certs :: "tls_lib \<Rightarrow> string \<Rightarrow> tls_error + string list" where
  "parse_certs L pem =
     (case tl_certs L pem of
        Inl e \<Rightarrow> Inl (TlsPem e)
      | Inr certs \<Rightarrow> if certs = [] then Inl (TlsPem ''no certificates found'') else Inr certs)"

definition parse_private_key :: "tls_lib \<Rightarrow> string \<Rightarrow> tls_error + string" where
  "parse_private_key L pem =
     (case tl_private_key L pem of
        Inl e \<Rightarrow> Inl (TlsPem e)
      | Inr None \<Rightarrow> Inl (TlsPem ''no private key found'')
      | Inr (Some k) \<Rightarrow> Inr k)"

datatype expiry_warning = ExpiresSoon int | NotCurrentlyValid | LeafUnparsable

definition warn_certificate_expiry :: "tls_lib \<Rightarrow> string list \<Rightarrow> expiry_warning option" where
  "warn_certificate_expiry L certs =
     (case certs of
        [] \<Rightarrow> None
      | leaf # _ \<Rightarrow>
          (case tl_validity L leaf of
             None \<Rightarrow> Some LeafUnparsable
           | Some (Some secs) \<Rightarrow>
               if secs \<le> int (EXPIRY_WARN_DAYS * 24 * 60 * 60) then Some (ExpiresSoon (secs div 86400)) else None
           | Some None \<Rightarrow> Some NotCurrentlyValid))"

text \<open>The expiry check logs and goes on; its warning is returned beside the result.\<close>

definition build_server_config :: "tls_lib \<Rightarrow> string list \<Rightarrow> string \<Rightarrow> expiry_warning option \<times> (tls_error + tls_config)" where
  "build_server_config L certs key =
     (warn_certificate_expiry L certs,
      case tl_single_cert L certs key of
        Inl e \<Rightarrow> Inl (TlsConfigErr e)
      | Inr _ \<Rightarrow> Inr \<lparr>tc_certs = certs, tc_key = key, tc_alpn = [ALPN_HTTP2, ALPN_HTTP11]\<rparr>)"

definition from_der :: "tls_lib \<Rightarrow> string list \<Rightarrow> string \<Rightarrow> tls_error + tls_config" where
  "from_der L certs key = snd (build_server_config L certs key)"

definition from_pem :: "tls_lib \<Rightarrow> string \<Rightarrow> string \<Rightarrow> tls_error + tls_config" where
  "from_pem L cert_pem key_pem =
     (case parse_certs L cert_pem of
        Inl e \<Rightarrow> Inl e
      | Inr certs \<Rightarrow> (case parse_private_key L key_pem of Inl e \<Rightarrow> Inl e | Inr key \<Rightarrow> from_der L certs key))"

type_synonym files = "string \<Rightarrow> string + string"

definition from_pem_file :: "tls_lib \<Rightarrow> files \<Rightarrow> string \<Rightarrow> string \<Rightarrow> tls_error + tls_config" where
  "from_pem_file L fs cert_path key_path =
     (case fs cert_path of
        Inl e \<Rightarrow> Inl (TlsIo e)
      | Inr cert_pem \<Rightarrow>
          (case fs key_path of Inl e \<Rightarrow> Inl (TlsIo e) | Inr key_pem \<Rightarrow> from_pem L cert_pem key_pem))"

definition self_signed :: "tls_lib \<Rightarrow> string list \<Rightarrow> tls_error + tls_config" where
  "self_signed L names =
     (case tl_self_signed L names of
        Inl e \<Rightarrow> Inl (CertificateGeneration e)
      | Inr (cert, key) \<Rightarrow> from_der L [cert] key)"

text \<open>A reload returns its result and the content of the cell.\<close>

definition reload_from_pem :: "tls_lib \<Rightarrow> string \<Rightarrow> string \<Rightarrow> tls_config \<Rightarrow> (tls_error + unit) \<times> tls_config" where
  "reload_from_pem L cert_pem key_pem cell =
     (case parse_certs L cert_pem of
        Inl e \<Rightarrow> (Inl e, cell)
      | Inr certs \<Rightarrow>
          (case parse_private_key L key_pem of
             Inl e \<Rightarrow> (Inl e, cell)
           | Inr key \<Rightarrow>
               (case snd (build_server_config L certs key) of
                  Inl e \<Rightarrow> (Inl e, cell)
                | Inr new_config \<Rightarrow> (Inr (), new_config))))"

definition reload_from_pem_file ::
  "tls_lib \<Rightarrow> files \<Rightarrow> string \<Rightarrow> string \<Rightarrow> tls_config \<Rightarrow> (tls_error + unit) \<times> tls_config" where
  "reload_from_pem_file L fs cert_path key_path cell =
     (case fs cert_path of
        Inl e \<Rightarrow> (Inl (TlsIo e), cell)
      | Inr cert_pem \<Rightarrow>
          (case fs key_path of
             Inl e \<Rightarrow> (Inl (TlsIo e), cell)
           | Inr key_pem \<Rightarrow> reload_from_pem L cert_pem key_pem cell))"

definition current_config :: "tls_config \<Rightarrow> tls_config" where
  "current_config cell = cell"

definition with_alpn_http2_only :: "tls_config \<Rightarrow> tls_config" where
  "with_alpn_http2_only cell = (let current = cell in current\<lparr>tc_alpn := [ALPN_HTTP2]\<rparr>)"

text \<open>The handshake of rustls is a parameter; a session keeps the configuration it began with.\<close>

definition tls_accept :: "(tls_config \<Rightarrow> 'c \<Rightarrow> string + 's) \<Rightarrow> tls_config \<Rightarrow> 'c \<Rightarrow> tls_error + 's" where
  "tls_accept handshake cell stream =
     (case handshake (current_config cell) stream of Inl e \<Rightarrow> Inl (TlsConfigErr e) | Inr s \<Rightarrow> Inr s)"

subsection \<open>native-tls\<close>

record 'a native_lib =
  nt_identity :: "string \<Rightarrow> string \<Rightarrow> string + string"
  nt_build :: "string \<Rightarrow> string list \<Rightarrow> string + 'a"

definition native_from_pkcs12 :: "'a native_lib \<Rightarrow> string \<Rightarrow> string \<Rightarrow> tls_error + 'a" where
  "native_from_pkcs12 N data password =
     (case nt_identity N data password of
        Inl e \<Rightarrow> Inl (NativeTlsErr e)
      | Inr i \<Rightarrow> (case nt_build N i [''h2'', ''http/1.1''] of Inl e \<Rightarrow> Inl (NativeTlsErr e) | Inr a \<Rightarrow> Inr a))"

definition native_from_pkcs12_file :: "'a native_lib \<Rightarrow> files \<Rightarrow> string \<Rightarrow> string \<Rightarrow> tls_error + 'a" where
  "native_from_pkcs12_file N fs path password =
     (case fs path of Inl e \<Rightarrow> Inl (TlsIo e) | Inr data \<Rightarrow> native_from_pkcs12 N data password)"

definition native_accept :: "('a \<Rightarrow> 'c \<Rightarrow> string + 's) \<Rightarrow> 'a \<Rightarrow> 'c \<Rightarrow> tls_error + 's" where
  "native_accept handshake acceptor stream =
     (case handshake acceptor stream of Inl e \<Rightarrow> Inl (NativeTlsErr e) | Inr s \<Rightarrow> Inr s)"

subsection \<open>The file watcher\<close>

text \<open>\<^verbatim>\<open>Path::file_name\<close> and \<^verbatim>\<open>Path::parent\<close>, for paths without a trailing slash or dot components.\<close>

definition path_file_name :: "string \<Rightarrow> string option" where
  "path_file_name p =
     (let n = rev (takeWhile (\<lambda>c. c \<noteq> CHR ''/'') (rev p)) in if n = [] \<or> n = ''..'' then None else Some n)"

definition path_parent :: "string \<Rightarrow> string option" where
  "path_parent p =
     (if p = [] \<or> p = ''/'' then None
      else (let d = rev (dropWhile (\<lambda>c. c \<noteq> CHR ''/'') (rev p))
            in Some (if d = ''/'' then d else butlast d)))"

datatype event_kind = EvCreate | EvModify | EvRemove | EvAccess | EvOther

record fs_event =
  ev_kind :: event_kind
  ev_paths :: "string list"

text \<open>Does an event of the watched directories queue a notification?\<close>

definition event_relevant :: "string \<Rightarrow> string \<Rightarrow> fs_event \<Rightarrow> bool" where
  "event_relevant cert_path key_path event \<longleftrightarrow>
     ev_kind event \<in> {EvCreate, EvModify, EvRemove}
     \<and> (\<exists>p \<in> set (ev_paths event).
          p = cert_path \<or> p = key_path
          \<or> (path_file_name p \<noteq> None \<and> (path_file_name p = path_file_name cert_path
                \<or> path_file_name p = path_file_name key_path))
          \<or> Some p = path_parent cert_path \<or> Some p = path_parent key_path)"

text \<open>The directories the watcher registers, each once, in order.\<close>

definition watched_dirs :: "string \<Rightarrow> string \<Rightarrow> string list" where
  "watched_dirs cert_path key_path =
     (let ds = List.map_filter path_parent [cert_path, key_path]
      in fold (\<lambda>d seen. if d \<in> set seen then seen else seen @ [d]) ds [])"

fun register_dirs :: "(string \<Rightarrow> string + unit) \<Rightarrow> string list \<Rightarrow> tls_error + unit" where
  "register_dirs watch [] = Inr ()"
| "register_dirs watch (d # ds) = (case watch d of Inl e \<Rightarrow> Inl (TlsNotify e) | Inr _ \<Rightarrow> register_dirs watch ds)"

text \<open>Where the reload task stands: waiting for a notification, sleeping for the debounce time, or between the two
  reads with what the first one gave.\<close>

datatype reload_task = Waiting | Debouncing | CertRead "string + string" | Aborted

record tls_watch =
  tw_events :: "fs_event list" \<comment> \<open>raised, not yet seen by the callback\<close>
  tw_queue :: nat
  tw_task :: reload_task
  tw_files :: files
  tw_cell :: tls_config

text \<open>One step of the task; \<^verbatim>\<open>try_recv\<close> drains the queue before the first read, and an error of the reload is logged
  and leaves the cell.\<close>

definition reload_step :: "tls_lib \<Rightarrow> string \<Rightarrow> string \<Rightarrow> tls_watch \<Rightarrow> tls_watch" where
  "reload_step L cert_path key_path st =
     (case tw_task st of
        Waiting \<Rightarrow> (if tw_queue st = 0 then st else st\<lparr>tw_queue := tw_queue st - 1, tw_task := Debouncing\<rparr>)
      | Debouncing \<Rightarrow> st\<lparr>tw_queue := 0, tw_task := CertRead (tw_files st cert_path)\<rparr>
      | CertRead (Inl e) \<Rightarrow> st\<lparr>tw_task := Waiting\<rparr>
      | CertRead (Inr cert_pem) \<Rightarrow>
          (case tw_files st key_path of
             Inl e \<Rightarrow> st\<lparr>tw_task := Waiting\<rparr>
           | Inr key_pem \<Rightarrow>
               st\<lparr>tw_task := Waiting, tw_cell := snd (reload_from_pem L cert_pem key_pem (tw_cell st))\<rparr>)
      | Aborted \<Rightarrow> st)"

definition watcher_dropped :: "tls_watch \<Rightarrow> tls_watch" where
  "watcher_dropped st = st\<lparr>tw_task := Aborted\<rparr>"

definition tls_watcher_new ::
  "(string \<Rightarrow> string + unit) \<Rightarrow> string \<Rightarrow> string \<Rightarrow> files \<Rightarrow> tls_config \<Rightarrow> tls_error + tls_watch" where
  "tls_watcher_new watch cert_path key_path fs cell =
     (case register_dirs watch (watched_dirs cert_path key_path) of
        Inl e \<Rightarrow> Inl e
      | Inr _ \<Rightarrow> Inr \<lparr>tw_events = [], tw_queue = 0, tw_task = Waiting, tw_files = fs, tw_cell = cell\<rparr>)"

text \<open>The callback on the oldest event.\<close>

definition notify_event :: "string \<Rightarrow> string \<Rightarrow> tls_watch \<Rightarrow> tls_watch" where
  "notify_event cert_path key_path st =
     (case tw_events st of
        [] \<Rightarrow> st
      | ev # evs \<Rightarrow> st\<lparr>tw_events := evs,
            tw_queue := (if event_relevant cert_path key_path ev then tw_queue st + 1 else tw_queue st)\<rparr>)"

text \<open>What the file system raises when the content found at a path changes, as \<^verbatim>\<open>notify\<close> documents it:
  when the directory of the path is watched, some event of a creation, a modification (a rename is a modification of
  the name) or a removal, which names the path, or the same file under another spelling of its directory, or, with
  some backends, only the directory.  For a directory that is not watched nothing need be raised.\<close>

definition fs_reports :: "string list \<Rightarrow> string \<Rightarrow> fs_event list \<Rightarrow> bool" where
  "fs_reports dirs p evs \<longleftrightarrow>
     (\<forall>d. path_parent p = Some d \<and> d \<in> set dirs \<longrightarrow>
        (\<exists>ev \<in> set evs. ev_kind ev \<in> {EvCreate, EvModify, EvRemove}
           \<and> (p \<in> set (ev_paths ev) \<or> d \<in> set (ev_paths ev)
             \<or> (\<exists>q \<in> set (ev_paths ev). path_file_name q \<noteq> None \<and> path_file_name q = path_file_name p))))"

text \<open>The system: the task steps, the callback runs, the file system changes in any way and raises any events that
  report what changed at the two paths in the directories the watcher registered (among others, and others of siblings),
  the watcher is dropped.  Which of the events matter is left to the filter of the callback.\<close>

inductive tls_watch_step :: "tls_lib \<Rightarrow> string \<Rightarrow> string \<Rightarrow> tls_watch \<Rightarrow> tls_watch \<Rightarrow> bool"
  for L cert_path key_path where
  task: "tls_watch_step L cert_path key_path st (reload_step L cert_path key_path st)"
| notified: "tls_watch_step L cert_path key_path st (notify_event cert_path key_path st)"
| changed: "\<forall>p \<in> {cert_path, key_path}. fs p \<noteq> tw_files st p \<longrightarrow>
      fs_reports (watched_dirs cert_path key_path) p evs \<Longrightarrow>
    tls_watch_step L cert_path key_path st (st\<lparr>tw_files := fs, tw_events := tw_events st @ evs\<rparr>)"
| dropped: "tls_watch_step L cert_path key_path st (watcher_dropped st)"

inductive tls_watch_reach :: "tls_lib \<Rightarrow> string \<Rightarrow> string \<Rightarrow> tls_watch \<Rightarrow> tls_watch \<Rightarrow> bool"
  for L cert_path key_path where
  start: "tls_watch_reach L cert_path key_path st st"
| step: "tls_watch_reach L cert_path key_path st st' \<Longrightarrow> tls_watch_step L cert_path key_path st' st''
    \<Longrightarrow> tls_watch_reach L cert_path key_path st st''"

inductive_cases tls_watch_stepE: "tls_watch_step L cert_path key_path st st'"

subsection \<open>Lemmas\<close>

definition tls_valid :: "tls_lib \<Rightarrow> tls_config \<Rightarrow> bool" where
  "tls_valid L c \<longleftrightarrow> tl_single_cert L (tc_certs c) (tc_key c) = Inr ()"

lemma from_der_Inr:
  "from_der L certs key = Inr c \<Longrightarrow>
     tls_valid L c \<and> tc_certs c = certs \<and> tc_key c = key \<and> tc_alpn c = [ALPN_HTTP2, ALPN_HTTP11]"
  by (auto simp: from_der_def build_server_config_def tls_valid_def split: sum.splits)

lemma from_pem_Inr:
  "from_pem L cp kp = Inr c \<Longrightarrow> tls_valid L c \<and> tc_certs c \<noteq> [] \<and> tc_alpn c = [ALPN_HTTP2, ALPN_HTTP11]"
  by (auto simp: from_pem_def parse_certs_def dest!: from_der_Inr split: sum.splits if_splits)

text \<open>A reload is the construction of a new configuration, which takes the cell when it succeeds.\<close>

lemma reload_from_pem_eq:
  "reload_from_pem L cp kp cell =
     (case from_pem L cp kp of Inl e \<Rightarrow> (Inl e, cell) | Inr c \<Rightarrow> (Inr (), c))"
  by (simp add: reload_from_pem_def from_pem_def from_der_def split: sum.split)

lemma reload_from_pem_file_eq:
  "reload_from_pem_file L fs cp kp cell =
     (case from_pem_file L fs cp kp of Inl e \<Rightarrow> (Inl e, cell) | Inr c \<Rightarrow> (Inr (), c))"
  by (simp add: reload_from_pem_file_def from_pem_file_def reload_from_pem_eq split: sum.split)

text \<open>The directories of both paths are watched, and the filter of the callback accepts what reports a change there.\<close>

lemma watched_dirs_complete:
  "p \<in> {cp, kp} \<Longrightarrow> path_parent p = Some d \<Longrightarrow> d \<in> set (watched_dirs cp kp)"
  by (auto simp: watched_dirs_def List.map_filter_simps split: option.split)

lemma fs_reports_relevant:
  assumes "fs_reports (watched_dirs cp kp) p evs" "p \<in> {cp, kp}" "path_parent p \<noteq> None"
  shows "\<exists>ev \<in> set evs. event_relevant cp kp ev"
proof -
  obtain d where d: "path_parent p = Some d" using assms(3) by auto
  with assms(1) watched_dirs_complete [OF assms(2) d] obtain ev where
    "ev \<in> set evs" "ev_kind ev \<in> {EvCreate, EvModify, EvRemove}"
    "p \<in> set (ev_paths ev) \<or> d \<in> set (ev_paths ev)
       \<or> (\<exists>q \<in> set (ev_paths ev). path_file_name q \<noteq> None \<and> path_file_name q = path_file_name p)"
    by (auto simp: fs_reports_def)
  moreover have "event_relevant cp kp ev"
    unfolding event_relevant_def using calculation assms(2) d by (intro conjI) (blast, metis empty_iff insert_iff)
  ultimately show ?thesis by blast
qed

text \<open>The cell agrees with the files, when these make a configuration.\<close>

definition settled :: "tls_lib \<Rightarrow> string \<Rightarrow> string \<Rightarrow> tls_watch \<Rightarrow> bool" where
  "settled L cp kp st \<longleftrightarrow> (case from_pem_file L (tw_files st) cp kp of Inr c \<Rightarrow> tw_cell st = c | Inl _ \<Rightarrow> True)"

lemma settled_cong:
  "tw_files a cp = tw_files b cp \<Longrightarrow> tw_files a kp = tw_files b kp \<Longrightarrow> tw_cell a = tw_cell b
     \<Longrightarrow> settled L cp kp a = settled L cp kp b"
  by (auto simp: settled_def from_pem_file_def split: sum.splits)

text \<open>The cell and the two files are as they were when the watcher was made.\<close>

definition untouched :: "files \<Rightarrow> tls_config \<Rightarrow> string \<Rightarrow> string \<Rightarrow> tls_watch \<Rightarrow> bool" where
  "untouched fs0 cell0 cp kp st \<longleftrightarrow>
     tw_cell st = cell0 \<and> tw_files st cp = fs0 cp \<and> tw_files st kp = fs0 kp"

text \<open>Another read of the files is due.\<close>

definition noted :: "string \<Rightarrow> string \<Rightarrow> tls_watch \<Rightarrow> bool" where
  "noted cp kp st \<longleftrightarrow> (\<exists>ev \<in> set (tw_events st). event_relevant cp kp ev) \<or> 0 < tw_queue st \<or> tw_task st = Debouncing"

definition watch_ok :: "tls_lib \<Rightarrow> files \<Rightarrow> tls_config \<Rightarrow> string \<Rightarrow> string \<Rightarrow> tls_watch \<Rightarrow> bool" where
  "watch_ok L fs0 cell0 cp kp st \<longleftrightarrow> tls_valid L (tw_cell st) \<and>
     (noted cp kp st \<or> (case tw_task st of
        Waiting \<Rightarrow> settled L cp kp st \<or> untouched fs0 cell0 cp kp st | CertRead r \<Rightarrow> r = tw_files st cp | _ \<Rightarrow> True))"

lemma second_read_settles:
  "settled L cp kp (reload_step L cp kp st)" "tw_task (reload_step L cp kp st) = Waiting"
  "tls_valid L (tw_cell st) \<Longrightarrow> tls_valid L (tw_cell (reload_step L cp kp st))"
  if "tw_task st = CertRead (tw_files st cp)"
  using that
  by (auto simp: reload_step_def settled_def from_pem_file_def reload_from_pem_eq dest: from_pem_Inr split: sum.split)

lemma reload_step_valid: "tls_valid L (tw_cell st) \<Longrightarrow> tls_valid L (tw_cell (reload_step L cp kp st))"
  by (auto simp: reload_step_def reload_from_pem_eq dest: from_pem_Inr split: reload_task.split sum.split)

lemma reload_step_same [simp]:
  "tw_files (reload_step L cp kp st) = tw_files st" "tw_events (reload_step L cp kp st) = tw_events st"
  by (simp_all add: reload_step_def split: reload_task.split sum.split)

lemma watch_ok_reload_step: "watch_ok L fs0 cell0 cp kp st \<Longrightarrow> watch_ok L fs0 cell0 cp kp (reload_step L cp kp st)"
proof (cases "tw_task st")
  case (CertRead r)
  assume ok: "watch_ok L fs0 cell0 cp kp st"
  show ?thesis
  proof (cases "r = tw_files st cp")
    case True
    with CertRead ok second_read_settles [of st cp L kp] show ?thesis by (simp add: watch_ok_def)
  next
    case False
    with CertRead ok have "noted cp kp st" by (simp add: watch_ok_def)
    with CertRead have "noted cp kp (reload_step L cp kp st)"
      by (simp add: noted_def reload_step_def split: sum.split)
    with ok show ?thesis by (simp add: watch_ok_def reload_step_valid)
  qed
qed (auto simp: watch_ok_def noted_def settled_def untouched_def reload_step_def)

lemma watch_ok_notified: "watch_ok L fs0 cell0 cp kp st \<Longrightarrow> watch_ok L fs0 cell0 cp kp (notify_event cp kp st)"
  by (cases "tw_events st")
     (auto simp: watch_ok_def noted_def notify_event_def settled_def untouched_def split: reload_task.split
       cong: sum.case_cong)

lemma watch_ok_step:
  assumes "tls_watch_step L cp kp st st'" "path_parent cp \<noteq> None" "path_parent kp \<noteq> None"
  shows "watch_ok L fs0 cell0 cp kp st \<Longrightarrow> watch_ok L fs0 cell0 cp kp st'"
  using assms
proof (induction rule: tls_watch_step.induct)
  case (task st)
  from task(1) show ?case by (rule watch_ok_reload_step)
next
  case (notified st)
  then show ?case using watch_ok_notified by blast
next
  case (changed fs st evs)
  let ?st' = "st\<lparr>tw_files := fs, tw_events := tw_events st @ evs\<rparr>"
  show ?case
  proof (cases "\<exists>ev \<in> set evs. event_relevant cp kp ev")
    case True
    with changed.prems show ?thesis by (auto simp: watch_ok_def noted_def)
  next
    case False
    with changed fs_reports_relevant [of cp kp _ evs]
    have same: "fs cp = tw_files st cp" "fs kp = tw_files st kp" by blast+
    then have "settled L cp kp ?st' = settled L cp kp st" by (intro settled_cong) simp_all
    with changed.prems same False show ?thesis
      by (auto simp: watch_ok_def noted_def untouched_def split: reload_task.splits)
  qed
next
  case (dropped st)
  then show ?case by (simp add: watch_ok_def watcher_dropped_def)
qed

lemma watch_ok_reach:
  assumes "tls_watch_reach L cp kp st st'" "path_parent cp \<noteq> None" "path_parent kp \<noteq> None"
  shows "watch_ok L fs0 cell0 cp kp st \<Longrightarrow> watch_ok L fs0 cell0 cp kp st'"
  using assms by (induction rule: tls_watch_reach.induct) (auto intro: watch_ok_step)

text \<open>The callback runs on every pending event.\<close>

definition notify_all :: "string \<Rightarrow> string \<Rightarrow> tls_watch \<Rightarrow> tls_watch" where
  "notify_all cp kp st = (notify_event cp kp ^^ length (tw_events st)) st"

lemma notify_event_same [simp]:
  "tw_files (notify_event cp kp st) = tw_files st" "tw_cell (notify_event cp kp st) = tw_cell st"
  "tw_task (notify_event cp kp st) = tw_task st"
  by (simp_all add: notify_event_def split: list.split)

lemma notify_all_result:
  "watch_ok L fs0 cell0 cp kp st \<Longrightarrow> watch_ok L fs0 cell0 cp kp (notify_all cp kp st) \<and> tw_events (notify_all cp kp st) = []
    \<and> tw_files (notify_all cp kp st) = tw_files st \<and> tw_task (notify_all cp kp st) = tw_task st"
proof -
  have "watch_ok L fs0 cell0 cp kp st \<Longrightarrow> length (tw_events st) = n \<Longrightarrow>
      watch_ok L fs0 cell0 cp kp ((notify_event cp kp ^^ n) st) \<and> tw_events ((notify_event cp kp ^^ n) st) = []
    \<and> tw_files ((notify_event cp kp ^^ n) st) = tw_files st \<and> tw_task ((notify_event cp kp ^^ n) st) = tw_task st" for n
  proof (induction n arbitrary: st)
    case (Suc n)
    have "length (tw_events (notify_event cp kp st)) = n"
      using Suc.prems(2) by (cases "tw_events st") (simp_all add: notify_event_def)
    moreover have "watch_ok L fs0 cell0 cp kp (notify_event cp kp st)"
      by (rule watch_ok_notified [OF Suc.prems(1)])
    ultimately show ?case using Suc.IH [of "notify_event cp kp st"] by (simp add: funpow_swap1)
  qed simp
  then show "watch_ok L fs0 cell0 cp kp st \<Longrightarrow> ?thesis" by (simp add: notify_all_def)
qed

text \<open>How many steps the task is away from rest, when nothing more arrives.\<close>

definition reload_rank :: "tls_watch \<Rightarrow> nat" where
  "reload_rank st = (case tw_task st of
     Waiting \<Rightarrow> if tw_queue st = 0 then 0 else 3
   | CertRead _ \<Rightarrow> if tw_queue st = 0 then 1 else 4
   | Debouncing \<Rightarrow> 2 | Aborted \<Rightarrow> 0)"

lemma reload_rank_step: "reload_rank (reload_step L cp kp st) \<le> reload_rank st - 1"
  by (auto simp: reload_rank_def reload_step_def split: reload_task.split sum.split)

lemma reload_rank_iter: "reload_rank ((reload_step L cp kp ^^ n) st) \<le> reload_rank st - n"
proof (induction n)
  case (Suc n)
  then show ?case using reload_rank_step [of L cp kp "(reload_step L cp kp ^^ n) st"] by simp
qed simp

lemma reload_step_aborted: "tw_task (reload_step L cp kp st) = Aborted \<longleftrightarrow> tw_task st = Aborted"
  by (auto simp: reload_step_def split: reload_task.split sum.split)

lemma reload_rounds:
  assumes "watch_ok L fs0 cell0 cp kp st" "tw_events st = []" "tw_task st \<noteq> Aborted"
  shows "let st' = (reload_step L cp kp ^^ 4) st in
    tw_task st' = Waiting \<and> tw_queue st' = 0 \<and> tw_files st' = tw_files st \<and> (settled L cp kp st' \<or> untouched fs0 cell0 cp kp st')
    \<and> tls_valid L (tw_cell st')"
proof -
  let ?r = "reload_step L cp kp"
  have sys: "watch_ok L fs0 cell0 cp kp ((?r ^^ n) st) \<and> tw_events ((?r ^^ n) st) = [] \<and> tw_files ((?r ^^ n) st) = tw_files st
      \<and> tw_task ((?r ^^ n) st) \<noteq> Aborted" for n
    using assms by (induction n) (simp_all add: watch_ok_reload_step reload_step_aborted)
  have "reload_rank st \<le> 4" by (simp add: reload_rank_def split: reload_task.split)
  with reload_rank_iter [where L = L and cp = cp and kp = kp and n = 4 and st = st] have "reload_rank ((?r ^^ 4) st) = 0" by simp
  with sys [of 4] have "tw_task ((?r ^^ 4) st) = Waiting \<and> tw_queue ((?r ^^ 4) st) = 0"
    by (auto simp: reload_rank_def split: reload_task.splits if_splits)
  with sys [of 4] show ?thesis by (auto simp: Let_def watch_ok_def noted_def)
qed

subsection \<open>Properties\<close>

text \<open>A reload changes the active configuration completely or not at all.  When a file cannot be read, does not
  parse, holds no certificate or no key, or rustls refuses the pair, the error is returned and the active
  configuration stays; otherwise the new one is exactly what a fresh start from the same files would build, with
  both protocols offered: a restriction to HTTP/2 that the old configuration had is forgotten.\<close>

theorem reload_all_or_nothing:
  "(case reload_from_pem_file L fs cp kp cell of
      (Inl e, cell') \<Rightarrow> cell' = cell \<and> from_pem_file L fs cp kp = Inl e
    | (Inr _, cell') \<Rightarrow> from_pem_file L fs cp kp = Inr cell' \<and> tls_valid L cell' \<and> tc_certs cell' \<noteq> []
        \<and> tc_alpn cell' = [''h2'', ''http/1.1'']
        \<and> tc_alpn cell' \<noteq> tc_alpn (with_alpn_http2_only cell))"
proof (cases "from_pem_file L fs cp kp")
  case (Inl e)
  then show ?thesis by (simp add: reload_from_pem_file_eq)
next
  case (Inr c)
  then have "tls_valid L c \<and> tc_certs c \<noteq> [] \<and> tc_alpn c = [ALPN_HTTP2, ALPN_HTTP11]"
    by (auto simp: from_pem_file_def dest: from_pem_Inr split: sum.splits)
  with Inr show ?thesis
    by (simp add: reload_from_pem_file_eq with_alpn_http2_only_def ALPN_HTTP2_def ALPN_HTTP11_def)
qed

text \<open>C31: The watched certificate is eventually the active one.  Let a watcher be made for two paths that have a
  parent directory, on any configuration that rustls accepted.  Let the contents change in any way, each change of one
  of the two files in a registered directory being reported by some event of a creation, modification or removal that
  names the path, its file name or its directory, however late and among whatever other events, and a change may fall
  between the two reads of a reload.  Once the files stay as they are, the pending events have been seen and the task
  has made at most four more steps, and if the watcher has not been dropped, the task waits with an empty queue, and
  the active configuration is the one the files describe.  It is another one only when the files describe none, then
  an earlier one that rustls had accepted, or when nothing of the two files differs from what it was when the watcher
  was made, then the one that was active at that time.  The watcher is taken to be the only one that reloads the
  configuration.\<close>

theorem tls_watch_converges:
  assumes "tls_valid L cell" "tls_watcher_new watch cp kp fs0 cell = Inr st0"
    and "path_parent cp \<noteq> None" "path_parent kp \<noteq> None"
    and "tls_watch_reach L cp kp st0 st" "tw_task st \<noteq> Aborted"
  shows "let st' = (reload_step L cp kp ^^ 4) (notify_all cp kp st) in
    tw_task st' = Waiting \<and> tw_queue st' = 0 \<and> tw_files st' = tw_files st \<and> tls_valid L (tw_cell st')
    \<and> (case from_pem_file L (tw_files st) cp kp of
         Inr c \<Rightarrow> tw_cell st' = c
           \<or> (tw_cell st' = cell \<and> tw_files st cp = fs0 cp \<and> tw_files st kp = fs0 kp)
       | Inl _ \<Rightarrow> True)"
proof -
  have "st0 = \<lparr>tw_events = [], tw_queue = 0, tw_task = Waiting, tw_files = fs0, tw_cell = cell\<rparr>"
    using assms(2) by (simp add: tls_watcher_new_def split: sum.splits)
  with assms(1) have "watch_ok L fs0 cell cp kp st0" by (simp add: watch_ok_def untouched_def)
  then have ok: "watch_ok L fs0 cell cp kp st" by (rule watch_ok_reach [OF assms(5,3,4)])
  let ?st' = "(reload_step L cp kp ^^ 4) (notify_all cp kp st)"
  have rest: "tw_task ?st' = Waiting \<and> tw_queue ?st' = 0 \<and> tw_files ?st' = tw_files st
      \<and> (settled L cp kp ?st' \<or> untouched fs0 cell cp kp ?st') \<and> tls_valid L (tw_cell ?st')"
    using notify_all_result [OF ok] reload_rounds [of L fs0 cell cp kp "notify_all cp kp st"] assms(6)
    by (simp add: Let_def)
  then have files: "tw_files ?st' = tw_files st" by blast
  with rest show ?thesis unfolding Let_def settled_def untouched_def files by (auto split: sum.splits)
qed

definition demo_tls :: tls_lib where
  "demo_tls = \<lparr>tl_certs = (\<lambda>s. Inr [s]), tl_private_key = (\<lambda>s. Inr (Some s)),
     tl_single_cert = (\<lambda>cs k. if cs = [k] then Inr () else Inl ''mismatch''),
     tl_validity = (\<lambda>_. Some (Some 0)), tl_self_signed = (\<lambda>ns. Inr (''k'', ''k''))\<rparr>"

lemma demo_pem: "from_pem_file demo_tls (\<lambda>_. Inr d) cp kp = Inr \<lparr>tc_certs = [d], tc_key = d, tc_alpn = [''h2'', ''http/1.1'']\<rparr>"
  by (simp add: from_pem_file_def from_pem_def parse_certs_def parse_private_key_def from_der_def
      build_server_config_def demo_tls_def ALPN_HTTP2_def ALPN_HTTP11_def)

theorem tls_watch_converges_witness:
  "let st0 = \<lparr>tw_events = [], tw_queue = 0, tw_task = Waiting, tw_files = (\<lambda>_. Inr ''a''),
          tw_cell = \<lparr>tc_certs = [''a''], tc_key = ''a'', tc_alpn = [''h2'', ''http/1.1'']\<rparr>\<rparr>;
       st = st0\<lparr>tw_files := (\<lambda>_. Inr ''b''), tw_events := [\<lparr>ev_kind = EvModify, ev_paths = [''/t/tmp'', ''/t/c.pem'']\<rparr>,
          \<lparr>ev_kind = EvCreate, ev_paths = [''/s'']\<rparr>]\<rparr>
   in tw_cell ((reload_step demo_tls ''/t/c.pem'' ''/s/k.pem'' ^^ 4) (notify_all ''/t/c.pem'' ''/s/k.pem'' st))
       = \<lparr>tc_certs = [''b''], tc_key = ''b'', tc_alpn = [''h2'', ''http/1.1'']\<rparr>"
proof -
  let ?c = "\<lparr>tc_certs = [''a''], tc_key = ''a'', tc_alpn = [''h2'', ''http/1.1'']\<rparr>"
  let ?st0 = "\<lparr>tw_events = [], tw_queue = 0, tw_task = Waiting, tw_files = (\<lambda>_. Inr ''a''), tw_cell = ?c\<rparr>"
  let ?evs = "[\<lparr>ev_kind = EvModify, ev_paths = [''/t/tmp'', ''/t/c.pem'']\<rparr>, \<lparr>ev_kind = EvCreate, ev_paths = [''/s'']\<rparr>]"
  have valid: "tls_valid demo_tls ?c" by (simp add: tls_valid_def demo_tls_def)
  have parents: "path_parent ''/t/c.pem'' = Some ''/t''" "path_parent ''/s/k.pem'' = Some ''/s''"
    by (simp_all add: path_parent_def)
  have new: "tls_watcher_new (\<lambda>_. Inr ()) ''/t/c.pem'' ''/s/k.pem'' (\<lambda>_. Inr ''a'') ?c = Inr ?st0"
    by (simp add: tls_watcher_new_def watched_dirs_def parents List.map_filter_simps)
  have reach: "tls_watch_reach demo_tls ''/t/c.pem'' ''/s/k.pem'' ?st0
      (?st0\<lparr>tw_files := (\<lambda>_. Inr ''b''), tw_events := tw_events ?st0 @ ?evs\<rparr>)"
    by (rule tls_watch_reach.step [OF tls_watch_reach.start tls_watch_step.changed])
       (simp add: fs_reports_def parents)
  show ?thesis
    using tls_watch_converges [OF valid new _ _ reach] by (simp add: Let_def demo_pem parents)
qed

end
