(* ===== verification/Macros.thy ===== *)
theory Macros
  imports Router
begin

text \<open>
  The procedural macros: arvik-macros/src/lib.rs.

  A macro is a function from the syntax it is applied to to what it expands to: compile errors alone, the item with
  errors after it, the item with generated code, or a panic of the macro itself.  The syntax trees of the syn crate
  are datatypes with the parts the macros look at; attribute arguments are lists of tokens, and the parser of types is
  a parameter.  Generated code is kept as what it does: a route attribute generates a helper that registers the
  handler and a constant with the route's path and method mask; \<open>collect_routes\<close> resolves both by name, has the
  compiler check the constants, and runs the helpers on a router.
\<close>

subsection \<open>Syntax\<close>

record path_segment =
  ps_ident :: string
  ps_args :: "string option" \<comment> \<open>generic arguments, as printed\<close>

record syn_path =
  sp_leading_colon :: bool
  sp_segments :: "path_segment list"

datatype syn_type = TyPath syn_path | TyReference syn_type | TyOther string

datatype fn_arg =
    Receiver bool bool \<comment> \<open>by reference, mutable\<close>
  | TypedArg syn_type

record item_fn =
  fn_ident :: string
  fn_async :: bool
  fn_generic :: bool \<comment> \<open>type parameters or a where clause\<close>
  fn_inputs :: "fn_arg list"

record item_impl =
  im_trait :: bool
  im_generic :: bool
  im_fns :: "item_fn list"

datatype attr_token = TkIdent string | TkLit string | TkComma | TkEq | TkOther string

datatype macro_error = SynError | MacroErr string

datatype 'a expansion =
    OnlyErrors "macro_error list"
  | ItemWithErrors "macro_error list"
  | Expanded 'a
  | MacroPanic

fun last_type_segment_ident :: "syn_type \<Rightarrow> string option" where
  "last_type_segment_ident (TyPath p) =
     (if sp_segments p = [] then None else Some (ps_ident (last (sp_segments p))))"
| "last_type_segment_ident (TyReference t) = last_type_segment_ident t"
| "last_type_segment_ident (TyOther s) = None"

definition is_state_type :: "syn_type \<Rightarrow> bool" where
  "is_state_type ty \<longleftrightarrow> last_type_segment_ident ty = Some ''State''"

definition is_request_type :: "syn_type \<Rightarrow> bool" where
  "is_request_type ty \<longleftrightarrow> last_type_segment_ident ty = Some ''Request''"

definition is_builtin_body_type :: "syn_type \<Rightarrow> bool" where
  "is_builtin_body_type ty \<longleftrightarrow> (case last_type_segment_ident ty of
     Some i \<Rightarrow> i \<in> {''Json'', ''Form'', ''Multipart'', ''Body'', ''Bytes'', ''String'', ''Request''}
   | None \<Rightarrow> False)"

subsection \<open>Attribute arguments\<close>

text \<open>A trailing comma may follow; anything after it is refused with the macro's own message.\<close>

definition parse_end :: "string \<Rightarrow> 'a \<Rightarrow> attr_token list \<Rightarrow> macro_error + 'a" where
  "parse_end msg v ts = (case ts of
     [] \<Rightarrow> Inr v
   | TkComma # [] \<Rightarrow> Inr v
   | TkComma # _ \<Rightarrow> Inl (MacroErr msg)
   | _ \<Rightarrow> Inl SynError)"

definition parse_debug_handler_args ::
  "(attr_token list \<Rightarrow> (syn_type \<times> attr_token list) option) \<Rightarrow> attr_token list \<Rightarrow> macro_error + syn_type option" where
  "parse_debug_handler_args parse_type ts = (case ts of
     [] \<Rightarrow> Inr None
   | TkIdent i # rest \<Rightarrow>
       (if i \<noteq> ''state'' then Inl (MacroErr ''expected `state = Type`'')
        else (case rest of
                TkEq # rest2 \<Rightarrow>
                  (case parse_type rest2 of
                     Some (ty, rest3) \<Rightarrow> parse_end ''unexpected debug_handler argument'' (Some ty) rest3
                   | None \<Rightarrow> Inl SynError)
              | _ \<Rightarrow> Inl SynError))
   | _ \<Rightarrow> Inl SynError)"

definition parse_shorthand_route_args :: "attr_token list \<Rightarrow> macro_error + string" where
  "parse_shorthand_route_args ts = (case ts of
     TkLit p # rest \<Rightarrow> parse_end ''unexpected route argument'' p rest
   | _ \<Rightarrow> Inl SynError)"

definition parse_route_args :: "attr_token list \<Rightarrow> macro_error + (string \<times> string)" where
  "parse_route_args ts = (case ts of
     TkIdent m # TkComma # TkLit p # rest \<Rightarrow> parse_end ''unexpected route argument'' (m, p) rest
   | _ \<Rightarrow> Inl SynError)"

subsection \<open>debug_handler\<close>

text \<open>The errors, in the order the code collects them; \<open>body_errors\<close> is the loop over the body positions.\<close>

definition typed_args :: "item_fn \<Rightarrow> syn_type list" where
  "typed_args f = List.map_filter (\<lambda>a. case a of TypedArg t \<Rightarrow> Some t | Receiver _ _ \<Rightarrow> None) (fn_inputs f)"

definition body_positions :: "syn_type list \<Rightarrow> nat list" where
  "body_positions tys = filter (\<lambda>i. is_builtin_body_type (tys ! i)) [0..<length tys]"

definition body_errors :: "syn_type list \<Rightarrow> macro_error list" where
  "body_errors tys =
     (if tys = [] then []
      else map (\<lambda>_. MacroErr ''body-consuming extractors must be the last handler argument'')
             (filter (\<lambda>i. i \<noteq> length tys - 1) (body_positions tys)))"

definition debug_handler_errors :: "syn_type option \<Rightarrow> item_fn \<Rightarrow> macro_error list" where
  "debug_handler_errors state f =
     (if fn_async f then [] else [MacroErr ''#[debug_handler] requires an async function''])
   @ (if fn_generic f then [MacroErr ''#[debug_handler] does not support generic handler functions''] else [])
   @ (if length (fn_inputs f) > 16 then [MacroErr ''Arvik handlers support at most 16 extractors''] else [])
   @ List.map_filter (\<lambda>a. case a of
        TypedArg t \<Rightarrow> None
      | Receiver _ _ \<Rightarrow> Some (MacroErr ''#[debug_handler] can only be used on free functions'')) (fn_inputs f)
   @ (if list_ex is_state_type (typed_args f) \<and> state = None
      then [MacroErr ''handlers using State<T> must declare #[debug_handler(state = AppState)]''] else [])
   @ (if length (body_positions (typed_args f)) > 1
      then [MacroErr ''handlers can have only one body-consuming extractor''] else [])
   @ body_errors (typed_args f)"

text \<open>The bounds the generated function asserts: one per argument type, and the handler bound.\<close>

datatype assertion =
    AssertParts syn_type "syn_type option"
  | AssertRequest syn_type "syn_type option"
  | AssertHandler string "syn_type option"

definition debug_assertions :: "syn_type option \<Rightarrow> item_fn \<Rightarrow> assertion list" where
  "debug_assertions state f =
     (let tys = typed_args f
      in map (\<lambda>t. AssertParts t state) (take (length tys - 1) tys)
       @ (if tys = [] then [] else [AssertRequest (last tys) state])
       @ [AssertHandler (fn_ident f) state])"

definition expand_debug_handler :: "syn_type option \<Rightarrow> item_fn \<Rightarrow> assertion list expansion" where
  "expand_debug_handler state f =
     (let errors = debug_handler_errors state f
      in if errors \<noteq> [] then ItemWithErrors errors else Expanded (debug_assertions state f))"

text \<open>The attribute itself; \<open>None\<close> is an item that is not a function.\<close>

definition debug_handler ::
  "(attr_token list \<Rightarrow> (syn_type \<times> attr_token list) option) \<Rightarrow> attr_token list \<Rightarrow> item_fn option
     \<Rightarrow> assertion list expansion" where
  "debug_handler parse_type attr item =
     (case parse_debug_handler_args parse_type attr of
        Inl e \<Rightarrow> OnlyErrors [e]
      | Inr state \<Rightarrow> (case item of None \<Rightarrow> OnlyErrors [SynError] | Some f \<Rightarrow> expand_debug_handler state f))"

subsection \<open>Route attributes\<close>

datatype route_method = RmGet | RmPost | RmPut | RmDelete | RmPatch | RmHead | RmOptions | RmTrace | RmAny

definition ascii_upper :: "char \<Rightarrow> char" where
  "ascii_upper c = (let n = of_char c :: nat in if 97 \<le> n \<and> n \<le> 122 then char_of (n - 32) else c)"

definition to_ascii_uppercase :: "string \<Rightarrow> string" where
  "to_ascii_uppercase = map ascii_upper"

definition route_method_parse :: "string \<Rightarrow> route_method option" where
  "route_method_parse m =
     (let u = to_ascii_uppercase m
      in if u = ''GET'' then Some RmGet else if u = ''POST'' then Some RmPost
         else if u = ''PUT'' then Some RmPut else if u = ''DELETE'' then Some RmDelete
         else if u = ''PATCH'' then Some RmPatch else if u = ''HEAD'' then Some RmHead
         else if u = ''OPTIONS'' then Some RmOptions else if u = ''TRACE'' then Some RmTrace
         else if u = ''ANY'' then Some RmAny else None)"

text \<open>The free function the generated code calls, and the constant whose bits it stores.\<close>

fun constructor_ident :: "route_method \<Rightarrow> ('h, 'w, 's) handler \<Rightarrow> ('h, 'w, 's) method_router" where
  "constructor_ident RmGet h = mr_get mr_new h"
| "constructor_ident RmPost h = mr_post mr_new h"
| "constructor_ident RmPut h = mr_put mr_new h"
| "constructor_ident RmDelete h = mr_delete mr_new h"
| "constructor_ident RmPatch h = mr_patch mr_new h"
| "constructor_ident RmHead h = mr_head mr_new h"
| "constructor_ident RmOptions h = mr_options mr_new h"
| "constructor_ident RmTrace h = mr_trace_method h"
| "constructor_ident RmAny h = mr_any h"

fun method_filter_ident :: "route_method \<Rightarrow> method_filter" where
  "method_filter_ident RmGet = MF_GET"
| "method_filter_ident RmPost = MF_POST"
| "method_filter_ident RmPut = MF_PUT"
| "method_filter_ident RmDelete = MF_DELETE"
| "method_filter_ident RmPatch = MF_PATCH"
| "method_filter_ident RmHead = MF_HEAD"
| "method_filter_ident RmOptions = MF_OPTIONS"
| "method_filter_ident RmTrace = MF_TRACE"
| "method_filter_ident RmAny = MF_ANY"

definition normalize_route_path :: "string \<Rightarrow> string + string" where
  "normalize_route_path path =
     (if path = [] then Inl ''route path must not be empty''
      else if \<not> starts_with path ''/'' then Inl ''route path must start with `/`''
      else if CHR ''?'' \<in> set path \<or> CHR ''#'' \<in> set path
        then Inl ''route path must not contain a query string or fragment''
      else if list_ex (\<lambda>seg. starts_with seg '':'') (split_on CHR ''/'' path)
        then Inl ''route parameters must use `{name}` syntax, not `:name`''
      else Inr path)"

text \<open>\<^verbatim>\<open>format_ident!\<close> drops the prefix of a raw identifier, but not from the text of one, and panics when the
  result is not an identifier.\<close>

definition route_helper_ident :: "string \<Rightarrow> string" where
  "route_helper_ident i =
     ''__arvik_route_'' @ (case strip_prefix ''r#'' i of Some plain \<Rightarrow> plain | None \<Rightarrow> i)"

definition route_meta_ident :: "string \<Rightarrow> string option" where
  "route_meta_ident i =
     (let name = to_ascii_uppercase i
      in if CHR ''#'' \<in> set name then None else Some (''__ARVIK_ROUTE_META_'' @ name))"

record route_items =
  ri_handler :: string
  ri_helper :: string
  ri_meta :: string
  ri_path :: string
  ri_method :: route_method

definition expand_route :: "string \<Rightarrow> string \<Rightarrow> item_fn option \<Rightarrow> route_items expansion" where
  "expand_route m path item =
     (case item of
        None \<Rightarrow> OnlyErrors [SynError]
      | Some f \<Rightarrow>
          (case route_method_parse m of
             None \<Rightarrow> ItemWithErrors [MacroErr ''unsupported HTTP method'']
           | Some rm \<Rightarrow>
               (case normalize_route_path path of
                  Inl msg \<Rightarrow> ItemWithErrors [MacroErr msg]
                | Inr p \<Rightarrow>
                    (case route_meta_ident (fn_ident f) of
                       None \<Rightarrow> MacroPanic
                     | Some meta \<Rightarrow>
                         Expanded \<lparr>ri_handler = fn_ident f, ri_helper = route_helper_ident (fn_ident f),
                           ri_meta = meta, ri_path = p, ri_method = rm\<rparr>))))"

definition route_attribute :: "attr_token list \<Rightarrow> item_fn option \<Rightarrow> route_items expansion" where
  "route_attribute attr item =
     (case parse_route_args attr of Inl e \<Rightarrow> OnlyErrors [e] | Inr (m, p) \<Rightarrow> expand_route m p item)"

definition expand_shorthand_route :: "string \<Rightarrow> attr_token list \<Rightarrow> item_fn option \<Rightarrow> route_items expansion" where
  "expand_shorthand_route m attr item =
     (case parse_shorthand_route_args attr of Inl e \<Rightarrow> OnlyErrors [e] | Inr p \<Rightarrow> expand_route m p item)"

text \<open>The attributes \<^verbatim>\<open>get\<close>, \<^verbatim>\<open>post\<close>, ..., \<^verbatim>\<open>any\<close> pass the name of their method.\<close>

fun shorthand_name :: "route_method \<Rightarrow> string" where
  "shorthand_name RmGet = ''GET''"
| "shorthand_name RmPost = ''POST''"
| "shorthand_name RmPut = ''PUT''"
| "shorthand_name RmDelete = ''DELETE''"
| "shorthand_name RmPatch = ''PATCH''"
| "shorthand_name RmHead = ''HEAD''"
| "shorthand_name RmOptions = ''OPTIONS''"
| "shorthand_name RmTrace = ''TRACE''"
| "shorthand_name RmAny = ''ANY''"

definition shorthand_attribute :: "route_method \<Rightarrow> attr_token list \<Rightarrow> item_fn option \<Rightarrow> route_items expansion" where
  "shorthand_attribute rm attr item = expand_shorthand_route (shorthand_name rm) attr item"

lemma shorthand_name_parses: "route_method_parse (shorthand_name rm) = Some rm"
  by (cases rm)
     (simp_all add: route_method_parse_def to_ascii_uppercase_def ascii_upper_def char_of_def)

subsection \<open>collect_routes\<close>

datatype 'a ident_result = IdentOk 'a | IdentErr macro_error | IdentPanic

definition replace_last_path_ident :: "(string \<Rightarrow> string option) \<Rightarrow> syn_path \<Rightarrow> syn_path ident_result" where
  "replace_last_path_ident make_ident p =
     (if sp_segments p = [] then IdentErr (MacroErr ''expected route handler path'')
      else (let seg = last (sp_segments p)
            in if ps_args seg \<noteq> None
               then IdentErr (MacroErr ''collect_routes! does not support generic route paths'')
               else (case make_ident (ps_ident seg) of
                       None \<Rightarrow> IdentPanic
                     | Some i \<Rightarrow> IdentOk (p\<lparr>sp_segments := butlast (sp_segments p) @ [seg\<lparr>ps_ident := i\<rparr>]\<rparr>))))"

definition route_paths :: "syn_path \<Rightarrow> (syn_path \<times> syn_path) ident_result" where
  "route_paths p =
     (case replace_last_path_ident (\<lambda>i. Some (route_helper_ident i)) p of
        IdentErr e \<Rightarrow> IdentErr e
      | IdentPanic \<Rightarrow> IdentPanic
      | IdentOk helper \<Rightarrow>
          (case replace_last_path_ident route_meta_ident p of
             IdentErr e \<Rightarrow> IdentErr e
           | IdentPanic \<Rightarrow> IdentPanic
           | IdentOk meta \<Rightarrow> IdentOk (helper, meta)))"

text \<open>The loop: errors so far, helper and meta paths so far; \<open>None\<close> is the panic.  Two paths print the same tokens
  exactly when they are equal.\<close>

fun collect_loop :: "syn_path list \<Rightarrow> syn_path list \<Rightarrow> macro_error list \<Rightarrow> (syn_path \<times> syn_path) list
    \<Rightarrow> (macro_error list \<times> (syn_path \<times> syn_path) list) option" where
  "collect_loop previous [] errors items = Some (errors, items)"
| "collect_loop previous (p # ps) errors items =
     (let errors = (if p \<in> set previous then errors @ [MacroErr ''duplicate route in collect_routes!''] else errors)
      in case route_paths p of
           IdentOk hm \<Rightarrow> collect_loop (previous @ [p]) ps errors (items @ [hm])
         | IdentErr e \<Rightarrow> collect_loop (previous @ [p]) ps (errors @ [e]) items
         | IdentPanic \<Rightarrow> None)"

definition expand_collect_routes :: "syn_path list \<Rightarrow> (syn_path \<times> syn_path) list expansion" where
  "expand_collect_routes paths =
     (case collect_loop [] paths [] [] of
        None \<Rightarrow> MacroPanic
      | Some (errors, items) \<Rightarrow> if errors \<noteq> [] then OnlyErrors errors else Expanded items)"

text \<open>What a route attribute generated: the helper and the constant, with the handler they are for.\<close>

record ('h, 'w, 's) route_fn =
  rf_path :: string
  rf_method :: route_method
  rf_handler :: "('h, 'w, 's) handler"

definition route_helper :: "'t trie_lib \<Rightarrow> ('h, 'w, 's) route_fn \<Rightarrow> ('t, 'h, 'w, 's) router
    \<Rightarrow> ('t, 'h, 'w, 's) router option" where
  "route_helper T f r = router_route_collected T r (rf_path f) (constructor_ident (rf_method f) (rf_handler f))"

definition route_meta_const :: "('h, 'w, 's) route_fn \<Rightarrow> route_meta" where
  "route_meta_const f = \<lparr>rm_path = rf_path f, rm_method_mask = method_filter_ident (rf_method f)\<rparr>"

fun run_helpers :: "'t trie_lib \<Rightarrow> ('h, 'w, 's) route_fn list \<Rightarrow> ('t, 'h, 'w, 's) router
    \<Rightarrow> ('t, 'h, 'w, 's) router option" where
  "run_helpers T [] r = Some r"
| "run_helpers T (f # fs) r = (case route_helper T f r of Some r' \<Rightarrow> run_helpers T fs r' | None \<Rightarrow> None)"

text \<open>
  The invocation, compiled: \<open>helpers\<close> and \<open>metas\<close> resolve a path to what is declared under it.  A path that does not
  resolve, or the array length \<^verbatim>\<open>1 - route_conflict_count\<close> not being 1, is a compile error (\<open>None\<close>); otherwise the
  value is the closure, which answers \<open>None\<close> when a registration panics.
\<close>

definition collect_routes ::
  "'t trie_lib \<Rightarrow> (syn_path \<Rightarrow> ('h, 'w, 's) route_fn option) \<Rightarrow> (syn_path \<Rightarrow> route_meta option) \<Rightarrow> syn_path list
     \<Rightarrow> (('t, 'h, 'w, 's) router \<Rightarrow> ('t, 'h, 'w, 's) router option) option" where
  "collect_routes T helpers metas paths =
     (case expand_collect_routes paths of
        Expanded items \<Rightarrow>
          (case (those (map (helpers \<circ> fst) items), those (map (metas \<circ> snd) items)) of
             (Some fs, Some ms) \<Rightarrow> if 1 - route_conflict_count ms \<noteq> 1 then None else Some (run_helpers T fs)
           | _ \<Rightarrow> None)
      | _ \<Rightarrow> None)"

text \<open>\<^verbatim>\<open>Router::routes\<close> applies the closure.\<close>

definition router_routes :: "('t, 'h, 'w, 's) router \<Rightarrow> (('t, 'h, 'w, 's) router \<Rightarrow> ('t, 'h, 'w, 's) router option)
    \<Rightarrow> ('t, 'h, 'w, 's) router option" where
  "router_routes r routes = routes r"

subsection \<open>The handler attribute\<close>

definition first_arg_ok :: "fn_arg \<Rightarrow> bool" where
  "first_arg_ok a \<longleftrightarrow> (case a of Receiver byref mutable \<Rightarrow> byref \<and> \<not> mutable | TypedArg _ \<Rightarrow> False)"

definition second_arg_ok :: "fn_arg \<Rightarrow> bool" where
  "second_arg_ok a \<longleftrightarrow> (case a of TypedArg ty \<Rightarrow> is_request_type ty | Receiver _ _ \<Rightarrow> False)"

definition validate_handler_call :: "item_fn \<Rightarrow> macro_error list" where
  "validate_handler_call call =
     (if fn_async call then [] else [MacroErr ''#[handler] call method must be async''])
   @ (if fn_generic call then [MacroErr ''#[handler] call method must not be generic''] else [])
   @ (case fn_inputs call of
        [a, b] \<Rightarrow>
          (if first_arg_ok a then [] else [MacroErr ''#[handler] call method must take &self as the first argument''])
        @ (if second_arg_ok b then []
           else [MacroErr ''#[handler] call method second argument must be arvik::Request''])
      | _ \<Rightarrow> [MacroErr ''#[handler] call method must have signature call(&self, req: arvik::Request)''])"

definition handler_errors :: "item_impl \<Rightarrow> macro_error list" where
  "handler_errors input =
     (if im_trait input then [MacroErr ''#[handler] must be used on an inherent impl block''] else [])
   @ (if im_generic input then [MacroErr ''#[handler] does not support generic impl blocks yet''] else [])
   @ (case filter (\<lambda>f. fn_ident f = ''call'') (im_fns input) of
        [] \<Rightarrow> [MacroErr ''#[handler] requires an async fn call(&self, req: arvik::Request)'']
      | [call] \<Rightarrow> validate_handler_call call
      | _ \<Rightarrow> [MacroErr ''#[handler] requires exactly one method named call''])"

text \<open>The generated implementation: it ignores the state, calls the method and converts its result.\<close>

definition generated_handler :: "('h request \<Rightarrow> 'w \<Rightarrow> ('r + string) \<times> 'w) \<Rightarrow> ('r \<Rightarrow> 'h response)
    \<Rightarrow> ('h, 'w, 's) handler" where
  "generated_handler call into_response req state w =
     (case call req w of (Inl v, w') \<Rightarrow> (Done (into_response v), w') | (Inr p, w') \<Rightarrow> (Panicked p, w'))"

definition expand_handler :: "('h request \<Rightarrow> 'w \<Rightarrow> ('r + string) \<times> 'w) \<Rightarrow> ('r \<Rightarrow> 'h response) \<Rightarrow> item_impl
    \<Rightarrow> ('h, 'w, 's) handler expansion" where
  "expand_handler call into_response input =
     (let errors = handler_errors input
      in if errors \<noteq> [] then ItemWithErrors errors else Expanded (generated_handler call into_response))"

definition handler_attribute :: "('h request \<Rightarrow> 'w \<Rightarrow> ('r + string) \<times> 'w) \<Rightarrow> ('r \<Rightarrow> 'h response) \<Rightarrow> attr_token list
    \<Rightarrow> item_impl option \<Rightarrow> ('h, 'w, 's) handler expansion" where
  "handler_attribute call into_response attr item =
     (if attr \<noteq> [] then OnlyErrors [MacroErr ''#[handler] does not accept arguments'']
      else (case item of None \<Rightarrow> OnlyErrors [SynError] | Some i \<Rightarrow> expand_handler call into_response i))"

subsection \<open>Lemmas on registration\<close>

definition apart :: "('h, 'w, 's) route_fn \<Rightarrow> ('h, 'w, 's) route_fn \<Rightarrow> bool" where
  "apart f g \<longleftrightarrow> rf_path f = rf_path g \<longrightarrow>
     method_filter_ident (rf_method f) AND method_filter_ident (rf_method g) = 0"

lemma apart_sym: "apart f g \<Longrightarrow> apart g f"
  by (simp add: apart_def and.commute)

lemma conflict_free_apart:
  "route_conflict_count (map route_meta_const fs) = 0 \<longleftrightarrow> sorted_wrt apart fs"
proof -
  have "route_conflict_count (map route_meta_const fs) = 0
      \<longleftrightarrow> assert_no_route_conflicts (map route_meta_const fs) \<noteq> None"
    by (simp add: assert_no_route_conflicts_def)
  then show ?thesis
    by (auto simp: assert_no_route_conflicts_iff sorted_wrt_iff_nth_less apart_def route_meta_const_def)
qed

lemma apart_elems: "sorted_wrt apart fs \<Longrightarrow> f \<in> set fs \<Longrightarrow> g \<in> set fs \<Longrightarrow> f \<noteq> g \<Longrightarrow> apart f g"
  by (induction fs) (auto intro: apart_sym)

text \<open>What a constructor builds.\<close>

lemma constructor_ident_fields:
  "mr_handlers (constructor_ident rm h) = [(method_filter_ident rm, h)]"
  "mr_allow (constructor_ident rm h) = method_filter_ident rm"
  "mr_layers (constructor_ident rm h) = []" "mr_wf (constructor_ident rm h)"
  "mr_baked (constructor_ident rm h) = None"
proof -
  have "constructor_ident rm h = mr_on mr_new (method_filter_ident rm) h"
    by (cases rm) (simp_all add: mr_get_def mr_post_def mr_put_def mr_delete_def mr_patch_def mr_head_def
      mr_options_def mr_trace_method_def mr_any_def)
  then show "mr_handlers (constructor_ident rm h) = [(method_filter_ident rm, h)]"
    "mr_allow (constructor_ident rm h) = method_filter_ident rm"
    "mr_layers (constructor_ident rm h) = []" "mr_wf (constructor_ident rm h)"
    "mr_baked (constructor_ident rm h) = None"
    by (simp_all add: mr_on_def mr_new_def mr_wf_def mf_bitor_def MF_NONE_def)
qed

lemma and_zero_bits: "(\<And>k. \<not> (bit a k \<and> bit b k)) \<Longrightarrow> (a AND b :: method_filter) = 0"
  by (intro bit_eqI) (simp add: bit_and_iff)

lemma and_zero_bitD: "(a AND b :: method_filter) = 0 \<Longrightarrow> bit a k \<Longrightarrow> bit b k \<Longrightarrow> False"
  by (metis bit_0_eq bit_and_iff bot_apply bot_bool_def)

text \<open>The router after the routes \<open>fs\<close> were collected into an empty one.\<close>

definition collected_entry :: "('h, 'w, 's) route_fn list \<Rightarrow> ('h, 'w, 's) route_entry \<Rightarrow> bool" where
  "collected_entry fs e \<longleftrightarrow>
     mr_handlers (re_router e) = map (\<lambda>f. (method_filter_ident (rf_method f), rf_handler f))
       (filter (\<lambda>f. rf_path f = re_pattern e) fs)
     \<and> mr_layers (re_router e) = [] \<and> mr_wf (re_router e)"

lemma collected_entry_bit:
  "collected_entry fs e \<Longrightarrow> bit (mr_allow (re_router e)) k \<longleftrightarrow>
     (\<exists>f \<in> set fs. rf_path f = re_pattern e \<and> bit (method_filter_ident (rf_method f)) k)"
  by (auto simp: collected_entry_def mr_wf_bit)

lemma collected_entry_merge:
  assumes "collected_entry fs e" "re_pattern e = rf_path f" "\<And>g. g \<in> set fs \<Longrightarrow> apart g f"
  shows "\<exists>m. mr_merge (re_router e) (constructor_ident (rf_method f) (rf_handler f)) = Some m
    \<and> collected_entry (fs @ [f]) (e\<lparr>re_router := m\<rparr>)"
proof -
  let ?c = "constructor_ident (rf_method f) (rf_handler f)"
  have "mr_allow (re_router e) AND mr_allow ?c = 0"
  proof (rule and_zero_bits)
    show "\<not> (bit (mr_allow (re_router e)) k \<and> bit (mr_allow ?c) k)" for k
      using assms(2,3) and_zero_bitD
      by (auto simp: collected_entry_bit [OF assms(1)] constructor_ident_fields apart_def)
  qed
  then obtain m where m: "mr_merge (re_router e) ?c = Some m" by (simp add: mr_merge_def)
  moreover have "mr_wf m"
    using mr_wf_merge [OF _ _ m] assms(1) by (simp add: collected_entry_def constructor_ident_fields)
  ultimately show ?thesis
    using assms(1,2) by (auto simp: mr_merge_def collected_entry_def constructor_ident_fields split: if_splits)
qed

lemma collected_entry_other:
  "collected_entry fs e \<Longrightarrow> re_pattern e \<noteq> rf_path f \<Longrightarrow> collected_entry (fs @ [f]) e"
  by (auto simp: collected_entry_def)

lemma merge_into_entry_None: "merge_into_entry p mr es = None \<longleftrightarrow> p \<notin> set (map re_pattern es)"
  by (induction es) auto

lemma merge_into_entry_collected:
  assumes "list_all (collected_entry fs) es" "distinct (map re_pattern es)" "rf_path f \<in> set (map re_pattern es)"
    and "\<And>g. g \<in> set fs \<Longrightarrow> apart g f"
  shows "\<exists>es'. merge_into_entry (rf_path f) (constructor_ident (rf_method f) (rf_handler f)) es = Some (Some es')
    \<and> map re_pattern es' = map re_pattern es \<and> list_all (collected_entry (fs @ [f])) es'"
  using assms(1-3)
proof (induction es)
  case (Cons e es)
  show ?case
  proof (cases "re_pattern e = rf_path f")
    case True
    with Cons.prems collected_entry_merge [of fs e f] assms(4) obtain m
      where "mr_merge (re_router e) (constructor_ident (rf_method f) (rf_handler f)) = Some m"
        "collected_entry (fs @ [f]) (e\<lparr>re_router := m\<rparr>)" by auto
    moreover have "re_pattern x \<noteq> rf_path f" if "x \<in> set es" for x
      using Cons.prems(2) True that by (metis distinct.simps(2) image_eqI list.simps(9) set_map)
    then have "list_all (collected_entry (fs @ [f])) es"
      using Cons.prems by (auto simp: list_all_iff intro!: collected_entry_other)
    ultimately show ?thesis using True by simp
  next
    case False
    with Cons collected_entry_other [of fs e f] show ?thesis by auto
  qed
qed simp

text \<open>The handler found for a method its own filter matches.\<close>

lemma collected_entry_select:
  assumes "collected_entry fs e" "sorted_wrt apart fs" "g \<in> set fs" "rf_path g = re_pattern e"
    and "mf_matches (method_filter_ident (rf_method g)) m"
  shows "mr_select (re_router e) m = Some (method_filter_ident (rf_method g), rf_handler g)"
proof -
  let ?F = "\<lambda>f. (method_filter_ident (rf_method f), rf_handler f)"
  let ?P = "\<lambda>(f, _). mr_matched (mr_allow (re_router e)) m f"
  let ?gs = "filter (\<lambda>f. rf_path f = re_pattern e) fs"
  have allow: "mf_matches (mr_allow (re_router e)) m"
    using assms(3-5) by (auto simp: mf_matches_bit collected_entry_bit [OF assms(1)])
  have only: "f = g" if "f \<in> set ?gs" "?P (?F f)" for f
  proof (rule ccontr)
    assume "f \<noteq> g"
    with apart_elems [OF assms(2), of f g] that(1) assms(3) have "apart f g" by simp
    with that(1) assms(4) have "method_filter_ident (rf_method f) AND method_filter_ident (rf_method g) = 0"
      by (simp add: apart_def)
    moreover have "mf_matches (method_filter_ident (rf_method f)) m"
      using that(2) allow by (auto simp: mr_matched_def)
    ultimately show False using assms(5) and_zero_bitD by (auto simp: mf_matches_bit)
  qed
  have "find ?P (map ?F ?gs) \<noteq> None"
    using assms(3-5) by (auto simp: find_None_iff mr_matched_def)
  then obtain y where "find ?P (map ?F ?gs) = Some y" by blast
  then obtain pre post where sp: "map ?F ?gs = pre @ y # post" "?P y"
    using find_Some_split [of ?P "map ?F ?gs" y] by blast
  have "y \<in> set (map ?F ?gs)" using sp(1) by (metis in_set_conv_decomp)
  then obtain f where f: "f \<in> set ?gs" "y = ?F f" by auto
  with sp(2) have "?P (?F f)" by simp
  with only [of f] f \<open>find ?P (map ?F ?gs) = Some y\<close> assms(1) show ?thesis
    by (simp add: mr_select_def collected_entry_def)
qed


context path_trie
begin

definition collected :: "('h, 'w, 's) route_fn list \<Rightarrow> ('t, 'h, 'w, 's) router \<Rightarrow> bool" where
  "collected fs r \<longleftrightarrow> index_ok (routes (r_trie r)) (r_routes r) \<and> list_all (collected_entry fs) (r_routes r)
     \<and> set (map re_pattern (r_routes r)) = rf_path ` set fs"

lemma collected_new: "collected [] (router_new T)"
  by (simp add: collected_def router_new_def routes_new index_ok_Nil)

lemma collected_unregistered:
  assumes "collected fs r" "p \<notin> set (map re_pattern (r_routes r))"
  shows "routes (r_trie r) p = None"
proof (cases "routes (r_trie r) p")
  case (Some i)
  with assms(1) have "i < length (r_routes r)" "re_pattern (r_routes r ! i) = p"
    by (simp_all add: collected_def index_ok_def)
  then have "p \<in> set (map re_pattern (r_routes r))" unfolding in_set_conv_nth by auto
  with assms(2) show ?thesis by simp
qed simp

lemma collected_step:
  assumes "collected fs r" "\<And>g. g \<in> set fs \<Longrightarrow> apart g f"
    and "rf_path f \<notin> set (map re_pattern (r_routes r))
      \<Longrightarrow> trie_insert T (r_trie r) (rf_path f) (length (r_routes r)) \<noteq> None"
  shows "\<exists>r'. route_helper T f r = Some r' \<and> collected (fs @ [f]) r'"
proof (cases "rf_path f \<in> set (map re_pattern (r_routes r))")
  case True
  have r: "list_all (collected_entry fs) (r_routes r)" "distinct (map re_pattern (r_routes r))"
    using assms(1) by (auto simp: collected_def intro: index_ok_distinct)
  from merge_into_entry_collected [OF r True assms(2)]
  obtain es where es: "merge_into_entry (rf_path f) (constructor_ident (rf_method f) (rf_handler f)) (r_routes r)
      = Some (Some es)" "map re_pattern es = map re_pattern (r_routes r)" "list_all (collected_entry (fs @ [f])) es"
    by blast
  moreover have "collected (fs @ [f]) (r\<lparr>r_routes := es\<rparr>)"
    using assms(1) es(2,3) True index_ok_patterns [OF _ es(2)] arg_cong [OF es(2), of set]
    by (auto simp: collected_def)
  ultimately show ?thesis by (simp add: route_helper_def router_route_collected_def)
next
  case False
  have none: "routes (r_trie r) (rf_path f) = None" by (rule collected_unregistered [OF assms(1) False])
  obtain t where t: "trie_insert T (r_trie r) (rf_path f) (length (r_routes r)) = Some t"
    using assms(3) [OF False] by blast
  let ?e = "route_entry_new (rf_path f) (constructor_ident (rf_method f) (rf_handler f))"
  have "rf_path g \<noteq> rf_path f" if "g \<in> set fs" for g
    using False assms(1) that unfolding collected_def by (metis image_eqI)
  then have "filter (\<lambda>g. rf_path g = rf_path f) fs = []"
    by (simp add: filter_empty_conv)
  then have "collected_entry (fs @ [f]) ?e"
    by (simp add: collected_entry_def constructor_ident_fields)
  moreover have "re_pattern e \<noteq> rf_path f" if "e \<in> set (r_routes r)" for e
    using False that by (metis image_eqI set_map)
  then have "list_all (collected_entry (fs @ [f])) (r_routes r)"
    using assms(1) by (auto simp: collected_def list_all_iff intro!: collected_entry_other)
  moreover have "index_ok (routes t) (r_routes r @ [?e])"
    using assms(1) none routes_insert [OF t] by (auto simp: collected_def intro: index_ok_snoc)
  ultimately show ?thesis
    using assms(1) False t merge_into_entry_None [of "rf_path f" _ "r_routes r"]
    by (auto simp: route_helper_def router_route_collected_def router_route_def collected_def)
qed

lemma run_helpers_collected:
  assumes "collected before r" "sorted_wrt apart (before @ fs)"
    and "\<And>t v f. f \<in> set fs \<Longrightarrow> routes t (rf_path f) = None \<Longrightarrow> trie_insert T t (rf_path f) v \<noteq> None"
  shows "\<exists>r'. run_helpers T fs r = Some r' \<and> collected (before @ fs) r'"
  using assms
proof (induction fs arbitrary: "before" r)
  case (Cons f fs)
  then obtain r' where "route_helper T f r = Some r'" "collected (before @ [f]) r'"
    using collected_step [of "before" r f] collected_unregistered [of "before" r "rf_path f"]
    by (auto simp: sorted_wrt_append)
  with Cons.IH [of "before @ [f]" r'] Cons.prems show ?case by auto
qed simp

text \<open>Whatever the paths, a building that returned has collected all of them.\<close>

lemma route_helper_inserts:
  "route_helper T f r = Some r' \<Longrightarrow> rf_path f \<notin> set (map re_pattern (r_routes r))
     \<Longrightarrow> trie_insert T (r_trie r) (rf_path f) (length (r_routes r)) \<noteq> None"
  using merge_into_entry_None [of "rf_path f" "constructor_ident (rf_method f) (rf_handler f)" "r_routes r"]
  by (auto simp: route_helper_def router_route_collected_def router_route_def)

lemma run_helpers_returned:
  assumes "run_helpers T fs r = Some r'" "collected before r" "sorted_wrt apart (before @ fs)"
  shows "collected (before @ fs) r'"
  using assms
proof (induction fs arbitrary: "before" r)
  case (Cons f fs)
  then obtain r1 where r1: "route_helper T f r = Some r1" "run_helpers T fs r1 = Some r'"
    by (auto split: option.splits)
  with collected_step [of "before" r f, OF Cons.prems(2) _ route_helper_inserts [OF r1(1)]] Cons.prems(3)
  have "collected (before @ [f]) r1" by (auto simp: sorted_wrt_append)
  with Cons.IH [of r1 "before @ [f]"] r1(2) Cons.prems(3) show ?case by auto
qed simp

lemma collected_dispatch:
  assumes "collected fs r" "sorted_wrt apart fs" "f \<in> set fs" "is_static (rf_path f)"
    and "uri_path (req_uri req) = rf_path f" "mf_matches (method_filter_ident (rf_method f)) (req_method req)"
  shows "router_dispatch H T r req st w =
    then_response (with_matched_path (rf_path f)) (rf_handler f (annotated (rf_path f) [] req) st w)"
proof -
  have "rf_path f \<in> set (map re_pattern (r_routes r))" using assms(1,3) by (auto simp: collected_def)
  then obtain i where i: "i < length (r_routes r)" "re_pattern (r_routes r ! i) = rf_path f"
    unfolding in_set_conv_nth by auto
  then have "trie_at T (r_trie r) (rf_path f) = Some (i, [])"
    using assms(1,4) by (intro at_static) (auto simp: collected_def index_ok_def)
  moreover have e: "collected_entry fs (r_routes r ! i)"
    using assms(1) i(1) by (simp add: collected_def list_all_length)
  moreover have "mr_select (re_router (r_routes r ! i)) (req_method req) = Some (method_filter_ident (rf_method f), rf_handler f)"
    by (rule collected_entry_select [OF e assms(2,3) _ assms(6)]) (simp add: i(2))
  ultimately show ?thesis
    using assms(5) i(2)
    by (simp add: router_dispatch_def mr_dispatch_def collected_entry_def handler_service_def annotated_def Let_def)
qed

end

lemma collect_loop_items:
  "collect_loop previous ps errors items = Some ([], out) \<Longrightarrow>
     errors = [] \<and> (\<exists>hms. out = items @ hms \<and> list_all2 (\<lambda>p hm. route_paths p = IdentOk hm) ps hms)
     \<and> distinct ps \<and> set ps \<inter> set previous = {}"
proof (induction ps arbitrary: previous errors items)
  case (Cons p ps)
  then obtain hm where hm: "route_paths p = IdentOk hm"
    by (cases "route_paths p") (auto simp: Let_def)
  let ?errors = "if p \<in> set previous then errors @ [MacroErr ''duplicate route in collect_routes!''] else errors"
  have "collect_loop (previous @ [p]) ps ?errors (items @ [hm]) = Some ([], out)"
    using Cons.prems hm by (simp add: Let_def)
  from Cons.IH [OF this] hm show ?case by (auto simp: list_all2_Cons1 split: if_splits)
qed simp

lemma list_all2_those:
  "those (map f xs) = Some ys \<longleftrightarrow> list_all2 (\<lambda>x y. f x = Some y) xs ys"
proof (induction xs arbitrary: ys)
  case (Cons x xs)
  then show ?case by (cases ys) (auto split: option.splits)
qed auto

lemma list_all2_members:
  "list_all2 P xs ys \<Longrightarrow> (\<forall>x \<in> set xs. \<exists>y \<in> set ys. P x y) \<and> (\<forall>y \<in> set ys. \<exists>x \<in> set xs. P x y)"
  by (induction rule: list_all2_induct) auto

text \<open>What a compiled invocation runs.\<close>

lemma collect_routes_Some:
  assumes "collect_routes T helpers metas paths = Some build"
    and "\<And>p h m. p \<in> set paths \<Longrightarrow> route_paths p = IdentOk (h, m) \<Longrightarrow> metas m = map_option route_meta_const (helpers h)"
  shows "\<exists>fs. build = run_helpers T fs \<and> sorted_wrt apart fs \<and> distinct paths
    \<and> list_all2 (\<lambda>p f. \<exists>h m. route_paths p = IdentOk (h, m) \<and> helpers h = Some f) paths fs"
proof -
  obtain items where loop: "collect_loop [] paths [] [] = Some ([], items)"
    and ex: "expand_collect_routes paths = Expanded items"
    using assms(1)
    by (auto simp: collect_routes_def expand_collect_routes_def split: option.splits prod.splits if_splits)
  then obtain fs ms where fs: "list_all2 (\<lambda>hm f. helpers (fst hm) = Some f) items fs"
      "list_all2 (\<lambda>hm m. metas (snd hm) = Some m) items ms" "route_conflict_count ms = 0"
      "build = run_helpers T fs"
    using assms(1)
    by (auto simp: collect_routes_def list_all2_those [symmetric] comp_def split: option.splits if_splits)
  have items: "list_all2 (\<lambda>p hm. route_paths p = IdentOk hm) paths items" "distinct paths"
    using collect_loop_items [OF loop] by auto
  note len = list_all2_lengthD [OF fs(1)] list_all2_lengthD [OF fs(2)] list_all2_lengthD [OF items(1)]
  have "ms = map route_meta_const fs"
  proof (intro nth_equalityI)
    show "length ms = length (map route_meta_const fs)" using len by simp
    fix i assume "i < length ms"
    then have i: "i < length items" "i < length paths" "i < length fs" using len by simp_all
    have "route_paths (paths ! i) = IdentOk (fst (items ! i), snd (items ! i))"
      using list_all2_nthD [OF items(1) i(2)] by simp
    from assms(2) [OF nth_mem [OF i(2)] this] show "ms ! i = map route_meta_const fs ! i"
      using list_all2_nthD [OF fs(1) i(1)] list_all2_nthD [OF fs(2) i(1)] i(3) by simp
  qed
  with fs(3) have "sorted_wrt apart fs" by (simp add: conflict_free_apart [symmetric])
  moreover have "list_all2 (\<lambda>p f. \<exists>h m. route_paths p = IdentOk (h, m) \<and> helpers h = Some f) paths fs"
    by (rule list_all2_trans [OF _ items(1) fs(1)]) (metis prod.collapse)
  ultimately show ?thesis using fs(4) items(2) by blast
qed

text \<open>Collecting registers routes only: the router keeps its layers.\<close>

lemma route_helper_built:
  assumes "route_helper T f r = Some r'" "router_built T with_pq r"
  shows "router_built T with_pq r' \<and> r_layers r' = r_layers r \<and> r_route_layers r' = r_route_layers r"
proof
  show "router_built T with_pq r'"
    using assms router_built.route_collected [OF _ constructor_ident_fields(4,5)] unfolding route_helper_def by blast
  show "r_layers r' = r_layers r \<and> r_route_layers r' = r_route_layers r"
    using assms(1) by (auto simp: route_helper_def router_route_collected_def router_route_def split: option.splits)
qed

lemma run_helpers_built:
  "run_helpers T fs r = Some r' \<Longrightarrow> router_built T with_pq r \<Longrightarrow>
     router_built T with_pq r' \<and> r_layers r' = r_layers r \<and> r_route_layers r' = r_route_layers r"
proof (induction fs arbitrary: r)
  case (Cons f fs)
  then show ?case using route_helper_built [of T f r _ with_pq] by (fastforce split: option.splits)
qed simp

text \<open>The application built from a compiled invocation, served.\<close>

lemma collected_application:
  assumes "path_trie T routes names" "collect_routes T helpers metas paths = Some build"
    and "\<And>p h m. p \<in> set paths \<Longrightarrow> route_paths p = IdentOk (h, m) \<Longrightarrow> metas m = map_option route_meta_const (helpers h)"
  obtains fs where
    "list_all2 (\<lambda>p f. \<exists>h m. route_paths p = IdentOk (h, m) \<and> helpers h = Some f) paths fs"
    "(\<And>f. f \<in> set fs \<Longrightarrow> is_static (rf_path f)) \<Longrightarrow>
     (\<And>t p v. is_static p \<Longrightarrow> routes t p = None \<Longrightarrow> trie_insert T t p v \<noteq> None) \<Longrightarrow>
     router_routes (router_new T) build \<noteq> None"
    "\<And>r f req st w. router_routes (router_new T) build = Some r \<Longrightarrow> f \<in> set fs \<Longrightarrow> is_static (rf_path f) \<Longrightarrow>
       uri_path (req_uri req) = rf_path f \<Longrightarrow> mf_matches (method_filter_ident (rf_method f)) (req_method req) \<Longrightarrow>
       router_into_service H T (router_with_state r st) req w =
         then_response (with_matched_path (rf_path f)) (rf_handler f (annotated (rf_path f) [] req) st w)"
proof -
  obtain fs where fs: "build = run_helpers T fs" "sorted_wrt apart fs"
      "list_all2 (\<lambda>p f. \<exists>h m. route_paths p = IdentOk (h, m) \<and> helpers h = Some f) paths fs"
    using collect_routes_Some [where metas = metas, OF assms(2)] assms(3) by blast
  have builds: "router_routes (router_new T) build \<noteq> None"
    if "\<And>f. f \<in> set fs \<Longrightarrow> is_static (rf_path f)"
      "\<And>t p v. is_static p \<Longrightarrow> routes t p = None \<Longrightarrow> trie_insert T t p v \<noteq> None"
  proof -
    have "\<exists>r. run_helpers T fs (router_new T) = Some r \<and> path_trie.collected routes ([] @ fs) r"
      by (rule path_trie.run_helpers_collected [OF assms(1) path_trie.collected_new [OF assms(1)]])
         (simp_all add: fs(2) that)
    then show ?thesis by (auto simp: router_routes_def fs(1))
  qed
  have answers: "router_into_service H T (router_with_state r st) req w =
      then_response (with_matched_path (rf_path f)) (rf_handler f (annotated (rf_path f) [] req) st w)"
    if ret: "router_routes (router_new T) build = Some r" and f: "f \<in> set fs" "is_static (rf_path f)"
      "uri_path (req_uri req) = rf_path f" "mf_matches (method_filter_ident (rf_method f)) (req_method req)"
    for r f req st w
  proof -
    have r: "run_helpers T fs (router_new T) = Some r" using ret by (simp add: router_routes_def fs(1))
    have collected: "path_trie.collected routes fs r"
      using path_trie.run_helpers_returned [OF assms(1) r path_trie.collected_new [OF assms(1)]] fs(2) by simp
    have built: "router_built T (\<lambda>_ _. None) r" "r_layers r = []" "r_route_layers r = []"
      using run_helpers_built [OF r router_built.new] by (simp_all add: router_new_def)
    have "router_into_service H T (router_with_state r st) req w = router_dispatch H T r req st w"
      using path_trie.into_service_app [OF assms(1) path_trie.built_wf [OF assms(1) built(1)]]
      by (simp add: built(2) app_dispatch_no_route_layers [OF built(3)] apply_layers_def)
    with path_trie.collected_dispatch [OF assms(1) collected fs(2) f] show ?thesis by simp
  qed
  show thesis by (rule that [OF fs(3) builds answers])
qed

subsection \<open>Properties\<close>

text \<open>C25: Collected routes answer.  Let an invocation of \<open>collect_routes\<close> compile, where every listed handler's helper
  and constant are those its route attribute generated, and let the path trie behave as documented.  Building an
  application from it does not panic if the path of every listed handler is static (and the trie takes any static
  path that is new); with parameters it may, since two names for one segment compile and conflict only in the trie.
  Whenever the building has returned a router, with whatever paths, the served application answers every request whose path is
  the static path of a listed handler and whose method its attribute names by exactly that handler, whatever the order
  of the list and however the handlers share paths.\<close>

theorem collected_routes_answer:
  assumes "path_trie T routes names" "collect_routes T helpers metas paths = Some build"
    and "\<And>p h m. p \<in> set paths \<Longrightarrow> route_paths p = IdentOk (h, m) \<Longrightarrow> metas m = map_option route_meta_const (helpers h)"
    and "\<And>t p v. is_static p \<Longrightarrow> routes t p = None \<Longrightarrow> trie_insert T t p v \<noteq> None"
  shows "((\<forall>p \<in> set paths. \<forall>h m f. route_paths p = IdentOk (h, m) \<longrightarrow> helpers h = Some f \<longrightarrow> is_static (rf_path f))
      \<longrightarrow> router_routes (router_new T) build \<noteq> None)
    \<and> (\<forall>r. router_routes (router_new T) build = Some r \<longrightarrow>
      (\<forall>p \<in> set paths. \<exists>h m f. route_paths p = IdentOk (h, m) \<and> helpers h = Some f \<and>
        (\<forall>req st w. is_static (rf_path f) \<longrightarrow> uri_path (req_uri req) = rf_path f
          \<longrightarrow> mf_matches (method_filter_ident (rf_method f)) (req_method req)
          \<longrightarrow> router_into_service H T (router_with_state r st) req w =
              then_response (with_matched_path (rf_path f)) (rf_handler f (annotated (rf_path f) [] req) st w))))"
proof (rule collected_application [of T routes names helpers metas paths build H, OF assms(1-3)])
  fix fs
  assume fs: "list_all2 (\<lambda>p f. \<exists>h m. route_paths p = IdentOk (h, m) \<and> helpers h = Some f) paths fs"
    and builds: "(\<And>f. f \<in> set fs \<Longrightarrow> is_static (rf_path f)) \<Longrightarrow>
      (\<And>t p v. is_static p \<Longrightarrow> routes t p = None \<Longrightarrow> trie_insert T t p v \<noteq> None) \<Longrightarrow>
      router_routes (router_new T) build \<noteq> None"
    and answer: "\<And>r f req st w. router_routes (router_new T) build = Some r \<Longrightarrow> f \<in> set fs \<Longrightarrow> is_static (rf_path f) \<Longrightarrow>
      uri_path (req_uri req) = rf_path f \<Longrightarrow> mf_matches (method_filter_ident (rf_method f)) (req_method req) \<Longrightarrow>
      router_into_service H T (router_with_state r st) req w =
        then_response (with_matched_path (rf_path f)) (rf_handler f (annotated (rf_path f) [] req) st w)"
  have listed: "\<exists>h m f. route_paths p = IdentOk (h, m) \<and> helpers h = Some f \<and> f \<in> set fs" if "p \<in> set paths" for p
    using that list_all2_members [OF fs] by blast
  have listed_fn: "\<exists>p \<in> set paths. \<exists>h m. route_paths p = IdentOk (h, m) \<and> helpers h = Some f" if mem: "f \<in> set fs" for f
  proof -
    obtain i where i: "i < length fs" "fs ! i = f" using mem by (auto simp: in_set_conv_nth)
    have "\<exists>h m. route_paths (paths ! i) = IdentOk (h, m) \<and> helpers h = Some f"
      using list_all2_nthD2 [OF fs i(1)] i(2) by simp
    moreover have "paths ! i \<in> set paths" using i(1) list_all2_lengthD [OF fs] by simp
    ultimately show ?thesis by blast
  qed
  show ?thesis
  proof (intro conjI impI allI ballI)
    assume static: "\<forall>p \<in> set paths. \<forall>h m f. route_paths p = IdentOk (h, m) \<longrightarrow> helpers h = Some f \<longrightarrow> is_static (rf_path f)"
    show "router_routes (router_new T) build \<noteq> None"
    proof (rule builds)
      show "is_static (rf_path f)" if "f \<in> set fs" for f using listed_fn [OF that] static by blast
      show "trie_insert T t p v \<noteq> None" if "is_static p" "routes t p = None" for t p v by (rule assms(4) [OF that])
    qed
  next
    fix r p assume "router_routes (router_new T) build = Some r" "p \<in> set paths"
    with listed answer show "\<exists>h m f. route_paths p = IdentOk (h, m) \<and> helpers h = Some f \<and>
        (\<forall>req st w. is_static (rf_path f) \<longrightarrow> uri_path (req_uri req) = rf_path f
          \<longrightarrow> mf_matches (method_filter_ident (rf_method f)) (req_method req)
          \<longrightarrow> router_into_service H T (router_with_state r st) req w =
              then_response (with_matched_path (rf_path f)) (rf_handler f (annotated (rf_path f) [] req) st w))"
      by meson
  qed
qed

definition listed_path :: "string \<Rightarrow> syn_path" where
  "listed_path i = \<lparr>sp_leading_colon = False, sp_segments = [\<lparr>ps_ident = i, ps_args = None\<rparr>]\<rparr>"

definition demo_route_fn :: "(alist_headers, nat, unit) route_fn" where
  "demo_route_fn = \<lparr>rf_path = ''/ping'', rf_method = RmGet, rf_handler = (\<lambda>req st w. counting_service req w)\<rparr>"

text \<open>An invocation \<^verbatim>\<open>collect_routes![ping]\<close>.\<close>

definition demo_helpers :: "syn_path \<Rightarrow> (alist_headers, nat, unit) route_fn option" where
  "demo_helpers p = (if p = listed_path ''__arvik_route_ping'' then Some demo_route_fn else None)"

definition demo_metas :: "syn_path \<Rightarrow> route_meta option" where
  "demo_metas p = (if p = listed_path ''__ARVIK_ROUTE_META_PING'' then Some (route_meta_const demo_route_fn) else None)"

lemma demo_paths:
  "route_paths (listed_path ''ping'') = IdentOk (listed_path ''__arvik_route_ping'', listed_path ''__ARVIK_ROUTE_META_PING'')"
proof -
  have upper: "to_ascii_uppercase ''ping'' = ''PING''" by code_simp
  show ?thesis
    by (simp add: route_paths_def replace_last_path_ident_def listed_path_def route_helper_ident_def
      route_meta_ident_def upper strip_prefix_def)
qed

lemma demo_collected:
  "collect_routes seg_trie demo_helpers demo_metas [listed_path ''ping''] = Some (run_helpers seg_trie [demo_route_fn])"
  by (simp add: collect_routes_def expand_collect_routes_def demo_paths demo_helpers_def demo_metas_def)

lemma demo_declared:
  "p \<in> set [listed_path ''ping''] \<Longrightarrow> route_paths p = IdentOk (h, m) \<Longrightarrow>
     demo_metas m = map_option route_meta_const (demo_helpers h)"
  "demo_helpers h = Some f \<Longrightarrow> is_static (rf_path f)"
  "is_static q \<Longrightarrow> map_of t q = None \<Longrightarrow> trie_insert seg_trie t q v \<noteq> None"
  by (auto simp: demo_paths demo_helpers_def demo_metas_def demo_route_fn_def is_static_def seg_trie_def split: if_splits)

lemma demo_matches: "mf_matches (method_filter_ident (rf_method demo_route_fn)) Get"
  by (simp add: mf_matches_bit MF_GET_def demo_route_fn_def)

theorem collected_routes_answer_witness:
  "\<exists>r. router_routes (router_new seg_trie) (run_helpers seg_trie [demo_route_fn]) = Some r \<and>
     router_into_service alist_lib seg_trie (router_with_state r ()) (sample_request Get ''/ping'' []) 0 =
       then_response (with_matched_path ''/ping'') (counting_service (annotated ''/ping'' [] (sample_request Get ''/ping'' [])) 0)"
proof -
  have all: "((\<forall>p \<in> set [listed_path ''ping'']. \<forall>h m f. route_paths p = IdentOk (h, m) \<longrightarrow> demo_helpers h = Some f
        \<longrightarrow> is_static (rf_path f))
      \<longrightarrow> router_routes (router_new seg_trie) (run_helpers seg_trie [demo_route_fn]) \<noteq> None)
    \<and> (\<forall>r. router_routes (router_new seg_trie) (run_helpers seg_trie [demo_route_fn]) = Some r \<longrightarrow>
      (\<forall>p \<in> set [listed_path ''ping'']. \<exists>h m f. route_paths p = IdentOk (h, m) \<and> demo_helpers h = Some f \<and>
      (\<forall>req st w. is_static (rf_path f) \<longrightarrow> uri_path (req_uri req) = rf_path f
        \<longrightarrow> mf_matches (method_filter_ident (rf_method f)) (req_method req)
        \<longrightarrow> router_into_service alist_lib seg_trie (router_with_state r st) req w =
            then_response (with_matched_path (rf_path f)) (rf_handler f (annotated (rf_path f) [] req) st w))))"
    by (rule collected_routes_answer [OF seg_path_trie demo_collected]) (rule demo_declared; assumption)+
  then obtain r where r: "router_routes (router_new seg_trie) (run_helpers seg_trie [demo_route_fn]) = Some r"
    using demo_declared(2) by blast
  with all have all: "\<forall>req st w. uri_path (req_uri req) = rf_path demo_route_fn
        \<longrightarrow> mf_matches (method_filter_ident (rf_method demo_route_fn)) (req_method req)
        \<longrightarrow> router_into_service alist_lib seg_trie (router_with_state r st) req w = then_response
              (with_matched_path (rf_path demo_route_fn)) (rf_handler demo_route_fn (annotated (rf_path demo_route_fn) [] req) st w)"
    using demo_declared(2) [of "listed_path ''__arvik_route_ping''" demo_route_fn]
    by (auto simp: demo_paths demo_helpers_def)
  show ?thesis
    using r all [rule_format, of "sample_request Get ''/ping'' []" "()" 0] demo_matches
    by (auto simp: sample_request_def sample_uri_def demo_route_fn_def)
qed

lemma only_last: "(\<forall>i < (n :: nat). P i \<longrightarrow> i = n - 1) \<longleftrightarrow> (\<forall>i < n - 1. \<not> P i)"
proof (cases n)
  case (Suc k)
  then show ?thesis by (auto simp: less_Suc_eq)
qed simp

lemma body_positions_last:
  "length (body_positions tys) \<le> 1 \<and> body_errors tys = [] \<longleftrightarrow>
     (\<forall>i < length tys. is_builtin_body_type (tys ! i) \<longrightarrow> i = length tys - 1)"
proof -
  let ?ps = "body_positions tys"
  have set: "set ?ps = {i. i < length tys \<and> is_builtin_body_type (tys ! i)}" by (auto simp: body_positions_def)
  have errors: "body_errors tys = [] \<longleftrightarrow> (\<forall>i \<in> set ?ps. i = length tys - 1)"
    by (auto simp: body_errors_def filter_empty_conv body_positions_def)
  have "length ?ps \<le> 1" if "\<forall>i \<in> set ?ps. i = length tys - 1"
  proof -
    have "set ?ps \<subseteq> {length tys - 1}" using that by blast
    then have "card (set ?ps) \<le> 1" by (metis card.empty card_insert_disjoint card_mono empty_iff finite.intros One_nat_def)
    moreover have "distinct ?ps" by (simp add: body_positions_def)
    ultimately show ?thesis by (simp add: distinct_card)
  qed
  with errors set show ?thesis by auto
qed

lemma debug_handler_errors_Nil:
  assumes "fn_inputs f = map TypedArg tys"
  shows "debug_handler_errors state f = [] \<longleftrightarrow>
     fn_async f \<and> \<not> fn_generic f \<and> length tys \<le> 16 \<and> (state \<noteq> None \<or> \<not> list_ex is_state_type tys)
     \<and> (\<forall>i < length tys. is_builtin_body_type (tys ! i) \<longrightarrow> i = length tys - 1)"
proof -
  have "typed_args f = tys" "List.map_filter (\<lambda>a. case a of TypedArg t \<Rightarrow> None
      | Receiver _ _ \<Rightarrow> Some (MacroErr ''#[debug_handler] can only be used on free functions'')) (fn_inputs f) = []"
    unfolding typed_args_def assms by (induction tys) (simp_all add: List.map_filter_simps)
  then show ?thesis
    using body_positions_last [of tys] by (auto simp: debug_handler_errors_def assms)
qed

lemma debug_handler_errors_receiver:
  assumes "Receiver x y \<in> set (fn_inputs f)"
  shows "debug_handler_errors state f \<noteq> []"
proof -
  have "List.map_filter (\<lambda>a. case a of TypedArg t \<Rightarrow> None
      | Receiver _ _ \<Rightarrow> Some (MacroErr ''#[debug_handler] can only be used on free functions'')) (fn_inputs f) \<noteq> []"
    using assms by (force simp: List.map_filter_def filter_empty_conv)
  then show ?thesis by (simp add: debug_handler_errors_def)
qed

text \<open>What \<open>debug_handler\<close> accepts.  The attribute lets a function through exactly when it is an async free function
  without generics and with at most 16 arguments, declares its state if an argument is a \<open>State\<close>, and has no built-in
  body extractor but possibly as its last argument.  For such a function it asserts, in order, that every argument but
  the last can be extracted from the request parts, the last from the whole request, and that the function is a
  handler, all for the declared state.\<close>

theorem debug_handler_accepts:
  "expand_debug_handler state f = Expanded out \<longleftrightarrow>
     (\<exists>tys. fn_inputs f = map TypedArg tys \<and> fn_async f \<and> \<not> fn_generic f \<and> length tys \<le> 16
        \<and> \<not> (state = None \<and> list_ex is_state_type tys)
        \<and> list_all (\<lambda>t. \<not> is_builtin_body_type t) (butlast tys)
        \<and> out = map (\<lambda>t. AssertParts t state) (butlast tys)
            @ (if tys = [] then [] else [AssertRequest (last tys) state]) @ [AssertHandler (fn_ident f) state])"
proof (cases "\<exists>x y. Receiver x y \<in> set (fn_inputs f)")
  case True
  then have "expand_debug_handler state f \<noteq> Expanded out"
    using debug_handler_errors_receiver by (auto simp: expand_debug_handler_def Let_def)
  with True show ?thesis by auto
next
  case False
  have "\<exists>tys. xs = map TypedArg tys" if "\<not> (\<exists>x y. Receiver x y \<in> set xs)" for xs
    using that
  proof (induction xs)
    case (Cons a xs)
    then obtain t tys where "a = TypedArg t" "xs = map TypedArg tys" by (cases a) auto
    then show ?case by (intro exI [of _ "t # tys"]) simp
  qed simp
  with False obtain tys where tys: "fn_inputs f = map TypedArg tys" by blast
  have "typed_args f = tys"
    unfolding typed_args_def tys by (induction tys) (simp_all add: List.map_filter_simps)
  moreover have "(\<forall>i < length tys. is_builtin_body_type (tys ! i) \<longrightarrow> i = length tys - 1)
      \<longleftrightarrow> list_all (\<lambda>t. \<not> is_builtin_body_type t) (butlast tys)"
    using only_last [of "length tys" "\<lambda>i. is_builtin_body_type (tys ! i)"]
    by (simp add: list_all_length nth_butlast)
  moreover have "map TypedArg tys = map TypedArg us \<longleftrightarrow> tys = us" for us
    by (simp add: inj_map_eq_map inj_def)
  ultimately show ?thesis
    using debug_handler_errors_Nil [OF tys, of state]
    by (auto simp: expand_debug_handler_def Let_def debug_assertions_def butlast_conv_take tys)
qed

text \<open>The paths a route attribute takes.  On a function with a plain name and with a method the macros know, the
  attribute generates a route exactly for the paths that begin with a slash, hold neither a query nor a fragment, and
  have no segment in the colon syntax; the route's path is then the written one.  On a function whose name is a raw
  identifier the macro panics for those same paths.\<close>

theorem expand_route_paths:
  assumes "route_method_parse m = Some rm"
  shows "let ok = starts_with p ''/'' \<and> CHR ''?'' \<notin> set p \<and> CHR ''#'' \<notin> set p
           \<and> \<not> (\<exists>seg \<in> set (split_on CHR ''/'' p). starts_with seg '':'')
    in (CHR ''#'' \<notin> set (to_ascii_uppercase (fn_ident f)) \<longrightarrow>
          (\<exists>r. expand_route m p (Some f) = Expanded r) = ok
          \<and> (\<forall>r. expand_route m p (Some f) = Expanded r \<longrightarrow> ri_path r = p \<and> ri_method r = rm \<and> ri_handler r = fn_ident f))
     \<and> (starts_with (fn_ident f) ''r#'' \<longrightarrow> (expand_route m p (Some f) = MacroPanic) = ok)"
proof -
  have norm: "(\<exists>q. normalize_route_path p = Inr q) \<longleftrightarrow> starts_with p ''/'' \<and> CHR ''?'' \<notin> set p \<and> CHR ''#'' \<notin> set p
           \<and> \<not> (\<exists>seg \<in> set (split_on CHR ''/'' p). starts_with seg '':'')" "normalize_route_path p = Inr q \<Longrightarrow> q = p" for q
    by (auto simp: normalize_route_path_def list_ex_iff split: if_splits)
  have raw: "CHR ''#'' \<in> set (to_ascii_uppercase (fn_ident f))" if raw: "starts_with (fn_ident f) ''r#''"
  proof -
    have "ascii_upper (CHR ''#'') = CHR ''#''" by code_simp
    moreover have "CHR ''#'' \<in> set (fn_ident f)" using raw by (auto simp: prefix_def)
    ultimately show ?thesis unfolding to_ascii_uppercase_def set_map by (metis image_eqI)
  qed
  show ?thesis
    unfolding Let_def norm(1) [symmetric]
    using assms raw norm(2)
    by (cases "normalize_route_path p") (auto simp: expand_route_def route_meta_ident_def Let_def)
qed

theorem expand_route_paths_witness:
  "expand_route ''get'' ''/a/{b}'' (Some \<lparr>fn_ident = ''r#type'', fn_async = True, fn_generic = False, fn_inputs = []\<rparr>) = MacroPanic"
proof -
  have m: "route_method_parse ''get'' = Some RmGet" by code_simp
  have "\<not> (\<exists>seg \<in> set (split_on CHR ''/'' ''/a/{b}''). starts_with seg '':'')" by code_simp
  with expand_route_paths [OF m, of "''/a/{b}''" "\<lparr>fn_ident = ''r#type'', fn_async = True, fn_generic = False, fn_inputs = []\<rparr>"]
  show ?thesis by (simp add: Let_def)
qed

end
