(* ===== verification/Test_Client.thy ===== *)
theory Test_Client
  imports Router Responses Bodies "HOL-Library.AList"
begin

text \<open>
  The in-process test client: arvik-test/src/lib.rs.

  A client is a service and a cookie jar that its clones share; sending takes the jar and the world and returns the
  new ones.  The cookie crate (parsing, names and values, the jar) is the parameter \<open>client_cookies\<close> with the laws of
  the locale \<open>client_jar\<close>; the parsers of URIs and HTTP dates, the serializers and the clock are arguments.  \<open>None\<close>
  is a panic of the client itself (an \<open>expect\<close>); a panic of the service is an outcome.  The WebSocket helper keeps
  only what it does to its server.
\<close>

subsection \<open>The client and its jar\<close>

record ('j, 'c) client_cookies =
  cc_new :: 'j
  cc_parse :: "string \<Rightarrow> 'c option"
  cc_name :: "'c \<Rightarrow> string"
  cc_value :: "'c \<Rightarrow> string"
  cc_add :: "'j \<Rightarrow> 'c \<Rightarrow> 'j"
  cc_remove :: "'j \<Rightarrow> 'c \<Rightarrow> 'j"
  cc_iter :: "'j \<Rightarrow> 'c list"

record ('h, 'w, 'j) test_client =
  te_service :: "('h, 'w) service"
  te_cookies :: 'j

definition client_from_service :: "('j, 'c) client_cookies \<Rightarrow> ('h, 'w) service \<Rightarrow> ('h, 'w, 'j) test_client" where
  "client_from_service C service = \<lparr>te_service = service, te_cookies = cc_new C\<rparr>"

definition client_new ::
  "'h http_lib \<Rightarrow> 't trie_lib \<Rightarrow> ('j, 'c) client_cookies \<Rightarrow> ('t, 'h, 'w, unit) router \<Rightarrow> ('h, 'w, 'j) test_client" where
  "client_new H T C r = client_from_service C (router_into_service H T r)"

definition cookie_pair :: "('j, 'c) client_cookies \<Rightarrow> 'c \<Rightarrow> string" where
  "cookie_pair C c = cc_name C c @ ''='' @ cc_value C c"

definition client_cookie_header :: "('j, 'c) client_cookies \<Rightarrow> 'h http_lib \<Rightarrow> 'j \<Rightarrow> string option" where
  "client_cookie_header C H jar =
     (let header = join_with ''; '' (map (cookie_pair C) (cc_iter C jar))
      in if header = [] then None else hv_from_str H header)"

text \<open>\<^verbatim>\<open>str::parse::<i64>()\<close>.\<close>

definition parse_i64 :: "string \<Rightarrow> int option" where
  "parse_i64 s =
     (let neg = (case s of c # _ \<Rightarrow> c = CHR ''-'' | [] \<Rightarrow> False);
          ds = (case s of c # cs \<Rightarrow> if c = CHR ''+'' \<or> c = CHR ''-'' then cs else s | [] \<Rightarrow> s);
          n = (if neg then - int (digits_val ds) else int (digits_val ds))
      in if ds = [] \<or> \<not> list_all is_ascii_digit ds then None
         else if - (2 ^ 63) \<le> n \<and> n < 2 ^ 63 then Some n else None)"

text \<open>The first attribute with one of the two spellings of a name, without the name.\<close>

fun first_attribute :: "string \<Rightarrow> string \<Rightarrow> string list \<Rightarrow> string option" where
  "first_attribute a b [] = None"
| "first_attribute a b (x # xs) =
     (case strip_prefix a x of
        Some v \<Rightarrow> Some v
      | None \<Rightarrow> (case strip_prefix b x of Some v \<Rightarrow> Some v | None \<Rightarrow> first_attribute a b xs))"

definition set_cookie_is_expired :: "(string \<Rightarrow> int option) \<Rightarrow> int \<Rightarrow> string \<Rightarrow> bool" where
  "set_cookie_is_expired parse_date now raw =
     (let attributes = map trim (drop 1 (split_on CHR '';'' raw))
      in case first_attribute ''Max-Age='' ''max-age='' attributes of
           Some v \<Rightarrow> (case parse_i64 (trim v) of Some secs \<Rightarrow> secs \<le> 0 | None \<Rightarrow> False)
         | None \<Rightarrow>
             (case first_attribute ''Expires='' ''expires='' attributes of
                Some v \<Rightarrow> (case parse_date (trim v) of Some time \<Rightarrow> time \<le> now | None \<Rightarrow> False)
              | None \<Rightarrow> False))"

definition store_cookie ::
  "('j, 'c) client_cookies \<Rightarrow> 'h http_lib \<Rightarrow> (string \<Rightarrow> bool) \<Rightarrow> string \<Rightarrow> 'j \<Rightarrow> 'j" where
  "store_cookie C H expired v jar =
     (case hv_to_str H v of
        None \<Rightarrow> jar
      | Some s \<Rightarrow>
          (case cc_parse C s of
             None \<Rightarrow> jar
           | Some c \<Rightarrow> if expired s then cc_remove C jar c else cc_add C jar c))"

definition store_response_cookies ::
  "('j, 'c) client_cookies \<Rightarrow> 'h http_lib \<Rightarrow> (string \<Rightarrow> bool) \<Rightarrow> 'h \<Rightarrow> 'j \<Rightarrow> 'j" where
  "store_response_cookies C H expired headers jar =
     fold (store_cookie C H expired) (hm_get_all H headers ''set-cookie'') jar"

subsection \<open>Requests\<close>

record ('h, 'c) test_request =
  tr_method :: http_method
  tr_uri :: string
  tr_headers :: 'h
  tr_body :: body
  tr_extra_cookies :: "'c list"

definition client_request :: "'h http_lib \<Rightarrow> http_method \<Rightarrow> string \<Rightarrow> ('h, 'c) test_request" where
  "client_request H m path = \<lparr>tr_method = m, tr_uri = path, tr_headers = hm_new H, tr_body = BEmpty,
     tr_extra_cookies = []\<rparr>"

definition client_get :: "'h http_lib \<Rightarrow> string \<Rightarrow> ('h, 'c) test_request" where
  "client_get H path = client_request H Get path"

definition client_post :: "'h http_lib \<Rightarrow> string \<Rightarrow> ('h, 'c) test_request" where
  "client_post H path = client_request H Post path"

definition client_put :: "'h http_lib \<Rightarrow> string \<Rightarrow> ('h, 'c) test_request" where
  "client_put H path = client_request H Put path"

definition client_delete :: "'h http_lib \<Rightarrow> string \<Rightarrow> ('h, 'c) test_request" where
  "client_delete H path = client_request H Delete path"

definition client_patch :: "'h http_lib \<Rightarrow> string \<Rightarrow> ('h, 'c) test_request" where
  "client_patch H path = client_request H Patch path"

text \<open>\<^verbatim>\<open>header\<close>: the conversions of name and value are arguments, their failure is a panic.\<close>

definition tr_header ::
  "'h http_lib \<Rightarrow> ('k \<Rightarrow> string option) \<Rightarrow> ('v \<Rightarrow> string option) \<Rightarrow> 'k \<Rightarrow> 'v \<Rightarrow> ('h, 'c) test_request
     \<Rightarrow> ('h, 'c) test_request option" where
  "tr_header H try_name try_value k v self =
     (case (try_name k, try_value v) of
        (Some n, Some x) \<Rightarrow> Some (self\<lparr>tr_headers := hm_insert H (tr_headers self) n x\<rparr>)
      | _ \<Rightarrow> None)"

definition tr_query :: "('q \<Rightarrow> string option) \<Rightarrow> 'q \<Rightarrow> ('h, 'c) test_request \<Rightarrow> ('h, 'c) test_request option" where
  "tr_query to_string query self =
     (case to_string query of
        None \<Rightarrow> None
      | Some q \<Rightarrow>
          if q = [] then Some self
          else (let separator = (if CHR ''?'' \<in> set (tr_uri self) then CHR ''&'' else CHR ''?'')
                in Some (self\<lparr>tr_uri := tr_uri self @ [separator] @ q\<rparr>)))"

definition tr_json :: "'h http_lib \<Rightarrow> ('v \<Rightarrow> string option) \<Rightarrow> 'v \<Rightarrow> ('h, 'c) test_request \<Rightarrow> ('h, 'c) test_request option" where
  "tr_json H to_vec v self =
     map_option (\<lambda>bytes. self\<lparr>tr_headers := hm_insert H (tr_headers self) ''content-type'' ''application/json'',
       tr_body := body_from_bytes bytes\<rparr>) (to_vec v)"

definition tr_form :: "'h http_lib \<Rightarrow> ('v \<Rightarrow> string option) \<Rightarrow> 'v \<Rightarrow> ('h, 'c) test_request \<Rightarrow> ('h, 'c) test_request option" where
  "tr_form H to_string v self =
     map_option (\<lambda>s. self\<lparr>tr_headers := hm_insert H (tr_headers self) ''content-type''
         ''application/x-www-form-urlencoded'', tr_body := body_from_bytes s\<rparr>) (to_string v)"

definition tr_set_body :: "body \<Rightarrow> ('h, 'c) test_request \<Rightarrow> ('h, 'c) test_request" where
  "tr_set_body b self = self\<lparr>tr_body := b\<rparr>"

definition tr_cookie :: "'c \<Rightarrow> ('h, 'c) test_request \<Rightarrow> ('h, 'c) test_request" where
  "tr_cookie c self = self\<lparr>tr_extra_cookies := tr_extra_cookies self @ [c]\<rparr>"

text \<open>The three parts of \<^verbatim>\<open>send\<close>: the cookies of the jar, the extra cookies, and the dispatch.\<close>

definition with_jar_cookies :: "('j, 'c) client_cookies \<Rightarrow> 'h http_lib \<Rightarrow> 'j \<Rightarrow> 'h \<Rightarrow> 'h" where
  "with_jar_cookies C H jar headers =
     (case Option.bind (client_cookie_header C H jar) (hv_to_str H) of
        None \<Rightarrow> headers
      | Some jar_header \<Rightarrow>
          (let merged = (case Option.bind (hm_get H headers ''cookie'') (hv_to_str H) of
                           Some existing \<Rightarrow> existing @ ''; '' @ jar_header
                         | None \<Rightarrow> jar_header)
           in case hv_from_str H merged of
                Some v \<Rightarrow> hm_insert H headers ''cookie'' v
              | None \<Rightarrow> headers))"

fun push_cookies :: "('j, 'c) client_cookies \<Rightarrow> 'c list \<Rightarrow> string \<Rightarrow> string" where
  "push_cookies C [] header = header"
| "push_cookies C (c # cs) header =
     push_cookies C cs ((if header \<noteq> [] then header @ ''; '' else header) @ cc_name C c @ ''='' @ cc_value C c)"

definition with_extra_cookies :: "('j, 'c) client_cookies \<Rightarrow> 'h http_lib \<Rightarrow> 'c list \<Rightarrow> 'h \<Rightarrow> 'h option" where
  "with_extra_cookies C H extra headers =
     (if extra = [] then Some headers
      else (let cookie_header = push_cookies C extra
                  (case Option.bind (hm_get H headers ''cookie'') (hv_to_str H) of Some s \<Rightarrow> s | None \<Rightarrow> [])
            in map_option (hm_insert H headers ''cookie'') (hv_from_str H cookie_header)))"

definition client_send ::
  "('j, 'c) client_cookies \<Rightarrow> 'h http_lib \<Rightarrow> (string \<Rightarrow> uri option) \<Rightarrow> (string \<Rightarrow> bool) \<Rightarrow> ('h, 'c) test_request
     \<Rightarrow> ('h, 'w, 'j) test_client \<Rightarrow> 'w \<Rightarrow> ('h outcome \<times> ('h, 'w, 'j) test_client \<times> 'w) option" where
  "client_send C H parse_uri expired self client w =
     (case with_extra_cookies C H (tr_extra_cookies self) (with_jar_cookies C H (te_cookies client) (tr_headers self)) of
        None \<Rightarrow> None
      | Some headers \<Rightarrow>
          (case parse_uri (tr_uri self) of
             None \<Rightarrow> None
           | Some u \<Rightarrow>
               (let req = \<lparr>req_method = tr_method self, req_uri = u,
                        req_headers = append_keyed H (hm_into_iter H headers) (hm_new H),
                        req_ext = no_extensions, req_body = tr_body self\<rparr>;
                    (out, w') = te_service client req w
                in Some (case out of
                     Panicked p \<Rightarrow> (Panicked p, client, w')
                   | Done resp \<Rightarrow>
                       (Done resp, client\<lparr>te_cookies :=
                          store_response_cookies C H expired (res_headers resp) (te_cookies client)\<rparr>, w')))))"

subsection \<open>Responses\<close>

definition test_response_bytes :: "'h response \<Rightarrow> body_error + string" where
  "test_response_bytes r = to_bytes (res_body r)"

definition test_response_text :: "'h response \<Rightarrow> body_error + string" where
  "test_response_text r = body_to_string (res_body r)"

datatype 'e json_failure = JsonIo body_error | JsonSyntax 'e

definition test_response_json :: "(string \<Rightarrow> 'e + 'v) \<Rightarrow> 'h response \<Rightarrow> 'e json_failure + 'v" where
  "test_response_json from_slice r =
     (case to_bytes (res_body r) of
        Inl e \<Rightarrow> Inl (JsonIo e)
      | Inr s \<Rightarrow> (case from_slice s of Inl e \<Rightarrow> Inl (JsonSyntax e) | Inr v \<Rightarrow> Inr v))"

subsection \<open>WebSockets\<close>

text \<open>What the handle does to its server: the sender of the shutdown signal, the signals sent, the task's fate.\<close>

record test_ws =
  tx_shutdown :: bool
  tx_signals :: nat
  tx_aborted :: bool

definition ws_url :: "string \<Rightarrow> string \<Rightarrow> string" where
  "ws_url addr path =
     (let path = (if starts_with path ''/'' then path else ''/'' @ path) in ''ws://'' @ addr @ path)"

definition ws_stop_server :: "test_ws \<Rightarrow> test_ws" where
  "ws_stop_server self =
     (let self = (if tx_shutdown self then self\<lparr>tx_shutdown := False, tx_signals := tx_signals self + 1\<rparr> else self)
      in self\<lparr>tx_aborted := True\<rparr>)"

definition ws_drop :: "test_ws \<Rightarrow> test_ws" where
  "ws_drop self = ws_stop_server self"

text \<open>\<^verbatim>\<open>close\<close> consumes the handle, which is dropped on the way out.\<close>

definition ws_close :: "'e + unit \<Rightarrow> test_ws \<Rightarrow> ('e + unit) \<times> test_ws" where
  "ws_close result self =
     (case result of
        Inr _ \<Rightarrow> (Inr (), ws_drop (ws_stop_server self))
      | Inl e \<Rightarrow> (Inl e, ws_drop (ws_stop_server self)))"

subsection \<open>Laws of the jar\<close>

locale client_jar =
  fixes C :: "('j, 'c) client_cookies" and lookup :: "'j \<Rightarrow> string \<Rightarrow> 'c option"
  assumes lookup_new: "lookup (cc_new C) n = None"
    and lookup_add: "lookup (cc_add C j c) n = (if n = cc_name C c then Some c else lookup j n)"
    and lookup_remove: "lookup (cc_remove C j c) n = (if n = cc_name C c then None else lookup j n)"
    and iter_lookup: "c \<in> set (cc_iter C j) \<longleftrightarrow> lookup j (cc_name C c) = Some c"
begin

text \<open>What the readable and parseable values of a response do to the cookie of a name, in order.\<close>

definition stored :: "'h http_lib \<Rightarrow> (string \<Rightarrow> bool) \<Rightarrow> string list \<Rightarrow> string \<Rightarrow> 'c option list" where
  "stored H expired vs n = List.map_filter (\<lambda>v. case hv_to_str H v of
       None \<Rightarrow> None
     | Some s \<Rightarrow> (case cc_parse C s of
          Some c \<Rightarrow> if cc_name C c = n then Some (if expired s then None else Some c) else None
        | None \<Rightarrow> None)) vs"

lemma store_cookies_lookup:
  "lookup (fold (store_cookie C H expired) vs jar) n =
     (if stored H expired vs n = [] then lookup jar n else last (stored H expired vs n))"
proof (induction vs arbitrary: jar)
  case (Cons v vs)
  then show ?case
    by (simp add: stored_def List.map_filter_simps store_cookie_def lookup_add lookup_remove split: option.split)
qed (simp add: stored_def List.map_filter_simps)

end

type_synonym pair_list = "(string \<times> string) list"

definition pair_client :: "(pair_list, string \<times> string) client_cookies" where
  "pair_client = \<lparr>cc_new = [], cc_parse = (\<lambda>s. split_once CHR ''='' (hd (split_on CHR '';'' s))),
     cc_name = fst, cc_value = snd, cc_add = (\<lambda>j c. AList.update (fst c) (snd c) j),
     cc_remove = (\<lambda>j c. AList.delete (fst c) j), cc_iter = (\<lambda>j. map (\<lambda>n. (n, the (map_of j n))) (remdups (map fst j)))\<rparr>"

definition pair_lookup :: "pair_list \<Rightarrow> string \<Rightarrow> (string \<times> string) option" where
  "pair_lookup j n = map_option (Pair n) (map_of j n)"

interpretation pair_client: client_jar pair_client pair_lookup
proof unfold_locales
  fix c :: "string \<times> string" and j
  show "c \<in> set (cc_iter pair_client j) \<longleftrightarrow> pair_lookup j (cc_name pair_client c) = Some c"
  proof -
    obtain n v where c: "c = (n, v)" by (cases c)
    have "n \<in> fst ` set j \<longleftrightarrow> map_of j n \<noteq> None" by (simp add: map_of_eq_None_iff)
    then show ?thesis unfolding c by (cases "map_of j n") (auto simp: pair_client_def pair_lookup_def)
  qed
qed (auto simp: pair_client_def pair_lookup_def update_conv' delete_conv')

lemmas pair_client_jar = pair_client.client_jar_axioms

subsection \<open>Lemmas\<close>

lemma join_with_glue: "join_with sep ((a @ sep @ b) # xs) = a @ sep @ join_with sep (b # xs)"
  by (cases xs) simp_all

lemma cookie_pair_not_Nil [simp]: "cookie_pair C c \<noteq> []" "[] \<noteq> cookie_pair C c" "[] \<notin> cookie_pair C ` X"
  by (auto simp: cookie_pair_def)

lemma push_cookies_join: "h \<noteq> [] \<Longrightarrow> push_cookies C cs h = join_with ''; '' (h # map (cookie_pair C) cs)"
proof (induction cs arbitrary: h)
  case (Cons c cs)
  have "push_cookies C (c # cs) h = push_cookies C cs (h @ ''; '' @ cookie_pair C c)"
    using Cons.prems by (simp add: cookie_pair_def)
  also have "\<dots> = join_with ''; '' ((h @ ''; '' @ cookie_pair C c) # map (cookie_pair C) cs)"
    using Cons.prems by (intro Cons.IH) simp
  also have "\<dots> = join_with ''; '' (h # map (cookie_pair C) (c # cs))"
    unfolding join_with_glue by simp
  finally show ?case .
qed simp

lemma push_cookies_Nil: "cs \<noteq> [] \<Longrightarrow> push_cookies C cs [] = join_with ''; '' (map (cookie_pair C) cs)"
  using push_cookies_join [of "cookie_pair C (hd cs)" C "tl cs"] by (cases cs) (simp_all add: cookie_pair_def)

lemma join_visible:
  "\<forall>x \<in> set xs. list_all header_visible x \<Longrightarrow> list_all header_visible (join_with ''; '' xs)"
proof -
  assume a: "\<forall>x \<in> set xs. list_all header_visible x"
  have "set (join_with ''; '' xs) \<subseteq> set ''; '' \<union> \<Union> (set ` set xs)" by (rule set_join_with)
  moreover have "\<forall>c \<in> set ''; ''. header_visible c" by (simp add: header_visible_def)
  ultimately show ?thesis using a by (fastforce simp: list_all_iff)
qed

text \<open>The cookie texts of a request: an explicit header, the jar's cookies, the extra ones.\<close>

definition cookie_texts :: "('j, 'c) client_cookies \<Rightarrow> string option \<Rightarrow> 'c list \<Rightarrow> 'c list \<Rightarrow> string list" where
  "cookie_texts C explicit jar extra =
     (case explicit of Some s \<Rightarrow> [s] | None \<Rightarrow> []) @ map (cookie_pair C) jar @ map (cookie_pair C) extra"

context header_map
begin

lemma client_cookie_header_eq:
  assumes "\<forall>c \<in> set (cc_iter C jar). list_all header_visible (cookie_pair C c)"
  shows "client_cookie_header C H jar = (if cc_iter C jar = [] then None
     else Some (join_with ''; '' (map (cookie_pair C) (cc_iter C jar))))"
  using assms join_visible [of "map (cookie_pair C) (cc_iter C jar)"]
    join_with_Nil_iff [of "map (cookie_pair C) (cc_iter C jar)" "''; ''"]
  by (auto simp: client_cookie_header_def Let_def from_str)

text \<open>The cookie header that the first two parts of \<^verbatim>\<open>send\<close> leave.\<close>

lemma cookie_headers_sent:
  assumes "\<forall>c \<in> set (cc_iter C jar) \<union> set extra. list_all header_visible (cookie_pair C c)"
    and "hm_get_all H h ''cookie'' = (case explicit of Some s \<Rightarrow> [s] | None \<Rightarrow> [])"
    and "\<And>s. explicit = Some s \<Longrightarrow> s \<noteq> [] \<and> list_all header_visible s"
  shows "\<exists>h'. with_extra_cookies C H extra (with_jar_cookies C H jar h) = Some h'
    \<and> (\<forall>n. hm_get_all H h' n =
         (if n = ''cookie''
          then (let ts = cookie_texts C explicit (cc_iter C jar) extra in if ts = [] then [] else [join_with ''; '' ts])
          else hm_get_all H h n))"
proof -
  let ?jar = "map (cookie_pair C) (cc_iter C jar)"
  let ?first = "(case explicit of Some s \<Rightarrow> [s] | None \<Rightarrow> []) @ ?jar"
  have vis: "\<forall>x \<in> set ?first. list_all header_visible x" "\<forall>x \<in> set ?first. x \<noteq> []"
    using assms(1,3) by (auto split: option.splits)
  have vis_join: "list_all header_visible (join_with ''; '' ?first)" by (rule join_visible [OF vis(1)])
  have jar_vis: "list_all header_visible (join_with ''; '' ?jar)"
    by (rule join_visible) (use assms(1) in auto)
  have ne: "?first \<noteq> [] \<Longrightarrow> join_with ''; '' ?first \<noteq> []" using vis(2) by (subst join_with_Nil_iff) auto
  have jar_hdr: "client_cookie_header C H jar = (if cc_iter C jar = [] then None else Some (join_with ''; '' ?jar))"
    using assms(1) by (intro client_cookie_header_eq) simp
  have first: "hm_get_all H (with_jar_cookies C H jar h) n =
      (if n = ''cookie'' then (if ?first = [] then [] else [join_with ''; '' ?first]) else hm_get_all H h n)" for n
  proof (cases "cc_iter C jar")
    case Nil
    then show ?thesis using assms(2) jar_hdr by (auto simp: with_jar_cookies_def split: option.split)
  next
    case (Cons c cs)
    have jar_str: "Option.bind (client_cookie_header C H jar) (hv_to_str H) = Some (join_with ''; '' ?jar)"
      using jar_vis by (simp add: jar_hdr to_str Cons)
    have merged: "(case Option.bind (hm_get H h ''cookie'') (hv_to_str H) of
        Some existing \<Rightarrow> existing @ ''; '' @ join_with ''; '' ?jar | None \<Rightarrow> join_with ''; '' ?jar) = join_with ''; '' ?first"
      using assms(2,3) Cons by (cases explicit) (simp_all add: get_first to_str)
    have "with_jar_cookies C H jar h = hm_insert H h ''cookie'' (join_with ''; '' ?first)"
      by (simp only: with_jar_cookies_def jar_str option.case Let_def merged from_str [OF vis_join])
    with Cons show ?thesis by (simp add: get_all_insert)
  qed
  show ?thesis
  proof (cases "extra = []")
    case True
    with first show ?thesis by (auto simp: with_extra_cookies_def cookie_texts_def Let_def)
  next
    case False
    let ?all = "?first @ map (cookie_pair C) extra"
    have "list_all header_visible (join_with ''; '' ?all)"
      by (rule join_visible) (use vis(1) assms(1) in auto)
    moreover have "push_cookies C extra (case Option.bind (hm_get H (with_jar_cookies C H jar h) ''cookie'') (hv_to_str H) of
        Some s \<Rightarrow> s | None \<Rightarrow> []) = join_with ''; '' ?all"
    proof (cases "?first = []")
      case True
      with False show ?thesis by (simp add: first get_first push_cookies_Nil)
    next
      case nonempty: False
      then have "Option.bind (hm_get H (with_jar_cookies C H jar h) ''cookie'') (hv_to_str H) = Some (join_with ''; '' ?first)"
        using vis_join by (simp only: first get_first if_True if_False list.case bind.bind_lunit to_str simp_thms)
      moreover have "push_cookies C extra (join_with ''; '' ?first) = join_with ''; '' ?all"
        using False push_cookies_join [OF ne [OF nonempty], of C extra]
          join_with_append [OF nonempty, of "map (cookie_pair C) extra" "''; ''"]
          join_with_append [of "[join_with ''; '' ?first]" "map (cookie_pair C) extra" "''; ''"]
        by simp
      ultimately show ?thesis by simp
    qed
    ultimately show ?thesis
      using False first by (auto simp: with_extra_cookies_def Let_def from_str get_all_insert cookie_texts_def)
  qed
qed

end

text \<open>Requests built through the client's API (names, values and data are given as texts); each header has at most
  one value.\<close>

inductive tr_built :: "'h http_lib \<Rightarrow> ('h, 'c) test_request \<Rightarrow> bool" for H where
  start: "tr_built H (client_request H m path)"
| header: "tr_built H r \<Longrightarrow> tr_header H (try_name :: string \<Rightarrow> _) (try_value :: string \<Rightarrow> _) k v r = Some r' \<Longrightarrow> tr_built H r'"
| query: "tr_built H r \<Longrightarrow> tr_query (ser :: string \<Rightarrow> _) q r = Some r' \<Longrightarrow> tr_built H r'"
| json: "tr_built H r \<Longrightarrow> tr_json H (ser :: string \<Rightarrow> _) v r = Some r' \<Longrightarrow> tr_built H r'"
| form: "tr_built H r \<Longrightarrow> tr_form H (ser :: string \<Rightarrow> _) v r = Some r' \<Longrightarrow> tr_built H r'"
| body: "tr_built H r \<Longrightarrow> tr_built H (tr_set_body b r)"
| cookie: "tr_built H r \<Longrightarrow> tr_built H (tr_cookie c r)"

lemma tr_built_single:
  "tr_built H r \<Longrightarrow> header_map H \<Longrightarrow>
     hm_get_all H (tr_headers r) n = (case hm_get H (tr_headers r) n of Some v \<Rightarrow> [v] | None \<Rightarrow> [])"
proof -
  assume H: "header_map H" and r: "tr_built H r"
  from r have "length (hm_get_all H (tr_headers r) n) \<le> 1"
    by (induction rule: tr_built.induct)
       (auto simp: client_request_def tr_header_def tr_query_def tr_json_def tr_form_def tr_set_body_def tr_cookie_def
         Let_def header_map.get_all_simps [OF H] split: option.splits if_splits)
  then show ?thesis
    by (cases "hm_get_all H (tr_headers r) n"; cases "tl (hm_get_all H (tr_headers r) n)")
       (auto simp: header_map.get_first [OF H])
qed

text \<open>The shutdown signal goes out once, whether the handle is closed, fails to close, or is only dropped.\<close>

lemma ws_stopped_once:
  assumes "tx_shutdown self" "tx_signals self = 0"
  shows "tx_signals (ws_drop self) = 1 \<and> tx_aborted (ws_drop self)
    \<and> tx_signals (snd (ws_close result self)) = 1 \<and> tx_aborted (snd (ws_close result self))"
  using assms by (cases result) (simp_all add: ws_close_def ws_drop_def ws_stop_server_def)

subsection \<open>Properties\<close>

text \<open>The test client sends the request it was told to.  For a request built through the client's API whose URI
  parses and whose cookies and explicit cookie header are printable, the client does not panic: the service gets the
  method, the URI and the body as built, every header but the cookies exactly as set, and as cookies one header with
  the explicit text, then the jar's cookies, then the extra ones, joined by semicolons, or none when there are none;
  what the service answers, or its panic, is what the caller gets.\<close>

theorem client_send_faithful:
  assumes "header_map H" "tr_built H self" "parse_uri (tr_uri self) = Some u"
    and "\<forall>c \<in> set (cc_iter C (te_cookies client)) \<union> set (tr_extra_cookies self). list_all header_visible (cookie_pair C c)"
    and "\<And>s. hm_get H (tr_headers self) ''cookie'' = Some s \<Longrightarrow> s \<noteq> [] \<and> list_all header_visible s"
  shows "\<exists>req. req_method req = tr_method self \<and> req_uri req = u \<and> req_body req = tr_body self
    \<and> (\<forall>n. hm_get_all H (req_headers req) n =
        (if n = ''cookie''
         then (let ts = cookie_texts C (hm_get H (tr_headers self) ''cookie'') (cc_iter C (te_cookies client)) (tr_extra_cookies self)
               in if ts = [] then [] else [join_with ''; '' ts])
         else hm_get_all H (tr_headers self) n))
    \<and> (case client_send C H parse_uri expired self client w of
         Some (out, _, w') \<Rightarrow> (out, w') = te_service client req w | None \<Rightarrow> False)"
proof -
  note single = tr_built_single [OF assms(2,1)]
  obtain h' where h': "with_extra_cookies C H (tr_extra_cookies self)
        (with_jar_cookies C H (te_cookies client) (tr_headers self)) = Some h'"
    and all: "\<And>n. hm_get_all H h' n = (if n = ''cookie''
         then (let ts = cookie_texts C (hm_get H (tr_headers self) ''cookie'') (cc_iter C (te_cookies client)) (tr_extra_cookies self)
               in if ts = [] then [] else [join_with ''; '' ts])
         else hm_get_all H (tr_headers self) n)"
    using header_map.cookie_headers_sent [OF assms(1,4) single [of "''cookie''"] assms(5)] by blast
  let ?req = "\<lparr>req_method = tr_method self, req_uri = u, req_headers = append_keyed H (hm_into_iter H h') (hm_new H),
      req_ext = no_extensions, req_body = tr_body self\<rparr>"
  have "length (hm_get_all H h' n) \<le> 1" for n
    using single [of n] by (simp add: all Let_def split: option.split)
  then have "hm_get_all H (req_headers ?req) n = hm_get_all H h' n" for n
    by (simp add: header_map.append_keyed_iter [OF assms(1)] header_map.get_all_new [OF assms(1)])
  moreover have "(case client_send C H parse_uri expired self client w of
      Some (out, _, w') \<Rightarrow> (out, w') = te_service client ?req w | None \<Rightarrow> False)"
    by (simp add: client_send_def h' assms(3) Let_def split: prod.split outcome.split)
  ultimately show ?thesis using all by (intro exI [of _ ?req]) simp
qed

text \<open>The jar follows the responses.  After a response, the client's cookie of a name is what the last readable,
  parseable \<^verbatim>\<open>Set-Cookie\<close> value for that name says: none if it is an expired one, that cookie otherwise; and the cookie
  of before if the response has no such value.\<close>

theorem client_jar_follows:
  assumes "client_jar C lookup" "client_send C H parse_uri expired self client w = Some (Done resp, client', w')"
  shows "lookup (te_cookies client') n =
    (case client_jar.stored C H expired (hm_get_all H (res_headers resp) ''set-cookie'') n of
       [] \<Rightarrow> lookup (te_cookies client) n
     | effects \<Rightarrow> last effects)"
proof -
  have "te_cookies client' = store_response_cookies C H expired (res_headers resp) (te_cookies client)"
    using assms(2) by (auto simp: client_send_def Let_def split: option.splits prod.splits outcome.splits)
  then show ?thesis
    by (simp add: store_response_cookies_def client_jar.store_cookies_lookup [OF assms(1)] split: list.split)
qed

lemma expiry_attributes:
  "map trim (drop 1 (split_on CHR '';'' ''a=1; MAX-AGE=0'')) = [''MAX-AGE=0'']"
  "map trim (drop 1 (split_on CHR '';'' ''a=1; Max-Age=0'')) = [''Max-Age=0'']"
  "map trim (drop 1 (split_on CHR '';'' ''a=1; Max-Age=x; Expires=Thu, 01 Jan 1970 00:00:00 GMT''))
     = [''Max-Age=x'', ''Expires=Thu, 01 Jan 1970 00:00:00 GMT'']"
  "parse_i64 (trim ''0'') = Some 0" "parse_i64 (trim ''x'') = None"
  by code_simp+

text \<open>Two expired cookies the client keeps.  The attribute names of \<^verbatim>\<open>Set-Cookie\<close> are case-insensitive and a
  malformed \<^verbatim>\<open>Max-Age\<close> is to be ignored (RFC 6265); the client knows two spellings, and gives a malformed one
  precedence over \<^verbatim>\<open>Expires\<close>, so that neither cookie is deleted.\<close>

theorem set_cookie_expiry_gaps:
  "\<not> set_cookie_is_expired parse_date now ''a=1; MAX-AGE=0''
   \<and> set_cookie_is_expired parse_date now ''a=1; Max-Age=0''
   \<and> \<not> set_cookie_is_expired parse_date now ''a=1; Max-Age=x; Expires=Thu, 01 Jan 1970 00:00:00 GMT''"
  unfolding set_cookie_is_expired_def expiry_attributes Let_def
  by (simp add: strip_prefix_def expiry_attributes)

definition login_service :: "(alist_headers, nat) service" where
  "login_service req w = (Done (sample_response 200 [(''set-cookie'', ''a=1'')] []), w)"

theorem client_jar_follows_witness:
  "\<exists>resp client' w'. client_send pair_client alist_lib (\<lambda>p. Some (sample_uri p)) (\<lambda>_. False) (client_get alist_lib ''/'')
      \<lparr>te_service = login_service, te_cookies = []\<rparr> 0 = Some (Done resp, client', w')
    \<and> pair_lookup (te_cookies client') ''a'' = Some (''a'', ''1'')"
proof -
  let ?client = "\<lparr>te_service = login_service, te_cookies = []\<rparr>" and ?resp = "sample_response 200 [(''set-cookie'', ''a=1'')] []"
  have "\<exists>client' w'. client_send pair_client alist_lib (\<lambda>p. Some (sample_uri p)) (\<lambda>_. False) (client_get alist_lib ''/'') ?client 0
      = Some (Done ?resp, client', w')"
    by (simp add: client_send_def with_extra_cookies_def client_get_def client_request_def login_service_def Let_def)
  then obtain client' w' where sent: "client_send pair_client alist_lib (\<lambda>p. Some (sample_uri p)) (\<lambda>_. False)
      (client_get alist_lib ''/'') ?client 0 = Some (Done ?resp, client', w')"
    by blast
  have "client_jar.stored pair_client alist_lib (\<lambda>_. False) (hm_get_all alist_lib (res_headers ?resp) ''set-cookie'') ''a''
    = [Some (''a'', ''1'')]"
    unfolding client_jar.stored_def [OF pair_client_jar]
    by (simp add: sample_response_def alist_sel alist_get_all_def List.map_filter_simps pair_client_def header_visible_def)
  with client_jar_follows [OF pair_client_jar sent, of "''a''"] sent show ?thesis by auto
qed

end
