(* ===== verification/Polling.thy ===== *)
theory Polling
  imports Observe Sse
begin

text \<open>
  Bodies as they are polled: the implementations of \<^verbatim>\<open>http_body::Body\<close> in arvik-core/src/body.rs and
  stream_body.rs, and the wrappers of arvik-middleware/src/body_limit.rs and arvik-observe/src/metrics.rs.

  Theory Bodies takes a body as the sequence of its frames.  Here a body is a machine of type \<open>'i http_body\<close> on
  states \<open>'i\<close>: a poll may be pending, and a body need never end.  A wrapper is a function from the machine of the
  inner body to that of the wrapped one, so that a stack of wrappers is their composition.  Reading a body is a
  \<open>partial_function\<close>, since awaiting a frame of a stalled body does not return.  \<open>polled_body_refines\<close> relates the
  two levels; the locale \<open>body_contract\<close> states what the trait demands of \<^verbatim>\<open>is_end_stream\<close> and
  \<^verbatim>\<open>size_hint\<close>.
\<close>

subsection \<open>The trait and its implementations\<close>

record 'i http_body =
  hb_poll :: "'i \<Rightarrow> frame option poll \<times> 'i"
  hb_end :: "'i \<Rightarrow> bool"
  hb_lower :: "'i \<Rightarrow> nat"
  hb_upper :: "'i \<Rightarrow> nat option"

type_synonym 's byte_stream = "'s \<Rightarrow> (body_error + string) option poll \<times> 's"

text \<open>\<^verbatim>\<open>StreamBody\<close> and the \<^verbatim>\<open>StreamBodyInner\<close> behind \<^verbatim>\<open>Body::from_stream\<close>: the defaults of the trait say
  that the end and the size are not known.\<close>

definition stream_body_poll :: "'s byte_stream \<Rightarrow> 's \<Rightarrow> frame option poll \<times> 's" where
  "stream_body_poll poll_next s =
     (case poll_next s of
        (Ready (Some (Inr bytes)), s') \<Rightarrow> (Ready (Some (Data bytes)), s')
      | (Ready (Some (Inl e)), s') \<Rightarrow> (Ready (Some (FrameErr e)), s')
      | (Ready None, s') \<Rightarrow> (Ready None, s')
      | (Pending, s') \<Rightarrow> (Pending, s'))"

definition stream_body_inner_poll :: "'s byte_stream \<Rightarrow> 's \<Rightarrow> frame option poll \<times> 's" where
  "stream_body_inner_poll = stream_body_poll"

definition stream_body :: "'s byte_stream \<Rightarrow> 's http_body" where
  "stream_body poll_next = \<lparr>hb_poll = stream_body_inner_poll poll_next, hb_end = \<lambda>_. False, hb_lower = \<lambda>_. 0,
     hb_upper = \<lambda>_. None\<rparr>"

text \<open>\<^verbatim>\<open>ChunksBody\<close>.\<close>

record chunks_body =
  cq_chunks :: "string list"
  cq_remaining :: nat

definition chunks_poll :: "chunks_body \<Rightarrow> frame option poll \<times> chunks_body" where
  "chunks_poll self =
     (case cq_chunks self of
        [] \<Rightarrow> (Ready None, self)
      | chunk # rest \<Rightarrow>
          (Ready (Some (Data chunk)), self\<lparr>cq_chunks := rest, cq_remaining := cq_remaining self - length chunk\<rparr>))"

definition chunks_is_end :: "chunks_body \<Rightarrow> bool" where
  "chunks_is_end self \<longleftrightarrow> cq_chunks self = []"

definition chunks_hint :: "chunks_body \<Rightarrow> nat" where
  "chunks_hint self = cq_remaining self"

definition chunks_machine :: "chunks_body http_body" where
  "chunks_machine = \<lparr>hb_poll = chunks_poll, hb_end = chunks_is_end, hb_lower = chunks_hint,
     hb_upper = \<lambda>self. Some (chunks_hint self)\<rparr>"

text \<open>\<^verbatim>\<open>MapErrorBody\<close>: an error is boxed as it is.\<close>

definition map_error_poll :: "'i http_body \<Rightarrow> 'i \<Rightarrow> frame option poll \<times> 'i" where
  "map_error_poll B self =
     (case hb_poll B self of
        (Ready (Some (FrameErr e)), b) \<Rightarrow> (Ready (Some (FrameErr e)), b)
      | (Ready (Some frame), b) \<Rightarrow> (Ready (Some frame), b)
      | (Ready None, b) \<Rightarrow> (Ready None, b)
      | (Pending, b) \<Rightarrow> (Pending, b))"

definition map_error_body :: "'i http_body \<Rightarrow> 'i http_body" where
  "map_error_body B = B\<lparr>hb_poll := map_error_poll B\<rparr>"

text \<open>\<^verbatim>\<open>Body\<close>.  The full body of the http-body-util crate gives its bytes once; it holds none when it is
  built from none.\<close>

datatype 'i polled_body = PEmpty | PFull "string option" | PChunks chunks_body | PBoxed 'i

definition full_new :: "string \<Rightarrow> string option" where
  "full_new b = (if b = [] then None else Some b)"

definition polled_new :: "'i \<Rightarrow> 'i polled_body" where "polled_new b = PBoxed b"
definition polled_empty :: "'i polled_body" where "polled_empty = PEmpty"
definition polled_from_bytes :: "string \<Rightarrow> 'i polled_body" where "polled_from_bytes b = PFull (full_new b)"

definition polled_from_chunks :: "string list \<Rightarrow> 'i polled_body" where
  "polled_from_chunks cs =
     (let chunks = filter (\<lambda>c. c \<noteq> []) cs
      in if chunks = [] then polled_empty
         else PChunks \<lparr>cq_chunks = chunks, cq_remaining = sum_list (map length chunks)\<rparr>)"

fun polled_poll :: "'i http_body \<Rightarrow> 'i polled_body \<Rightarrow> frame option poll \<times> 'i polled_body" where
  "polled_poll B PEmpty = (Ready None, PEmpty)"
| "polled_poll B (PFull d) = (Ready (map_option Data d), PFull None)"
| "polled_poll B (PChunks q) = map_prod id PChunks (chunks_poll q)"
| "polled_poll B (PBoxed b) = map_prod id PBoxed (hb_poll B b)"

fun polled_is_end :: "'i http_body \<Rightarrow> 'i polled_body \<Rightarrow> bool" where
  "polled_is_end B PEmpty = True"
| "polled_is_end B (PFull d) = (d = None)"
| "polled_is_end B (PChunks q) = chunks_is_end q"
| "polled_is_end B (PBoxed b) = hb_end B b"

text \<open>\<^verbatim>\<open>size_hint\<close>: the lower bound, and the upper one if there is one.\<close>

fun polled_hint :: "'i http_body \<Rightarrow> 'i polled_body \<Rightarrow> nat \<times> nat option" where
  "polled_hint B PEmpty = (0, Some 0)"
| "polled_hint B (PFull d) = (let n = (case d of None \<Rightarrow> 0 | Some b \<Rightarrow> length b) in (n, Some n))"
| "polled_hint B (PChunks q) = (chunks_hint q, Some (chunks_hint q))"
| "polled_hint B (PBoxed b) = (hb_lower B b, hb_upper B b)"

text \<open>The machine of bodies whose boxed variant is built by \<^verbatim>\<open>Body::new\<close> from \<open>B\<close>.\<close>

definition polled_body :: "'i http_body \<Rightarrow> 'i polled_body http_body" where
  "polled_body B =
     (let M = map_error_body B
      in \<lparr>hb_poll = polled_poll M, hb_end = polled_is_end M, hb_lower = \<lambda>b. fst (polled_hint M b),
          hb_upper = \<lambda>b. snd (polled_hint M b)\<rparr>)"

subsection \<open>Wrappers\<close>

text \<open>\<^verbatim>\<open>LimitedBody\<close>.\<close>

record 'i limited =
  lm_inner :: 'i
  lm_limit :: nat
  lm_read :: nat

definition limited_new :: "nat \<Rightarrow> 'i \<Rightarrow> 'i limited" where
  "limited_new limit b = \<lparr>lm_inner = b, lm_limit = limit, lm_read = 0\<rparr>"

definition limited_poll :: "'i http_body \<Rightarrow> 'i limited \<Rightarrow> frame option poll \<times> 'i limited" where
  "limited_poll B self =
     (case hb_poll B (lm_inner self) of
        (Ready (Some (Data d)), b) \<Rightarrow>
          let self = self\<lparr>lm_inner := b, lm_read := lm_read self + length d\<rparr>
          in if lm_read self > lm_limit self then (Ready (Some (FrameErr BodyTooLarge)), self)
             else (Ready (Some (Data d)), self)
      | (other, b) \<Rightarrow> (other, self\<lparr>lm_inner := b\<rparr>))"

definition limited_machine :: "'i http_body \<Rightarrow> 'i limited http_body" where
  "limited_machine B = \<lparr>hb_poll = limited_poll B, hb_end = \<lambda>self. hb_end B (lm_inner self),
     hb_lower = \<lambda>self. hb_lower B (lm_inner self), hb_upper = \<lambda>self. hb_upper B (lm_inner self)\<rparr>"

text \<open>\<^verbatim>\<open>CountingBody\<close>; \<open>ct_observed\<close> are the calls of its observer.\<close>

record 'i counting =
  ct_inner :: 'i
  ct_bytes :: nat
  ct_observer :: bool
  ct_finished :: bool
  ct_observed :: "nat list"

definition counting_body_new :: "'i \<Rightarrow> bool \<Rightarrow> 'i counting" where
  "counting_body_new inner observer = \<lparr>ct_inner = inner, ct_bytes = 0, ct_observer = observer, ct_finished = False,
     ct_observed = []\<rparr>"

definition counting_body_finish :: "'i counting \<Rightarrow> 'i counting" where
  "counting_body_finish self =
     (if ct_finished self then self
      else self\<lparr>ct_finished := True,
             ct_observed := ct_observed self @ (if ct_observer self then [ct_bytes self] else [])\<rparr>)"

definition counting_body_poll :: "'i http_body \<Rightarrow> 'i counting \<Rightarrow> frame option poll \<times> 'i counting" where
  "counting_body_poll B self =
     (let (p, b) = hb_poll B (ct_inner self); self = self\<lparr>ct_inner := b\<rparr>
      in (p, case p of
               Ready (Some (Data d)) \<Rightarrow> self\<lparr>ct_bytes := ct_bytes self + length d\<rparr>
             | Ready (Some Trailers) \<Rightarrow> self
             | Ready (Some (FrameErr e)) \<Rightarrow> counting_body_finish self
             | Ready None \<Rightarrow> counting_body_finish self
             | Pending \<Rightarrow> self))"

definition counting_machine :: "'i http_body \<Rightarrow> 'i counting http_body" where
  "counting_machine B = \<lparr>hb_poll = counting_body_poll B, hb_end = \<lambda>self. hb_end B (ct_inner self),
     hb_lower = \<lambda>self. hb_lower B (ct_inner self), hb_upper = \<lambda>self. hb_upper B (ct_inner self)\<rparr>"

text \<open>\<^verbatim>\<open>SseBody\<close> (theory Sse) as a machine: the handler's stream is the list of what it will answer, with the
  times of the polls; then it has ended.\<close>

definition sse_machine :: "(sse_body \<times> (nat \<times> stream_poll) list) http_body" where
  "sse_machine = \<lparr>hb_poll = (\<lambda>(self, ps). case ps of
        [] \<Rightarrow> (Ready None, (self, []))
      | (now, p) # rest \<Rightarrow>
          (case poll_frame self now p of
             (FData d, self) \<Rightarrow> (Ready (Some (Data d)), (self, rest))
           | (FErr e, self) \<Rightarrow> (Ready (Some (FrameErr (OtherError e))), (self, rest))
           | (FEnd, self) \<Rightarrow> (Ready None, (self, rest))
           | (FPending, self) \<Rightarrow> (Pending, (self, rest)))),
     hb_end = \<lambda>_. False, hb_lower = \<lambda>_. 0, hb_upper = \<lambda>_. None\<rparr>"

subsection \<open>Reading\<close>

text \<open>\<^verbatim>\<open>BodyExt::frame(&mut body).await\<close>.\<close>

partial_function (option) next_frame :: "'i http_body \<Rightarrow> 'i \<Rightarrow> (frame option \<times> 'i) option" where
  "next_frame B s =
     (case hb_poll B s of
        (Pending, s') \<Rightarrow> next_frame B s'
      | (Ready r, s') \<Rightarrow> Some (r, s'))"

text \<open>The loop of \<^verbatim>\<open>to_bytes_limited\<close>.\<close>

partial_function (option) read_limited ::
  "'i http_body \<Rightarrow> nat \<Rightarrow> nat \<Rightarrow> string list \<Rightarrow> 'i \<Rightarrow> (body_limit_error + string) option" where
  "read_limited B limit tot acc s =
     Option.bind (next_frame B s) (\<lambda>(r, s'). case r of
        None \<Rightarrow> Some (Inr (concat acc))
      | Some (Data d) \<Rightarrow>
          if tot + length d > limit then Some (Inl TooLarge)
          else read_limited B limit (tot + length d) (acc @ [d]) s'
      | Some Trailers \<Rightarrow> Some (Inl (ReadErr (OtherError ''unexpected body trailer'')))
      | Some (FrameErr e) \<Rightarrow> Some (Inl (ReadErr e)))"

definition polled_to_bytes_limited :: "'i http_body \<Rightarrow> 'i \<Rightarrow> nat \<Rightarrow> (body_limit_error + string) option" where
  "polled_to_bytes_limited B self limit =
     (case hb_upper B self of
        Some upper \<Rightarrow> if upper > limit then Some (Inl TooLarge) else read_limited B limit 0 [] self
      | None \<Rightarrow> read_limited B limit 0 [] self)"

text \<open>\<^verbatim>\<open>to_bytes\<close>: collecting without a limit.\<close>

partial_function (option) read_all :: "'i http_body \<Rightarrow> string \<Rightarrow> 'i \<Rightarrow> (body_error + string) option" where
  "read_all B acc s =
     Option.bind (next_frame B s) (\<lambda>(r, s'). case r of
        None \<Rightarrow> Some (Inr acc)
      | Some (Data d) \<Rightarrow> read_all B (acc @ d) s'
      | Some Trailers \<Rightarrow> read_all B acc s'
      | Some (FrameErr e) \<Rightarrow> Some (Inl e))"

text \<open>What a state yields when it is polled to its end, and what it delivers on the way to another one.\<close>

inductive body_yields :: "'i http_body \<Rightarrow> 'i \<Rightarrow> frame list \<Rightarrow> bool" for B where
  ended: "hb_poll B s = (Ready None, s') \<Longrightarrow> body_yields B s []"
| frame: "hb_poll B s = (Ready (Some f), s') \<Longrightarrow> body_yields B s' fs \<Longrightarrow> body_yields B s (f # fs)"
| pending: "hb_poll B s = (Pending, s') \<Longrightarrow> body_yields B s' fs \<Longrightarrow> body_yields B s fs"

inductive body_delivers :: "'i http_body \<Rightarrow> 'i \<Rightarrow> frame list \<Rightarrow> 'i \<Rightarrow> bool" for B where
  none: "body_delivers B s [] s"
| frame: "hb_poll B s = (Ready (Some f), s') \<Longrightarrow> body_delivers B s' fs s'' \<Longrightarrow> body_delivers B s (f # fs) s''"
| pending: "hb_poll B s = (Pending, s') \<Longrightarrow> body_delivers B s' fs s'' \<Longrightarrow> body_delivers B s fs s''"

inductive_cases body_yields_NilE: "body_yields B s []"
inductive_cases body_yields_ConsE: "body_yields B s (f # fs)"

subsection \<open>Reading refines the frames\<close>

lemmas poll_splits = prod.splits poll.splits option.splits frame.splits

lemma next_frame_yields_Nil: "body_yields B s fs \<Longrightarrow> fs = [] \<Longrightarrow> \<exists>s'. next_frame B s = Some (None, s')"
  by (induction rule: body_yields.induct) (auto simp: next_frame.simps [of B])

lemma next_frame_yields_Cons:
  "body_yields B s fs \<Longrightarrow> fs = f # gs \<Longrightarrow> \<exists>s'. next_frame B s = Some (Some f, s') \<and> body_yields B s' gs"
  by (induction rule: body_yields.induct) (auto simp: next_frame.simps [of B])

lemma read_limited_yields:
  "body_yields B s fs \<Longrightarrow> read_limited B limit tot acc s = Some (limited_loop limit tot acc fs)"
proof (induction limit tot acc fs arbitrary: s rule: limited_loop.induct)
  case (1 limit tot acc)
  then show ?case using next_frame_yields_Nil [of B s "[]"] by (auto simp: read_limited.simps [of B limit tot])
next
  case (2 limit tot acc d fs)
  then show ?case
    using next_frame_yields_Cons [of B s "Data d # fs" "Data d" fs] by (auto simp: read_limited.simps [of B limit tot])
next
  case (3 limit tot acc fs)
  then show ?case
    using next_frame_yields_Cons [of B s "Trailers # fs" Trailers fs] by (auto simp: read_limited.simps [of B limit tot])
next
  case (4 limit tot acc e fs)
  then show ?case
    using next_frame_yields_Cons [of B s "FrameErr e # fs" "FrameErr e" fs]
    by (auto simp: read_limited.simps [of B limit tot])
qed

lemma read_all_yields:
  "body_yields B s fs \<Longrightarrow> read_all B acc s = Some (map_sum id (\<lambda>r. acc @ r) (collect_frames fs))"
proof (induction fs arbitrary: acc s rule: collect_frames.induct)
  case 1
  then show ?case using next_frame_yields_Nil [of B s "[]"] by (auto simp: read_all.simps [of B acc s])
next
  case (2 d fs)
  then show ?case
    using next_frame_yields_Cons [of B s "Data d # fs" "Data d" fs]
    by (auto simp: read_all.simps [of B acc s] split: sum.split)
next
  case (3 fs)
  then show ?case
    using next_frame_yields_Cons [of B s "Trailers # fs" Trailers fs] by (auto simp: read_all.simps [of B acc s])
next
  case (4 e fs)
  then show ?case
    using next_frame_yields_Cons [of B s "FrameErr e # fs" "FrameErr e" fs]
    by (auto simp: read_all.simps [of B acc s])
qed

lemma body_yields_unique: "body_yields B s fs \<Longrightarrow> body_yields B s gs \<Longrightarrow> fs = gs"
proof (induction arbitrary: gs rule: body_yields.induct)
  case (ended s s')
  from ended.prems show ?case
    by cases (use ended.hyps in simp_all)
next
  case (frame s f s' fs)
  from frame.prems obtain hs where "gs = f # hs" "body_yields B s' hs"
    by cases (use frame.hyps(1) in simp_all)
  with frame.IH show ?case by simp
next
  case (pending s s' fs)
  from pending.prems have "body_yields B s' gs"
    by cases (use pending.hyps(1) in simp_all)
  then show ?case by (rule pending.IH)
qed

text \<open>Reading more than the limit returns, even from a body that never ends.\<close>

lemma next_frame_delivers:
  "body_delivers B s fs s' \<Longrightarrow> fs = f # gs \<Longrightarrow> \<exists>t. next_frame B s = Some (Some f, t) \<and> body_delivers B t gs s'"
  by (induction rule: body_delivers.induct) (auto simp: next_frame.simps [of B])

lemma read_limited_delivers:
  "body_delivers B s fs s' \<Longrightarrow> all_data fs \<Longrightarrow> limit < tot + length (data_of fs) \<Longrightarrow> tot \<le> limit \<Longrightarrow>
     read_limited B limit tot acc s = Some (Inl TooLarge)"
proof (induction fs arbitrary: tot acc s)
  case (Cons f fs)
  then obtain d where f: "f = Data d" by (cases f) (auto simp: all_data_def)
  obtain t where "next_frame B s = Some (Some (Data d), t)" "body_delivers B t fs s'"
    using next_frame_delivers [OF Cons.prems(1)] f by blast
  with Cons f show ?case by (simp add: read_limited.simps [of B limit tot])
qed simp

subsection \<open>What the implementations yield\<close>

lemma body_delivers_yields: "body_delivers B s fs s' \<Longrightarrow> body_yields B s' gs \<Longrightarrow> body_yields B s (fs @ gs)"
  by (induction rule: body_delivers.induct) (auto intro: body_yields.intros)

lemma map_error_poll_eq [simp]: "map_error_poll B = hb_poll B"
  by (auto simp: map_error_poll_def fun_eq_iff split: poll_splits)

lemma map_error_body_eq [simp]: "map_error_body B = B"
  by (simp add: map_error_body_def)

lemma yields_boxed: "body_yields B s fs \<Longrightarrow> body_yields (polled_body B) (PBoxed s) fs"
  by (induction rule: body_yields.induct)
    (auto intro: body_yields.intros simp: polled_body_def Let_def)

lemma yields_chunks: "body_yields chunks_machine q (map Data (cq_chunks q))"
proof (induction "cq_chunks q" arbitrary: q)
  case Nil
  then show ?case by (auto intro: body_yields.ended simp: chunks_machine_def chunks_poll_def)
next
  case (Cons c cs)
  show ?case
    using Cons(1) [of "q\<lparr>cq_chunks := cs, cq_remaining := cq_remaining q - length c\<rparr>"]
    by (auto simp: Cons(2) [symmetric] chunks_machine_def chunks_poll_def intro: body_yields.frame)
qed

lemma yields_polled_chunks:
  "body_yields chunks_machine q fs \<Longrightarrow> body_yields (polled_body B) (PChunks q) fs"
  by (induction rule: body_yields.induct)
    (auto intro: body_yields.intros simp: polled_body_def chunks_machine_def Let_def)

lemma limited_step:
  "hb_poll B (lm_inner self) = (Ready (Some f), s') \<Longrightarrow>
     \<exists>g self'. hb_poll (limited_machine B) self = (Ready (Some g), self') \<and> lm_inner self' = s'
       \<and> (\<forall>fs. limited_frames (lm_limit self) (lm_read self) (f # fs)
              = g # limited_frames (lm_limit self') (lm_read self') fs)"
  by (cases f) (auto simp: limited_machine_def limited_poll_def Let_def)

lemma yields_limited:
  "body_yields B (lm_inner self) fs \<Longrightarrow>
     body_yields (limited_machine B) self (limited_frames (lm_limit self) (lm_read self) fs)"
proof (induction "lm_inner self" fs arbitrary: self rule: body_yields.induct)
  case (ended s')
  then show ?case by (auto intro: body_yields.ended simp: limited_machine_def limited_poll_def)
next
  case (frame f s' fs)
  from limited_step [OF frame(1)] obtain g self' where "hb_poll (limited_machine B) self = (Ready (Some g), self')"
    "lm_inner self' = s'" "limited_frames (lm_limit self) (lm_read self) (f # fs)
      = g # limited_frames (lm_limit self') (lm_read self') fs" by blast
  with frame(3) [of self'] show ?case by (metis body_yields.frame)
next
  case (pending s' fs)
  with pending(3) [of "self\<lparr>lm_inner := s'\<rparr>"] show ?case
    by (auto intro: body_yields.pending simp: limited_machine_def limited_poll_def)
qed

lemma counting_finish_inner [simp]: "ct_inner (counting_body_finish self) = ct_inner self"
  by (simp add: counting_body_finish_def)

lemma yields_counting: "body_yields B (ct_inner self) fs \<Longrightarrow> body_yields (counting_machine B) self fs"
proof (induction "ct_inner self" fs arbitrary: self rule: body_yields.induct)
  case (ended s')
  then show ?case by (auto intro: body_yields.ended simp: counting_machine_def counting_body_poll_def)
next
  case (frame f s' fs)
  obtain self' where "hb_poll (counting_machine B) self = (Ready (Some f), self')" "ct_inner self' = s'"
    using frame(1) by (cases f) (auto simp: counting_machine_def counting_body_poll_def Let_def)
  with frame(3) [of self'] show ?case by (auto intro: body_yields.frame)
next
  case (pending s' fs)
  with pending(3) [of "self\<lparr>ct_inner := s'\<rparr>"] show ?case
    by (auto intro: body_yields.pending simp: counting_machine_def counting_body_poll_def)
qed

subsection \<open>The contract of a body\<close>

text \<open>What a poll that gave \<open>n\<close> bytes may do to a size hint.\<close>

definition hint_moves :: "nat \<Rightarrow> 'i http_body \<Rightarrow> 'i \<Rightarrow> 'i \<Rightarrow> bool" where
  "hint_moves n B s s' \<longleftrightarrow> hb_lower B s \<le> n + hb_lower B s'
     \<and> (\<forall>u. hb_upper B s = Some u \<longrightarrow> (\<exists>u'. hb_upper B s' = Some u' \<and> n + u' \<le> u))"

fun poll_allowed :: "'i http_body \<Rightarrow> 'i \<Rightarrow> frame option poll \<times> 'i \<Rightarrow> bool" where
  "poll_allowed B s (Ready None, s') = (hb_lower B s = 0)"
| "poll_allowed B s (Ready (Some (Data d)), s') = hint_moves (length d) B s s'"
| "poll_allowed B s (Ready (Some Trailers), s') = hint_moves 0 B s s'"
| "poll_allowed B s (Ready (Some (FrameErr e)), s') = True"
| "poll_allowed B s (Pending, s') = hint_moves 0 B s s'"

locale body_contract =
  fixes B :: "'i http_body" and ok :: "'i \<Rightarrow> bool"
  assumes ok_poll: "ok s \<Longrightarrow> ok (snd (hb_poll B s))"
    and allowed: "ok s \<Longrightarrow> poll_allowed B s (hb_poll B s)"
    and ended: "ok s \<Longrightarrow> hb_end B s \<Longrightarrow> fst (hb_poll B s) = Ready None"
begin

lemma yields_bounds:
  "body_yields B s fs \<Longrightarrow> ok s \<Longrightarrow> all_data fs \<Longrightarrow>
     hb_lower B s \<le> length (data_of fs) \<and> (\<forall>u. hb_upper B s = Some u \<longrightarrow> length (data_of fs) \<le> u)"
proof (induction rule: body_yields.induct)
  case (ended s s')
  then show ?case using allowed [of s] by simp
next
  case (frame s f s' fs)
  then obtain d where "f = Data d" by (cases f) (auto simp: all_data_def)
  with frame ok_poll [of s] allowed [of s] show ?case by (fastforce simp: hint_moves_def)
next
  case (pending s s' fs)
  with ok_poll [of s] allowed [of s] show ?case by (fastforce simp: hint_moves_def)
qed

lemma ended_yields: "ok s \<Longrightarrow> hb_end B s \<Longrightarrow> body_yields B s []"
  using ended [of s] by (cases "hb_poll B s") (auto intro: body_yields.ended)

lemma read_exactly:
  assumes "ok s" "body_yields B s fs" "all_data fs"
  shows "polled_to_bytes_limited B s limit =
    (case hb_upper B s of
       Some u \<Rightarrow> if u \<le> limit then Some (Inr (data_of fs)) else Some (Inl TooLarge)
     | None \<Rightarrow> if length (data_of fs) \<le> limit then Some (Inr (data_of fs)) else Some (Inl TooLarge))"
proof -
  have "limited_loop limit 0 [] fs = (if length (data_of fs) \<le> limit then Inr (data_of fs) else Inl TooLarge)"
    using assms(3) by (cases "fs = []") (auto simp: limited_loop_Inr limited_loop_TooLarge)
  with read_limited_yields [OF assms(2), of limit 0 "[]"] yields_bounds [OF assms(2,1,3)] show ?thesis
    by (auto simp: polled_to_bytes_limited_def split: option.split)
qed

end

text \<open>The wrappers keep the contract of what they wrap.\<close>

lemma limited_contract: "body_contract B ok \<Longrightarrow> body_contract (limited_machine B) (\<lambda>self. ok (lm_inner self))"
proof
  fix self :: "'a limited"
  assume B: "body_contract B ok" and ok: "ok (lm_inner self)"
  obtain p b where p: "hb_poll B (lm_inner self) = (p, b)" by fastforce
  note laws = body_contract.ok_poll [OF B ok] body_contract.allowed [OF B ok] body_contract.ended [OF B ok]
  show "ok (lm_inner (snd (hb_poll (limited_machine B) self)))"
    using laws by (auto simp: limited_machine_def limited_poll_def Let_def p split: poll_splits)
  show "poll_allowed (limited_machine B) self (hb_poll (limited_machine B) self)"
    using laws by (auto simp: limited_machine_def limited_poll_def hint_moves_def Let_def p split: poll_splits)
  show "fst (hb_poll (limited_machine B) self) = Ready None" if "hb_end (limited_machine B) self"
    using laws that by (auto simp: limited_machine_def limited_poll_def p)
qed

lemma counting_contract: "body_contract B ok \<Longrightarrow> body_contract (counting_machine B) (\<lambda>self. ok (ct_inner self))"
proof
  fix self :: "'a counting"
  assume B: "body_contract B ok" and ok: "ok (ct_inner self)"
  obtain p b where p: "hb_poll B (ct_inner self) = (p, b)" by fastforce
  note laws = body_contract.ok_poll [OF B ok] body_contract.allowed [OF B ok] body_contract.ended [OF B ok]
  show "ok (ct_inner (snd (hb_poll (counting_machine B) self)))"
    using laws by (auto simp: counting_machine_def counting_body_poll_def Let_def p split: poll_splits)
  show "poll_allowed (counting_machine B) self (hb_poll (counting_machine B) self)"
    using laws by (auto simp: counting_machine_def counting_body_poll_def hint_moves_def Let_def p split: poll_splits)
  show "fst (hb_poll (counting_machine B) self) = Ready None" if "hb_end (counting_machine B) self"
    using laws that by (auto simp: counting_machine_def counting_body_poll_def p)
qed

fun polled_ok :: "('i \<Rightarrow> bool) \<Rightarrow> 'i polled_body \<Rightarrow> bool" where
  "polled_ok ok (PChunks q) \<longleftrightarrow> cq_remaining q = sum_list (map length (cq_chunks q))"
| "polled_ok ok (PBoxed b) \<longleftrightarrow> ok b"
| "polled_ok ok b \<longleftrightarrow> True"

lemma polled_contract: "body_contract B ok \<Longrightarrow> body_contract (polled_body B) (polled_ok ok)"
proof
  fix b :: "'a polled_body"
  assume B: "body_contract B ok" and ok: "polled_ok ok b"
  have boxed: "ok (snd (hb_poll B s)) \<and> poll_allowed B s (hb_poll B s)
      \<and> (hb_end B s \<longrightarrow> fst (hb_poll B s) = Ready None)" if "b = PBoxed s" for s
    using ok that body_contract.ok_poll [OF B] body_contract.allowed [OF B] body_contract.ended [OF B] by simp
  show "polled_ok ok (snd (hb_poll (polled_body B) b))"
    using ok boxed
    by (cases b) (auto simp: polled_body_def Let_def chunks_poll_def map_prod_def split: list.split prod.splits)
  show "poll_allowed (polled_body B) b (hb_poll (polled_body B) b)"
  proof (cases b)
    case (PFull d)
    then show ?thesis by (cases d) (auto simp: polled_body_def hint_moves_def Let_def)
  next
    case (PChunks q)
    then show ?thesis
      using ok by (auto simp: polled_body_def hint_moves_def Let_def chunks_poll_def chunks_hint_def split: list.split)
  next
    case (PBoxed s)
    with boxed [OF PBoxed] show ?thesis
      by (cases "hb_poll B s"; cases "(B, s, hb_poll B s)" rule: poll_allowed.cases)
        (auto simp: polled_body_def hint_moves_def Let_def)
  qed (simp add: polled_body_def Let_def)
  show "fst (hb_poll (polled_body B) b) = Ready None" if "hb_end (polled_body B) b"
    using that boxed
    by (cases b) (auto simp: polled_body_def Let_def chunks_poll_def chunks_is_end_def)
qed

interpretation streamed: body_contract "stream_body poll_next" "\<lambda>_. True" for poll_next :: "'s byte_stream"
  by unfold_locales
    (auto simp: stream_body_def stream_body_inner_poll_def stream_body_poll_def hint_moves_def split: poll_splits sum.splits)

interpretation event_stream: body_contract sse_machine "\<lambda>_. True"
  by unfold_locales
    (auto simp: sse_machine_def hint_moves_def split: prod.splits list.splits frame_poll.splits)

text \<open>The body that a handler under the limiting and the metrics layer gets from an application that streams.\<close>

definition metered_machine :: "'s byte_stream
    \<Rightarrow> 's polled_body limited polled_body counting polled_body http_body" where
  "metered_machine poll_next =
     polled_body (counting_machine (polled_body (limited_machine (polled_body (stream_body poll_next)))))"

definition metered_body :: "nat \<Rightarrow> bool \<Rightarrow> 's polled_body \<Rightarrow> 's polled_body limited polled_body counting polled_body" where
  "metered_body limit observer b = polled_new (counting_body_new (polled_new (limited_new limit b)) observer)"

interpretation metered: body_contract "metered_machine poll_next"
    "polled_ok (\<lambda>c. polled_ok (\<lambda>l. polled_ok (\<lambda>_. True) (lm_inner l)) (ct_inner c))" for poll_next :: "'s byte_stream"
  unfolding metered_machine_def
  by (intro polled_contract counting_contract limited_contract streamed.body_contract_axioms)

subsection \<open>Bodies and their frames\<close>

text \<open>A body on the level of polls and its model in theory Bodies.\<close>

inductive represents :: "'i http_body \<Rightarrow> 'i polled_body \<Rightarrow> body \<Rightarrow> bool" for B where
  empty: "represents B PEmpty BEmpty"
| full: "represents B (PFull (full_new b)) (BFull b)"
| chunks: "represents B (PChunks q) (BChunks (cq_chunks q) (cq_remaining q))"
| boxed: "body_yields B s fs \<Longrightarrow> represents B (PBoxed s) (BBoxed fs (hb_upper B s))"

lemma represents_new [intro]:
  "represents B polled_empty body_empty"
  "represents B (polled_from_bytes d) (body_from_bytes d)"
  "represents B (polled_from_chunks cs) (body_from_chunks cs)"
  "body_yields B s fs \<Longrightarrow> represents B (polled_new s) (body_new fs (hb_upper B s))"
  using represents.chunks [of B "\<lparr>cq_chunks = filter (\<lambda>c. c \<noteq> []) cs,
      cq_remaining = sum_list (map length (filter (\<lambda>c. c \<noteq> []) cs))\<rparr>"]
  by (auto intro: represents.intros simp: polled_empty_def body_empty_def polled_from_bytes_def body_from_bytes_def
      polled_from_chunks_def body_from_chunks_def polled_new_def body_new_def Let_def)

lemma represents_yields: "represents B p b \<Longrightarrow> body_yields (polled_body B) p (frames_of b)"
proof (induction rule: represents.induct)
  case empty
  then show ?case by (auto intro!: body_yields.ended simp: polled_body_def Let_def)
next
  case (full d)
  have "body_yields (polled_body B) (PFull None) []" by (auto intro!: body_yields.ended simp: polled_body_def Let_def)
  then show ?case by (auto intro!: body_yields.frame simp: polled_body_def full_new_def Let_def)
next
  case (chunks q)
  then show ?case by (simp add: yields_polled_chunks yields_chunks)
next
  case (boxed s fs)
  then show ?case by (simp add: yields_boxed)
qed

lemma represents_upper: "represents B p b \<Longrightarrow> hb_upper (polled_body B) p = size_hint_upper b"
  by (induction rule: represents.induct)
    (auto simp: polled_body_def full_new_def chunks_hint_def Let_def)

text \<open>C13: Awaiting refines the sequence of frames.  Let a body on the level of polls stand for a body of theory Bodies:
  the same bytes, the same chunks, or any machine that yields those frames however often it is pending between them.
  Then reading it with or without a limit returns, and gives what the model of theory Bodies gives; and wrapped into
  the limiting or the counting body it stands for the limited or the counted body of the model.\<close>

theorem polled_body_refines:
  assumes "represents B p b"
  shows "polled_to_bytes_limited (polled_body B) p limit = Some (to_bytes_limited b limit)
    \<and> read_all (polled_body B) [] p = Some (to_bytes b)
    \<and> represents (limited_machine (polled_body B)) (polled_new (limited_new l p)) (limited_body l b)
    \<and> represents (counting_machine (polled_body B)) (polled_new (counting_body_new p obs)) (counted_body b)"
proof (intro conjI)
  note yields = represents_yields [OF assms] and upper = represents_upper [OF assms]
  show "polled_to_bytes_limited (polled_body B) p limit = Some (to_bytes_limited b limit)"
    by (simp add: polled_to_bytes_limited_def to_bytes_limited_def upper read_limited_yields [OF yields]
        split: option.split)
  show "read_all (polled_body B) [] p = Some (to_bytes b)"
    by (simp add: read_all_yields [OF yields] to_bytes_def map_sum.identity id_def)
  show "represents (limited_machine (polled_body B)) (polled_new (limited_new l p)) (limited_body l b)"
    using represents_new(4) [OF yields_limited [of "polled_body B" "limited_new l p", simplified limited_new_def
          limited.simps, OF yields]]
    by (simp add: limited_body_def limited_machine_def limited_new_def upper)
  show "represents (counting_machine (polled_body B)) (polled_new (counting_body_new p obs)) (counted_body b)"
    using represents_new(4) [OF yields_counting [of "polled_body B" "counting_body_new p obs", simplified
          counting_body_new_def counting.simps, OF yields]]
    by (simp add: counted_body_def counting_machine_def counting_body_new_def upper)
qed

text \<open>A stream that follows a schedule, and one that never ends: its state is the number of its polls.\<close>

fun scheduled :: "(body_error + string) poll list byte_stream" where
  "scheduled [] = (Ready None, [])"
| "scheduled (Ready x # ps) = (Ready (Some x), ps)"
| "scheduled (Pending # ps) = (Pending, ps)"

definition ticking :: "nat byte_stream" where
  "ticking n = (if even n then Pending else Ready (Some (Inr ''xx'')), Suc n)"

fun scheduled_frames :: "(body_error + string) poll list \<Rightarrow> frame list" where
  "scheduled_frames [] = []"
| "scheduled_frames (Ready (Inr d) # ps) = Data d # scheduled_frames ps"
| "scheduled_frames (Ready (Inl e) # ps) = FrameErr e # scheduled_frames ps"
| "scheduled_frames (Pending # ps) = scheduled_frames ps"

lemma scheduled_poll:
  "hb_poll (stream_body scheduled) [] = (Ready None, [])"
  "hb_poll (stream_body scheduled) (Ready (Inr d) # ps) = (Ready (Some (Data d)), ps)"
  "hb_poll (stream_body scheduled) (Ready (Inl e) # ps) = (Ready (Some (FrameErr e)), ps)"
  "hb_poll (stream_body scheduled) (Pending # ps) = (Pending, ps)"
  by (simp_all add: stream_body_def stream_body_inner_poll_def stream_body_poll_def)

lemma scheduled_yields: "body_yields (stream_body scheduled) ps (scheduled_frames ps)"
  by (induction ps rule: scheduled_frames.induct)
    (simp_all add: body_yields.ended [OF scheduled_poll(1)] body_yields.frame [OF scheduled_poll(2)]
      body_yields.frame [OF scheduled_poll(3)] body_yields.pending [OF scheduled_poll(4)])

theorem polled_body_refines_witness:
  "polled_to_bytes_limited (polled_body (stream_body scheduled))
      (polled_new [Pending, Ready (Inr ''ab''), Pending, Ready (Inr ''c'')]) 5 = Some (Inr ''abc'')"
  using polled_body_refines [OF represents_new(4) [OF scheduled_yields], of _ 5]
  by (simp add: stream_body_def to_bytes_limited_def body_new_def)

lemma read_limited_prefix:
  "body_delivers B s fs s' \<Longrightarrow> limited_loop limit tot acc fs = Inl e \<Longrightarrow>
     read_limited B limit tot acc s = Some (Inl e)"
proof (induction limit tot acc fs arbitrary: s rule: limited_loop.induct)
  case (2 limit tot acc d fs)
  then show ?case
    using next_frame_delivers [OF 2(2), of "Data d" fs] by (auto simp: read_limited.simps [of B limit tot])
next
  case (3 limit tot acc fs)
  then show ?case
    using next_frame_delivers [OF 3(1), of Trailers fs] by (auto simp: read_limited.simps [of B limit tot])
next
  case (4 limit tot acc e fs)
  then show ?case
    using next_frame_delivers [OF 4(1), of "FrameErr e" fs] by (auto simp: read_limited.simps [of B limit tot])
qed simp

lemma delivers_boxed:
  "body_delivers B s fs s' \<Longrightarrow> body_delivers (polled_body B) (PBoxed s) fs (PBoxed s')"
  by (induction rule: body_delivers.induct) (auto intro: body_delivers.intros simp: polled_body_def Let_def)

lemma delivers_limited:
  "body_delivers B (lm_inner self) fs s' \<Longrightarrow>
     \<exists>t. body_delivers (limited_machine B) self (limited_frames (lm_limit self) (lm_read self) fs) t"
proof (induction "lm_inner self" fs s' arbitrary: self rule: body_delivers.induct)
  case none
  then show ?case by (auto intro: body_delivers.none)
next
  case (frame f s' fs s'')
  from limited_step [OF frame(1)] obtain g self' where "hb_poll (limited_machine B) self = (Ready (Some g), self')"
    "lm_inner self' = s'" "limited_frames (lm_limit self) (lm_read self) (f # fs)
      = g # limited_frames (lm_limit self') (lm_read self') fs" by blast
  with frame(3) [of self'] show ?case by (metis body_delivers.frame)
next
  case (pending s' fs s'')
  have "hb_poll (limited_machine B) self = (Pending, self\<lparr>lm_inner := s'\<rparr>)"
    using pending(1) by (simp add: limited_machine_def limited_poll_def)
  moreover obtain t where "body_delivers (limited_machine B) (self\<lparr>lm_inner := s'\<rparr>)
      (limited_frames (lm_limit self) (lm_read self) fs) t"
    using pending(3) [of "self\<lparr>lm_inner := s'\<rparr>"] by auto
  ultimately show ?case by (blast intro: body_delivers.pending)
qed

lemma limited_loop_refuses:
  "all_data fs \<Longrightarrow> count \<le> l \<Longrightarrow> tot \<le> limit \<Longrightarrow> l < count + length (data_of fs) \<or> limit < tot + length (data_of fs) \<Longrightarrow>
     \<exists>e. limited_loop limit tot acc (limited_frames l count fs) = Inl e \<and> is_payload_too_large e"
proof (induction fs arbitrary: count tot acc)
  case (Cons f fs)
  then obtain d where "f = Data d" by (cases f) auto
  with Cons show ?case by (auto simp: is_payload_too_large_def)
qed simp

text \<open>C32: A body without end is refused.  Once a body has delivered more bytes than the limiting layer or the reader
  allows, however often it was pending and whatever it would do later, buffering it returns, with an error that the
  extractors answer by 413.\<close>

theorem endless_body_refused:
  assumes "body_delivers (polled_body B) p fs p'" "all_data fs" "min l limit < length (data_of fs)"
  shows "\<exists>e. polled_to_bytes_limited (polled_body (limited_machine (polled_body B))) (polled_new (limited_new l p)) limit
      = Some (Inl e) \<and> is_payload_too_large e"
proof -
  let ?M = "polled_body (limited_machine (polled_body B))" and ?s = "polled_new (limited_new l p)"
  obtain t where "body_delivers ?M ?s (limited_frames l 0 fs) t"
    using delivers_limited [of "polled_body B" "limited_new l p"] assms(1) delivers_boxed
    by (fastforce simp: limited_new_def polled_new_def)
  note delivered = this
  obtain e where e: "limited_loop limit 0 [] (limited_frames l 0 fs) = Inl e" "is_payload_too_large e"
    using limited_loop_refuses [OF assms(2), of 0 l 0 limit "[]"] assms(3) by (auto simp: min_def split: if_splits)
  from read_limited_prefix [OF delivered e(1)] e(2) show ?thesis
    by (auto simp: polled_to_bytes_limited_def is_payload_too_large_def split: option.split)
qed

theorem endless_body_refused_witness:
  "\<exists>e. polled_to_bytes_limited (polled_body (limited_machine (polled_body (stream_body ticking))))
      (polled_new (limited_new 3 (polled_new 0))) 10 = Some (Inl e) \<and> is_payload_too_large e"
proof (rule endless_body_refused)
  have step: "hb_poll (stream_body ticking) n = (if even n then Pending else Ready (Some (Data ''xx'')), Suc n)" for n
    by (simp add: stream_body_def stream_body_inner_poll_def stream_body_poll_def ticking_def)
  have "body_delivers (stream_body ticking) n [] n" for n by (rule body_delivers.none)
  then have "body_delivers (stream_body ticking) 0 [Data ''xx'', Data ''xx''] (Suc (Suc (Suc (Suc 0))))"
    by (intro body_delivers.pending [OF step [of 0, simplified]] body_delivers.frame [OF step [of "Suc 0", simplified]]
        body_delivers.pending [OF step [of "Suc (Suc 0)", simplified]]
        body_delivers.frame [OF step [of "Suc (Suc (Suc 0))", simplified]])
  then show "body_delivers (polled_body (stream_body ticking)) (polled_new 0) [Data ''xx'', Data ''xx''] (PBoxed (Suc (Suc (Suc (Suc 0)))))"
    by (auto simp: polled_new_def intro: delivers_boxed)
qed simp_all

text \<open>What the size hint of a wrapped body is good for.  A body built from nothing, from bytes, from chunks or from a
  stream and wrapped by the limiting and the metrics layer keeps its promises: if it says that it has ended, nothing
  follows; if it yields only data, its hint bounds their length, and buffering it gives exactly these data when they
  fit into the reader's limit and refuses them when they do not, although the reader looks at the hint first.\<close>

theorem wrapped_body_read:
  fixes poll_next :: "'s byte_stream"
  defines "M \<equiv> metered_machine poll_next"
  assumes "b \<in> {polled_empty, polled_from_bytes d, polled_from_chunks cs, polled_new st}"
    and "body_yields M (metered_body l obs b) fs" "all_data fs"
  shows "polled_to_bytes_limited M (metered_body l obs b) limit =
      Some (if length (data_of fs) \<le> limit then Inr (data_of fs) else Inl TooLarge)
    \<and> hb_lower M (metered_body l obs b) \<le> length (data_of fs)
    \<and> hb_upper M (metered_body l obs b) \<in> {None, Some (length (data_of fs))}
    \<and> (hb_end M (metered_body l obs b) \<longrightarrow> fs = [])"
proof -
  let ?s = "metered_body l obs b"
  have ok: "polled_ok (\<lambda>c. polled_ok (\<lambda>l. polled_ok (\<lambda>_. True) (lm_inner l)) (ct_inner c)) ?s"
    using assms(2) by (auto simp: metered_body_def polled_new_def counting_body_new_def limited_new_def
        polled_from_chunks_def polled_empty_def polled_from_bytes_def Let_def)
  have "hb_upper M ?s = None \<or> hb_upper M ?s = Some (hb_lower M ?s)"
    using assms(2) by (auto simp: M_def metered_machine_def metered_body_def polled_body_def polled_new_def Let_def
        counting_machine_def counting_body_new_def limited_machine_def limited_new_def stream_body_def
        polled_from_chunks_def polled_empty_def polled_from_bytes_def split: if_splits)
  with metered.yields_bounds [OF assms(3) [unfolded M_def] ok assms(4)]
  have "hb_lower M ?s \<le> length (data_of fs)" "hb_upper M ?s \<in> {None, Some (length (data_of fs))}"
    by (auto simp: M_def)
  moreover from metered.read_exactly [OF ok assms(3) [unfolded M_def] assms(4), of limit] this
  have "polled_to_bytes_limited M ?s limit =
      Some (if length (data_of fs) \<le> limit then Inr (data_of fs) else Inl TooLarge)"
    by (auto simp: M_def)
  moreover have "fs = []" if "hb_end M ?s"
    using body_yields_unique [OF assms(3)] metered.ended_yields [OF ok] that by (auto simp: M_def)
  ultimately show ?thesis by simp
qed

theorem wrapped_body_read_witness:
  "polled_to_bytes_limited (metered_machine scheduled) (metered_body 9 True (polled_new [Ready (Inr ''ab'')])) 1
     = Some (Inl TooLarge)"
proof -
  have "body_yields (polled_body (stream_body scheduled)) (PBoxed [Ready (Inr ''ab'')]) [Data ''ab'']"
    using scheduled_yields [of "[Ready (Inr ''ab'')]"] by (intro yields_boxed) simp
  then have "body_yields (limited_machine (polled_body (stream_body scheduled)))
      (limited_new 9 (PBoxed [Ready (Inr ''ab'')])) [Data ''ab'']"
    using yields_limited [of "polled_body (stream_body scheduled)" "limited_new 9 (PBoxed [Ready (Inr ''ab'')])"
        "[Data ''ab'']"] by (simp add: limited_new_def)
  then have "body_yields (metered_machine scheduled) (metered_body 9 True (polled_new [Ready (Inr ''ab'')])) [Data ''ab'']"
    unfolding metered_machine_def metered_body_def polled_new_def
    by (intro yields_boxed yields_counting) (simp add: counting_body_new_def yields_boxed)
  from wrapped_body_read [where d = "[]" and cs = "[]" and st = "[Ready (Inr ''ab'')]" and limit = 1, OF _ this]
  show ?thesis by simp
qed

end
