(* ===== verification/Rest_Api.thy ===== *)
theory Rest_Api
  imports Router Middleware Auth_Csrf Compression Cookies Multipart Path_De Config
begin

text \<open>
  The application of src/examples/rest_api/src/main.rs: its handlers, its routes and its twelve layers, composed from
  the definitions of the other theories as \<^verbatim>\<open>main\<close> composes them.

  The world holds what the layers share: the request counter of \<^verbatim>\<open>AppState\<close> (an \<^verbatim>\<open>AtomicU64\<close>), how many random
  identifiers were drawn, the lines \<open>log_requests\<close> wrote and the events of the trace layer.  Other crates are the
  fields of \<open>rest_env\<close>: the header map, the cookie jar, the multipart parser, serde's functions for the types of the
  application, the encoders, the identifiers and, for the timeout, whether a request is slow.
\<close>

subsection \<open>State\<close>

record 'k app_state =
  as_app_name :: string
  as_cookie_key :: 'k

definition cookie_key_from_ref :: "'k app_state \<Rightarrow> 'k" where
  "cookie_key_from_ref st = as_cookie_key st"

definition app_state_new :: "'k \<Rightarrow> 'k app_state" where
  "app_state_new generated = \<lparr>as_app_name = ''Arvik Framework (v0.7.2)'', as_cookie_key = generated\<rparr>"

record rest_world =
  rw_count :: u64
  rw_drawn :: nat
  rw_log :: "(string \<times> string \<times> nat) list"
  rw_events :: "trace_event list"

definition rest_world_new :: rest_world where
  "rest_world_new = \<lparr>rw_count = 0, rw_drawn = 0, rw_log = [], rw_events = []\<rparr>"

record user =
  user_id :: int
  user_name :: string

record create_user_body =
  cu_name :: string

record search_params =
  sp_query :: string

text \<open>The attributes given to \<^verbatim>\<open>Cookie::build\<close>.\<close>

record cookie_attrs =
  ck_http_only :: bool
  ck_secure :: bool
  ck_same_site :: "same_site option"

definition plain_attrs :: cookie_attrs where
  "plain_attrs = \<lparr>ck_http_only = False, ck_secure = False, ck_same_site = None\<rparr>"

text \<open>
  \<open>rx_slow\<close> answers, for a request that reaches the timeout, whether the timer runs out before the inner future is
  ready, and then how many identifiers that future had drawn when it was dropped: drawing one for a new CSRF token is
  all that anything inside does to the world.
\<close>

record ('h, 'j, 'c, 'k, 'm, 'f, 'e) rest_env =
  rx_http :: "'h http_lib"
  rx_error :: error_env
  rx_cookies :: "('j, 'c, 'k) cookie_lib"
  rx_cookie :: "string \<Rightarrow> string \<Rightarrow> cookie_attrs \<Rightarrow> 'c"
  rx_cookie_value :: "'c \<Rightarrow> string"
  rx_multer :: "('m, 'f, 'e) multer_lib"
  rx_mime :: "string \<Rightarrow> mime option"
  rx_json :: "json_value \<Rightarrow> string option"
  rx_create_user :: "string \<Rightarrow> string + create_user_body"
  rx_search :: "string \<Rightarrow> string + search_params"
  rx_f32 :: "string \<Rightarrow> f32 option"
  rx_encode :: encoder
  rx_csrf_cookie :: "string \<Rightarrow> string \<Rightarrow> bool \<Rightarrow> same_site \<Rightarrow> string"
  rx_uuid :: "nat \<Rightarrow> string"
  rx_slow :: "'h request \<Rightarrow> rest_world \<Rightarrow> nat option"
  rx_enabled :: "trace_level \<Rightarrow> bool"
  rx_fixed3 :: "nat \<Rightarrow> string"
  rx_version :: string
  rx_elapsed :: "'h request \<Rightarrow> rest_world \<Rightarrow> nat"

type_synonym ('h, 'k) rest_handler = "('h, rest_world, 'k app_state) handler"

text \<open>\<^verbatim>\<open>Uuid::new_v4().to_string()\<close>\<close>

definition new_uuid :: "('h, 'j, 'c, 'k, 'm, 'f, 'e) rest_env \<Rightarrow> rest_world \<Rightarrow> string \<times> rest_world" where
  "new_uuid E w = (rx_uuid E (rw_drawn w), w\<lparr>rw_drawn := Suc (rw_drawn w)\<rparr>)"

subsection \<open>Extractors\<close>

text \<open>The framework's extractors at the types the handlers ask for, with their rejections converted.\<close>

definition arg_state :: "('h, 'k app_state, rest_world, 'h response, 'k app_state) request_extractor" where
  "arg_state = via_parts (state_extract id)"

definition arg_query ::
  "('h, 'j, 'c, 'k, 'm, 'f, 'e) rest_env \<Rightarrow> ('h, 'k app_state, rest_world, 'h response, search_params option) request_extractor" where
  "arg_query E = via_parts (optional_extract (\<lambda>p st w. (query_extract (rx_search E) p, p, w)))"

definition arg_json ::
  "('h, 'j, 'c, 'k, 'm, 'f, 'e) rest_env \<Rightarrow> ('h, 'k app_state, rest_world, 'h response, create_user_body) request_extractor" where
  "arg_json E = (\<lambda>req st w.
     (map_sum (json_rejection_response (rx_http E)) id (json_extract (rx_http E) (rx_mime E) (rx_create_user E) req), w))"

text \<open>What serde's visitors for \<^verbatim>\<open>u64\<close> and \<^verbatim>\<open>String\<close> accept.\<close>

fun u64_visitor :: "unit visit \<Rightarrow> string + int" where
  "u64_visitor (VisitInt t n) = (if in_type U64 n then Inr n else Inl ''invalid value'')"
| "u64_visitor _ = Inl ''invalid type''"

fun string_visitor :: "unit visit \<Rightarrow> string + string" where
  "string_visitor (VisitStr s) = Inr s"
| "string_visitor (VisitChar s) = Inr s"
| "string_visitor _ = Inl ''invalid type''"

definition arg_path ::
  "('h, 'j, 'c, 'k, 'm, 'f, 'e) rest_env \<Rightarrow> hint \<Rightarrow> (unit visit \<Rightarrow> string + 'v)
   \<Rightarrow> ('h, 'k app_state, rest_world, 'h response, 'v) request_extractor" where
  "arg_path E h visitor = via_parts (\<lambda>p st w.
     (map_sum (path_rejection_response (rx_http E)) id (path_extract (\<lambda>_ _. None) h visitor p), p, w))"

definition arg_multipart ::
  "('h, 'j, 'c, 'k, 'm, 'f, 'e) rest_env \<Rightarrow> ('h, 'k app_state, rest_world, 'h response, 'm multipart) request_extractor" where
  "arg_multipart E = (\<lambda>req st w.
     (map_sum (multipart_rejection_response (rx_http E)) id
        (multipart_from_request (rx_http E) (rx_multer E) (\<lambda>_. None) (\<lambda>_. None) req), w))"

definition arg_jar ::
  "('h, 'j, 'c, 'k, 'm, 'f, 'e) rest_env \<Rightarrow> ('h, 'k app_state, rest_world, 'h response, 'j plain_jar) request_extractor" where
  "arg_jar E = via_parts (\<lambda>p st w. (Inr (fst (jar_extract (rx_cookies E) (rx_http E) (p, None))), p, w))"

definition arg_signed_jar ::
  "('h, 'j, 'c, 'k, 'm, 'f, 'e) rest_env \<Rightarrow> ('h, 'k app_state, rest_world, 'h response, ('j, 'k) keyed_jar) request_extractor" where
  "arg_signed_jar E = via_parts (\<lambda>p st w.
     (Inr (fst (signed_extract (rx_cookies E) (rx_http E) cookie_key_from_ref (p, None) st)), p, w))"

definition arg_csrf ::
  "('h, 'j, 'c, 'k, 'm, 'f, 'e) rest_env \<Rightarrow> ('h, 'k app_state, rest_world, 'h response, string) request_extractor" where
  "arg_csrf E = via_parts (\<lambda>p st w.
     (map_sum (extension_rejection_response (rx_http E)) id (extension_extract ext_csrf ''arvik_middleware::csrf::CsrfToken'' p), p, w))"

subsection \<open>Handlers\<close>

definition respond :: "('a \<Rightarrow> 'h response) \<Rightarrow> 'a \<Rightarrow> 'w \<Rightarrow> 'h outcome \<times> 'w" where
  "respond into v w = (Done (into v), w)"

definition health :: "('h, 'j, 'c, 'k, 'm, 'f, 'e) rest_env \<Rightarrow> ('h, 'k) rest_handler" where
  "health E req st = handler0_call (respond
     (result_into_response (json_into_response (rx_http E) (rx_json E)) (fw_error_into_response (rx_http E) (rx_error E)))
     (Inr (JObj [(''status'', json_value.JStr ''healthy''), (''framework'', json_value.JStr ''Arvik''),
        (''version'', json_value.JStr ''0.7.2'')]) :: string fw_error + json_value)) st req"

definition read_state :: "('h, 'j, 'c, 'k, 'm, 'f, 'e) rest_env \<Rightarrow> ('h, 'k) rest_handler" where
  "read_state E req st = handler_call [] arg_state
     (\<lambda>(_ :: unit list) state. respond (string_into_response (rx_http E)) (''App: '' @ as_app_name state)) st req"

definition user_value :: "user \<Rightarrow> json_value" where
  "user_value u = JObj [(''id'', json_value.JNum (user_id u)), (''name'', json_value.JStr (user_name u))]"

definition list_users :: "('h, 'j, 'c, 'k, 'm, 'f, 'e) rest_env \<Rightarrow> ('h, 'k) rest_handler" where
  "list_users E req st = handler_call [] (arg_query E)
     (\<lambda>(_ :: unit list) query. respond (json_into_response (rx_http E) (rx_json E))
        (case query of
           Some p \<Rightarrow> JObj [(''message'', json_value.JStr (''Searching: '' @ sp_query p)), (''users'', JArr [])]
         | None \<Rightarrow> JObj [(''users'', JArr
             [user_value \<lparr>user_id = 1, user_name = ''Alice''\<rparr>, user_value \<lparr>user_id = 2, user_name = ''Bob''\<rparr>])])) st req"

definition create_user :: "('h, 'j, 'c, 'k, 'm, 'f, 'e) rest_env \<Rightarrow> ('h, 'k) rest_handler" where
  "create_user E req st = handler_call [] (arg_json E)
     (\<lambda>(_ :: unit list) b. respond (\<lambda>u. status_tuple 201 (json_into_response (rx_http E) (rx_json E) (user_value u)))
        \<lparr>user_id = 3, user_name = cu_name b\<rparr>) st req"

definition get_user :: "('h, 'j, 'c, 'k, 'm, 'f, 'e) rest_env \<Rightarrow> ('h, 'k) rest_handler" where
  "get_user E req st = handler_call [] (arg_path E (HInt U64) u64_visitor)
     (\<lambda>(_ :: unit list) i. respond (\<lambda>u. json_into_response (rx_http E) (rx_json E) (user_value u))
        \<lparr>user_id = i, user_name = ''User from path param''\<rparr>) st req"

definition serve_wildcard_file :: "('h, 'j, 'c, 'k, 'm, 'f, 'e) rest_env \<Rightarrow> ('h, 'k) rest_handler" where
  "serve_wildcard_file E req st = handler_call [] (arg_path E HString string_visitor)
     (\<lambda>(_ :: unit list) path. respond (string_into_response (rx_http E)) (''Serving file: '' @ path)) st req"

definition stream_data :: "('h, 'j, 'c, 'k, 'm, 'f, 'e) rest_env \<Rightarrow> ('h, 'k) rest_handler" where
  "stream_data E req st = handler0_call (respond (stream_body_into_response (rx_http E)) [Inr ''chunk 1 '', Inr ''chunk 2'']) st req"

definition cached_data :: "('h, 'j, 'c, 'k, 'm, 'f, 'e) rest_env \<Rightarrow> ('h, 'k) rest_handler" where
  "cached_data E req st = handler0_call (respond
     (\<lambda>v. parts_tuple (rx_http E)
        (\<lambda>parts. Inr (append_headers_parts (rx_http E) Some (hv_from_str (rx_http E))
           [(''cache-control'', ''public, max-age=3600'')] parts))
        (json_into_response (rx_http E) (rx_json E) v))
     (JObj [(''data'', json_value.JStr ''cached value'')])) st req"

text \<open>The loop of \<^verbatim>\<open>upload\<close>: it ends at the end of the form and at the first error, of which the field limit is one.\<close>

lemma next_field_progress:
  assumes "next_field M mp = (Inr (Some f), mp')"
  shows "mc_max_fields (mpc_constraints (mp_config mp')) - mp_fields_read mp'
    < mc_max_fields (mpc_constraints (mp_config mp)) - mp_fields_read mp"
  using assms by (auto simp: next_field_def Let_def split: prod.splits sum.splits option.splits if_splits)

function count_fields :: "('m, 'f, 'e) multer_lib \<Rightarrow> 'm multipart \<Rightarrow> nat \<Rightarrow> nat" where
  "count_fields M mp n =
     (case next_field M mp of
        (Inr (Some _), mp') \<Rightarrow> count_fields M mp' (Suc n)
      | _ \<Rightarrow> n)"
  by pat_completeness auto

termination
  by (relation "measure (\<lambda>(_, mp, _). mc_max_fields (mpc_constraints (mp_config mp)) - mp_fields_read mp)")
     (auto dest: next_field_progress [OF sym])

declare count_fields.simps [simp del]

definition upload :: "('h, 'j, 'c, 'k, 'm, 'f, 'e) rest_env \<Rightarrow> ('h, 'k) rest_handler" where
  "upload E req st = handler_call [] (arg_multipart E)
     (\<lambda>(_ :: unit list) mp. respond (string_into_response (rx_http E))
        (''Received '' @ nat_to_string (count_fields (rx_multer E) mp 0) @ '' fields'')) st req"

definition login :: "('h, 'j, 'c, 'k, 'm, 'f, 'e) rest_env \<Rightarrow> ('h, 'k) rest_handler" where
  "login E req st = handler_call [] (arg_jar E)
     (\<lambda>(_ :: unit list) jar. respond (\<lambda>(jar, t). parts_tuple (rx_http E) (jar_parts (rx_cookies E) (rx_http E) jar)
          (string_into_response (rx_http E) t))
        (jar_add (rx_cookies E) jar (rx_cookie E ''session'' ''s3cr3t''
           \<lparr>ck_http_only = True, ck_secure = True, ck_same_site = Some Strict\<rparr>), ''Logged in!'')) st req"

definition logout :: "('h, 'j, 'c, 'k, 'm, 'f, 'e) rest_env \<Rightarrow> ('h, 'k) rest_handler" where
  "logout E req st = handler_call [] (arg_jar E)
     (\<lambda>(_ :: unit list) jar. respond (\<lambda>(jar, t). parts_tuple (rx_http E) (jar_parts (rx_cookies E) (rx_http E) jar)
          (string_into_response (rx_http E) t))
        (jar_remove (rx_cookies E) jar (rx_cookie E ''session'' [] plain_attrs), ''Logged out!'')) st req"

definition set_user :: "('h, 'j, 'c, 'k, 'm, 'f, 'e) rest_env \<Rightarrow> ('h, 'k) rest_handler" where
  "set_user E req st = handler_call [] (arg_signed_jar E)
     (\<lambda>(_ :: unit list) jar. respond (\<lambda>(jar, t). parts_tuple (rx_http E) (keyed_jar_parts (rx_cookies E) (rx_http E) jar)
          (string_into_response (rx_http E) t))
        (signed_add (rx_cookies E) jar (rx_cookie E ''user_id'' ''42'' plain_attrs),
         ''User cookie signed and set!'')) st req"

definition get_user_cookie :: "('h, 'j, 'c, 'k, 'm, 'f, 'e) rest_env \<Rightarrow> ('h, 'k) rest_handler" where
  "get_user_cookie E req st = handler_call [] (arg_signed_jar E)
     (\<lambda>(_ :: unit list) jar. respond (string_into_response (rx_http E))
        (case signed_get (rx_cookies E) jar ''user_id'' of
           Some c \<Rightarrow> ''user_id='' @ rx_cookie_value E c | None \<Rightarrow> ''no session'')) st req"

text \<open>The text starts with the UTF-8 bytes of U+26A1.\<close>

definition not_found :: "('h, 'j, 'c, 'k, 'm, 'f, 'e) rest_env \<Rightarrow> ('h, 'k) rest_handler" where
  "not_found E req st = handler0_call (respond (\<lambda>t. status_tuple 404 (string_into_response (rx_http E) t))
     ([CHR 0xE2, CHR 0x9A, CHR 0xA1] @ '' Arvik: Page not found'')) st req"

definition deliberate_panic :: "('h, 'k) rest_handler" where
  "deliberate_panic req st w = (Panicked ''This panic is intentional for demo purposes'', w)"

definition nl :: string where "nl = [CHR 0x0A]"

definition form_page :: "string \<Rightarrow> string" where
  "form_page token = ''<html><body>'' @ nl @ ''           <h1>CSRF Demo</h1>''
         @ nl @ ''           <form method=\"POST\" action=\"/csrf-submit\">''
         @ nl @ ''             <input type=\"hidden\" name=\"csrf_token\" value=\"'' @ token @ ''\">''
         @ nl @ ''             <button type=\"submit\">Submit (CSRF protected)</button>''
         @ nl @ ''           </form>'' @ nl @ ''           <p>x-csrf-token: '' @ token @ ''</p>''
         @ nl @ ''         </body></html>''"

definition csrf_form :: "('h, 'j, 'c, 'k, 'm, 'f, 'e) rest_env \<Rightarrow> ('h, 'k) rest_handler" where
  "csrf_form E req st = handler_call [] (arg_csrf E)
     (\<lambda>(_ :: unit list) token. respond (html_into_response (rx_http E)) (form_page token)) st req"

definition csrf_submit :: "('h, 'j, 'c, 'k, 'm, 'f, 'e) rest_env \<Rightarrow> ('h, 'k) rest_handler" where
  "csrf_submit E req st = handler0_call (respond (string_into_response (rx_http E)) ''CSRF check passed!'') st req"

subsection \<open>Middleware\<close>

definition attach_request_id ::
  "('h, 'j, 'c, 'k, 'm, 'f, 'e) rest_env \<Rightarrow> 'h request \<Rightarrow> unit \<Rightarrow> ('h, rest_world) next_service
   \<Rightarrow> rest_world \<Rightarrow> 'h outcome \<times> rest_world" where
  "attach_request_id E = middleware_fn_call ([] :: ('h, unit, rest_world, 'h response, unit) parts_extractor list)
     (\<lambda>_ req nxt w.
        (let (rid, w) = new_uuid E w
         in next_run nxt (req\<lparr>req_ext := (req_ext req)\<lparr>ext_string := Some rid\<rparr>\<rparr>) w))"

definition log_requests ::
  "'h request \<Rightarrow> unit \<Rightarrow> ('h, rest_world) next_service \<Rightarrow> rest_world \<Rightarrow> 'h outcome \<times> rest_world" where
  "log_requests = middleware_fn_call ([] :: ('h, unit, rest_world, 'h response, unit) parts_extractor list)
     (\<lambda>_ req nxt w.
        (let m = method_as_str (req_method req);
             path = uri_path (req_uri req)
         in case next_run nxt req w of
              (Done res, w) \<Rightarrow> (Done res, w\<lparr>rw_log := rw_log w @ [(m, path, res_status res)]\<rparr>)
            | (Panicked e, w) \<Rightarrow> (Panicked e, w)))"

text \<open>\<^verbatim>\<open>fetch_add\<close> wraps around.\<close>

definition count_requests ::
  "'h request \<Rightarrow> 'k app_state \<Rightarrow> ('h, rest_world) next_service \<Rightarrow> rest_world \<Rightarrow> 'h outcome \<times> rest_world" where
  "count_requests = middleware_fn_call [state_extract id]
     (\<lambda>(_ :: 'k app_state list) req nxt w. next_run nxt req (w\<lparr>rw_count := rw_count w + 1\<rparr>))"

text \<open>The header value parses, so the \<^verbatim>\<open>unwrap\<close> does not panic; see the lemma on \<open>powered_by\<close> below.\<close>

definition add_powered_by_header :: "'h http_lib \<Rightarrow> 'h response \<Rightarrow> 'w \<Rightarrow> 'h response \<times> 'w" where
  "add_powered_by_header H res w =
     (case hv_from_str H ''arvik'' of
        Some v \<Rightarrow> (res\<lparr>res_headers := hm_insert H (res_headers res) ''x-powered-by'' v\<rparr>, w)
      | None \<Rightarrow> (res, w))"

subsection \<open>The application\<close>

definition rest_routes ::
  "('h, 'j, 'c, 'k, 'm, 'f, 'e) rest_env \<Rightarrow> (string \<times> ('h, rest_world, 'k app_state) method_router) list" where
  "rest_routes E =
     [(''/'', mr_get mr_new (health E)),
      (''/state'', mr_get mr_new (read_state E)),
      (''/users'', mr_post (mr_get mr_new (list_users E)) (create_user E)),
      (''/users/{id}'', mr_get mr_new (get_user E)),
      (''/upload'', mr_post mr_new (upload E)),
      (''/stream'', mr_get mr_new (stream_data E)),
      (''/cached'', mr_get mr_new (cached_data E)),
      (''/login'', mr_post mr_new (login E)),
      (''/logout'', mr_post mr_new (logout E)),
      (''/set_user'', mr_post mr_new (set_user E)),
      (''/get_user'', mr_get mr_new (get_user_cookie E)),
      (''/files/{*path}'', mr_get mr_new (serve_wildcard_file E)),
      (''/panic'', mr_get mr_new deliberate_panic),
      (''/csrf-form'', mr_get mr_new (csrf_form E)),
      (''/csrf-submit'', mr_post mr_new (csrf_submit E))]"

text \<open>The chain of \<^verbatim>\<open>route\<close> calls; \<open>None\<close> is the panic of one of them.\<close>

fun route_all ::
  "'t trie_lib \<Rightarrow> (string \<times> ('h, 'w, 's) method_router) list \<Rightarrow> ('t, 'h, 'w, 's) router
   \<Rightarrow> ('t, 'h, 'w, 's) router option" where
  "route_all T [] r = Some r"
| "route_all T ((p, mr) # rest) r = Option.bind (router_route T r p mr) (route_all T rest)"

text \<open>The layers whose effects are in the world.\<close>

definition csrf_service ::
  "('h, 'j, 'c, 'k, 'm, 'f, 'e) rest_env \<Rightarrow> ('h, rest_world) layer" where
  "csrf_service E inner req w =
     (case extract_csrf_cookie (rx_http E) (req_headers req) (csrf_cookie_name csrf_new) of
        Some _ \<Rightarrow> csrf_call (rx_http E) (rx_csrf_cookie E) csrf_new [] inner req w
      | None \<Rightarrow> (let (token, w') = new_uuid E w
                 in csrf_call (rx_http E) (rx_csrf_cookie E) csrf_new token inner req w'))"

definition timeout_service ::
  "('h, 'j, 'c, 'k, 'm, 'f, 'e) rest_env \<Rightarrow> nat \<Rightarrow> ('h, rest_world) layer" where
  "timeout_service E ms inner req w =
     (case rx_slow E req w of
        None \<Rightarrow> inner req w
      | Some drawn \<Rightarrow> (timeout_response (rx_http E) ms, w\<lparr>rw_drawn := rw_drawn w + drawn\<rparr>))"

definition trace_service ::
  "('h, 'j, 'c, 'k, 'm, 'f, 'e) rest_env \<Rightarrow> ('h, rest_world) layer" where
  "trace_service E inner req w =
     (case trace_call (rx_http E) (rx_enabled E) (rx_fixed3 E) trace_layer_default (rx_version E) (rx_elapsed E req w)
             inner req w of
        ((out, w'), Some ev) \<Rightarrow> (out, w'\<lparr>rw_events := rw_events w' @ [ev]\<rparr>)
      | ((out, w'), None) \<Rightarrow> (out, w'))"

text \<open>The arguments of the \<^verbatim>\<open>layer\<close> calls in their order, so from the innermost to the outermost.\<close>

definition rest_layers ::
  "('h, 'j, 'c, 'k, 'm, 'f, 'e) rest_env \<Rightarrow> 'k app_state \<Rightarrow> ('h, rest_world) layer list" where
  "rest_layers E st =
     [request_body_limit_call (rx_http E) (10 * 1024 * 1024),
      (\<lambda>inner. catch_panic_call (rx_http E) None (async_service inner)),
      csrf_service E,
      timeout_service E 30000,
      request_id_call (rx_http E) (new_uuid E),
      trace_service E,
      security_headers_call (rx_http E) security_headers_default,
      compression_call (rx_http E) (rx_f32 E) (rx_encode E) (compression_min_size 0 compression_new),
      from_fn_call (attach_request_id E) (),
      from_fn_call count_requests st,
      from_fn_call log_requests (),
      map_response_call (add_powered_by_header (rx_http E))]"

definition rest_app ::
  "'t trie_lib \<Rightarrow> ('h, 'j, 'c, 'k, 'm, 'f, 'e) rest_env \<Rightarrow> 'k app_state
   \<Rightarrow> ('t, 'h, rest_world, unit) router option" where
  "rest_app T E state =
     map_option (\<lambda>r. foldl router_layer (router_with_state (router_fallback r (not_found E)) state) (rest_layers E state))
       (route_all T (rest_routes E) (router_new T))"

subsection \<open>What the layers promise\<close>

text \<open>
  The books of the application are its counter and its log.  A service is \<open>quiet\<close> when it leaves them alone, and it
  \<open>promises P\<close> when moreover it always answers, never with a panic, and with a response that fits the request by \<open>P\<close>.
\<close>

definition books :: "rest_world \<Rightarrow> u64 \<times> (string \<times> string \<times> nat) list" where
  "books w = (rw_count w, rw_log w)"

definition quiet :: "('h, rest_world) service \<Rightarrow> bool" where
  "quiet s \<longleftrightarrow> (\<forall>req w. books (snd (s req w)) = books w)"

definition promises :: "('h request \<Rightarrow> 'h response \<Rightarrow> bool) \<Rightarrow> ('h, rest_world) service \<Rightarrow> bool" where
  "promises P s \<longleftrightarrow> (\<forall>req w. \<exists>resp w'. s req w = (Done resp, w') \<and> books w' = books w \<and> P req resp)"

lemma promisesD:
  assumes "promises P s"
  obtains resp w' where "s req w = (Done resp, w')" "books w' = books w" "P req resp"
  using assms unfolding promises_def by blast

lemma promises_then:
  assumes "promises P s" "\<And>req resp. P (g req) resp \<Longrightarrow> Q req (f req resp)" "\<And>req w. books (k req w) = books w"
  shows "promises Q (\<lambda>req w. then_response (f req) (s (g req) (k req w)))"
  unfolding promises_def
proof (intro allI)
  fix req w
  obtain resp w' where r: "s (g req) (k req w) = (Done resp, w')" "books w' = books (k req w)" "P (g req) resp"
    by (rule promisesD [OF assms(1)])
  with assms(2,3) show "\<exists>resp' w'. then_response (f req) (s (g req) (k req w)) = (Done resp', w')
      \<and> books w' = books w \<and> Q req resp'"
    by auto
qed

lemma books_draw [simp]: "books (snd (new_uuid E w)) = books w"
  by (simp add: new_uuid_def books_def)

lemma quiet_limit: "quiet s \<Longrightarrow> quiet (request_body_limit_call H n s)"
  by (simp add: quiet_def request_body_limit_call_def Let_def split: option.split)

context header_map
begin

lemma json_unwrap:
  "builder_unwrap b (rb_header_str H ''content-type'' ''application/json'' (rb_with_status n (rb_new H)))
    = Done \<lparr>res_status = n, res_headers = hm_append H (hm_new H) ''content-type'' ''application/json'',
        res_ext = no_extensions, res_body = b\<rparr>"
  by (simp add: rb_defs from_str header_visible_def)

lemma catch_panic_promises:
  assumes "quiet s"
  shows "promises (\<lambda>_ _. True) (catch_panic_call H None (async_service s))"
  unfolding promises_def
proof (intro allI)
  fix req w
  obtain out w' where r: "s req w = (out, w')" by (cases "s req w")
  with assms have "books w' = books w" unfolding quiet_def by (metis snd_conv)
  with r show "\<exists>resp w'. catch_panic_call H None (async_service s) req w = (Done resp, w') \<and> books w' = books w \<and> True"
    by (cases out) (simp_all add: catch_panic_call_def async_service_def default_panic_response_def json_unwrap)
qed

lemma csrf_call_promises:
  assumes "promises (\<lambda>_ _. True) s"
  shows "promises (\<lambda>_ _. True) (csrf_call H render config fresh s)"
  unfolding promises_def
proof (intro allI)
  fix req w
  obtain resp where forbid: "csrf_forbidden H = Done resp" using csrf_forbidden_status by blast
  have inner: "\<exists>resp w'. s r w = (Done resp, w') \<and> books w' = books w" for r
    using assms unfolding promises_def by blast
  show "\<exists>resp w'. csrf_call H render config fresh s req w = (Done resp, w') \<and> books w' = books w \<and> True"
    using inner [of "req\<lparr>req_ext := (req_ext req)\<lparr>ext_csrf := Some (case extract_csrf_cookie H (req_headers req)
        (csrf_cookie_name config) of Some t \<Rightarrow> t | None \<Rightarrow> fresh)\<rparr>\<rparr>"]
    by (auto simp: csrf_call_def Let_def forbid split: option.split)
qed

end

lemma csrf_service_promises:
  assumes "header_map (rx_http E)" "promises (\<lambda>_ _. True) s"
  shows "promises (\<lambda>_ _. True) (csrf_service E s)"
  unfolding promises_def
proof (intro allI)
  fix req w
  have inner: "\<exists>resp w'. csrf_call (rx_http E) (rx_csrf_cookie E) csrf_new t s req v = (Done resp, w') \<and> books w' = books v"
    for t v
    using header_map.csrf_call_promises [OF assms(1,2)] unfolding promises_def by blast
  show "\<exists>resp w'. csrf_service E s req w = (Done resp, w') \<and> books w' = books w \<and> True"
    using inner [of "[]" w] inner [of "fst (new_uuid E w)" "snd (new_uuid E w)"]
    by (simp add: csrf_service_def case_prod_beta split: option.split)
qed

lemma timeout_service_promises:
  assumes "header_map (rx_http E)" "promises (\<lambda>_ _. True) s"
  shows "promises (\<lambda>_ _. True) (timeout_service E ms s)"
  unfolding promises_def
proof (intro allI)
  fix req w
  have "\<exists>resp w'. s req w = (Done resp, w') \<and> books w' = books w" using assms(2) unfolding promises_def by blast
  then show "\<exists>resp w'. timeout_service E ms s req w = (Done resp, w') \<and> books w' = books w \<and> True"
    by (auto simp: timeout_service_def timeout_response_def header_map.json_unwrap [OF assms(1)] books_def split: option.split)
qed

text \<open>A response with the identifier that came with the request, and one with the security headers.\<close>

definition same_id :: "'h http_lib \<Rightarrow> 'h request \<Rightarrow> 'h response \<Rightarrow> bool" where
  "same_id H req resp \<longleftrightarrow> (\<forall>v. hm_get H (req_headers req) ''x-request-id'' = Some v \<and> list_all header_visible v
     \<longrightarrow> hm_get_all H (res_headers resp) ''x-request-id'' = [v])"

definition hardened :: "'h http_lib \<Rightarrow> 'h response \<Rightarrow> bool" where
  "hardened H resp \<longleftrightarrow>
     (\<forall>n \<in> fst ` set (security_header_texts security_headers_default). hm_get_all H (res_headers resp) n \<noteq> [])"

lemma security_names:
  "fst ` set (security_header_texts security_headers_default) = {''x-frame-options'', ''x-content-type-options'',
     ''x-xss-protection'', ''strict-transport-security'', ''referrer-policy'', ''permissions-policy'',
     ''content-security-policy''}"
  by (auto simp: security_header_texts_def security_headers_default_def)

lemma promises_True: "promises P s \<Longrightarrow> promises (\<lambda>_ _. True) s"
  unfolding promises_def by blast

lemma trace_promises:
  assumes "promises P s"
  shows "promises P (trace_service E s)"
  unfolding promises_def
proof (intro allI)
  fix req w
  obtain resp w' where r: "s req w = (Done resp, w')" "books w' = books w" "P req resp"
    by (rule promisesD [OF assms])
  then show "\<exists>resp w'. trace_service E s req w = (Done resp, w') \<and> books w' = books w \<and> P req resp"
    by (auto simp: trace_service_def trace_call_def Let_def books_def split: option.split)
qed

lemma middleware_fn_plain: "middleware_fn_call [] f req st nxt w = f [] req nxt w"
  by (cases req) (simp add: middleware_fn_call_def into_request_parts_def from_request_parts_def)

lemma middleware_fn_state: "middleware_fn_call [state_extract id] f req st nxt w = f [st] req nxt w"
  by (cases req) (simp add: middleware_fn_call_def into_request_parts_def from_request_parts_def state_extract_def)

lemma attach_promises:
  fixes s :: "('h, rest_world) service"
  assumes "promises P s" "\<And>req i resp. P (req\<lparr>req_ext := (req_ext req)\<lparr>ext_string := i\<rparr>\<rparr>) resp \<Longrightarrow> P req resp"
  shows "promises P (from_fn_call (attach_request_id E) () s)"
  unfolding promises_def
proof (intro allI)
  fix req :: "'h request" and w
  let ?req = "req\<lparr>req_ext := (req_ext req)\<lparr>ext_string := Some (fst (new_uuid E w))\<rparr>\<rparr>"
  obtain resp w' where r: "s ?req (snd (new_uuid E w)) = (Done resp, w')" "books w' = books (snd (new_uuid E w))" "P ?req resp"
    by (rule promisesD [OF assms(1)])
  with assms(2) show "\<exists>resp w'. from_fn_call (attach_request_id E) () s req w = (Done resp, w') \<and> books w' = books w \<and> P req resp"
    by (auto simp: from_fn_call_def attach_request_id_def middleware_fn_plain next_run_def case_prod_beta)
qed

context header_map
begin

lemma request_id_promises:
  assumes "promises P s"
  shows "promises (same_id H) (request_id_call H (new_uuid E) s)"
  unfolding promises_def
proof (intro allI)
  fix req w
  have inner: "\<exists>resp w'. s r v = (Done resp, w') \<and> books w' = books v" for r v
    using assms unfolding promises_def by blast
  have "\<exists>resp w'. request_id_call H (new_uuid E) s req w = (Done resp, w') \<and> books w' = books w \<and>
      same_id H req resp" if "Option.bind (hm_get H (req_headers req) ''x-request-id'') (hv_to_str H) = Some v" for v
    using that inner [of "req\<lparr>req_ext := (req_ext req)\<lparr>ext_request_id := Some v\<rparr>,
        req_headers := hm_insert H (req_headers req) ''x-request-id'' v\<rparr>" w]
    by (auto simp: request_id_call_def Let_def same_id_def to_str from_str get_all_insert split: if_splits bind_splits)
  moreover have "\<exists>resp w'. request_id_call H (new_uuid E) s req w = (Done resp, w') \<and> books w' = books w \<and>
      same_id H req resp" if "Option.bind (hm_get H (req_headers req) ''x-request-id'') (hv_to_str H) = None"
  proof -
    let ?i = "fst (new_uuid E w)" and ?w = "snd (new_uuid E w)"
    let ?r = "req\<lparr>req_ext := (req_ext req)\<lparr>ext_request_id := Some ?i\<rparr>\<rparr>"
    have "\<not> (\<exists>v. hm_get H (req_headers req) ''x-request-id'' = Some v \<and> list_all header_visible v)"
      using that by (auto simp: to_str)
    then show ?thesis
      using that inner [of ?r ?w] inner [of "?r\<lparr>req_headers := hm_insert H (req_headers req) ''x-request-id''
          (the (hv_from_str H ?i))\<rparr>" ?w]
      by (auto simp: request_id_call_def Let_def same_id_def case_prod_beta split: option.split)
  qed
  ultimately show "\<exists>resp w'. request_id_call H (new_uuid E) s req w = (Done resp, w') \<and> books w' = books w \<and> same_id H req resp"
    by (cases "Option.bind (hm_get H (req_headers req) ''x-request-id'') (hv_to_str H)") auto
qed

lemma security_promises:
  assumes "promises (same_id H) s"
  shows "promises (\<lambda>req resp. same_id H req resp \<and> hardened H resp) (security_headers_call H security_headers_default s)"
proof -
  let ?hs = "security_header_list H security_headers_default"
  have vis: "Option.bind (map_of (security_header_texts security_headers_default) n) (hv_from_str H) \<noteq> None"
    if "(n, v) \<in> set (security_header_texts security_headers_default)" for n v
    using that fst_eqD [OF refl, of n v] imageI [OF that, of fst] unfolding security_names
    by (auto simp: security_header_texts_def security_headers_default_def quote_word_def from_str header_visible_def
        nat_to_string_visible)
  have id_name: "map_of (security_header_texts security_headers_default) ''x-request-id'' = None"
    by (simp add: security_header_texts_def security_headers_default_def)
  have "promises (\<lambda>req resp. same_id H req resp \<and> hardened H resp)
     (\<lambda>req w. then_response (\<lambda>resp. resp\<lparr>res_headers := fold (\<lambda>(n, v) h. or_insert H n v h) ?hs (res_headers resp)\<rparr>) (s req w))"
    using vis id_name
    by (intro promises_then [OF assms, where g = "\<lambda>r. r" and k = "\<lambda>r w. w"])
       (auto simp: same_id_def hardened_def or_insert_fold security_list_map_of dest: vis split: option.split)
  moreover have "(\<lambda>req w. then_response (\<lambda>resp. resp\<lparr>res_headers := fold (\<lambda>(n, v) h. or_insert H n v h) ?hs
      (res_headers resp)\<rparr>) (s req w)) = security_headers_call H security_headers_default s"
    by (intro ext) (simp add: security_headers_call_def)
  ultimately show ?thesis by simp
qed

lemma compression_promises:
  assumes "promises (\<lambda>req resp. same_id H req resp \<and> hardened H resp) s"
  shows "promises (\<lambda>req resp. same_id H req resp \<and> hardened H resp) (compression_call H pf encode config s)"
  unfolding compression_call_def
proof (intro promises_then [OF assms, where g = "\<lambda>r. r" and k = "\<lambda>r w. w"])
  fix req resp
  let ?resp = "compression_finish H encode config (accepted_encoding H pf config req) (req_method req = Head) resp"
  assume "same_id H req resp \<and> hardened H resp"
  moreover have "hm_get_all H (res_headers ?resp) n = hm_get_all H (res_headers resp) n"
    if "n \<notin> {''vary'', ''content-encoding'', ''content-length''}" for n
    using compression_finish_cases [of H encode config "accepted_encoding H pf config req" "req_method req = Head" resp] that
    by (auto simp: compressed_response_def get_all_simps)
  ultimately show "same_id H req ?resp \<and> hardened H ?resp"
    unfolding same_id_def hardened_def security_names by simp
qed auto

end

subsection \<open>The routes\<close>

text \<open>No handler touches the world.\<close>

definition still :: "('h, 'k) rest_handler \<Rightarrow> bool" where
  "still h \<longleftrightarrow> (\<forall>req st w. snd (h req st w) = w)"

lemma via_parts_still: "(\<And>p. snd (snd (ex p st w)) = w) \<Longrightarrow> snd (via_parts ex req st w) = w"
  by (simp add: via_parts_def case_prod_beta)

lemma handler_call_still:
  assumes "\<And>r. snd (lastex r st w) = w" "\<And>vs u. snd (f vs u w) = w"
  shows "snd (handler_call [] lastex f st req w) = w"
  using assms by (auto simp: handler_call_def case_prod_beta split: sum.split)

lemmas arg_defs = arg_state_def arg_query_def arg_json_def arg_path_def arg_multipart_def arg_jar_def
  arg_signed_jar_def arg_csrf_def state_extract_def optional_extract_def

lemmas handler_defs = health_def read_state_def list_users_def create_user_def get_user_def serve_wildcard_file_def
  stream_data_def cached_data_def upload_def login_def logout_def set_user_def get_user_cookie_def not_found_def
  deliberate_panic_def csrf_form_def csrf_submit_def

lemma handlers_still:
  "still (health E)" "still (read_state E)" "still (list_users E)" "still (create_user E)" "still (get_user E)"
  "still (serve_wildcard_file E)" "still (stream_data E)" "still (cached_data E)" "still (upload E)" "still (login E)"
  "still (logout E)" "still (set_user E)" "still (get_user_cookie E)" "still (not_found E)" "still deliberate_panic"
  "still (csrf_form E)" "still (csrf_submit E)"
  by (simp_all add: still_def handler_defs handler0_call_def respond_def handler_call_still arg_defs via_parts_still
      case_prod_beta)

lemmas mr_setters = mr_get_def mr_post_def mr_on_def mr_new_def

lemma rest_routes_plain:
  "list_all (\<lambda>(p, mr). mr_layers mr = [] \<and> mr_baked mr = None \<and> list_all (\<lambda>(_, h). still h) (mr_handlers mr)) (rest_routes E)"
  by (simp add: rest_routes_def mr_setters handlers_still)

lemma rest_routes_wf: "(p, mr) \<in> set (rest_routes E) \<Longrightarrow> mr_wf mr \<and> baked_ok st mr"
  by (auto simp: rest_routes_def mr_get_def mr_post_def intro!: wf_intros)

lemma find_in_list: "find P xs = Some x \<Longrightarrow> x \<in> set xs"
  by (auto simp: find_Some_iff)

lemma route_still:
  assumes "(p, mr) \<in> set (rest_routes E)"
  shows "snd (mr_dispatch H mr req st w) = w"
proof -
  have mr: "mr_layers mr = []" "list_all (\<lambda>(_, h). still h) (mr_handlers mr)"
    using assms rest_routes_plain [of E] by (auto simp: list_all_iff)
  then show ?thesis
    by (auto simp: mr_dispatch_def mr_select_def handler_service_def still_def list_all_iff
        dest!: find_in_list split: option.split)
qed

lemma route_all_entries:
  "route_all T ps r = Some r' \<Longrightarrow> r_routes r' = r_routes r @ map (\<lambda>(p, mr). route_entry_new p mr) ps
     \<and> r_layers r' = r_layers r \<and> r_route_layers r' = r_route_layers r \<and> r_fallback r' = r_fallback r"
proof (induction ps arbitrary: r)
  case (Cons x ps)
  obtain p mr where x: "x = (p, mr)" by (cases x)
  with Cons.prems obtain r1 where r1: "router_route T r p mr = Some r1" "route_all T ps r1 = Some r'"
    by (auto split: bind_splits)
  with Cons.IH [OF r1(2)] show ?case by (auto simp: x router_route_def split: option.splits)
qed simp

lemma then_still: "snd (then_response f r) = snd r"
  by (cases r, cases "fst r") (simp_all add: then_response_def)

lemma app_dispatch_layers: "app_dispatch H T (r\<lparr>r_layers := ls\<rparr>) st = app_dispatch H T r st"
  by (intro ext) (simp add: app_dispatch_def Let_def split: option.split)

context path_trie
begin

lemma route_all_wf:
  assumes "router_wf routes names st r" "\<And>p mr. (p, mr) \<in> set ps \<Longrightarrow> mr_wf mr \<and> baked_ok st mr"
    and "route_all T ps r = Some r'"
  shows "router_wf routes names st r'"
  using assms
proof (induction ps arbitrary: r)
  case (Cons x ps)
  obtain p mr where x: "x = (p, mr)" by (cases x)
  with Cons.prems(3) obtain r1 where r1: "router_route T r p mr = Some r1" "route_all T ps r1 = Some r'"
    by (auto split: bind_splits)
  have "router_wf routes names st r1" using wf_route [OF Cons.prems(1) _ _ r1(1)] Cons.prems(2) x by auto
  from Cons.IH [OF this _ r1(2)] Cons.prems(2) show ?case by auto
qed simp

text \<open>The served application: its layers around the dispatch over its table of routes.\<close>

lemma rest_app_service:
  assumes "rest_app T E st = Some app"
  obtains r where "route_all T (rest_routes E) (router_new T) = Some r"
    and "router_wf routes names st (router_fallback r (not_found E))"
    and "\<And>H. router_into_service H T app
      = apply_layers (app_dispatch H T (router_fallback r (not_found E)) st) (rest_layers E st)"
proof -
  obtain r where r: "route_all T (rest_routes E) (router_new T) = Some r"
      "app = foldl router_layer (router_with_state (router_fallback r (not_found E)) st) (rest_layers E st)"
    using assms by (auto simp: rest_app_def)
  let ?r = "router_fallback r (not_found E)"
  have "router_wf routes names st r"
    by (rule route_all_wf [OF wf_new _ r(1)]) (rule rest_routes_wf)
  then have wf: "router_wf routes names st ?r" by (simp add: router_wf_def router_fallback_def)
  have layer: "router_layer (router_with_state q st) l = router_with_state (q\<lparr>r_layers := r_layers q @ [l]\<rparr>) st" for q l
    by (simp add: router_layer_def router_with_state_def)
  have layers: "foldl router_layer (router_with_state q st) ls = router_with_state (q\<lparr>r_layers := r_layers q @ ls\<rparr>) st" for q ls
    by (induction ls arbitrary: q) (simp_all add: layer)
  have none: "r_layers ?r = []" using route_all_entries [OF r(1)] by (simp add: router_fallback_def router_new_def)
  have "router_wf routes names st (?r\<lparr>r_layers := r_layers ?r @ rest_layers E st\<rparr>)"
    using wf by (simp add: router_wf_def)
  from into_service_app [OF this] have "router_into_service H T app = apply_layers (app_dispatch H T ?r st) (rest_layers E st)" for H
    unfolding r(2) layers by (simp add: none app_dispatch_layers)
  with that [OF r(1) wf] show thesis by blast
qed

lemma rest_dispatch_quiet:
  assumes "route_all T (rest_routes E) (router_new T) = Some r"
    and "router_wf routes names st (router_fallback r (not_found E))"
  shows "quiet (app_dispatch H T (router_fallback r (not_found E)) st)"
proof -
  have rs: "r_routes (router_fallback r (not_found E)) = map (\<lambda>(p, mr). route_entry_new p mr) (rest_routes E)"
      "r_route_layers (router_fallback r (not_found E)) = []" "r_fallback (router_fallback r (not_found E)) = Some (not_found E)"
    using route_all_entries [OF assms(1)] by (simp_all add: router_fallback_def router_new_def)
  have "snd (router_dispatch H T (router_fallback r (not_found E)) req st w) = w" for req w
  proof (cases "trie_at T (r_trie (router_fallback r (not_found E))) (uri_path (req_uri req))")
    case (Some hit)
    obtain i ps where hit: "hit = (i, ps)" by (cases hit)
    have "i < length (rest_routes E)" using at_entry(1) [OF assms(2)] Some hit rs(1) by fastforce
    then have "rest_routes E ! i \<in> set (rest_routes E)" by simp
    with \<open>i < length (rest_routes E)\<close> Some hit show ?thesis
      by (cases "rest_routes E ! i")
         (simp add: router_dispatch_def rs(1) Let_def then_still route_still)
  qed (use handlers_still(14) [of E] in \<open>simp add: router_dispatch_def rs(3) then_still still_def\<close>)
  then show ?thesis by (simp add: quiet_def app_dispatch_no_route_layers [OF rs(2)])
qed

end

subsection \<open>The stack of layers\<close>

text \<open>Every request, whatever quiet service the layers are around.\<close>

lemma rest_layers_answer:
  assumes "header_map (rx_http E)" "quiet svc"
  shows "\<exists>resp w'. apply_layers svc (rest_layers E st) req w = (Done resp, w')
    \<and> rw_count w' = rw_count w + 1
    \<and> rw_log w' = rw_log w @ [(method_as_str (req_method req), uri_path (req_uri req), res_status resp)]
    \<and> hm_get_all (rx_http E) (res_headers resp) ''x-powered-by'' = [''arvik'']
    \<and> same_id (rx_http E) req resp \<and> hardened (rx_http E) resp"
proof -
  let ?H = "rx_http E"
  let ?core = "trace_service E (request_id_call ?H (new_uuid E) (timeout_service E 30000 (csrf_service E
      (catch_panic_call ?H None (async_service (request_body_limit_call ?H (10 * 1024 * 1024) svc))))))"
  let ?s = "from_fn_call (attach_request_id E) () (compression_call ?H (rx_f32 E) (rx_encode E)
      (compression_min_size 0 compression_new) (security_headers_call ?H security_headers_default ?core))"
  have "promises (same_id ?H) ?core"
    by (rule trace_promises header_map.request_id_promises timeout_service_promises csrf_service_promises
        header_map.catch_panic_promises quiet_limit assms)+
  then have "promises (\<lambda>req resp. same_id ?H req resp \<and> hardened ?H resp) ?s"
    by (intro attach_promises header_map.compression_promises header_map.security_promises assms(1))
       (simp_all add: same_id_def)
  from promisesD [OF this] obtain resp w' where
    s: "?s req (w\<lparr>rw_count := rw_count w + 1\<rparr>) = (Done resp, w')" "books w' = books (w\<lparr>rw_count := rw_count w + 1\<rparr>)"
    and P: "same_id ?H req resp" "hardened ?H resp"
    by blast
  let ?out = "resp\<lparr>res_headers := hm_insert ?H (res_headers resp) ''x-powered-by'' ''arvik''\<rparr>"
  have "apply_layers svc (rest_layers E st) req w
      = (Done ?out, w'\<lparr>rw_log := rw_log w' @ [(method_as_str (req_method req), uri_path (req_uri req), res_status resp)]\<rparr>)"
    using s(1) header_map.from_str [OF assms(1), of "''arvik''"]
    by (simp add: rest_layers_def apply_layers_def map_response_call_def header_visible_def)
       (simp add: from_fn_call_def log_requests_def middleware_fn_plain middleware_fn_state count_requests_def next_run_def
          add_powered_by_header_def)
  moreover have "same_id ?H req ?out" "hardened ?H ?out"
    using P by (auto simp: same_id_def hardened_def header_map.get_all_insert [OF assms(1)])
  ultimately show ?thesis
    using s(2) by (auto simp: books_def header_map.get_all_insert [OF assms(1)])
qed

text \<open>
  What a layer outside the CSRF check does: it calls the inner service once, on a request that differs only in its
  extensions and its identifier, and passes the answer on with its status and cookies, and, for a client that
  accepts no encoding, with its body.
\<close>

definition like :: "'h http_lib \<Rightarrow> 'h request \<Rightarrow> 'h request \<Rightarrow> bool" where
  "like H req r \<longleftrightarrow> req_method r = req_method req \<and> req_uri r = req_uri req \<and> req_body r = req_body req
     \<and> (\<forall>n. n \<noteq> ''x-request-id'' \<longrightarrow> hm_get_all H (req_headers r) n = hm_get_all H (req_headers req) n)"

definition carried :: "'h http_lib \<Rightarrow> 'h request \<Rightarrow> 'h response \<Rightarrow> 'h response \<Rightarrow> bool" where
  "carried H req resp resp' \<longleftrightarrow> res_status resp' = res_status resp
     \<and> hm_get_all H (res_headers resp') ''set-cookie'' = hm_get_all H (res_headers resp) ''set-cookie''
     \<and> (hm_get_all H (req_headers req) ''accept-encoding'' = [] \<longrightarrow> res_body resp' = res_body resp)"

definition passes_on :: "('w \<Rightarrow> nat) \<Rightarrow> 'h http_lib \<Rightarrow> ('h, 'w) layer \<Rightarrow> bool" where
  "passes_on d H L \<longleftrightarrow> (\<forall>req w. \<exists>r v f. like H req r \<and> d w \<le> d v \<and> (\<forall>inner. L inner req w = f (inner r v))
     \<and> (\<forall>resp u. \<exists>resp' u'. f (Done resp, u) = (Done resp', u') \<and> carried H req resp resp' \<and> d u \<le> d u'))"

lemma passes_onI:
  assumes "\<And>req w. like H req (g req w)" "\<And>inner req w. L inner req w = f req w (inner (g req w) (k req w))"
    and "\<And>req w. d w \<le> d (k req w)"
    and "\<And>req w resp u. \<exists>resp' u'. f req w (Done resp, u) = (Done resp', u') \<and> carried H req resp resp' \<and> d u \<le> d u'"
  shows "passes_on d H L"
  unfolding passes_on_def using assms by blast

lemma passes_on_comp:
  assumes "passes_on d H L" "passes_on d H M"
  shows "passes_on d H (\<lambda>inner. M (L inner))"
  unfolding passes_on_def
proof (intro allI)
  fix req w
  obtain r v f where M: "like H req r" "d w \<le> d v" "\<And>inner. M inner req w = f (inner r v)"
      "\<And>resp u. \<exists>resp' u'. f (Done resp, u) = (Done resp', u') \<and> carried H req resp resp' \<and> d u \<le> d u'"
    using assms(2) unfolding passes_on_def by blast
  obtain r' v' f' where L: "like H r r'" "d v \<le> d v'" "\<And>inner. L inner r v = f' (inner r' v')"
      "\<And>resp u. \<exists>resp' u'. f' (Done resp, u) = (Done resp', u') \<and> carried H r resp resp' \<and> d u \<le> d u'"
    using assms(1) unfolding passes_on_def by blast
  have "\<exists>resp' u'. f (f' (Done resp, u)) = (Done resp', u') \<and> carried H req resp resp' \<and> d u \<le> d u'" for resp u
  proof -
    obtain r1 u1 where 1: "f' (Done resp, u) = (Done r1, u1)" "carried H r resp r1" "d u \<le> d u1" using L(4) by blast
    obtain r2 u2 where 2: "f (Done r1, u1) = (Done r2, u2)" "carried H req r1 r2" "d u1 \<le> d u2" using M(4) by blast
    have "carried H req resp r2" using 1(2) 2(2) M(1) by (simp add: carried_def like_def)
    moreover have "d u \<le> d u2" using 1(3) 2(3) by (rule order_trans)
    ultimately show ?thesis using 1(1) 2(1) by simp
  qed
  moreover have "like H req r'" using M(1) L(1) by (simp add: like_def)
  moreover have "d w \<le> d v'" using M(2) L(2) by (rule order_trans)
  ultimately show "\<exists>r v f. like H req r \<and> d w \<le> d v \<and> (\<forall>inner. M (L inner) req w = f (inner r v))
      \<and> (\<forall>resp u. \<exists>resp' u'. f (Done resp, u) = (Done resp', u') \<and> carried H req resp resp' \<and> d u \<le> d u')"
    using M(3) L(3) by (intro exI [of _ r'] exI [of _ v'] exI [of _ "\<lambda>x. f (f' x)"]) simp
qed

lemma passes_on_layers: "list_all (passes_on d H) ls \<Longrightarrow> passes_on d H (\<lambda>s. apply_layers s ls)"
proof (induction ls rule: rev_induct)
  case Nil
  show ?case
    by (rule passes_onI [where g = "\<lambda>r _. r" and k = "\<lambda>_ w. w" and f = "\<lambda>_ _ x. x"]) (simp_all add: like_def carried_def)
next
  case (snoc l ls)
  then show ?case using passes_on_comp [of d H "\<lambda>s. apply_layers s ls" l] by (simp add: apply_layers_def)
qed

context header_map
begin

lemma request_id_passes:
  assumes "\<And>w. d w \<le> d (snd (fresh w))"
  shows "passes_on d H (request_id_call H fresh)"
proof (rule passes_onI)
  let ?rid = "\<lambda>req w. case Option.bind (hm_get H (req_headers req) ''x-request-id'') (hv_to_str H) of
      Some s \<Rightarrow> (s, w) | None \<Rightarrow> fresh w"
  let ?r = "\<lambda>req i. let r = req\<lparr>req_ext := (req_ext req)\<lparr>ext_request_id := Some i\<rparr>\<rparr> in
      case hv_from_str H i of Some v \<Rightarrow> r\<lparr>req_headers := hm_insert H (req_headers r) ''x-request-id'' v\<rparr> | None \<Rightarrow> r"
  let ?f = "\<lambda>i resp. case hv_from_str H i of
      Some v \<Rightarrow> resp\<lparr>res_headers := hm_insert H (res_headers resp) ''x-request-id'' v\<rparr> | None \<Rightarrow> resp"
  show "like H req (?r req (fst (?rid req w)))" for req w
    by (simp add: like_def Let_def get_all_insert split: option.split)
  show "request_id_call H fresh inner req w = then_response (?f (fst (?rid req w)))
      (inner (?r req (fst (?rid req w))) (snd (?rid req w)))" for inner req w
    by (simp add: request_id_call_def Let_def case_prod_beta)
  show "d w \<le> d (snd (?rid req w))" for req w using assms by (simp split: option.split)
  show "\<exists>resp' u'. then_response (?f (fst (?rid req w))) (Done resp, u) = (Done resp', u') \<and> carried H req resp resp' \<and> d u \<le> d u'"
    for req w resp u
    by (simp add: carried_def get_all_insert split: option.split)
qed

lemma then_response_passes:
  assumes "\<And>req resp. carried H req resp (f req resp)"
  shows "passes_on d H (\<lambda>inner req w. then_response (f req) (inner req w))"
  by (rule passes_onI [where g = "\<lambda>r _. r" and k = "\<lambda>_ w. w" and f = "\<lambda>req _. then_response (f req)"])
     (simp_all add: like_def assms)

lemma security_passes: "passes_on d H (security_headers_call H security_headers_default)"
proof -
  have "map_of (security_header_texts security_headers_default) ''set-cookie'' = None"
    by (simp add: security_header_texts_def security_headers_default_def)
  then have "carried H req resp (resp\<lparr>res_headers := fold (\<lambda>(n, v) h. or_insert H n v h)
      (security_header_list H security_headers_default) (res_headers resp)\<rparr>)" for req resp
    by (simp add: carried_def or_insert_fold security_list_map_of)
  from then_response_passes [OF this] show ?thesis by (simp add: security_headers_call_def [abs_def])
qed

lemma compression_passes: "passes_on d H (compression_call H pf encode config)"
  unfolding compression_call_def [abs_def]
proof (rule then_response_passes)
  fix req resp
  let ?enc = "accepted_encoding H pf config req"
  have "?enc = None" if "hm_get_all H (req_headers req) ''accept-encoding'' = []"
    using that by (simp add: accepted_encoding_def get_first)
  then show "carried H req resp (compression_finish H encode config ?enc (req_method req = Head) resp)"
    using compression_finish_cases [of H encode config ?enc "req_method req = Head" resp]
    by (auto simp: carried_def compressed_response_def get_all_simps compression_finish_def)
qed

lemma powered_by_passes: "passes_on d H (map_response_call (add_powered_by_header H))"
proof (rule passes_onI [where g = "\<lambda>r _. r" and k = "\<lambda>_ w. w"])
  let ?f = "\<lambda>out. case out of (Done resp, w') \<Rightarrow> (let (resp', w'') = add_powered_by_header H resp w' in (Done resp', w''))
      | (Panicked m, w') \<Rightarrow> (Panicked m, w')"
  show "map_response_call (add_powered_by_header H) inner req w = ?f (inner req w)" for inner req w
    by (simp add: map_response_call_def)
  show "\<exists>resp' u'. ?f (Done resp, u) = (Done resp', u') \<and> carried H req resp resp' \<and> d u \<le> d u'" for req resp u
    by (simp add: add_powered_by_header_def carried_def get_all_insert split: option.split)
qed (simp_all add: like_def)

end

lemma trace_passes: "passes_on rw_drawn (rx_http E) (trace_service E)"
proof (rule passes_onI [where g = "\<lambda>r _. r" and k = "\<lambda>_ w. w"])
  let ?f = "\<lambda>req w x. case trace_call (rx_http E) (rx_enabled E) (rx_fixed3 E) trace_layer_default (rx_version E)
      (rx_elapsed E req w) (\<lambda>_ _. x) req w of
        ((out, w'), Some ev) \<Rightarrow> (out, w'\<lparr>rw_events := rw_events w' @ [ev]\<rparr>) | ((out, w'), None) \<Rightarrow> (out, w')"
  show "trace_service E inner req w = ?f req w (inner req w)" for inner req w
    by (simp add: trace_service_def trace_call_def Let_def)
  show "\<exists>resp' u'. ?f req w (Done resp, u) = (Done resp', u') \<and> carried (rx_http E) req resp resp' \<and> rw_drawn u \<le> rw_drawn u'"
    for req w resp u
    by (simp add: trace_call_def Let_def carried_def split: option.split)
qed (simp_all add: like_def)

lemma attach_passes: "passes_on rw_drawn H (from_fn_call (attach_request_id E) ())"
  by (rule passes_onI [where f = "\<lambda>_ _ x. x" and k = "\<lambda>_ w. snd (new_uuid E w)"
        and g = "\<lambda>req w. req\<lparr>req_ext := (req_ext req)\<lparr>ext_string := Some (fst (new_uuid E w))\<rparr>\<rparr>"])
     (simp_all add: like_def carried_def from_fn_call_def attach_request_id_def middleware_fn_plain next_run_def case_prod_beta
       new_uuid_def)

lemma count_passes: "passes_on rw_drawn H (from_fn_call count_requests st)"
  by (rule passes_onI [where f = "\<lambda>_ _ x. x" and k = "\<lambda>_ w. w\<lparr>rw_count := rw_count w + 1\<rparr>" and g = "\<lambda>req _. req"])
     (simp_all add: like_def carried_def from_fn_call_def count_requests_def middleware_fn_state next_run_def)

lemma log_passes: "passes_on rw_drawn H (from_fn_call log_requests ())"
proof (rule passes_onI [where g = "\<lambda>r _. r" and k = "\<lambda>_ w. w"])
  let ?f = "\<lambda>req w x. from_fn_call log_requests () (\<lambda>_ _. x) req w"
  show "from_fn_call log_requests () inner req w = ?f req w (inner req w)" for inner req w
    by (simp add: from_fn_call_def log_requests_def middleware_fn_plain next_run_def Let_def)
  show "\<exists>resp' u'. ?f req w (Done resp, u) = (Done resp', u') \<and> carried H req resp resp' \<and> rw_drawn u \<le> rw_drawn u'"
    for req w resp u
    by (simp add: from_fn_call_def log_requests_def middleware_fn_plain next_run_def Let_def carried_def)
qed (simp_all add: like_def)

lemma outer_layers_pass:
  assumes "header_map (rx_http E)"
  shows "passes_on rw_drawn (rx_http E) (\<lambda>s. apply_layers s (drop 4 (rest_layers E st)))"
  by (rule passes_on_layers)
     (simp add: rest_layers_def header_map.request_id_passes header_map.security_passes header_map.compression_passes
        header_map.powered_by_passes trace_passes attach_passes count_passes log_passes new_uuid_def assms)

lemma rest_layers_split:
  "apply_layers svc (rest_layers E st) = apply_layers (timeout_service E 30000 (csrf_service E
      (catch_panic_call (rx_http E) None (async_service (request_body_limit_call (rx_http E) (10 * 1024 * 1024) svc)))))
    (drop 4 (rest_layers E st))"
  by (simp add: rest_layers_def apply_layers_def)

subsection \<open>Routes and tokens\<close>

context path_trie
begin

lemma rest_dispatch_static:
  assumes "route_all T (rest_routes E) (router_new T) = Some r"
    and "router_wf routes names st (router_fallback r (not_found E))"
    and "(p, mr) \<in> set (rest_routes E)" "is_static p" "uri_path (req_uri req) = p"
  shows "app_dispatch H T (router_fallback r (not_found E)) st req w
    = then_response (with_matched_path p) (mr_dispatch H mr (annotated p [] req) st w)"
proof -
  let ?r = "router_fallback r (not_found E)"
  have rs: "r_routes ?r = map (\<lambda>(p, mr). route_entry_new p mr) (rest_routes E)" "r_route_layers ?r = []"
    using route_all_entries [OF assms(1)] by (simp_all add: router_fallback_def router_new_def)
  have "route_entry_new p mr \<in> set (r_routes ?r)" using assms(3) unfolding rs(1) by force
  from dispatch_static [OF assms(2) this] assms(4,5)
  show ?thesis by (simp add: app_dispatch_no_route_layers [OF rs(2)])
qed

end

lemma dispatch_get: "req_method req \<in> {Get, Head} \<Longrightarrow> mr_dispatch H (mr_get mr_new h) req st w = h req st w"
  and dispatch_post: "req_method req = Post \<Longrightarrow> mr_dispatch H (mr_post mr_new h) req st w = h req st w"
  by (auto simp: mr_dispatch_def mr_select_def mr_setters mr_matched_def handler_service_def mf_matches_def
      mf_contains_def mf_bitor_def MF_NONE_def MF_defs)

lemma trim_solid: "list_all (\<lambda>c. \<not> is_ascii_ws c) s \<Longrightarrow> trim s = s"
  using trim_self [of s] by (cases "s = []") (auto simp: trim_def list_all_iff)

text \<open>A cookie pair whose value has neither separators nor blanks is read back.\<close>

definition token_chars :: string where
  "token_chars = ''0123456789abcdef-''"

lemma token_visible: "set t \<subseteq> set token_chars \<Longrightarrow> list_all header_visible t"
  by (auto simp: token_chars_def list_all_iff header_visible_def subset_iff)

lemma token_cookie:
  assumes "header_map H" "set t \<subseteq> set token_chars" "hm_get_all H h ''cookie'' = [''csrf_token='' @ t]"
  shows "extract_csrf_cookie H h (csrf_cookie_name csrf_new) = Some t"
proof -
  have semi: "CHR '';'' \<notin> set t" using assms(2) by (auto simp: token_chars_def)
  have "split_on CHR '';'' t = [t]" by (rule split_on_fresh [OF semi])
  moreover have "hv_to_str H (''csrf_token='' @ t) = Some (''csrf_token='' @ t)"
    using token_visible [OF assms(2)] by (simp add: header_map.to_str [OF assms(1)] header_visible_def)
  moreover have blank: "list_all (\<lambda>c. \<not> is_ascii_ws c) t"
    using assms(2) by (auto simp: token_chars_def list_all_iff is_ascii_ws_def subset_iff)
  moreover from blank have "trim (''csrf_token='' @ t) = ''csrf_token='' @ t" "trim t = t" "trim ''csrf_token'' = ''csrf_token''"
    by (simp_all add: trim_solid is_ascii_ws_def)
  ultimately show ?thesis
    by (simp add: extract_csrf_cookie_def assms(3) csrf_new_def)
qed

subsection \<open>A concrete application\<close>

definition demo_rest :: "(alist_headers, pair_jar, string \<times> string, string, unit, unit, unit) rest_env" where
  "demo_rest = \<lparr>rx_http = alist_lib, rx_error = \<lparr>ee_reason = (\<lambda>_. None), ee_json = (\<lambda>_. ''{}'')\<rparr>,
     rx_cookies = pair_cookies, rx_cookie = (\<lambda>n v _. (n, v)), rx_cookie_value = snd, rx_multer = endless_multer,
     rx_mime = (\<lambda>_. None), rx_json = (\<lambda>_. Some ''{}''), rx_create_user = (\<lambda>s. Inr \<lparr>cu_name = s\<rparr>),
     rx_search = (\<lambda>s. Inr \<lparr>sp_query = s\<rparr>), rx_f32 = (\<lambda>_. None), rx_encode = tag_encode,
     rx_csrf_cookie = (\<lambda>n v _ _. n @ ''='' @ v), rx_uuid = (\<lambda>n. nat_to_string n), rx_slow = (\<lambda>_ _. None),
     rx_enabled = (\<lambda>_. True), rx_fixed3 = nat_to_string, rx_version = ''HTTP/1.1'', rx_elapsed = (\<lambda>_ _. 0)\<rparr>"

lemma demo_rest_builds: "\<exists>app. rest_app seg_trie E st = Some app"
  by (simp add: rest_app_def rest_routes_def router_route_def router_new_def seg_trie_def)

subsection \<open>Properties\<close>

text \<open>C6: The demo application accounts for every request.  Whatever is asked of it, it answers, never with a panic, not
  even for the route that panics: the request counter grows by one (modulo \<open>2^64\<close>), exactly one line is logged, with
  the method, the path and the status of the answer, the answer carries \<^verbatim>\<open>x-powered-by\<close> once and all security headers,
  and an identifier that came with the request is the identifier on the answer.\<close>

theorem rest_requests_accounted:
  assumes "path_trie T routes names" "rest_app T E st = Some app" "header_map (rx_http E)"
  shows "\<exists>resp w'. router_into_service (rx_http E) T app req w = (Done resp, w')
    \<and> rw_count w' = rw_count w + 1
    \<and> rw_log w' = rw_log w @ [(method_as_str (req_method req), uri_path (req_uri req), res_status resp)]
    \<and> hm_get_all (rx_http E) (res_headers resp) ''x-powered-by'' = [''arvik'']
    \<and> same_id (rx_http E) req resp \<and> hardened (rx_http E) resp"
proof -
  obtain r where r: "route_all T (rest_routes E) (router_new T) = Some r"
      "router_wf routes names st (router_fallback r (not_found E))"
      "router_into_service (rx_http E) T app
        = apply_layers (app_dispatch (rx_http E) T (router_fallback r (not_found E)) st) (rest_layers E st)"
    using path_trie.rest_app_service [OF assms(1,2)] by metis
  show ?thesis
    unfolding r(3) by (rule rest_layers_answer [OF assms(3) path_trie.rest_dispatch_quiet [OF assms(1) r(1,2)]])
qed

theorem rest_requests_accounted_witness:
  "\<exists>app resp w'. router_into_service alist_lib seg_trie app (sample_request Get ''/panic'' []) rest_world_new = (Done resp, w')
     \<and> rw_count w' = 1 \<and> rw_log w' = [(''GET'', ''/panic'', res_status resp)]"
proof -
  obtain app where app: "rest_app seg_trie demo_rest (app_state_new ''key'') = Some app" using demo_rest_builds by blast
  have "header_map (rx_http demo_rest)" by (simp add: demo_rest_def alist_header_map)
  from rest_requests_accounted [OF seg_path_trie app this, of "sample_request Get ''/panic'' []" rest_world_new]
  show ?thesis by (auto simp: demo_rest_def rest_world_new_def sample_request_def sample_uri_def)
qed

text \<open>C7: Nothing changes state in the demo application without a matching token.  A request by a state-changing method
  whose CSRF cookie is missing, or is not repeated in the \<^verbatim>\<open>x-csrf-token\<close> header, is answered 403 (or 408, if the timer ran
  out first) on every path, and with that answer and that effect whatever application stands behind the layers: none
  of it runs.  The form that \<open>csrf_form\<close> serves sends the token as a field only, so submitting it from a browser is
  such a request.\<close>

theorem rest_csrf_enforced:
  assumes "path_trie T routes names" "rest_app T E st = Some app" "header_map (rx_http E)"
    and "is_state_changing (req_method req)"
    and "\<And>t. extract_csrf_cookie (rx_http E) (req_headers req) (csrf_cookie_name csrf_new) = Some t
      \<Longrightarrow> header_str (rx_http E) req (csrf_header_name csrf_new) \<noteq> Some t"
  shows "\<exists>resp w'. router_into_service (rx_http E) T app req w = (Done resp, w') \<and> res_status resp \<in> {403, 408}
    \<and> (\<forall>svc. apply_layers svc (rest_layers E st) req w = (Done resp, w'))"
proof -
  let ?H = "rx_http E"
  let ?core = "\<lambda>svc. timeout_service E 30000 (csrf_service E (catch_panic_call ?H None
      (async_service (request_body_limit_call ?H (10 * 1024 * 1024) svc))))"
  obtain r v f where f: "like ?H req r"
      "\<And>inner. apply_layers inner (drop 4 (rest_layers E st)) req w = f (inner r v)"
      "\<And>resp u. \<exists>resp' u'. f (Done resp, u) = (Done resp', u') \<and> carried ?H req resp resp' \<and> rw_drawn u \<le> rw_drawn u'"
    using outer_layers_pass [OF assms(3), of st] unfolding passes_on_def by blast
  have hs: "header_str ?H r n = header_str ?H req n" if "n \<noteq> ''x-request-id''" for n
    using f(1) that by (simp add: header_str_def header_map.get_first [OF assms(3)] like_def)
  have cookie: "extract_csrf_cookie ?H (req_headers r) n = extract_csrf_cookie ?H (req_headers req) n" for n
    using f(1) by (simp add: extract_csrf_cookie_def like_def)
  obtain forb where forb: "csrf_forbidden ?H = Done forb" "res_status forb = 403"
    using header_map.csrf_forbidden_status [OF assms(3)] by blast
  have ext: "header_str ?H (r\<lparr>req_ext := e\<rparr>) n = header_str ?H r n" for e n by (simp add: header_str_def)
  have "\<exists>u. \<forall>inner. csrf_service E inner r v = (Done forb, u)"
    using assms(4,5) f(1) hs [of "csrf_header_name csrf_new"]
    by (auto simp: csrf_service_def csrf_call_def Let_def cookie ext forb(1) like_def case_prod_beta csrf_new_def
        split: option.split)
  then obtain u where u: "\<And>inner. csrf_service E inner r v = (Done forb, u)" by blast
  have "\<exists>resp u. res_status resp \<in> {403, 408} \<and> (\<forall>svc. ?core svc r v = (Done resp, u))"
    by (cases "rx_slow E r v")
       (simp_all add: timeout_service_def u forb(2) timeout_response_def header_map.json_unwrap [OF assms(3)])
  then obtain resp u where core: "res_status resp \<in> {403, 408}" "\<And>svc. ?core svc r v = (Done resp, u)" by blast
  obtain resp' u' where out: "f (Done resp, u) = (Done resp', u')" "carried ?H req resp resp'" using f(3) by blast
  have all: "apply_layers svc (rest_layers E st) req w = (Done resp', u')" for svc
    by (simp add: rest_layers_split f(2) core(2) [simplified] out(1))
  moreover have "router_into_service ?H T app req w = (Done resp', u')"
    using path_trie.rest_app_service [OF assms(1,2)] all by metis
  moreover have "res_status resp' \<in> {403, 408}" using core(1) out(2) by (simp add: carried_def)
  ultimately show ?thesis by blast
qed

theorem rest_csrf_enforced_witness:
  "\<exists>app resp w'. router_into_service alist_lib seg_trie app
       (sample_request Post ''/csrf-submit'' [(''cookie'', ''csrf_token=7'')]) rest_world_new = (Done resp, w')
     \<and> res_status resp \<in> {403, 408}"
proof -
  obtain app where app: "rest_app seg_trie demo_rest (app_state_new ''key'') = Some app" using demo_rest_builds by blast
  have H: "header_map (rx_http demo_rest)" by (simp add: demo_rest_def alist_header_map)
  let ?req = "sample_request Post ''/csrf-submit'' [(''cookie'', ''csrf_token=7'')]"
  have "is_state_changing (req_method ?req)" by (simp add: sample_request_def is_state_changing_def)
  moreover have "header_str (rx_http demo_rest) ?req (csrf_header_name csrf_new) \<noteq> Some t" for t
    by (simp add: header_str_def demo_rest_def sample_request_def alist_sel csrf_new_def)
  ultimately show ?thesis
    using rest_csrf_enforced [OF seg_path_trie app H, of ?req rest_world_new] by (auto simp: demo_rest_def)
qed

text \<open>The two routes of the form, behind the limit and the panic guard.\<close>

lemma guarded_call:
  assumes "svc (r\<lparr>req_body := limited_body n (req_body r)\<rparr>) w = (Done resp, w)"
    and "\<And>k. declared_length H r = Some k \<Longrightarrow> k \<le> n"
  shows "catch_panic_call H None (async_service (request_body_limit_call H n svc)) r w = (Done resp, w)"
  using assms by (auto simp: catch_panic_call_def async_service_def request_body_limit_call_def Let_def split: option.split)

context path_trie
begin

lemma form_dispatch:
  assumes "route_all T (rest_routes E) (router_new T) = Some r"
    and "router_wf routes names st (router_fallback r (not_found E))"
    and "req_method req = Get" "uri_path (req_uri req) = ''/csrf-form''" "ext_csrf (req_ext req) = Some t"
  shows "app_dispatch H T (router_fallback r (not_found E)) st req w
    = (Done (with_matched_path ''/csrf-form'' (html_into_response (rx_http E) (form_page t))), w)"
proof -
  have "(''/csrf-form'', mr_get mr_new (csrf_form E)) \<in> set (rest_routes E)" by (simp add: rest_routes_def)
  from rest_dispatch_static [OF assms(1,2) this _ assms(4)]
  show ?thesis
    using assms(3,5)
    by (simp add: is_static_def dispatch_get annotated_def csrf_form_def handler_call_def arg_csrf_def via_parts_def
        into_request_parts_def from_request_parts_def extension_extract_def respond_def)
qed

lemma submit_dispatch:
  assumes "route_all T (rest_routes E) (router_new T) = Some r"
    and "router_wf routes names st (router_fallback r (not_found E))"
    and "req_method req = Post" "uri_path (req_uri req) = ''/csrf-submit''"
  shows "app_dispatch H T (router_fallback r (not_found E)) st req w
    = (Done (with_matched_path ''/csrf-submit'' (string_into_response (rx_http E) ''CSRF check passed!'')), w)"
proof -
  have "(''/csrf-submit'', mr_post mr_new (csrf_submit E)) \<in> set (rest_routes E)" by (simp add: rest_routes_def)
  from rest_dispatch_static [OF assms(1,2) this _ assms(4)]
  show ?thesis
    using assms(3) by (simp add: is_static_def dispatch_post annotated_def csrf_submit_def handler0_call_def respond_def)
qed

end

text \<open>The whole stack for a request that is in time: the layers outside pass the answer of the CSRF check on.\<close>

definition rest_core :: "('h, 'j, 'c, 'k, 'm, 'f, 'e) rest_env \<Rightarrow> ('h, rest_world) layer" where
  "rest_core E svc = catch_panic_call (rx_http E) None (async_service (request_body_limit_call (rx_http E) (10 * 1024 * 1024) svc))"

lemma rest_in_time:
  assumes "header_map (rx_http E)" "\<And>r w. rx_slow E r w = None"
  shows "\<exists>r v f. like (rx_http E) req r \<and> rw_drawn w \<le> rw_drawn v
    \<and> (\<forall>svc. apply_layers svc (rest_layers E st) req w = f (csrf_service E (rest_core E svc) r v))
    \<and> (\<forall>resp u. \<exists>resp' u'. f (Done resp, u) = (Done resp', u') \<and> carried (rx_http E) req resp resp'
        \<and> rw_drawn u \<le> rw_drawn u')"
proof -
  obtain r v f where f: "like (rx_http E) req r" "rw_drawn w \<le> rw_drawn v"
      "\<And>inner. apply_layers inner (drop 4 (rest_layers E st)) req w = f (inner r v)"
      "\<And>resp u. \<exists>resp' u'. f (Done resp, u) = (Done resp', u') \<and> carried (rx_http E) req resp resp'
        \<and> rw_drawn u \<le> rw_drawn u'"
    using outer_layers_pass [OF assms(1), of st] unfolding passes_on_def by blast
  have "apply_layers svc (rest_layers E st) req w = f (csrf_service E (rest_core E svc) r v)" for svc
    unfolding rest_layers_split f(3) timeout_service_def assms(2) rest_core_def by simp
  with f(1,2,4) show ?thesis by blast
qed

lemma like_declared:
  assumes "header_map H" "like H req r"
  shows "declared_length H (r\<lparr>req_ext := e\<rparr>) = declared_length H req"
  using assms(2) by (simp add: declared_length_def header_map.get_first [OF assms(1)] like_def)

text \<open>A request with the token in both places reaches the handler.\<close>

lemma submitted_token:
  assumes "path_trie T routes names" "route_all T (rest_routes E) (router_new T) = Some q"
    and "router_wf routes names st (router_fallback q (not_found E))"
    and "header_map (rx_http E)" "\<And>r w. rx_slow E r w = None" "set t \<subseteq> set token_chars"
    and "req_method submit = Post" "uri_path (req_uri submit) = ''/csrf-submit''"
    and "hm_get_all (rx_http E) (req_headers submit) ''cookie'' = [''csrf_token='' @ t]"
    and "hm_get_all (rx_http E) (req_headers submit) ''x-csrf-token'' = [t]"
    and "hm_get_all (rx_http E) (req_headers submit) ''accept-encoding'' = []"
    and "\<And>k. declared_length (rx_http E) submit = Some k \<Longrightarrow> k \<le> 10 * 1024 * 1024"
  shows "\<exists>resp v'. apply_layers (app_dispatch (rx_http E) T (router_fallback q (not_found E)) st) (rest_layers E st) submit w
      = (Done resp, v') \<and> res_status resp = 200 \<and> res_body resp = BFull ''CSRF check passed!''"
proof -
  let ?H = "rx_http E"
  let ?svc = "app_dispatch ?H T (router_fallback q (not_found E)) st"
  let ?guarded = "rest_core E ?svc"
  let ?resp = "with_matched_path ''/csrf-submit'' (string_into_response ?H ''CSRF check passed!'')"
  obtain r v f where f: "like ?H submit r" "\<And>svc. apply_layers svc (rest_layers E st) submit w = f (csrf_service E (rest_core E svc) r v)"
      "\<And>resp u. \<exists>resp' u'. f (Done resp, u) = (Done resp', u') \<and> carried ?H submit resp resp'"
    using rest_in_time [OF assms(4,5), of submit w st] by blast
  have like: "hm_get_all ?H (req_headers r) ''cookie'' = [''csrf_token='' @ t]"
      "hm_get_all ?H (req_headers r) ''x-csrf-token'' = [t]" "req_method r = Post" "req_uri r = req_uri submit"
    using f(1) assms(7,9,10) by (simp_all add: like_def)
  have cookie: "extract_csrf_cookie ?H (req_headers r) (csrf_cookie_name csrf_new) = Some t"
    by (rule token_cookie [OF assms(4,6) like(1)])
  have sent: "header_str ?H (r\<lparr>req_ext := e\<rparr>) (csrf_header_name csrf_new) = Some t" for e
    using token_visible [OF assms(6)] like(2)
    by (simp add: header_str_def csrf_new_def header_map.get_first [OF assms(4)] header_map.to_str [OF assms(4)])
  have "?guarded (r\<lparr>req_ext := (req_ext r)\<lparr>ext_csrf := Some t\<rparr>\<rparr>) v = (Done ?resp, v)"
    using like(3,4) assms(8) assms(12) unfolding rest_core_def
    by (intro guarded_call path_trie.submit_dispatch [OF assms(1-3)]) (simp_all add: like_declared [OF assms(4) f(1)])
  then have "csrf_service E ?guarded r v = (Done ?resp, v)"
    by (simp add: csrf_service_def csrf_call_def Let_def cookie sent)
  then obtain resp v' where out: "apply_layers ?svc (rest_layers E st) submit w = (Done resp, v')" "carried ?H submit ?resp resp"
    using f(2,3) by metis
  moreover have "res_status ?resp = 200" "res_body ?resp = BFull ''CSRF check passed!''"
    by (simp_all add: with_matched_path_def string_into_response_def rb_defs)
  ultimately show ?thesis using assms(11) by (auto simp: carried_def)
qed

text \<open>A client without a token gets the page with a new one, and the one cookie with the same.\<close>

lemma served_form:
  assumes "path_trie T routes names" "route_all T (rest_routes E) (router_new T) = Some q"
    and "router_wf routes names st (router_fallback q (not_found E))"
    and "header_map (rx_http E)" "\<And>r w. rx_slow E r w = None" "\<And>n. set (rx_uuid E n) \<subseteq> set token_chars"
    and "\<And>t. set t \<subseteq> set token_chars \<Longrightarrow> list_all header_visible (rx_csrf_cookie E ''csrf_token'' t False Strict)"
    and "req_method form = Get" "uri_path (req_uri form) = ''/csrf-form''"
    and "extract_csrf_cookie (rx_http E) (req_headers form) ''csrf_token'' = None"
    and "hm_get_all (rx_http E) (req_headers form) ''accept-encoding'' = []"
    and "\<And>k. declared_length (rx_http E) form = Some k \<Longrightarrow> k \<le> 10 * 1024 * 1024"
  shows "\<exists>n t page w1. rw_drawn w \<le> n \<and> n < rw_drawn w1 \<and> t = rx_uuid E n
    \<and> apply_layers (app_dispatch (rx_http E) T (router_fallback q (not_found E)) st) (rest_layers E st) form w = (Done page, w1)
    \<and> res_status page = 200 \<and> res_body page = BFull (form_page t)
    \<and> hm_get_all (rx_http E) (res_headers page) ''set-cookie'' = [rx_csrf_cookie E ''csrf_token'' t False Strict]"
proof -
  let ?H = "rx_http E"
  let ?svc = "app_dispatch ?H T (router_fallback q (not_found E)) st"
  let ?guarded = "rest_core E ?svc"
  obtain r v f where f: "like ?H form r" "rw_drawn w \<le> rw_drawn v"
      "\<And>svc. apply_layers svc (rest_layers E st) form w = f (csrf_service E (rest_core E svc) r v)"
      "\<And>resp u. \<exists>resp' u'. f (Done resp, u) = (Done resp', u') \<and> carried ?H form resp resp' \<and> rw_drawn u \<le> rw_drawn u'"
    using rest_in_time [OF assms(4,5), of form w st] by blast
  define t where "t = rx_uuid E (rw_drawn v)"
  have tok: "set t \<subseteq> set token_chars" using assms(6) by (simp add: t_def)
  let ?page = "csrf_set_cookie ?H (rx_csrf_cookie E) csrf_new t
      (with_matched_path ''/csrf-form'' (html_into_response ?H (form_page t)))"
  have "?guarded (r\<lparr>req_ext := (req_ext r)\<lparr>ext_csrf := Some t\<rparr>\<rparr>) u
      = (Done (with_matched_path ''/csrf-form'' (html_into_response ?H (form_page t))), u)" for u
    using f(1) assms(8,9) assms(12) unfolding rest_core_def
    by (intro guarded_call path_trie.form_dispatch [OF assms(1-3)])
       (simp_all add: like_def like_declared [OF assms(4) f(1)])
  then have "csrf_service E ?guarded r v = (Done ?page, v\<lparr>rw_drawn := Suc (rw_drawn v)\<rparr>)"
    using f(1) assms(8,10) by (simp add: csrf_service_def csrf_call_def Let_def like_def extract_csrf_cookie_def t_def
        new_uuid_def csrf_new_def is_state_changing_def)
  then obtain page w1 where "apply_layers ?svc (rest_layers E st) form w = (Done page, w1)" "carried ?H form ?page page"
      "Suc (rw_drawn v) \<le> rw_drawn w1"
    using f(3) [of ?svc] f(4) [of ?page "v\<lparr>rw_drawn := Suc (rw_drawn v)\<rparr>"] that by fastforce
  moreover have "res_status ?page = 200" "res_body ?page = BFull (form_page t)"
      "hm_get_all ?H (res_headers ?page) ''set-cookie'' = [rx_csrf_cookie E ''csrf_token'' t False Strict]"
    by (simp_all add: csrf_set_cookie_def csrf_new_def header_map.from_str [OF assms(4) assms(7) [OF tok]]
        with_matched_path_def html_into_response_def rb_defs header_map.get_all_simps [OF assms(4)])
  ultimately show ?thesis using f(2) assms(11)
    by (intro exI [of _ "rw_drawn v"] exI [of _ t] exI [of _ page] exI [of _ w1]) (simp add: carried_def t_def)
qed

text \<open>C17: The CSRF check of the demo application can be passed, by the client the layer asks for.  Let every request be in
  time (the timer of the timeout layer never runs out first), UUIDs be of token characters and the cookie writer give a legal header
  value for such a token.  A client that has no token, does not ask for compression and declares no more than 10 MiB, gets
  \<^verbatim>\<open>/csrf-form\<close> with status 200 and a token \<open>t\<close> in the page and in the one cookie that is set: it is a UUID drawn
  while this request was handled, the draw numbered \<open>n\<close>, which no earlier request has seen.  If it
  then posts to \<^verbatim>\<open>/csrf-submit\<close> with that token in the cookie and in the \<^verbatim>\<open>x-csrf-token\<close> header, again without asking for
  compression and declaring no more than 10 MiB, at any later time and
  whatever happened in between, it is answered 200 by the handler.\<close>

theorem rest_form_roundtrip:
  assumes "path_trie T routes names" "rest_app T E st = Some app" "header_map (rx_http E)"
    and "\<And>r w. rx_slow E r w = None" "\<And>n. set (rx_uuid E n) \<subseteq> set token_chars"
    and "\<And>t. set t \<subseteq> set token_chars \<Longrightarrow> list_all header_visible (rx_csrf_cookie E ''csrf_token'' t False Strict)"
    and "req_method form = Get" "uri_path (req_uri form) = ''/csrf-form''"
    and "extract_csrf_cookie (rx_http E) (req_headers form) ''csrf_token'' = None"
    and "hm_get_all (rx_http E) (req_headers form) ''accept-encoding'' = []"
    and "\<And>k. declared_length (rx_http E) form = Some k \<Longrightarrow> k \<le> 10 * 1024 * 1024"
  shows "\<exists>n t page w1. router_into_service (rx_http E) T app form w = (Done page, w1)
    \<and> rw_drawn w \<le> n \<and> n < rw_drawn w1 \<and> t = rx_uuid E n
    \<and> res_status page = 200 \<and> res_body page = BFull (form_page t)
    \<and> hm_get_all (rx_http E) (res_headers page) ''set-cookie'' = [rx_csrf_cookie E ''csrf_token'' t False Strict]
    \<and> (\<forall>submit v. req_method submit = Post \<and> uri_path (req_uri submit) = ''/csrf-submit''
        \<and> hm_get_all (rx_http E) (req_headers submit) ''cookie'' = [''csrf_token='' @ t]
        \<and> hm_get_all (rx_http E) (req_headers submit) ''x-csrf-token'' = [t]
        \<and> hm_get_all (rx_http E) (req_headers submit) ''accept-encoding'' = []
        \<and> (\<forall>k. declared_length (rx_http E) submit = Some k \<longrightarrow> k \<le> 10 * 1024 * 1024)
      \<longrightarrow> (\<exists>resp v'. router_into_service (rx_http E) T app submit v = (Done resp, v') \<and> res_status resp = 200
             \<and> res_body resp = BFull ''CSRF check passed!''))"
proof -
  obtain q where q: "route_all T (rest_routes E) (router_new T) = Some q"
      "router_wf routes names st (router_fallback q (not_found E))"
      "router_into_service (rx_http E) T app
        = apply_layers (app_dispatch (rx_http E) T (router_fallback q (not_found E)) st) (rest_layers E st)"
    using path_trie.rest_app_service [OF assms(1,2)] by metis
  obtain n t page w1 where t: "rw_drawn w \<le> n" "n < rw_drawn w1" "t = rx_uuid E n" and page:
      "router_into_service (rx_http E) T app form w = (Done page, w1)" "res_status page = 200"
      "res_body page = BFull (form_page t)"
      "hm_get_all (rx_http E) (res_headers page) ''set-cookie'' = [rx_csrf_cookie E ''csrf_token'' t False Strict]"
    using served_form [OF assms(1) q(1,2) assms(3-11), of w] unfolding q(3) by blast
  have "set t \<subseteq> set token_chars" unfolding t(3) by (rule assms(5))
  then show ?thesis
    using t page submitted_token [OF assms(1) q(1,2) assms(3,4)] unfolding q(3)
    by (intro exI [of _ n] exI [of _ t] exI [of _ page] exI [of _ w1]) blast
qed

lemma nat_to_string_token: "set (nat_to_string n) \<subseteq> set token_chars"
proof (induction n rule: nat_to_string.induct)
  case (1 n)
  have "list_all (\<lambda>d. digit_char d \<in> set token_chars) [0..<10]" by code_simp
  then have "digit_char d \<in> set token_chars" if "d < 10" for d using that by (simp add: list_all_iff)
  with 1 show ?case by (simp add: nat_to_string.simps [of n])
qed

theorem rest_form_roundtrip_witness:
  "\<exists>app t page w1. router_into_service alist_lib seg_trie app (sample_request Get ''/csrf-form'' []) rest_world_new
       = (Done page, w1) \<and> res_body page = BFull (form_page t)
     \<and> alist_get_all (res_headers page) ''set-cookie'' = [''csrf_token='' @ t] \<and> (\<exists>n < rw_drawn w1. t = nat_to_string n)
     \<and> (\<exists>resp v'. router_into_service alist_lib seg_trie app (sample_request Post ''/csrf-submit''
           [(''cookie'', ''csrf_token='' @ t), (''x-csrf-token'', t)]) w1 = (Done resp, v') \<and> res_status resp = 200)"
proof -
  obtain app where app: "rest_app seg_trie demo_rest (app_state_new ''key'') = Some app" using demo_rest_builds by blast
  have H: "header_map (rx_http demo_rest)" by (simp add: demo_rest_def alist_header_map)
  let ?form = "sample_request Get ''/csrf-form'' []"
  have cookie: "set t \<subseteq> set token_chars \<Longrightarrow> list_all header_visible (rx_csrf_cookie demo_rest ''csrf_token'' t False Strict)" for t
    using token_visible [of t] by (simp add: demo_rest_def header_visible_def)
  have form: "extract_csrf_cookie (rx_http demo_rest) (req_headers ?form) ''csrf_token'' = None"
      "hm_get_all (rx_http demo_rest) (req_headers ?form) ''accept-encoding'' = []"
      "\<And>k. declared_length (rx_http demo_rest) ?form = Some k \<Longrightarrow> k \<le> 10 * 1024 * 1024"
    by (simp_all add: extract_csrf_cookie_def declared_length_def demo_rest_def sample_request_def alist_sel alist_get_all_def)
  have slow: "rx_slow demo_rest r w = None" for r w by (simp add: demo_rest_def)
  have ids: "set (rx_uuid demo_rest n) \<subseteq> set token_chars" for n by (simp add: demo_rest_def nat_to_string_token)
  have path: "req_method ?form = Get" "uri_path (req_uri ?form) = ''/csrf-form''" by (simp_all add: sample_request_def sample_uri_def)
  have env: "rx_http demo_rest = alist_lib" "rx_csrf_cookie demo_rest n v b s = n @ ''='' @ v"
      "rx_uuid demo_rest k = nat_to_string k" for n v b s k
    by (simp_all add: demo_rest_def)
  let ?H = "rx_http demo_rest"
  obtain n t page w1 where p: "router_into_service ?H seg_trie app ?form rest_world_new = (Done page, w1)"
      "rw_drawn rest_world_new \<le> n" "n < rw_drawn w1" "t = rx_uuid demo_rest n"
      "res_status page = 200" "res_body page = BFull (form_page t)"
      "hm_get_all ?H (res_headers page) ''set-cookie'' = [rx_csrf_cookie demo_rest ''csrf_token'' t False Strict]"
    and post: "\<forall>submit v. req_method submit = Post \<and> uri_path (req_uri submit) = ''/csrf-submit''
        \<and> hm_get_all ?H (req_headers submit) ''cookie'' = [''csrf_token='' @ t]
        \<and> hm_get_all ?H (req_headers submit) ''x-csrf-token'' = [t]
        \<and> hm_get_all ?H (req_headers submit) ''accept-encoding'' = []
        \<and> (\<forall>k. declared_length ?H submit = Some k \<longrightarrow> k \<le> 10 * 1024 * 1024)
      \<longrightarrow> (\<exists>resp v'. router_into_service ?H seg_trie app submit v = (Done resp, v') \<and> res_status resp = 200
             \<and> res_body resp = BFull ''CSRF check passed!'')"
    by (rule exE [OF rest_form_roundtrip [OF seg_path_trie app H slow ids cookie path form, of rest_world_new]],
        assumption, assumption, elim exE conjE, erule (7) that)
  let ?submit = "sample_request Post ''/csrf-submit'' [(''cookie'', ''csrf_token='' @ t), (''x-csrf-token'', t)]"
  have "\<exists>resp v'. router_into_service alist_lib seg_trie app ?submit w1 = (Done resp, v') \<and> res_status resp = 200"
    using post [rule_format, of ?submit w1]
    by (simp add: env sample_request_def sample_uri_def alist_get_all_def declared_length_def alist_sel) blast
  moreover have "alist_get_all (res_headers page) ''set-cookie'' = [''csrf_token='' @ t]"
    using p(7) by (simp add: env alist_sel)
  moreover have "router_into_service alist_lib seg_trie app ?form rest_world_new = (Done page, w1)"
    using p(1) by (simp only: env)
  ultimately show ?thesis using p(3,6) p(4) [unfolded env] app by blast
qed

end
