(* ===== verification/Chat.thy ===== *)
theory Chat
  imports Router WebSockets Path_De Extractors Config "HOL-Library.Char_ord" "HOL-Library.List_Lexorder"
begin

text \<open>
  The chat server of src/examples/websocket_chat/src/main.rs: its rooms, its handlers and its sessions.

  A session is the task that runs \<open>handle_socket\<close>; between two of its \<^verbatim>\<open>await\<close> points other sessions may run, so the
  server is the step relation \<open>chat_step\<close> over all of them.  The map of rooms is a lock around room names and
  \<^verbatim>\<open>Sender\<close>s; clones of a sender share one channel, so a sender is an address into the list of channels.  The
  broadcast channel of tokio is the parameter \<open>broadcast_lib\<close> with the laws of the locale \<open>broadcast\<close>; JSON printing,
  the character classes beyond ASCII and the page are parameters too.  What the client sends and whether a send to its
  socket succeeds are arguments of the steps.
\<close>

subsection \<open>Characters\<close>

text \<open>\<^verbatim>\<open>chars\<close>: a character is the string of its UTF-8 bytes.\<close>

fun utf8_chars :: "string \<Rightarrow> string list" where
  "utf8_chars [] = []"
| "utf8_chars (c # cs) = (c # take (utf8_width c - 1) cs) # utf8_chars (drop (utf8_width c - 1) cs)"

text \<open>The characters with the property \<^verbatim>\<open>White_Space\<close>, and \<^verbatim>\<open>str::trim\<close>.\<close>

definition unicode_ws :: "string \<Rightarrow> bool" where
  "unicode_ws c \<longleftrightarrow> c \<in> (\<lambda>b. [b]) ` {CHR 0x09, CHR 0x0A, CHR 0x0B, CHR 0x0C, CHR 0x0D, CHR 0x20}
     \<or> c \<in> {[CHR 0xC2, CHR 0x85], [CHR 0xC2, CHR 0xA0], [CHR 0xE1, CHR 0x9A, CHR 0x80],
            [CHR 0xE2, CHR 0x80, CHR 0xA8], [CHR 0xE2, CHR 0x80, CHR 0xA9], [CHR 0xE2, CHR 0x80, CHR 0xAF],
            [CHR 0xE2, CHR 0x81, CHR 0x9F], [CHR 0xE3, CHR 0x80, CHR 0x80]}
     \<or> (\<exists>n \<in> set [0x80..<0x8B]. c = [CHR 0xE2, CHR 0x80, char_of (n :: nat)])"

definition unicode_trim :: "string \<Rightarrow> string" where
  "unicode_trim s = concat (rev (dropWhile unicode_ws (rev (dropWhile unicode_ws (utf8_chars s)))))"

text \<open>\<^verbatim>\<open>char::is_alphanumeric\<close>; \<open>alnum\<close> decides beyond ASCII.\<close>

definition is_alphanumeric :: "(string \<Rightarrow> bool) \<Rightarrow> string \<Rightarrow> bool" where
  "is_alphanumeric alnum c =
     (case c of [b] \<Rightarrow> byte_in 0x30 0x39 b \<or> byte_in 0x41 0x5A b \<or> byte_in 0x61 0x7A b
      | _ \<Rightarrow> alnum c)"

definition char_to_ascii_lowercase :: "string \<Rightarrow> string" where
  "char_to_ascii_lowercase c = (case c of [b] \<Rightarrow> [ascii_lower b] | _ \<Rightarrow> c)"

definition sanitize_room :: "(string \<Rightarrow> bool) \<Rightarrow> string \<Rightarrow> string" where
  "sanitize_room alnum name =
     concat (take 32 (map char_to_ascii_lowercase
       (filter (\<lambda>c. is_alphanumeric alnum c \<or> c = ''-'') (utf8_chars name))))"

definition sanitize_username :: "(string \<Rightarrow> bool) \<Rightarrow> string \<Rightarrow> string" where
  "sanitize_username alnum name =
     concat (take 20 (filter (\<lambda>c. is_alphanumeric alnum c \<or> c = ''-'' \<or> c = ''_'') (utf8_chars name)))"

subsection \<open>Channels\<close>

datatype recv_result = Received string | Lagged nat | ChannelClosed | NoMessage

record 'ch broadcast_lib =
  bc_channel :: "nat \<Rightarrow> 'ch"
  bc_subscribe :: "'ch \<Rightarrow> nat \<times> 'ch"
  bc_send :: "'ch \<Rightarrow> string \<Rightarrow> bool \<times> 'ch"
  bc_recv :: "'ch \<Rightarrow> nat \<Rightarrow> recv_result \<times> 'ch"
  bc_drop :: "'ch \<Rightarrow> nat \<Rightarrow> 'ch"
  bc_receiver_count :: "'ch \<Rightarrow> nat"

subsection \<open>State\<close>

definition CHANNEL_CAPACITY :: nat where "CHANNEL_CAPACITY = 64"

definition DEFAULT_ROOM :: string where "DEFAULT_ROOM = ''general''"

text \<open>Where a session stands in \<open>handle_socket\<close>: what it has done last.\<close>

datatype session_phase = Joined | Announced | Running | Leaving | Left | Cleaned | Gone

text \<open>\<open>se_heard\<close> are the texts \<^verbatim>\<open>rx.recv()\<close> returned, \<open>se_out\<close> all messages handed to the socket.\<close>

record session =
  se_room :: string
  se_user :: string
  se_chan :: nat
  se_rx :: nat
  se_phase :: session_phase
  se_heard :: "string list"
  se_out :: "message list"

record 'ch chat =
  ch_rooms :: "string \<rightharpoonup> nat"
  ch_channels :: "'ch list"
  ch_sessions :: "session list"

definition chat_start :: "'ch chat" where
  "chat_start = \<lparr>ch_rooms = Map.empty, ch_channels = [], ch_sessions = []\<rparr>"

text \<open>\<open>join\<close> and \<open>cleanup\<close> hold the lock throughout.\<close>

definition rooms_join :: "'ch broadcast_lib \<Rightarrow> string \<Rightarrow> 'ch chat \<Rightarrow> nat \<times> nat \<times> 'ch chat" where
  "rooms_join B room st =
     (let (a, st) = (case ch_rooms st room of
                       Some a \<Rightarrow> (a, st)
                     | None \<Rightarrow> (length (ch_channels st),
                         st\<lparr>ch_rooms := (ch_rooms st)(room \<mapsto> length (ch_channels st)),
                            ch_channels := ch_channels st @ [bc_channel B CHANNEL_CAPACITY]\<rparr>));
          (rx, c) = bc_subscribe B (ch_channels st ! a)
      in (a, rx, st\<lparr>ch_channels := (ch_channels st)[a := c]\<rparr>))"

definition rooms_cleanup :: "'ch broadcast_lib \<Rightarrow> string \<Rightarrow> 'ch chat \<Rightarrow> 'ch chat" where
  "rooms_cleanup B room st =
     (case ch_rooms st room of
        Some a \<Rightarrow> if bc_receiver_count B (ch_channels st ! a) = 0
                  then st\<lparr>ch_rooms := (ch_rooms st)(room := None)\<rparr> else st
      | None \<Rightarrow> st)"

subsection \<open>Messages\<close>

text \<open>\<open>print\<close> prints a JSON value.\<close>

definition system_text :: "(json_value \<Rightarrow> string) \<Rightarrow> string \<Rightarrow> string \<Rightarrow> string" where
  "system_text print room msg =
     print (JObj [(''system'', JBool True), (''room'', json_value.JStr room), (''msg'', json_value.JStr msg)])"

definition join_text :: "(json_value \<Rightarrow> string) \<Rightarrow> string \<Rightarrow> string \<Rightarrow> string" where
  "join_text print room user = system_text print room (user @ '' joined the room'')"

definition leave_text :: "(json_value \<Rightarrow> string) \<Rightarrow> string \<Rightarrow> string \<Rightarrow> string" where
  "leave_text print room user = system_text print room (user @ '' left the room'')"

definition welcome_text :: "(json_value \<Rightarrow> string) \<Rightarrow> string \<Rightarrow> string \<Rightarrow> string" where
  "welcome_text print room user =
     system_text print room (''Welcome '' @ user @ ''! You are in room '' @ quoted room @ ''.'')"

definition said_text :: "(json_value \<Rightarrow> string) \<Rightarrow> string \<Rightarrow> string \<Rightarrow> string \<Rightarrow> string" where
  "said_text print room user msg =
     print (JObj [(''from'', json_value.JStr user), (''room'', json_value.JStr room), (''msg'', json_value.JStr msg)])"

definition unsupported_text :: string where
  "unsupported_text = ''{\"system\":true,\"msg\":\"Binary messages not supported\"}''"

text \<open>The name of a guest ends with the milliseconds of the clock.\<close>

definition user_id_of :: "nat \<Rightarrow> string \<Rightarrow> string" where
  "user_id_of millis username = (if username = [] then ''Guest-'' @ nat_to_string millis else username)"

subsection \<open>Sessions\<close>

definition session_new :: "string \<Rightarrow> string \<Rightarrow> nat \<Rightarrow> nat \<Rightarrow> session" where
  "session_new room user a rx = \<lparr>se_room = room, se_user = user, se_chan = a, se_rx = rx, se_phase = Joined,
     se_heard = [], se_out = []\<rparr>"

definition set_session :: "nat \<Rightarrow> session \<Rightarrow> 'ch chat \<Rightarrow> 'ch chat" where
  "set_session i s st = st\<lparr>ch_sessions := (ch_sessions st)[i := s]\<rparr>"

text \<open>\<^verbatim>\<open>let _ = tx.send(...)\<close>\<close>

definition send_room :: "'ch broadcast_lib \<Rightarrow> string \<Rightarrow> session \<Rightarrow> 'ch chat \<Rightarrow> 'ch chat" where
  "send_room B m s st = st\<lparr>ch_channels :=
     (ch_channels st)[se_chan s := snd (bc_send B (ch_channels st ! se_chan s) m)]\<rparr>"

definition put_out :: "message \<Rightarrow> session \<Rightarrow> session" where
  "put_out m s = s\<lparr>se_out := se_out s @ [m]\<rparr>"

text \<open>The first branch of the \<^verbatim>\<open>select!\<close>: what \<^verbatim>\<open>socket.recv()\<close> gave.\<close>

fun client_branch ::
  "'ch broadcast_lib \<Rightarrow> (json_value \<Rightarrow> string) \<Rightarrow> (string + message) option \<Rightarrow> session \<Rightarrow> 'ch chat \<Rightarrow> session \<times> 'ch chat" where
  "client_branch B print (Some (Inr (Text t))) s st =
     (let t = unicode_trim t in
      if t = [] then (s, st) else (s, send_room B (said_text print (se_room s) (se_user s) t) s st))"
| "client_branch B print (Some (Inr (Binary _))) s st = (put_out (Text unsupported_text) s, st)"
| "client_branch B print (Some (Inr (Ping d))) s st = (put_out (Pong d) s, st)"
| "client_branch B print (Some (Inr (Close _))) s st = (s\<lparr>se_phase := Leaving\<rparr>, st)"
| "client_branch B print None s st = (s\<lparr>se_phase := Leaving\<rparr>, st)"
| "client_branch B print (Some (Inr (Pong _))) s st = (s, st)"
| "client_branch B print (Some (Inl _)) s st = (s\<lparr>se_phase := Leaving\<rparr>, st)"

text \<open>The second branch; \<open>ok\<close> says whether the send to the socket succeeds.  \<open>None\<close>: there is nothing to receive yet.\<close>

definition room_branch ::
  "'ch broadcast_lib \<Rightarrow> bool \<Rightarrow> session \<Rightarrow> 'ch chat \<Rightarrow> (session \<times> 'ch chat) option" where
  "room_branch B ok s st =
     (let (r, c) = bc_recv B (ch_channels st ! se_chan s) (se_rx s);
          st' = st\<lparr>ch_channels := (ch_channels st)[se_chan s := c]\<rparr>
      in case r of
           Received m \<Rightarrow>
             (let s' = (put_out (Text m) s)\<lparr>se_heard := se_heard s @ [m]\<rparr>
              in Some (if ok then s' else s'\<lparr>se_phase := Leaving\<rparr>, st'))
         | Lagged n \<Rightarrow> Some (s, st')
         | ChannelClosed \<Rightarrow> Some (s\<lparr>se_phase := Leaving\<rparr>, st')
         | NoMessage \<Rightarrow> None)"

text \<open>The end of \<open>handle_socket\<close> drops its locals, the receiver among them.\<close>

definition drop_receiver :: "'ch broadcast_lib \<Rightarrow> session \<Rightarrow> 'ch chat \<Rightarrow> 'ch chat" where
  "drop_receiver B s st = st\<lparr>ch_channels :=
     (ch_channels st)[se_chan s := bc_drop B (ch_channels st ! se_chan s) (se_rx s)]\<rparr>"

inductive chat_step :: "'ch broadcast_lib \<Rightarrow> (json_value \<Rightarrow> string) \<Rightarrow> 'ch chat \<Rightarrow> 'ch chat \<Rightarrow> bool"
  for B :: "'ch broadcast_lib" and print :: "json_value \<Rightarrow> string" where
  arrive: "rooms_join B room st = (a, rx, st') \<Longrightarrow>
    chat_step B print st (st'\<lparr>ch_sessions := ch_sessions st' @ [session_new room (user_id_of millis name) a rx]\<rparr>)"
| announce: "i < length (ch_sessions st) \<Longrightarrow> s = ch_sessions st ! i \<Longrightarrow> se_phase s = Joined \<Longrightarrow>
    chat_step B print st (set_session i (s\<lparr>se_phase := Announced\<rparr>)
      (send_room B (join_text print (se_room s) (se_user s)) s st))"
| greet: "i < length (ch_sessions st) \<Longrightarrow> s = ch_sessions st ! i \<Longrightarrow> se_phase s = Announced \<Longrightarrow>
    chat_step B print st (set_session i
      ((put_out (Text (welcome_text print (se_room s) (se_user s))) s)\<lparr>se_phase := Running\<rparr>) st)"
| client: "i < length (ch_sessions st) \<Longrightarrow> s = ch_sessions st ! i \<Longrightarrow> se_phase s = Running \<Longrightarrow>
    client_branch B print r s st = (s', st') \<Longrightarrow> chat_step B print st (set_session i s' st')"
| room: "i < length (ch_sessions st) \<Longrightarrow> s = ch_sessions st ! i \<Longrightarrow> se_phase s = Running \<Longrightarrow>
    room_branch B ok s st = Some (s', st') \<Longrightarrow> chat_step B print st (set_session i s' st')"
| depart: "i < length (ch_sessions st) \<Longrightarrow> s = ch_sessions st ! i \<Longrightarrow> se_phase s = Leaving \<Longrightarrow>
    chat_step B print st (set_session i (s\<lparr>se_phase := Left\<rparr>)
      (send_room B (leave_text print (se_room s) (se_user s)) s st))"
| cleanup: "i < length (ch_sessions st) \<Longrightarrow> s = ch_sessions st ! i \<Longrightarrow> se_phase s = Left \<Longrightarrow>
    chat_step B print st (set_session i (s\<lparr>se_phase := Cleaned\<rparr>) (rooms_cleanup B (se_room s) st))"
| finish: "i < length (ch_sessions st) \<Longrightarrow> s = ch_sessions st ! i \<Longrightarrow> se_phase s = Cleaned \<Longrightarrow>
    chat_step B print st (set_session i (s\<lparr>se_phase := Gone\<rparr>) (drop_receiver B s st))"

inductive chat_reach :: "'ch broadcast_lib \<Rightarrow> (json_value \<Rightarrow> string) \<Rightarrow> 'ch chat \<Rightarrow> bool"
  for B :: "'ch broadcast_lib" and print :: "json_value \<Rightarrow> string" where
  start: "chat_reach B print chat_start"
| step: "chat_reach B print st \<Longrightarrow> chat_step B print st st' \<Longrightarrow> chat_reach B print st'"

subsection \<open>What tokio promises\<close>

text \<open>
  \<open>rxs\<close> are the live receivers of a channel, \<open>sent\<close> the messages it accepted, and \<open>pos\<close> is where a receiver reads next.
  A send without receivers fails and is forgotten; a receiver that has fallen behind the capacity skips ahead.
\<close>

locale broadcast =
  fixes B :: "'ch broadcast_lib" and rxs :: "'ch \<Rightarrow> nat set" and sent :: "'ch \<Rightarrow> string list" and pos :: "'ch \<Rightarrow> nat \<Rightarrow> nat"
  assumes channel: "rxs (bc_channel B n) = {}" "sent (bc_channel B n) = []"
    and subscribe: "bc_subscribe B c = (i, c') \<Longrightarrow> i \<notin> rxs c \<and> rxs c' = insert i (rxs c) \<and> sent c' = sent c
      \<and> (\<forall>j \<in> rxs c. pos c' j = pos c j)"
    and send: "bc_send B c m = (ok, c') \<Longrightarrow> rxs c' = rxs c \<and> sent c' = (if rxs c = {} then sent c else sent c @ [m])
      \<and> (\<forall>j \<in> rxs c. pos c' j = pos c j)"
    and recv: "bc_recv B c i = (r, c') \<Longrightarrow> i \<in> rxs c \<Longrightarrow> rxs c' = rxs c \<and> sent c' = sent c \<and> pos c i \<le> pos c' i
      \<and> (\<forall>j \<in> rxs c - {i}. pos c' j = pos c j)
      \<and> (\<forall>m. r = Received m \<longrightarrow> pos c i < length (sent c) \<and> m = sent c ! pos c i \<and> pos c' i = Suc (pos c i))"
    and drop_rx: "rxs (bc_drop B c i) = rxs c - {i} \<and> sent (bc_drop B c i) = sent c
      \<and> (\<forall>j \<in> rxs c - {i}. pos (bc_drop B c i) j = pos c j)"
    and receiver_count: "bc_receiver_count B c = 0 \<longleftrightarrow> rxs c = {}"

text \<open>The texts that sessions of a room send to it.\<close>

definition room_text :: "(json_value \<Rightarrow> string) \<Rightarrow> string \<Rightarrow> string \<Rightarrow> bool" where
  "room_text print room m \<longleftrightarrow>
     (\<exists>u. m = join_text print room u \<or> m = leave_text print room u \<or> (\<exists>t. m = said_text print room u t))"

context broadcast
begin

text \<open>A channel after a step of the session that holds receiver \<open>i\<close>.\<close>

definition evolves :: "nat \<Rightarrow> 'ch \<Rightarrow> 'ch \<Rightarrow> bool" where
  "evolves i c c' \<longleftrightarrow> rxs c - {i} \<subseteq> rxs c' \<and> prefix (sent c) (sent c') \<and> (\<forall>j \<in> rxs c - {i}. pos c' j = pos c j)"

definition session_ok :: "'ch chat \<Rightarrow> session \<Rightarrow> bool" where
  "session_ok st s \<longleftrightarrow> ch_rooms st (se_room s) = Some (se_chan s)
     \<and> subseq (se_heard s) (sent (ch_channels st ! se_chan s))
     \<and> (se_phase s \<noteq> Gone \<longrightarrow> se_rx s \<in> rxs (ch_channels st ! se_chan s)
          \<and> subseq (se_heard s) (take (pos (ch_channels st ! se_chan s) (se_rx s)) (sent (ch_channels st ! se_chan s))))"

definition apart_receivers :: "session list \<Rightarrow> bool" where
  "apart_receivers ss \<longleftrightarrow> (\<forall>i j. i < length ss \<longrightarrow> j < length ss \<longrightarrow> i \<noteq> j \<longrightarrow> se_phase (ss ! i) \<noteq> Gone
     \<longrightarrow> se_phase (ss ! j) \<noteq> Gone \<longrightarrow> se_chan (ss ! i) = se_chan (ss ! j) \<longrightarrow> se_rx (ss ! i) \<noteq> se_rx (ss ! j))"

definition chat_inv :: "(json_value \<Rightarrow> string) \<Rightarrow> 'ch chat \<Rightarrow> bool" where
  "chat_inv print st \<longleftrightarrow>
     (\<forall>r a. ch_rooms st r = Some a \<longrightarrow> a < length (ch_channels st)
        \<and> (\<forall>r'. ch_rooms st r' = Some a \<longrightarrow> r' = r)
        \<and> (\<forall>m \<in> set (sent (ch_channels st ! a)). room_text print r m))
     \<and> list_all (session_ok st) (ch_sessions st) \<and> apart_receivers (ch_sessions st)"

lemma chat_inv_start: "chat_inv print chat_start"
  by (simp add: chat_inv_def chat_start_def apart_receivers_def)

lemma inv_session:
  assumes "chat_inv print st" "i < length (ch_sessions st)" "s = ch_sessions st ! i"
  shows "session_ok st s" "se_chan s < length (ch_channels st)"
  using assms by (auto simp: chat_inv_def list_all_length session_ok_def)

lemma evolves_refl: "evolves i c c"
  by (simp add: evolves_def)

lemma subseq_take_prefix: "prefix xs ys \<Longrightarrow> subseq h (take n xs) \<Longrightarrow> subseq h (take n ys)"
  by (auto simp: prefix_def intro: subseq_order.trans [OF _ subseq_rev_drop_many])

lemma subseq_prefix: "prefix xs ys \<Longrightarrow> subseq h xs \<Longrightarrow> subseq h ys"
  by (auto simp: prefix_def intro: subseq_order.trans [OF _ subseq_rev_drop_many])

text \<open>Sessions do not notice what the session with another receiver does.\<close>

lemma session_ok_evolves:
  assumes "session_ok st x" "ch_rooms st' = ch_rooms st" "a < length (ch_channels st)"
    and "ch_channels st' = (ch_channels st)[a := c']" "evolves rx (ch_channels st ! a) c'"
    and "se_phase x \<noteq> Gone \<Longrightarrow> se_chan x = a \<Longrightarrow> se_rx x \<noteq> rx"
  shows "session_ok st' x"
proof (cases "se_chan x = a")
  case True
  then show ?thesis
    using assms subseq_prefix [of "sent (ch_channels st ! a)" "sent c'" "se_heard x"]
      subseq_take_prefix [of "sent (ch_channels st ! a)" "sent c'" "se_heard x"]
    by (auto simp: session_ok_def evolves_def)
qed (use assms in \<open>simp add: session_ok_def\<close>)

text \<open>One session and its channel change; what is new in the channel belongs to the session's room.\<close>

lemma inv_update:
  assumes "chat_inv print st" "i < length (ch_sessions st)" "s = ch_sessions st ! i" "se_phase s \<noteq> Gone"
    and "evolves (se_rx s) (ch_channels st ! se_chan s) c'"
    and "\<And>m. m \<in> set (sent c') \<Longrightarrow> m \<in> set (sent (ch_channels st ! se_chan s)) \<or> room_text print (se_room s) m"
    and "se_chan s' = se_chan s" "se_rx s' = se_rx s"
    and "session_ok (set_session i s' (st\<lparr>ch_channels := (ch_channels st)[se_chan s := c']\<rparr>)) s'"
  shows "chat_inv print (set_session i s' (st\<lparr>ch_channels := (ch_channels st)[se_chan s := c']\<rparr>))"
proof -
  let ?st = "set_session i s' (st\<lparr>ch_channels := (ch_channels st)[se_chan s := c']\<rparr>)"
  note s = inv_session [OF assms(1-3)]
  have room: "ch_rooms st (se_room s) = Some (se_chan s)" using s(1) by (simp add: session_ok_def)
  have apart: "apart_receivers (ch_sessions st)" and oks: "list_all (session_ok st) (ch_sessions st)"
    using assms(1) by (simp_all add: chat_inv_def)
  have "session_ok ?st (ch_sessions st ! j)" if "j < length (ch_sessions st)" "j \<noteq> i" for j
  proof (rule session_ok_evolves [OF _ _ s(2) _ assms(5)])
    show "session_ok st (ch_sessions st ! j)" using oks that(1) by (simp add: list_all_length)
    show "se_rx (ch_sessions st ! j) \<noteq> se_rx s"
      if "se_phase (ch_sessions st ! j) \<noteq> Gone" "se_chan (ch_sessions st ! j) = se_chan s"
      using apart \<open>j < _\<close> \<open>j \<noteq> i\<close> assms(2,3,4) that unfolding apart_receivers_def by blast
  qed (simp_all add: set_session_def)
  with assms(2,9) have "list_all (session_ok ?st) (ch_sessions ?st)"
    by (auto simp: list_all_length set_session_def nth_list_update)
  moreover have "apart_receivers (ch_sessions ?st)"
    using apart assms(2,3,4,7,8) by (auto simp: apart_receivers_def set_session_def nth_list_update)
  moreover have "(\<forall>r a. ch_rooms ?st r = Some a \<longrightarrow> a < length (ch_channels ?st)
      \<and> (\<forall>r'. ch_rooms ?st r' = Some a \<longrightarrow> r' = r) \<and> (\<forall>m \<in> set (sent (ch_channels ?st ! a)). room_text print r m))"
  proof (intro allI impI)
    fix r a
    assume ra: "ch_rooms ?st r = Some a"
    then have old: "ch_rooms st r = Some a" by (simp add: set_session_def)
    with assms(1) have ok: "a < length (ch_channels st)" "\<forall>r'. ch_rooms st r' = Some a \<longrightarrow> r' = r"
        "\<forall>m \<in> set (sent (ch_channels st ! a)). room_text print r m"
      by (simp_all add: chat_inv_def)
    have "a = se_chan s \<Longrightarrow> r = se_room s" using ok(2) room by auto
    with ok assms(6) show "a < length (ch_channels ?st) \<and> (\<forall>r'. ch_rooms ?st r' = Some a \<longrightarrow> r' = r)
        \<and> (\<forall>m \<in> set (sent (ch_channels ?st ! a)). room_text print r m)"
      by (cases "a = se_chan s") (auto simp: set_session_def)
  qed
  ultimately show ?thesis by (simp add: chat_inv_def)
qed

end

subsection \<open>Every step keeps the invariant\<close>

context broadcast
begin

lemma channels_same: "st\<lparr>ch_channels := (ch_channels st)[a := ch_channels st ! a]\<rparr> = st"
  by simp

text \<open>A step that only sends, by a session that goes on.\<close>

lemma inv_send:
  assumes "chat_inv print st" "i < length (ch_sessions st)" "s = ch_sessions st ! i" "se_phase s \<noteq> Gone"
    and "room_text print (se_room s) m"
    and "se_room s' = se_room s" "se_chan s' = se_chan s" "se_rx s' = se_rx s" "se_heard s' = se_heard s"
  shows "chat_inv print (set_session i s' (send_room B m s st))"
proof -
  note s = inv_session [OF assms(1-3)]
  let ?c = "ch_channels st ! se_chan s"
  obtain ok c' where c': "bc_send B (ch_channels st ! se_chan s) m = (ok, c')" by (cases "bc_send B (ch_channels st ! se_chan s) m")
  note sent = send [OF c']
  have ev: "evolves (se_rx s) (ch_channels st ! se_chan s) c'" using sent by (auto simp: evolves_def)
  have mem: "se_rx s \<in> rxs (ch_channels st ! se_chan s)" using s(1) assms(4) by (simp add: session_ok_def)
  have "subseq (se_heard s) (take (pos c' (se_rx s)) (sent c'))"
  proof (rule subseq_take_prefix)
    show "prefix (sent (ch_channels st ! se_chan s)) (sent c')" using ev by (simp add: evolves_def)
    show "subseq (se_heard s) (take (pos c' (se_rx s)) (sent (ch_channels st ! se_chan s)))"
      using s(1) assms(4) sent mem by (simp add: session_ok_def)
  qed
  moreover have "subseq (se_heard s) (sent c')"
    by (rule subseq_prefix [of "sent (ch_channels st ! se_chan s)"])
       (use ev s(1) in \<open>simp_all add: evolves_def session_ok_def\<close>)
  ultimately have "session_ok (set_session i s' (st\<lparr>ch_channels := (ch_channels st)[se_chan s := c']\<rparr>)) s'"
    using s sent mem assms(6-9) by (simp add: session_ok_def set_session_def)
  moreover have "x \<in> set (sent ?c) \<or> room_text print (se_room s) x" if "x \<in> set (sent c')" for x
    using that sent assms(5) by (auto split: if_splits)
  ultimately show ?thesis using inv_update [OF assms(1-4) ev _ assms(7,8)] by (simp add: send_room_def c')
qed

text \<open>A step that touches no channel.\<close>

lemma inv_local:
  assumes "chat_inv print st" "i < length (ch_sessions st)" "s = ch_sessions st ! i" "se_phase s \<noteq> Gone"
    and "se_room s' = se_room s" "se_chan s' = se_chan s" "se_rx s' = se_rx s" "se_heard s' = se_heard s"
  shows "chat_inv print (set_session i s' st)"
proof -
  have "session_ok (set_session i s' (st\<lparr>ch_channels := (ch_channels st)[se_chan s := ch_channels st ! se_chan s]\<rparr>)) s'"
    using inv_session [OF assms(1-3)] assms(4-8) by (simp add: session_ok_def set_session_def)
  from inv_update [OF assms(1-4) evolves_refl _ assms(6,7) this] show ?thesis by simp
qed

lemma inv_client:
  assumes "chat_inv print st" "i < length (ch_sessions st)" "s = ch_sessions st ! i" "se_phase s = Running"
    and "client_branch B print r s st = (s', st')"
  shows "chat_inv print (set_session i s' st')"
proof -
  note local = inv_local [OF assms(1-3)] and sent = inv_send [OF assms(1-3)]
  have said: "room_text print (se_room s) (said_text print (se_room s) (se_user s) t)" for t
    by (auto simp: room_text_def)
  show ?thesis
    using assms(4,5) local sent [OF _ said]
    by (cases "(B, print, r, s, st)" rule: client_branch.cases)
       (auto simp: Let_def put_out_def split: if_splits)
qed

lemma inv_room:
  assumes "chat_inv print st" "i < length (ch_sessions st)" "s = ch_sessions st ! i" "se_phase s = Running"
    and "room_branch B ok s st = Some (s', st')"
  shows "chat_inv print (set_session i s' st')"
proof -
  note s = inv_session [OF assms(1-3)]
  let ?c = "ch_channels st ! se_chan s"
  obtain r c' where c': "bc_recv B ?c (se_rx s) = (r, c')" by (cases "bc_recv B ?c (se_rx s)")
  have live: "se_rx s \<in> rxs ?c" and heard: "subseq (se_heard s) (take (pos ?c (se_rx s)) (sent ?c))"
    using s(1) assms(4) by (simp_all add: session_ok_def)
  note got = recv [OF c' live]
  have ev: "evolves (se_rx s) ?c c'" using got by (auto simp: evolves_def)
  have ahead: "subseq (se_heard s) (take (pos c' (se_rx s)) (sent c'))"
    using heard got by (metis subseq_take_prefix prefix_order.refl subseq_order.trans list_emb_prefix take_is_prefix prefix_imp_subseq le_iff_add take_add)
  have new: "subseq (se_heard s @ [m]) (take (pos c' (se_rx s)) (sent c'))" if "r = Received m" for m
    using heard got that by (simp add: take_Suc_conv_app_nth)
  have st': "st' = st\<lparr>ch_channels := (ch_channels st)[se_chan s := c']\<rparr>"
    and s': "se_room s' = se_room s" "se_chan s' = se_chan s" "se_rx s' = se_rx s"
    and h': "se_heard s' = se_heard s \<or> (\<exists>m. r = Received m \<and> se_heard s' = se_heard s @ [m])"
    using assms(5) by (auto simp: room_branch_def c' put_out_def Let_def split: recv_result.splits if_splits)
  have "subseq (se_heard s') (take (pos c' (se_rx s)) (sent c'))" using h' ahead new by auto
  moreover from this have "subseq (se_heard s') (sent c')"
    by (metis subseq_order.trans prefix_imp_subseq take_is_prefix)
  ultimately have "session_ok (set_session i s' st') s'"
    using s s' got live by (simp add: session_ok_def set_session_def st')
  from inv_update [OF assms(1-3) _ ev _ s'(2,3) this [unfolded st']] got assms(4)
  show ?thesis by (simp add: st')
qed

lemma inv_finish:
  assumes "chat_inv print st" "i < length (ch_sessions st)" "s = ch_sessions st ! i" "se_phase s = Cleaned"
  shows "chat_inv print (set_session i (s\<lparr>se_phase := Gone\<rparr>) (drop_receiver B s st))"
proof -
  note s = inv_session [OF assms(1-3)]
  let ?c = "ch_channels st ! se_chan s"
  note dropped = drop_rx [of ?c "se_rx s"]
  have ev: "evolves (se_rx s) ?c (bc_drop B ?c (se_rx s))" using dropped by (auto simp: evolves_def)
  have "session_ok (set_session i (s\<lparr>se_phase := Gone\<rparr>) (drop_receiver B s st)) (s\<lparr>se_phase := Gone\<rparr>)"
    using s dropped by (simp add: session_ok_def set_session_def drop_receiver_def)
  from inv_update [OF assms(1-3) _ ev _ _ _ this [unfolded drop_receiver_def]] dropped assms(4)
  show ?thesis by (simp add: drop_receiver_def)
qed

text \<open>A session that cleans up still holds its receiver, so its room stays.\<close>

lemma cleanup_keeps:
  assumes "chat_inv print st" "i < length (ch_sessions st)" "s = ch_sessions st ! i" "se_phase s = Left"
  shows "rooms_cleanup B (se_room s) st = st"
  using inv_session(1) [OF assms(1-3)] assms(4) receiver_count [of "ch_channels st ! se_chan s"]
  by (auto simp: rooms_cleanup_def session_ok_def)

end

context broadcast
begin

lemma inv_arrive:
  assumes "chat_inv print st" "rooms_join B room st = (a, rx, st')"
  shows "chat_inv print (st'\<lparr>ch_sessions := ch_sessions st' @ [session_new room user a rx]\<rparr>)"
    and "ch_rooms st \<subseteq>\<^sub>m ch_rooms st'" "ch_sessions st' = ch_sessions st"
proof -
  define st1 where "st1 = (case ch_rooms st room of Some a \<Rightarrow> st
    | None \<Rightarrow> st\<lparr>ch_rooms := (ch_rooms st)(room \<mapsto> length (ch_channels st)),
        ch_channels := ch_channels st @ [bc_channel B CHANNEL_CAPACITY]\<rparr>)"
  have inv1: "chat_inv print st1"
  proof (cases "ch_rooms st room")
    case None
    have fresh: "ch_rooms st r \<noteq> Some (length (ch_channels st))" for r
      using assms(1) by (force simp: chat_inv_def)
    have "session_ok st1 x" if "session_ok st x" for x
      using that assms(1) None by (auto simp: st1_def session_ok_def chat_inv_def nth_append)
    then show ?thesis
      using assms(1) None fresh channel by (auto simp: st1_def chat_inv_def list_all_iff nth_append less_Suc_eq)
  qed (use assms(1) in \<open>simp add: st1_def\<close>)
  obtain c' where a: "ch_rooms st1 room = Some a" and sub: "bc_subscribe B (ch_channels st1 ! a) = (rx, c')"
    and st': "st' = st1\<lparr>ch_channels := (ch_channels st1)[a := c']\<rparr>"
    using assms(2) by (cases "ch_rooms st room") (auto simp: rooms_join_def st1_def split: prod.splits)
  note rx = subscribe [OF sub]
  have len: "a < length (ch_channels st1)" using inv1 a by (simp add: chat_inv_def)
  have ev: "evolves rx (ch_channels st1 ! a) c'" using rx by (auto simp: evolves_def)
  let ?new = "session_new room user a rx"
  let ?st = "st'\<lparr>ch_sessions := ch_sessions st' @ [?new]\<rparr>"
  have foreign: "se_rx x \<noteq> rx" if "x \<in> set (ch_sessions st1)" "se_phase x \<noteq> Gone" "se_chan x = a" for x
    using inv1 rx that by (auto simp: chat_inv_def list_all_iff session_ok_def)
  have "session_ok ?st x" if "x \<in> set (ch_sessions st1)" for x
    by (rule session_ok_evolves [OF _ _ len _ ev])
       (use inv1 that foreign in \<open>auto simp: st' chat_inv_def list_all_iff\<close>)
  moreover have "session_ok ?st ?new"
    using a rx len by (simp add: session_ok_def session_new_def st')
  moreover have "apart_receivers (ch_sessions st1 @ [?new])"
    using inv1 foreign by (auto simp: chat_inv_def apart_receivers_def session_new_def nth_append less_Suc_eq)
       (metis nth_mem)+
  ultimately show "chat_inv print ?st"
    using inv1 rx len by (auto simp: chat_inv_def st' list_all_iff nth_list_update)
  show "ch_rooms st \<subseteq>\<^sub>m ch_rooms st'" "ch_sessions st' = ch_sessions st"
    by (auto simp: st' st1_def map_le_def split: option.split)
qed

lemma branch_rooms:
  "client_branch B print r s st = (s', st') \<Longrightarrow> ch_rooms st' = ch_rooms st \<and> ch_sessions st' = ch_sessions st
     \<and> se_room s' = se_room s \<and> se_chan s' = se_chan s"
  "room_branch B ok s st = Some (s', st') \<Longrightarrow> ch_rooms st' = ch_rooms st \<and> ch_sessions st' = ch_sessions st
     \<and> se_room s' = se_room s \<and> se_chan s' = se_chan s"
  by (cases "(B, print, r, s, st)" rule: client_branch.cases)
     (auto simp: Let_def put_out_def send_room_def room_branch_def split: if_splits recv_result.splits prod.splits)

lemma chat_step_inv:
  assumes "chat_inv print st" "chat_step B print st st'"
  shows "chat_inv print st'"
  using assms(2)
proof cases
  case (arrive room a rx st1 millis name)
  then show ?thesis using inv_arrive(1) [OF assms(1)] by simp
next
  case (announce i s)
  then show ?thesis by (auto intro!: inv_send [OF assms(1)] simp: room_text_def)
next
  case (greet i s)
  then show ?thesis by (auto intro!: inv_local [OF assms(1)] simp: put_out_def)
next
  case (client i s r s' st1)
  then show ?thesis using inv_client [OF assms(1)] by blast
next
  case (room i s ok s' st1)
  then show ?thesis using inv_room [OF assms(1)] by blast
next
  case (depart i s)
  then show ?thesis by (auto intro!: inv_send [OF assms(1)] simp: room_text_def)
next
  case (cleanup i s)
  then show ?thesis using cleanup_keeps [OF assms(1)] by (auto intro!: inv_local [OF assms(1)])
next
  case (finish i s)
  then show ?thesis using inv_finish [OF assms(1)] by blast
qed

lemma chat_reach_inv: "chat_reach B print st \<Longrightarrow> chat_inv print st"
  by (induction rule: chat_reach.induct) (blast intro: chat_inv_start chat_step_inv)+

lemma chat_step_rooms:
  assumes "chat_inv print st" "chat_step B print st st'"
  shows "ch_rooms st \<subseteq>\<^sub>m ch_rooms st'"
  using assms(2)
proof cases
  case (arrive room a rx st1 millis name)
  then show ?thesis using inv_arrive(2) [OF assms(1)] by simp
next
  case (cleanup i s)
  then show ?thesis using cleanup_keeps [OF assms(1)] by (simp add: set_session_def)
qed (auto simp: set_session_def send_room_def drop_receiver_def dest!: branch_rooms)

end

subsection \<open>Handlers\<close>

text \<open>The handlers see the rooms, and spawn a session with its room and user name for every upgrade.\<close>

record ('ch, 'u, 'd) chat_world =
  cw_chat :: "'ch chat"
  cw_tasks :: "(('u, 'd) ws_task \<times> string \<times> string) list"

text \<open>The names in the map, in its order, then the default rooms that are not among them; sorted by bytes.\<close>

definition rooms_list :: "string list \<Rightarrow> string list" where
  "rooms_list keys =
     sort (fold (\<lambda>r rooms. if r \<in> set rooms then rooms else rooms @ [r]) [''general'', ''rust'', ''random''] keys)"

definition rooms_handler ::
  "'h http_lib \<Rightarrow> (json_value \<Rightarrow> string option) \<Rightarrow> ((string \<rightharpoonup> nat) \<Rightarrow> string list)
   \<Rightarrow> ('h, ('ch, 'u, 'd) chat_world, unit) handler" where
  "rooms_handler H ser keys_of req st w =
     (Done (json_into_response H ser (JArr (map json_value.JStr (rooms_list (keys_of (ch_rooms (cw_chat w))))))), w)"

definition index_handler :: "'h http_lib \<Rightarrow> string \<Rightarrow> ('h, ('ch, 'u, 'd) chat_world, unit) handler" where
  "index_handler H html req st = handler0_call (\<lambda>w. (Done (html_into_response H html), w)) st req"

datatype chat_arg = ArgRoom string | ArgState | ArgParams "string \<rightharpoonup> string"

fun room_visitor :: "unit visit \<Rightarrow> string + string" where
  "room_visitor (VisitStr s) = Inr s"
| "room_visitor (VisitChar s) = Inr s"
| "room_visitor _ = Inl ''invalid type''"

definition arg_room :: "'h http_lib \<Rightarrow> ('h, unit, 'w, 'h response, chat_arg) parts_extractor" where
  "arg_room H p st w =
     (map_sum (path_rejection_response H) ArgRoom (path_extract (\<lambda>_ _. None) HString room_visitor p), p, w)"

definition arg_rooms :: "('h, unit, 'w, 'h response, chat_arg) parts_extractor" where
  "arg_rooms p st w = (Inr ArgState, p, w)"

definition arg_params ::
  "'h http_lib \<Rightarrow> (string \<Rightarrow> string + (string \<rightharpoonup> string)) \<Rightarrow> ('h, unit, 'w, 'h response, chat_arg) parts_extractor" where
  "arg_params H from_str p st w = (map_sum (query_rejection_response H) ArgParams (query_extract from_str p), p, w)"

definition spawn_session ::
  "'h http_lib \<Rightarrow> 'd \<Rightarrow> 'u ws_upgrade \<Rightarrow> string \<Rightarrow> string \<Rightarrow> ('ch, 'u, 'd) chat_world
   \<Rightarrow> 'h outcome \<times> ('ch, 'u, 'd) chat_world" where
  "spawn_session H d ws room user w =
     (let (out, task) = on_upgrade H d (wu_protocols [''chat''] ws)
      in (out, w\<lparr>cw_tasks := cw_tasks w @ [(task, room, user)]\<rparr>))"

definition ws_default_handler ::
  "'h http_lib \<Rightarrow> 'd \<Rightarrow> (string \<Rightarrow> string) \<Rightarrow> (string \<Rightarrow> string) \<Rightarrow> ('h request \<Rightarrow> 'u)
   \<Rightarrow> (string \<Rightarrow> string + (string \<rightharpoonup> string)) \<Rightarrow> (string \<Rightarrow> bool) \<Rightarrow> ('h, ('ch, 'u, 'd) chat_world, unit) handler" where
  "ws_default_handler H d sha base64 upgrade_on from_str alnum req st = handler_call [arg_rooms, arg_params H from_str]
     (\<lambda>req st w. (map_sum (ws_rejection_response H) id (ws_from_request H sha base64 upgrade_on req), w))
     (\<lambda>args ws w. case args of
        [ArgState, ArgParams params] \<Rightarrow>
          spawn_session H d ws DEFAULT_ROOM
            (sanitize_username alnum (case params ''name'' of Some n \<Rightarrow> n | None \<Rightarrow> [])) w
      | _ \<Rightarrow> (Panicked ''unreachable'', w)) st req"

definition ws_room_handler ::
  "'h http_lib \<Rightarrow> 'd \<Rightarrow> (string \<Rightarrow> string) \<Rightarrow> (string \<Rightarrow> string) \<Rightarrow> ('h request \<Rightarrow> 'u)
   \<Rightarrow> (string \<Rightarrow> string + (string \<rightharpoonup> string)) \<Rightarrow> (string \<Rightarrow> bool) \<Rightarrow> ('h, ('ch, 'u, 'd) chat_world, unit) handler" where
  "ws_room_handler H d sha base64 upgrade_on from_str alnum req st =
     handler_call [arg_room H, arg_rooms, arg_params H from_str]
     (\<lambda>req st w. (map_sum (ws_rejection_response H) id (ws_from_request H sha base64 upgrade_on req), w))
     (\<lambda>args ws w. case args of
        [ArgRoom room, ArgState, ArgParams params] \<Rightarrow>
          spawn_session H d ws (sanitize_room alnum room)
            (sanitize_username alnum (case params ''name'' of Some n \<Rightarrow> n | None \<Rightarrow> [])) w
      | _ \<Rightarrow> (Panicked ''unreachable'', w)) st req"

definition chat_app ::
  "'t trie_lib \<Rightarrow> ('h, 'w, unit) handler \<Rightarrow> ('h, 'w, unit) handler \<Rightarrow> ('h, 'w, unit) handler \<Rightarrow> ('h, 'w, unit) handler
   \<Rightarrow> ('t, 'h, 'w, unit) router option" where
  "chat_app T index rooms ws_default ws_room =
     map_option (\<lambda>r. router_with_state r ())
       (Option.bind (router_route T (router_new T) ''/'' (mr_get mr_new index)) (\<lambda>r.
        Option.bind (router_route T r ''/rooms'' (mr_get mr_new rooms)) (\<lambda>r.
        Option.bind (router_route T r ''/ws'' (mr_get mr_new ws_default)) (\<lambda>r.
        router_route T r ''/ws/room/{room}'' (mr_get mr_new ws_room)))))"

subsection \<open>A channel as a list\<close>

record list_channel =
  lc_capacity :: nat
  lc_log :: "string list"
  lc_rx :: "(nat \<times> nat) list"

definition lc_pos :: "list_channel \<Rightarrow> nat \<Rightarrow> nat" where
  "lc_pos c i = (case map_of (lc_rx c) i of Some p \<Rightarrow> p | None \<Rightarrow> 0)"

definition lc_ids :: "list_channel \<Rightarrow> nat set" where
  "lc_ids c = fst ` set (lc_rx c)"

definition lc_fresh :: "list_channel \<Rightarrow> nat" where
  "lc_fresh c = Suc (foldr max (map fst (lc_rx c)) 0)"

definition lc_seek :: "nat \<Rightarrow> nat \<Rightarrow> list_channel \<Rightarrow> list_channel" where
  "lc_seek i p c = c\<lparr>lc_rx := map (\<lambda>(j, q). (j, if j = i then p else q)) (lc_rx c)\<rparr>"

definition list_broadcast :: "list_channel broadcast_lib" where
  "list_broadcast = \<lparr>
     bc_channel = (\<lambda>n. \<lparr>lc_capacity = n, lc_log = [], lc_rx = []\<rparr>),
     bc_subscribe = (\<lambda>c. (lc_fresh c, c\<lparr>lc_rx := (lc_fresh c, length (lc_log c)) # lc_rx c\<rparr>)),
     bc_send = (\<lambda>c m. if lc_rx c = [] then (False, c) else (True, c\<lparr>lc_log := lc_log c @ [m]\<rparr>)),
     bc_recv = (\<lambda>c i. let p = lc_pos c i; n = length (lc_log c) in
        if p + lc_capacity c < n then (Lagged (n - lc_capacity c - p), lc_seek i (n - lc_capacity c) c)
        else if p < n then (Received (lc_log c ! p), lc_seek i (Suc p) c) else (NoMessage, c)),
     bc_drop = (\<lambda>c i. c\<lparr>lc_rx := filter (\<lambda>(j, _). j \<noteq> i) (lc_rx c)\<rparr>),
     bc_receiver_count = (\<lambda>c. length (lc_rx c))\<rparr>"

lemma foldr_max: "x \<in> set xs \<Longrightarrow> x \<le> foldr max xs (0 :: nat)"
  by (induction xs) (auto simp: le_max_iff_disj)

lemma lc_fresh_new: "lc_fresh c \<notin> lc_ids c"
  using foldr_max [of "lc_fresh c" "map fst (lc_rx c)"] by (auto simp: lc_fresh_def lc_ids_def)

lemma seek_map_of: "map_of (map (\<lambda>(j, q). (j, if j = i then p else q)) ps) k
    = (if k = i then map_option (\<lambda>_. p) (map_of ps k) else map_of ps k)"
  by (induction ps) auto

lemma seek_props:
  "lc_ids (lc_seek i p c) = lc_ids c" "lc_log (lc_seek i p c) = lc_log c"
  "j \<noteq> i \<Longrightarrow> lc_pos (lc_seek i p c) j = lc_pos c j" "i \<in> lc_ids c \<Longrightarrow> lc_pos (lc_seek i p c) i = p"
proof -
  show "i \<in> lc_ids c \<Longrightarrow> lc_pos (lc_seek i p c) i = p"
    using map_of_eq_None_iff [of "lc_rx c" i] by (auto simp: lc_seek_def lc_pos_def lc_ids_def seek_map_of split: option.split)
qed (force simp: lc_seek_def lc_pos_def lc_ids_def seek_map_of image_image)+

interpretation lists: broadcast list_broadcast lc_ids lc_log lc_pos
proof unfold_locales
  fix c c' :: list_channel and i :: nat and r
  have other: "map_of (filter (\<lambda>(j, _). j \<noteq> i) ps) k = map_of ps k" if "k \<noteq> i" for ps :: "(nat \<times> nat) list" and k
    using that by (induction ps) auto
  show "lc_ids (bc_drop list_broadcast c i) = lc_ids c - {i}
      \<and> lc_log (bc_drop list_broadcast c i) = lc_log c
      \<and> (\<forall>j \<in> lc_ids c - {i}. lc_pos (bc_drop list_broadcast c i) j = lc_pos c j)"
    by (auto simp: list_broadcast_def lc_pos_def lc_ids_def other)
  assume "bc_recv list_broadcast c i = (r, c')" "i \<in> lc_ids c"
  then show "lc_ids c' = lc_ids c \<and> lc_log c' = lc_log c \<and> lc_pos c i \<le> lc_pos c' i
      \<and> (\<forall>j \<in> lc_ids c - {i}. lc_pos c' j = lc_pos c j)
      \<and> (\<forall>m. r = Received m \<longrightarrow> lc_pos c i < length (lc_log c) \<and> m = lc_log c ! lc_pos c i \<and> lc_pos c' i = Suc (lc_pos c i))"
    by (auto simp: list_broadcast_def Let_def seek_props split: if_splits) (metis seek_props(3))+
next
  fix c c' :: list_channel and i
  assume "bc_subscribe list_broadcast c = (i, c')"
  then show "i \<notin> lc_ids c \<and> lc_ids c' = insert i (lc_ids c) \<and> lc_log c' = lc_log c
      \<and> (\<forall>j \<in> lc_ids c. lc_pos c' j = lc_pos c j)"
    using lc_fresh_new [of c] by (auto simp: list_broadcast_def lc_pos_def lc_ids_def) (metis fst_conv image_eqI)
qed (auto simp: list_broadcast_def lc_pos_def lc_ids_def split: if_splits)

lemmas list_channels = lists.broadcast_axioms

subsection \<open>Well-formed characters\<close>

definition whole_char :: "string \<Rightarrow> bool" where
  "whole_char c \<longleftrightarrow> c \<noteq> [] \<and> length c = utf8_width (hd c)"

lemma utf8_width_pos: "0 < utf8_width c"
  by (simp add: utf8_width_def Let_def)

lemma utf8_chars_concat: "list_all whole_char cs \<Longrightarrow> utf8_chars (concat cs) = cs"
proof (induction cs)
  case (Cons c cs)
  then obtain b r where c: "c = b # r" "length r = utf8_width b - 1"
    using utf8_width_pos by (cases c) (auto simp: whole_char_def)
  with Cons show ?case by simp
qed simp

lemma byte_widths:
  "byte_in 0x00 0x7F a \<Longrightarrow> utf8_width a = 1" "byte_in 0xC2 0xDF a \<Longrightarrow> utf8_width a = 2"
  "byte_in 0xE0 0xEF a \<Longrightarrow> utf8_width a = 3" "byte_in 0xF0 0xF4 a \<Longrightarrow> utf8_width a = 4"
  by (simp_all add: byte_in_def utf8_width_def Let_def)

lemma utf8_chars_whole: "utf8_valid s \<Longrightarrow> list_all whole_char (utf8_chars s)"
proof (induction s rule: utf8_valid.induct)
  case (2 a s)
  then show ?case
    using byte_widths [of a]
    by (auto simp: whole_char_def split: if_splits list.splits)
qed simp

lemma lower_char: "list_all whole_char cs \<Longrightarrow> list_all whole_char (map char_to_ascii_lowercase cs)"
proof -
  have "whole_char (char_to_ascii_lowercase c)" if "whole_char c" for c
    using that by (auto simp: whole_char_def char_to_ascii_lowercase_def utf8_width_def ascii_lower_def Let_def
        split: list.splits if_splits)
  then show "list_all whole_char cs \<Longrightarrow> list_all whole_char (map char_to_ascii_lowercase cs)"
    by (auto simp: list_all_iff)
qed

lemma ascii_lower_byte:
  "(of_char (ascii_lower b) :: nat) = (if byte_in 0x41 0x5A b then of_char b + 32 else of_char b)"
  by (simp add: ascii_lower_def byte_in_def Let_def)

lemma ascii_lower_alnum: "is_alphanumeric alnum c \<Longrightarrow> is_alphanumeric alnum (char_to_ascii_lowercase c)"
  by (auto simp: is_alphanumeric_def char_to_ascii_lowercase_def byte_in_def ascii_lower_byte split: list.splits)

lemma ascii_lower_idem: "ascii_lower (ascii_lower b) = ascii_lower b"
proof -
  have "(of_char (ascii_lower (ascii_lower b)) :: nat) = of_char (ascii_lower b)"
    by (auto simp: ascii_lower_byte byte_in_def)
  then show ?thesis by (metis char_of_char)
qed

lemma lower_idem: "char_to_ascii_lowercase (char_to_ascii_lowercase c) = char_to_ascii_lowercase c"
  by (auto simp: char_to_ascii_lowercase_def ascii_lower_idem split: list.split)

lemma whole_filter: "list_all whole_char cs \<Longrightarrow> list_all whole_char (filter P cs)"
  by (auto simp: list_all_iff)

lemma whole_take: "list_all whole_char cs \<Longrightarrow> list_all whole_char (take n cs)"
  by (auto simp: list_all_iff dest: in_set_takeD)

lemma set_subseq: "subseq xs ys \<Longrightarrow> set xs \<subseteq> set ys"
  by (induction rule: list_emb.induct) auto

lemma rooms_list_keys: "set (rooms_list keys) = set keys \<union> {''general'', ''rust'', ''random''}"
  by (auto simp: rooms_list_def)

subsection \<open>A session from its start to its end\<close>

definition plain_print :: "json_value \<Rightarrow> string" where
  "plain_print v = (case v of JObj fs \<Rightarrow> concat (map (\<lambda>(k, x). case x of json_value.JStr s \<Rightarrow> s | _ \<Rightarrow> k) fs) | _ \<Rightarrow> [])"

lemma chat_go: "chat_reach B print st \<Longrightarrow> chat_step B print st st' \<Longrightarrow> st' = st'' \<Longrightarrow> chat_reach B print st''"
  using chat_reach.step by blast

definition demo_session :: "session_phase \<Rightarrow> string list \<Rightarrow> message list \<Rightarrow> session" where
  "demo_session ph heard out = \<lparr>se_room = ''lobby'', se_user = ''ann'', se_chan = 0, se_rx = 1, se_phase = ph,
     se_heard = heard, se_out = out\<rparr>"

definition demo_chat :: "list_channel \<Rightarrow> session \<Rightarrow> list_channel chat" where
  "demo_chat c s = \<lparr>ch_rooms = [''lobby'' \<mapsto> 0], ch_channels = [c], ch_sessions = [s]\<rparr>"

lemmas demo_defs = demo_session_def demo_chat_def set_session_def send_room_def put_out_def list_broadcast_def
  lc_fresh_def lc_pos_def lc_seek_def chat_start_def rooms_join_def rooms_cleanup_def session_new_def user_id_of_def
  drop_receiver_def CHANNEL_CAPACITY_def room_branch_def

lemma demo_run:
  "\<exists>joined out c. chat_reach list_broadcast plain_print (demo_chat c (demo_session Running [joined] out))
     \<and> lc_log c = [joined]"
  "\<exists>heard out c. chat_reach list_broadcast plain_print (demo_chat c (demo_session Gone heard out))"
proof -
  let ?R = "chat_reach list_broadcast plain_print"
  let ?c = "\<lambda>log p. \<lparr>lc_capacity = 64, lc_log = log, lc_rx = [(1, p)]\<rparr>"
  let ?j = "join_text plain_print ''lobby'' ''ann''" and ?l = "leave_text plain_print ''lobby'' ''ann''"
  let ?w = "Text (welcome_text plain_print ''lobby'' ''ann'')"
  have 1: "?R (demo_chat (?c [] 0) (demo_session Joined [] []))"
    by (rule chat_go [OF chat_reach.start chat_step.arrive [where room = "''lobby''" and name = "''ann''"]])
       (simp add: demo_defs, simp add: demo_defs)
  have 2: "?R (demo_chat (?c [?j] 0) (demo_session Announced [] []))"
    by (rule chat_go [OF 1 chat_step.announce [where i = 0, OF _ refl]]) (simp add: demo_defs)+
  have 3: "?R (demo_chat (?c [?j] 0) (demo_session Running [] [?w]))"
    by (rule chat_go [OF 2 chat_step.greet [where i = 0, OF _ refl]]) (simp add: demo_defs)+
  have 4: "?R (demo_chat (?c [?j] 1) (demo_session Running [?j] [?w, Text ?j]))"
    by (rule chat_go [OF 3 chat_step.room [where i = 0 and ok = True, OF _ refl]]) (simp add: demo_defs)+
  then show "\<exists>joined out c. ?R (demo_chat c (demo_session Running [joined] out)) \<and> lc_log c = [joined]" by force
  have 5: "?R (demo_chat (?c [?j] 1) (demo_session Leaving [?j] [?w, Text ?j]))"
    by (rule chat_go [OF 4 chat_step.client [where i = 0 and r = None, OF _ refl]]) (simp add: demo_defs)+
  have 6: "?R (demo_chat (?c [?j, ?l] 1) (demo_session Left [?j] [?w, Text ?j]))"
    by (rule chat_go [OF 5 chat_step.depart [where i = 0, OF _ refl]]) (simp add: demo_defs)+
  have 7: "?R (demo_chat (?c [?j, ?l] 1) (demo_session Cleaned [?j] [?w, Text ?j]))"
    by (rule chat_go [OF 6 chat_step.cleanup [where i = 0, OF _ refl]]) (simp add: demo_defs)+
  have 8: "?R (demo_chat ((?c [?j, ?l] 1)\<lparr>lc_rx := []\<rparr>) (demo_session Gone [?j] [?w, Text ?j]))"
    by (rule chat_go [OF 7 chat_step.finish [where i = 0, OF _ refl]]) (simp add: demo_defs)+
  then show "\<exists>heard out c. ?R (demo_chat c (demo_session Gone heard out))" by blast
qed

subsection \<open>Properties\<close>

text \<open>C11: Rooms are never closed.  In every reachable state of the chat server, however its sessions interleave, the room
  of every session there has ever been, ended or not, is still in the map under the same channel and in the answer of
  \<^verbatim>\<open>/rooms\<close>, and no step removes a room: a session that cleans up still holds its own receiver, so \<open>cleanup\<close> finds a
  receiver count of at least one, although the comments say that empty rooms are cleaned up.\<close>

theorem chat_rooms_never_closed:
  assumes "broadcast B rxs sent pos" "chat_reach B print st" "s \<in> set (ch_sessions st)" "set keys = dom (ch_rooms st)"
  shows "ch_rooms st (se_room s) = Some (se_chan s) \<and> se_room s \<in> set (rooms_list keys)
    \<and> (\<forall>st'. chat_step B print st st' \<longrightarrow> ch_rooms st \<subseteq>\<^sub>m ch_rooms st')"
proof -
  have inv: "broadcast.chat_inv rxs sent pos print st" by (rule broadcast.chat_reach_inv [OF assms(1,2)])
  then have "ch_rooms st (se_room s) = Some (se_chan s)"
    using assms(3) by (simp add: broadcast.chat_inv_def [OF assms(1)] broadcast.session_ok_def [OF assms(1)] list_all_iff)
  moreover from this have "se_room s \<in> set (rooms_list keys)" using assms(4) by (auto simp: rooms_list_keys)
  ultimately show ?thesis using broadcast.chat_step_rooms [OF assms(1) inv] by blast
qed

theorem chat_rooms_never_closed_witness:
  "\<exists>st s. chat_reach list_broadcast plain_print st \<and> ch_sessions st = [s] \<and> se_phase s = Gone \<and> ch_rooms st ''lobby'' = Some 0
     \<and> ''lobby'' \<in> set (rooms_list [''lobby''])"
proof -
  obtain heard out c where r: "chat_reach list_broadcast plain_print (demo_chat c (demo_session Gone heard out))"
    using demo_run(2) by blast
  have "demo_session Gone heard out \<in> set (ch_sessions (demo_chat c (demo_session Gone heard out)))"
    "set [''lobby''] = dom (ch_rooms (demo_chat c (demo_session Gone heard out)))"
    by (simp_all add: demo_chat_def)
  from chat_rooms_never_closed [OF list_channels r this] r show ?thesis
    by (intro exI [of _ "demo_chat c (demo_session Gone heard out)"] exI [of _ "demo_session Gone heard out"])
       (simp add: demo_chat_def demo_session_def)
qed



text \<open>Names of rooms and users are bounded and clean.  For every well-formed text, the room name made of it has at most
  32 characters, each alphanumeric or a hyphen and none an ASCII capital, and making a room name of it again changes
  nothing, so every spelling of a name leads to one room; the user name has at most 20 characters, each alphanumeric, a
  hyphen or an underscore.\<close>

theorem sanitized_names:
  assumes "utf8_valid name"
  shows "length (utf8_chars (sanitize_room alnum name)) \<le> 32
    \<and> list_all (\<lambda>c. (is_alphanumeric alnum c \<or> c = ''-'') \<and> char_to_ascii_lowercase c = c)
        (utf8_chars (sanitize_room alnum name))
    \<and> sanitize_room alnum (sanitize_room alnum name) = sanitize_room alnum name
    \<and> length (utf8_chars (sanitize_username alnum name)) \<le> 20
    \<and> list_all (\<lambda>c. is_alphanumeric alnum c \<or> c = ''-'' \<or> c = ''_'') (utf8_chars (sanitize_username alnum name))"
proof -
  let ?P = "\<lambda>c. is_alphanumeric alnum c \<or> c = ''-''" and ?Q = "\<lambda>c. is_alphanumeric alnum c \<or> c = ''-'' \<or> c = ''_''"
  let ?cs = "take 32 (map char_to_ascii_lowercase (filter ?P (utf8_chars name)))"
  define cs where "cs = ?cs"
  let ?us = "take 20 (filter ?Q (utf8_chars name))"
  have whole: "list_all whole_char (utf8_chars name)" by (rule utf8_chars_whole [OF assms])
  have cs: "utf8_chars (sanitize_room alnum name) = cs" and us: "utf8_chars (sanitize_username alnum name) = ?us"
    unfolding cs_def sanitize_room_def sanitize_username_def
    by (rule utf8_chars_concat; intro whole_take lower_char whole_filter whole)+
  have hyphen: "char_to_ascii_lowercase ''-'' = ''-''" by code_simp
  have ok: "list_all (\<lambda>c. ?P c \<and> char_to_ascii_lowercase c = c) cs"
    using ascii_lower_alnum hyphen by (auto simp: cs_def list_all_iff lower_idem dest!: in_set_takeD)
  have each: "?P c" "char_to_ascii_lowercase c = c" if "c \<in> set cs" for c
    using ok that unfolding list_all_iff by blast+
  have "filter ?P cs = cs" by (rule filter_True) (use each(1) in blast)
  moreover have "map char_to_ascii_lowercase cs = cs" by (rule map_idI) (rule each(2))
  moreover have "take 32 cs = cs" by (simp add: cs_def)
  ultimately have fixed: "take 32 (map char_to_ascii_lowercase (filter ?P cs)) = cs" by metis
  have "sanitize_room alnum (sanitize_room alnum name) = concat (take 32 (map char_to_ascii_lowercase (filter ?P cs)))"
    by (subst sanitize_room_def) (simp only: cs)
  also have "\<dots> = sanitize_room alnum name" unfolding fixed by (simp add: sanitize_room_def cs_def)
  finally have idem: "sanitize_room alnum (sanitize_room alnum name) = sanitize_room alnum name" .
  have users: "list_all ?Q ?us" by (auto simp: list_all_iff dest: in_set_takeD)
  have "length cs \<le> 32" by (simp add: cs_def)
  then show ?thesis unfolding cs us by (intro conjI ok idem users) simp_all
qed

theorem sanitized_names_witness:
  "sanitize_room (\<lambda>_. False) ''My Room-1!'' = ''myroom-1''
   \<and> sanitize_room (\<lambda>_. False) (sanitize_room (\<lambda>_. False) ''My Room-1!'') = ''myroom-1''"
proof -
  have "utf8_valid ''My Room-1!''" by code_simp
  moreover have "sanitize_room (\<lambda>_. False) ''My Room-1!'' = ''myroom-1''" by code_simp
  ultimately show ?thesis using sanitized_names [of "''My Room-1!''" "\<lambda>_. False"] by simp
qed

end
