(* ===== verification/Spec2Isabelle.thy ===== *)
theory Spec2Isabelle
  imports Router Rate_Limit Cors Auth_Csrf Sse Bodies Compression Static_Files Serve_Dir Cookies WebSockets
    Middleware Multipart Server Config Observe Otel Logging Tls Macros
    Test_Client Polling Rest_Api Chat
begin

text \<open>
  A model of Arvik, a Rust web framework, with the theorems that make its request path correct.

  The server (crate arvik-hyper, configured by arvik-config) accepts connections and hands each
  request to the service that \<^verbatim>\<open>Router::into_service\<close> built: the router's layers run around the match
  of the path, route layers around the dispatch on the method, per-path layers around the handler.
  A handler's arguments are extracted from the request (arvik-core, arvik-extract) and its result is
  converted into a response.  Middleware (arvik-middleware, arvik-observe), static files
  (arvik-static), event streams (arvik-sse) and WebSockets (arvik-ws) are services, layers, bodies and
  extractors that plug into that path.

  \<^bold>\<open>Conventions.\<close>  A service is a function from a request and the state of the outside world to an
  outcome and the new world (theory Http); a future is the function that runs it, since every
  modelled body awaits its calls in sequence, and readiness is immediate.  A handler is a service
  too, so that a theorem which returns the world unchanged says that no handler ran.  A panic is
  the outcome \<open>Panicked\<close>, or \<open>None\<close> for an operation of a builder.  A Rust string is the list of
  its UTF-8 bytes.  Crates outside the repository are parameters with documented laws: the http
  crate's header maps (locale \<open>header_map\<close>), the matchit trie (locale \<open>path_trie\<close>), the rebuilding
  of a URI (locale \<open>uri_lib\<close>), the codecs (locale \<open>body_codec\<close>), the cookie jar (locale \<open>cookie_jar\<close>),
  the WebSocket stream (locale \<open>draining\<close>), the store of temporary files (locale \<open>temp_store\<close>), the derived
  serde code of the configuration (locale \<open>config_serde\<close>), the identifiers and the process of OpenTelemetry (locales
  \<open>otel_ids\<close> and \<open>tracing_process\<close>), the test client's jar (locale \<open>client_jar\<close>),
  tokio's broadcast channel (locale \<open>broadcast\<close>), and as plain functions the base64
  codec, the cookie renderer, the percent decoder, HTTP dates, the hash of the rate limiter, the
  JSON, TOML and form parsers, sockets, the file system, hyper's connections and
  the parsers of IP addresses and of decimal numbers.  Every locale is interpreted on a concrete
  instance.

  \<^bold>\<open>Theories, in the order of their imports.\<close>
  \<^item> Prelude: the standard library the code calls (split, trim, decimal text, UTF-8) and lemmas.
  \<^item> Http: methods, URIs, requests, responses, bodies, header maps, and the framework's
    \<^verbatim>\<open>ResponseBuilder\<close> and \<^verbatim>\<open>Redirect\<close> (arvik-core/src/response.rs).
  \<^item> Method_Filter, Method_Router: sets of methods, registration, layers, the cache of layered
    handlers, dispatch with HEAD falling back to GET, 405 with Allow (arvik-core/src/method_filter.rs,
    arvik-router/src/layer.rs, method_router.rs).  \<open>mr_wf\<close> is the invariant, \<open>mr_dispatch\<close> the
    specification without cache.
  \<^item> Paths: percent-decoding of captured parameters, mount prefixes, mounted services
    (arvik-router/src/params.rs, service.rs and parts of router.rs).
  \<^item> Router: routes, nesting, merging, fallback, layers, dispatch, the served application and the
    compile-time conflict check (arvik-router/src/router.rs).  \<open>router_built\<close> are the routers the API
    can build, \<open>router_wf\<close> their invariant, \<open>router_dispatch\<close> and \<open>app_dispatch\<close> the specifications that
    the operations with their caches refine.
  \<^item> Rate_Limit: token buckets, shards, idle sweep, client keys (arvik-middleware/src/rate_limit.rs),
    with \<open>level\<close> as the abstract view of a store.
  \<^item> Cors and Auth_Csrf: cors.rs, auth.rs and csrf.rs of arvik-middleware/src.
  \<^item> Sse: event.rs, keep_alive.rs and sse.rs of arvik-sse/src, against a reference parser; \<open>intended_message\<close> is
    what a chain of builder calls means to a client.
  \<^item> Bodies: body.rs, stream_body.rs, body_limit.rs of arvik-core/src and the limiting layers of
    arvik-middleware/src/body_limit.rs.
  \<^item> Compression: arvik-core/src/accept.rs and arvik-middleware/src/compression.rs.
  \<^item> Static_Files: request paths, ranges, validators, listings and the embedded service of
    arvik-static/src/lib.rs; Serve_Dir: its services for directories and files of the file system.
  \<^item> Responses: into_response.rs, into_response_parts.rs and error.rs of arvik-core/src.
  \<^item> Handlers: extract.rs, handler.rs, request.rs and request_parts.rs of arvik-core/src; \<open>run_extractors\<close> is
    the order of extraction, \<open>extraction_trace\<close> its specification by position.  Rejections, Path_De, Extractors, Cookies and
    Multipart: the extractors of arvik-extract/src, Path_De being the serde deserializer behind \<^verbatim>\<open>Path\<close>, with
    \<open>params_call\<close> as the specification on the texts of the parameters.
  \<^item> Middleware: the smaller layers of arvik-middleware/src.
  \<^item> WebSockets: handshake, messages, socket and its halves (arvik-ws/src).
  \<^item> Server_Config and Server: config.rs, runtime.rs, graceful.rs, server.rs and serve.rs of arvik-hyper/src.  The
    accept loop and its connection tasks are a state machine (\<open>accept_event\<close>, \<open>srv_reach\<close>) with the invariant
    \<open>srv_inv\<close>.
  \<^item> Config: arvik-config/src/lib.rs, from files and environment to the server's configuration.
  \<^item> Observe, Otel and Logging: metrics.rs and health.rs, trace.rs, and logging.rs of arvik-observe/src.  Otel also holds
    the state of the process that both installers share: its subscriber, the published provider and the exporters
    that run.
  \<^item> Tls: arvik-tls/src/lib.rs.  The watcher of the certificate files is a step relation \<open>tls_watch_step\<close> of the
    file system, the event queue and the reloading task; \<open>fs_reports\<close> is what the file system promises to raise for a
    change, and the callback's own filter decides what it makes of it.
  \<^item> Macros: arvik-macros/src/lib.rs.  An expansion is the list of compile errors or what the generated code does: the
    assertions it makes the compiler check, or the calls on the router it stands for.
  \<^item> Test_Client: arvik-test/src/lib.rs.
  \<^item> Polling: the bodies of Bodies, Observe and Sse once more, as machines that answer polls; \<open>represents\<close> relates the
    levels, and the locale \<open>body_contract\<close> is what a reader may rely on.
  \<^item> Rest_Api: the application of src/examples/rest_api, its handlers, routes and twelve layers, composed from the
    definitions above; \<open>promises\<close> and \<open>passes_on\<close> are what its layers keep of each other.
  \<^item> Chat: the chat server of src/examples/websocket_chat as a step relation \<open>chat_step\<close> over all its sessions, with
    the invariant \<open>chat_inv\<close>.

  \<^bold>\<open>What the theorems show.\<close>  The optimised routers refine plain dispatch for every sequence of
  requests; nesting keeps routes reachable; a mounted service sees the stripped path and nothing
  else changed.  The guards (authorization, CSRF, CORS, rate and body limits) let exactly the
  intended requests through.  Transformations of bodies lose no data (compression, event streams,
  chunks, ranges; compression drops trailers).  The path a client asks for cannot leave the served tree, nor a name a
  listing, but index files and precompressed neighbours are opened unchecked; the
  file system is served as embedded files are.  Extraction runs in order and stops at the first
  rejection; what the path extractor gives is what the text of the parameter says in the type it was asked for.  The server never runs more
  connections than it may, under every interleaving of its tasks, its hooks balance and graceful
  shutdown returns.  A configuration holds what the environment says, then the last file, and one that
  passes validation is fit for the server.  Every request is counted once, every request has one safe
  identifier, and the values of sensitive headers are not logged.  Tracing and logging are installed together or
  not at all, and do not change an answer.  Watched certificates are eventually the active ones.  The static routes a macro
  collects answer once the router is built, and the test client sends what it was told to.  What awaiting a body gives is what the
  sequence of its frames gives, however often a poll is pending, and a body without end is refused.
  The demo application answers and accounts for every request, and changes nothing without a CSRF token; a chat client hears
  its own room, in order.
  Some theorems state behaviour that is not intended: route layers see the 405 of a path, a long
  window outlives its bucket, compression replaces Vary, embedded sets share cache entries, an index
  file that is a link leaves the served tree, repeated response headers are lost and with them the second
  cookie, a TLS connection is cut at the handshake timeout, served clients share one bucket of the rate
  limiter, a connection cancelled early is never reported as closed, a second installation of OpenTelemetry hides
  the first, a reload forgets the restriction to HTTP/2, handlers with raw identifiers make a macro panic, the demo's
  form cannot pass its own CSRF check from a browser, and the chat server never closes a room.

  \<^bold>\<open>Bounds.\<close>  All loops of the model are structural recursions or \<open>fun\<close> with a measure, except the
  receiving loop of a WebSocket and the reading of a polled body, which are \<open>partial_function\<close>s with theorems that
  they return: when the peer sends finitely many pings in a row, when the body ends, and, with a limit, when the body
  has delivered more than the limit.  There is no fuel.  The server's machine runs over explicit
  lists of events.  Lengths and range bounds of static files are 64-bit words with wrap-around, and the theorem
  on ranges shows that no subtraction wraps; method sets are 16-bit words.  Floating-point numbers of
  the rate limiter and of quality values are exact reals (with infinity and NaN where the code can
  meet them), and so a capacity is converted exactly.  Counters of bytes in bodies and of active connections are
  naturals; the invariant of the server shows that its counter is never decremented below zero.  The two critical
  sections of the rate limiter's store are one step, and a cancelled task is gone at once.

  \<^bold>\<open>Not modelled.\<close>  The crate roots only re-export.  Spans of tokens and the grammar of Rust types belong to the
  compiler and the syn crate, the frames of a WebSocket to the tungstenite crate.  The pinning and waking of
  futures is not modelled beyond what the theorems on polling need.  Log output outside the layers whose subject
  it is (Logging, Otel, Middleware) is an effect that no modelled code reads.  The other example programs only
  call the framework on fixed arguments.
\<close>

section \<open>Properties that span components\<close>

text \<open>C4: An application behind an authorization layer is guarded as a whole.  Whatever routes,
  nested routers, fallbacks and layers it was built from, a request without the expected
  credentials is answered 401 and nothing of the application runs, not even for an unknown path;
  a request with them is answered exactly as by the application without the guard.\<close>

theorem guarded_application:
  assumes "path_trie T routes names" and "router_built T with_pq r"
    and "header_map H" and "expected_authorization encode s = Some v"
  shows "if hm_get H (req_headers req) ''authorization'' = Some v \<and> list_all header_visible v
    then router_into_service H T (router_with_state (router_layer r (require_authorization_call H encode s)) st) req w
       = router_into_service H T (router_with_state r st) req w
    else \<exists>resp. router_into_service H T
        (router_with_state (router_layer r (require_authorization_call H encode s)) st) req w = (Done resp, w)
      \<and> res_status resp = 401"
proof -
  let ?g = "require_authorization_call H encode s"
  have built: "router_built T with_pq (router_layer r ?g)"
    by (rule router_built.layer [OF assms(2)])
  have "router_into_service H T (router_with_state (router_layer r ?g) st)
      = ?g (router_into_service H T (router_with_state r st))"
    unfolding path_trie.into_service_app [OF assms(1) path_trie.built_wf [OF assms(1) built]]
      path_trie.into_service_app [OF assms(1) path_trie.built_wf [OF assms(1,2)]]
    by (simp add: router_layer_def app_dispatch_layers apply_layers_def)
  then show ?thesis
    using is_authorized_iff [OF assms(3,4), of req]
      header_map.unauthorized_response_status [OF assms(3), of s]
    by (auto simp: require_authorization_call_def)
qed

theorem guarded_application_witness:
  "\<exists>resp. router_into_service alist_lib seg_trie
      (router_with_state (router_layer demo_app (require_authorization_call alist_lib id (Bearer ''t''))) ())
      (sample_request Get ''/users/7'' []) 0 = (Done resp, 0) \<and> res_status resp = 401"
proof -
  have "expected_authorization id (Bearer ''t'') = Some ''Bearer t''"
    by (simp add: expected_authorization_def)
  from guarded_application [OF seg_path_trie demo_app_built [of simple_with_pq] alist_header_map this,
      of "sample_request Get ''/users/7'' []" "()" 0]
  show ?thesis by (simp add: sample_request_def alist_sel)
qed

text \<open>C9: The limit an operator sets is the limit the server keeps.  When a configuration loads while the environment
  variable \<^verbatim>\<open>ARVIK_SERVER_MAX_CONNECTIONS\<close> (under the builder's prefix) is set, then whatever the files say, the
  variable is a positive decimal number, and a server that runs with the converted configuration never has more
  connection tasks than that, under any interleaving; while it accepts or drains its admission counter is their number.\<close>

theorem configured_connection_limit:
  assumes "build_inner derive_to_value derive_from_value W b = Inr c"
    and "(Some (env_prefix_of (bd_env_prefix b) @ ''SERVER_MAX_CONNECTIONS''), Some raw) \<in> set (io_env W)"
    and "\<And>r. (Some (env_prefix_of (bd_env_prefix b) @ ''SERVER_MAX_CONNECTIONS''), r) \<in> set (io_env W) \<Longrightarrow> r = Some raw"
    and "srv_reach kind fails (to_server_config c) addr st"
  shows "\<exists>n. parse_int U64 raw = Some n \<and> 0 < n \<and> int (length (ss_tasks st)) \<le> n
    \<and> (ss_phase st \<in> {Accepting, Draining} \<longrightarrow> ss_active st = length (ss_tasks st))"
proof -
  have table: "map_of env_table ''SERVER_MAX_CONNECTIONS'' = Some ([''server'', ''max_connections''], EnvNum U64 ''usize'')"
    by code_simp
  obtain n where n: "parse_int U64 raw = Some n"
      "get_path (derive_to_value c) [''server'', ''max_connections''] = Some (JNum n)"
    using derived.build_override [OF assms(1) table assms(2,3)]
    by (auto simp: parse_env_value_def split: option.splits)
  then obtain m where m: "cs_max_connections (ac_server c) = Some m" "uint m = n"
    by (auto simp: derive_to_value_def enc_server_section_def enc_opt_def enc_word_def split: option.splits)
  have "list_all fst (validation_checks c)"
    using build_valid [OF assms(1)] by (simp add: validate_def first_error_ok)
  then have "m \<noteq> 0"
    using m(1) by (auto simp: validation_checks_def Let_def validate_nonzero_def)
  then have "0 < n" using m(2) by (metis unat_pos_iff uint_nat of_nat_0_less_iff)
  have "srv_inv (to_server_config c) st" by (rule srv_reach_inv [OF assms(4)])
  then have "length (ss_tasks st) \<le> unat m" "ss_phase st \<in> {Accepting, Draining} \<longrightarrow> ss_active st = length (ss_tasks st)"
    using m(1) by (auto simp: srv_inv_def within_limit_def converted_fields)
  moreover from this m(2) have "int (length (ss_tasks st)) \<le> n" by (metis uint_nat zle_int)
  ultimately show ?thesis using n(1) \<open>0 < n\<close> by blast
qed

theorem configured_connection_limit_witness:
  "\<exists>c st n. build_inner derive_to_value derive_from_value
        (sample_config_io\<lparr>io_env := [(Some ''ARVIK_SERVER_MAX_CONNECTIONS'', Some ''1'')]\<rparr>)
        (bd_file ''etc/arvik.json'' config_builder_default) = Inr c
     \<and> accept_events PlainConn (\<lambda>_ _. None) (to_server_config c) (loopback 80)
         [WorkerSend (Inr (''a'', loopback 1)), WorkerSend (Inr (''b'', loopback 2)), Recv, TaskPoll 0, Recv]
         server_start = Some st
     \<and> parse_int U64 ''1'' = Some n \<and> int (length (ss_tasks st)) \<le> n"
proof -
  let ?W = "sample_config_io\<lparr>io_env := [(Some ''ARVIK_SERVER_MAX_CONNECTIONS'', Some ''1'')]\<rparr>"
  let ?b = "bd_file ''etc/arvik.json'' config_builder_default"
  let ?es = "[WorkerSend (Inr (''a'', loopback 1)), WorkerSend (Inr (''b'', loopback 2)), Recv, TaskPoll 0, Recv]"
  let ?c = "arvik_config_default\<lparr>ac_server := server_section_default\<lparr>cs_port := 3000, cs_max_connections := Some 1\<rparr>\<rparr>"
  have c: "build_inner derive_to_value derive_from_value ?W ?b = Inr ?c" by code_simp
  obtain st where run: "accept_events PlainConn (\<lambda>_ _. None) (to_server_config ?c) (loopback 80) ?es server_start = Some st"
    by (simp add: server_eval to_server_config_def config_setters opt_set_def arvik_config_default_def
        server_section_default_def http1_section_default_def http2_section_default_def)
  have pre: "env_prefix_of (bd_env_prefix ?b) @ ''SERVER_MAX_CONNECTIONS'' = ''ARVIK_SERVER_MAX_CONNECTIONS''" by code_simp
  have "\<exists>n. parse_int U64 ''1'' = Some n \<and> 0 < n \<and> int (length (ss_tasks st)) \<le> n
      \<and> (ss_phase st \<in> {Accepting, Draining} \<longrightarrow> ss_active st = length (ss_tasks st))"
    by (rule configured_connection_limit [OF c _ _ accept_events_reach [OF srv_reach.start run]]) (auto simp: pre)
  with c run show ?thesis by blast
qed

text \<open>Reading a limited body under a limit of its own, whatever its frames: the smaller limit counts, on the data
  before the first frame that is none.\<close>

definition leading_data :: "frame list \<Rightarrow> frame list" where
  "leading_data fs = takeWhile (\<lambda>f. \<exists>d. f = Data d) fs"

definition after_data :: "frame list \<Rightarrow> frame list" where
  "after_data fs = dropWhile (\<lambda>f. \<exists>d. f = Data d) fs"

lemma leading_data_simps [simp]:
  "leading_data [] = []" "leading_data (Data d # fs) = Data d # leading_data fs"
  "leading_data (Trailers # fs) = []" "leading_data (FrameErr e # fs) = []"
  "after_data [] = []" "after_data (Data d # fs) = after_data fs"
  "after_data (Trailers # fs) = Trailers # fs" "after_data (FrameErr e # fs) = FrameErr e # fs"
  by (simp_all add: leading_data_def after_data_def)

lemma limited_loop_reads:
  "c \<le> limit \<Longrightarrow> c \<le> own \<Longrightarrow>
    (if c + length (data_of (leading_data fs)) > min limit own
     then \<exists>e. limited_loop own c acc (limited_frames limit c fs) = Inl e \<and> is_payload_too_large e
     else limited_loop own c acc (limited_frames limit c fs) =
       (case after_data fs of
          Trailers # _ \<Rightarrow> Inl (ReadErr (OtherError ''unexpected body trailer''))
        | FrameErr e # _ \<Rightarrow> Inl (ReadErr e)
        | _ \<Rightarrow> Inr (concat acc @ data_of (leading_data fs))))"
proof (induction fs arbitrary: c acc)
  case (Cons fr fs)
  show ?case
  proof (cases fr)
    case (Data d)
    show ?thesis
    proof (cases "c + length d > min limit own")
      case True
      then show ?thesis using Data by (auto simp: is_payload_too_large_def)
    next
      case False
      then have "c + length d \<le> limit" "c + length d \<le> own" by simp_all
      with Cons.IH [of "c + length d" "acc @ [d]"] Data show ?thesis by (simp add: add.assoc cong: list.case_cong frame.case_cong)
    qed
  qed (use Cons.prems in \<open>auto simp: min_def\<close>)
qed (simp add: min_def)

lemma limited_body_read:
  "to_bytes_limited (limited_body limit b) own =
     (if \<exists>u > own. size_hint_upper b = Some u then Inl TooLarge
      else limited_loop own 0 [] (limited_frames limit 0 (frames_of b)))"
  by (auto simp: to_bytes_limited_def limited_body_def body_new_def split: option.split)

text \<open>C16: One limit from the layer to the handler.  Put a handler whose last argument is \<^verbatim>\<open>Json\<close> behind the limiting layer,
  and let its other extractors accept and leave a JSON content type; the body is any sequence of data, trailers and
  failing frames, with any size hint.  A request that declares more than the layer's
  limit is answered 413 before anything runs.  Of the others, one whose size hint is above the extractor's limit, or with
  more bytes than the layer or the extractor allows before the first frame that is no data, is answered 413 without the
  handler.  Within both limits, trailers, or a frame that fails, are answered 400 without the handler (413 if the failure is
  itself that the body is too large), and so are bytes that do not parse; and the handler gets
  the parsed value of exactly the bytes sent otherwise.\<close>

theorem limited_json_handler:
  fixes fs :: "string \<Rightarrow> string + 'v"
  assumes "header_map H" "run_extractors exs (fst (into_request_parts req)) st w = (Inr vs, p, w1)"
    and "json_content_type H pm (rp_headers p)"
  shows "let bs = data_of (leading_data (frames_of (req_body req)));
             own = resolve_limit (rp_ext p);
             json = (\<lambda>r (s :: 's) (v :: 'w). (map_sum (json_rejection_response H) id (json_extract H pm fs r), v));
             answer = request_body_limit_call H limit (handler_call exs json f st) req w
    in if \<exists>n > limit. declared_length H req = Some n
       then \<exists>resp. answer = (Done resp, w) \<and> res_status resp = 413
       else if (\<exists>u > own. size_hint_upper (req_body req) = Some u) \<or> length bs > min limit own
       then \<exists>resp. answer = (Done resp, w1) \<and> res_status resp = 413
       else (case after_data (frames_of (req_body req)) of
               Trailers # _ \<Rightarrow> \<exists>resp. answer = (Done resp, w1) \<and> res_status resp = 400
             | FrameErr e # _ \<Rightarrow> \<exists>resp. answer = (Done resp, w1) \<and> res_status resp = (if e = BodyTooLarge then 413 else 400)
             | _ \<Rightarrow> (case fs bs of
                 Inl _ \<Rightarrow> \<exists>resp. answer = (Done resp, w1) \<and> res_status resp = 400
               | Inr v \<Rightarrow> answer = f vs v w1))"
proof -
  let ?fs = "frames_of (req_body req)" and ?lim = "resolve_limit (rp_ext p)"
  let ?json = "\<lambda>r (s :: 's) (v :: 'w). (map_sum (json_rejection_response H) id (json_extract H pm fs r), v)"
  let ?body = "limited_body limit (req_body req)"
  have rej: "\<exists>resp. payload_too_large H limit = Done resp \<and> res_status resp = 413"
    by (simp add: payload_too_large_def rb_defs header_map.from_str [OF assms(1)] header_visible_def)
  have status: "res_status (json_rejection_response H e) = json_rejection_status e" for e
    by (simp add: json_rejection_response_def header_map.plain_text_status [OF assms(1)])
  have run: "handler_call exs ?json f st (req\<lparr>req_body := ?body\<rparr>) w =
      (case json_extract H pm fs (from_request_parts p ?body) of
         Inl e \<Rightarrow> (Done (json_rejection_response H e), w1) | Inr u \<Rightarrow> f vs u w1)"
    using assms(2) by (simp add: handler_call_def into_request_parts_def split: sum.split)
  note read = limited_body_read [of limit "req_body req" ?lim]
  note loop = limited_loop_reads [of 0 limit ?lim ?fs "[]"]
  show ?thesis
  proof (cases "\<exists>n > limit. declared_length H req = Some n")
    case True
    with rej show ?thesis by (auto simp: request_body_limit_call_def Let_def)
  next
    case False
    then have answer: "request_body_limit_call H limit (handler_call exs ?json f st) req w
        = handler_call exs ?json f st (req\<lparr>req_body := ?body\<rparr>) w"
      by (auto simp: request_body_limit_call_def Let_def split: option.split)
    show ?thesis
    proof (cases "(\<exists>u > ?lim. size_hint_upper (req_body req) = Some u) \<or> length (data_of (leading_data ?fs)) > min limit ?lim")
      case over: True
      then obtain e where e: "to_bytes_limited ?body ?lim = Inl e" "is_payload_too_large e"
        using loop read by (cases "\<exists>u > ?lim. size_hint_upper (req_body req) = Some u")
          (auto simp: is_payload_too_large_def split: if_splits)
      show ?thesis
        using False over assms(3) e unfolding Let_def answer run
        by (auto simp: json_extract_def from_request_parts_def status)
    next
      case within: False
      then have bytes: "to_bytes_limited ?body ?lim =
          (case after_data ?fs of
             Trailers # _ \<Rightarrow> Inl (ReadErr (OtherError ''unexpected body trailer''))
           | FrameErr e # _ \<Rightarrow> Inl (ReadErr e)
           | _ \<Rightarrow> Inr (data_of (leading_data ?fs)))"
        using loop read by (auto cong: list.case_cong frame.case_cong)
      show ?thesis
        using False within assms(3) unfolding Let_def answer run
        by (auto simp: json_extract_def from_request_parts_def status bytes is_payload_too_large_def
            split: list.split frame.split sum.split)
    qed
  qed
qed

text \<open>A posted JSON text, sent in two chunks without a declared length.\<close>

definition json_post :: "alist_headers request" where
  "json_post = (sample_request Post ''/'' [(''content-type'', ''application/json'')])
     \<lparr>req_body := BBoxed [Data ''12'', Data ''34''] None\<rparr>"

theorem limited_json_handler_witness:
  "\<exists>resp. request_body_limit_call alist_lib 3 (handler_call [] (\<lambda>r s v.
        (map_sum (json_rejection_response alist_lib) id (json_extract alist_lib (\<lambda>_. None) Inr r), v))
        (\<lambda>vs u w. (Done (sample_response 200 [] u), Suc w)) ()) json_post 0 = (Done resp, 0) \<and> res_status resp = 413"
proof -
  have run: "run_extractors [] (fst (into_request_parts json_post)) () (0 :: nat) = (Inr [], fst (into_request_parts json_post), 0)"
    by simp
  have ct: "json_content_type alist_lib (\<lambda>_. None) (rp_headers (fst (into_request_parts json_post)))"
    by (simp add: json_post_def json_content_type_def into_request_parts_def sample_request_def alist_sel
        header_visible_def eq_ignore_ascii_case_def)
  have undeclared: "\<not> (\<exists>n > 3. declared_length alist_lib json_post = Some n)"
    by (simp add: json_post_def declared_length_def sample_request_def alist_sel)
  have sent: "req_body json_post = BBoxed [Data ''12'', Data ''34''] None" by (simp add: json_post_def)
  show ?thesis
    using limited_json_handler [OF alist_header_map run ct, where limit = 3 and fs = Inr
        and f = "\<lambda>vs u w. (Done (sample_response 200 [] u), Suc w)"]
    by (simp add: sent undeclared Let_def min_less_iff_disj)
qed

text \<open>C5: From the test to the handler.  Let an invocation of \<open>collect_routes\<close> compile, with the helpers and constants its
  attributes generated, and let building an application from it return a router (it does when all listed paths are static,
  by C25; with conflicting parameters it panics).  Give it its state and call it with the test client, with a request made by the
  client's builder whose URI parses, whose jar and added cookies are visible header text and whose own cookie header, if it
  has one, is non-empty visible text.  If the path is the static path of a listed handler and the method one
  its attribute names, sending does not panic and the answer is exactly that handler's answer, which runs on the method, the URI, the body and
  the headers other than cookies as the test built them, with its path recorded as the matched one.\<close>

theorem tested_application_answers:
  assumes "path_trie T routes names" "collect_routes T helpers metas paths = Some build"
    and "\<And>p h m. p \<in> set paths \<Longrightarrow> route_paths p = IdentOk (h, m) \<Longrightarrow> metas m = map_option route_meta_const (helpers h)"
    and "router_routes (router_new T) build = Some r"
    and "header_map H" "tr_built H self" "parse_uri (tr_uri self) = Some u"
    and "\<forall>c \<in> set (cc_iter C (cc_new C)) \<union> set (tr_extra_cookies self). list_all header_visible (cookie_pair C c)"
    and "\<And>s. hm_get H (tr_headers self) ''cookie'' = Some s \<Longrightarrow> s \<noteq> [] \<and> list_all header_visible s"
    and "p \<in> set paths" "route_paths p = IdentOk (h, m)" "helpers h = Some f" "is_static (rf_path f)"
    and "uri_path u = rf_path f" "mf_matches (method_filter_ident (rf_method f)) (tr_method self)"
  shows "\<exists>req. req_method req = tr_method self \<and> req_uri req = u \<and> req_body req = tr_body self
    \<and> (\<forall>n. n \<noteq> ''cookie'' \<longrightarrow> hm_get_all H (req_headers req) n = hm_get_all H (tr_headers self) n)
    \<and> (case client_send C H parse_uri expired self (client_new H T C (router_with_state r st)) w of
         Some (out, _, w') \<Rightarrow> (out, w') = then_response (with_matched_path (rf_path f))
           (rf_handler f (annotated (rf_path f) [] req) st w)
       | None \<Rightarrow> False)"
proof (rule collected_application [of T routes names helpers metas paths build H, OF assms(1-3)])
  fix fs
  assume fs: "list_all2 (\<lambda>p f. \<exists>h m. route_paths p = IdentOk (h, m) \<and> helpers h = Some f) paths fs"
    and answer: "\<And>r f req st w. router_routes (router_new T) build = Some r \<Longrightarrow> f \<in> set fs \<Longrightarrow> is_static (rf_path f) \<Longrightarrow>
      uri_path (req_uri req) = rf_path f \<Longrightarrow> mf_matches (method_filter_ident (rf_method f)) (req_method req) \<Longrightarrow>
      router_into_service H T (router_with_state r st) req w =
        then_response (with_matched_path (rf_path f)) (rf_handler f (annotated (rf_path f) [] req) st w)"
  have "f \<in> set fs" using list_all2_members [OF fs] assms(10-12) by fastforce
  let ?client = "client_new H T C (router_with_state r st)"
  have client: "te_cookies ?client = cc_new C" "te_service ?client = router_into_service H T (router_with_state r st)"
    by (simp_all add: client_new_def client_from_service_def)
  from client_send_faithful [where parse_uri = parse_uri and self = self and client = ?client and C = C
      and expired = expired and w = w, OF assms(5-7)] assms(8,9) obtain req where
      req: "req_method req = tr_method self" "req_uri req = u" "req_body req = tr_body self"
        "\<And>n. n \<noteq> ''cookie'' \<Longrightarrow> hm_get_all H (req_headers req) n = hm_get_all H (tr_headers self) n"
      and sent: "case client_send C H parse_uri expired self ?client w of
         Some (out, _, w') \<Rightarrow> (out, w') = te_service ?client req w | None \<Rightarrow> False"
    unfolding client by (auto split: if_splits)
  have "te_service ?client req w =
      then_response (with_matched_path (rf_path f)) (rf_handler f (annotated (rf_path f) [] req) st w)"
    unfolding client by (rule answer [OF assms(4) \<open>f \<in> set fs\<close> assms(13)]) (simp_all add: req assms(14,15))
  from sent [unfolded this] req show ?thesis by (intro exI [of _ req]) simp
qed

theorem tested_application_answers_witness:
  "\<exists>r req. router_routes (router_new seg_trie) (run_helpers seg_trie [demo_route_fn]) = Some r
    \<and> (case client_send pair_client alist_lib (\<lambda>p. Some (sample_uri p)) (\<lambda>_. False) (client_get alist_lib ''/ping'')
           (client_new alist_lib seg_trie pair_client (router_with_state r ())) 0 of
         Some (out, _, w') \<Rightarrow> (out, w') = then_response (with_matched_path ''/ping'') (counting_service req 0)
       | None \<Rightarrow> False)"
proof -
  let ?self = "client_get alist_lib ''/ping'' :: (alist_headers, string \<times> string) test_request"
  have built: "tr_built alist_lib ?self" unfolding client_get_def by (rule tr_built.start)
  have plain: "tr_headers ?self = []" "tr_extra_cookies ?self = []" "tr_uri ?self = ''/ping''" "tr_method ?self = Get"
    by (simp_all add: client_get_def client_request_def alist_sel)
  have cookies: "\<forall>c \<in> set (cc_iter pair_client (cc_new pair_client)) \<union> set (tr_extra_cookies ?self).
      list_all header_visible (cookie_pair pair_client c)"
    by (simp add: pair_client_def plain)
  have none: "s \<noteq> [] \<and> list_all header_visible s" if "hm_get alist_lib (tr_headers ?self) ''cookie'' = Some s" for s
    using that by (simp add: plain alist_sel)
  have path: "uri_path (sample_uri (tr_uri ?self)) = rf_path demo_route_fn"
    "mf_matches (method_filter_ident (rf_method demo_route_fn)) (tr_method ?self)"
    by (simp_all add: plain demo_matches) (simp add: sample_uri_def demo_route_fn_def)
  have listed: "listed_path ''ping'' \<in> set [listed_path ''ping'']"
    "demo_helpers (listed_path ''__arvik_route_ping'') = Some demo_route_fn" by (simp_all add: demo_helpers_def)
  note tested = tested_application_answers [where parse_uri = "\<lambda>p. Some (sample_uri p)" and self = ?self
      and u = "sample_uri (tr_uri ?self)" and C = pair_client and T = seg_trie and routes = map_of
      and names = "\<lambda>p. seg_names (segs_of p)" and H = alist_lib and helpers = demo_helpers and metas = demo_metas
      and paths = "[listed_path ''ping'']" and f = demo_route_fn and h = "listed_path ''__arvik_route_ping''"
      and p = "listed_path ''ping''" and st = "()" and w = 0 and expired = "\<lambda>_. False"]
  have static: "is_static (rf_path demo_route_fn)" by (rule demo_declared(2) [OF listed(2)])
  have "\<exists>r. run_helpers seg_trie [demo_route_fn] (router_new seg_trie) = Some r \<and> path_trie.collected map_of ([] @ [demo_route_fn]) r"
    by (rule path_trie.run_helpers_collected [OF seg_path_trie path_trie.collected_new [OF seg_path_trie]])
       (use static demo_declared(3) in simp_all)
  then obtain r where r: "router_routes (router_new seg_trie) (run_helpers seg_trie [demo_route_fn]) = Some r"
    by (auto simp: router_routes_def)
  have "\<exists>req. req_method req = tr_method ?self \<and> req_uri req = sample_uri (tr_uri ?self) \<and> req_body req = tr_body ?self
    \<and> (\<forall>n. n \<noteq> ''cookie'' \<longrightarrow> hm_get_all alist_lib (req_headers req) n = hm_get_all alist_lib (tr_headers ?self) n)
    \<and> (case client_send pair_client alist_lib (\<lambda>p. Some (sample_uri p)) (\<lambda>_. False) ?self
           (client_new alist_lib seg_trie pair_client (router_with_state r ())) 0 of
         Some (out, _, w') \<Rightarrow> (out, w') = then_response (with_matched_path (rf_path demo_route_fn))
           (rf_handler demo_route_fn (annotated (rf_path demo_route_fn) [] req) () 0)
       | None \<Rightarrow> False)"
    by (rule tested [OF seg_path_trie demo_collected _ r alist_header_map built refl cookies _ listed(1) demo_paths
          listed(2) static path]) (rule demo_declared none; assumption)+
  moreover have "rf_path demo_route_fn = ''/ping''" "rf_handler demo_route_fn = (\<lambda>req st. counting_service req)"
    by (simp_all add: demo_route_fn_def)
  ultimately show ?thesis using r by (elim exE conjE) (auto simp only:)
qed

end
